(* ===== verification/EnergyPrelude.thy ===== *)
theory EnergyPrelude
  imports Complex_Main
begin

section \<open>Prelude: numbers, instants, errors, shared lemmas\<close>

text \<open>
  What every component of the model shares.
  \<^item> A Python \<open>float\<close> is a \<open>real\<close>: the arithmetic is exact, so IEEE rounding, infinities and
    NaN are outside the model. The tolerances the code adds (\<open>1e-6\<close>, \<open>1e-9\<close>) are kept.
  \<^item> An aware \<open>datetime\<close> is an \<open>instant\<close>, the number of microseconds since the epoch in UTC (the
    resolution of Python's \<open>datetime\<close>), and a \<open>timedelta\<close> is a number of microseconds. A
    \<open>ZoneInfo\<close> is a \<open>zone\<close>, the UTC offset in force at an instant; its table is tzdata, which the
    repository does not hold, so a zone is always an argument.
  \<^item> A raised exception is \<open>Inl\<close> of a \<open>py_error\<close>.
\<close>

named_theorems ems_simps \<open>evaluation rules of the helpers the components share\<close>

type_synonym instant = int
type_synonym duration = int
type_synonym zone = "instant \<Rightarrow> duration"

datatype py_error = ValueError | TypeError | AssertionError | DeviceError | ZeroDivisionError
  | AttributeError | CommandSuperseded

subsection \<open>Time\<close>

abbreviation us_second :: duration where "us_second \<equiv> 1000000"
abbreviation us_minute :: duration where "us_minute \<equiv> 60000000"
abbreviation us_hour :: duration where "us_hour \<equiv> 3600000000"
abbreviation us_day :: duration where "us_day \<equiv> 86400000000"

text \<open>\<open>SLOT = timedelta(minutes=15)\<close>, the quantum of prices, forecasts and plans.\<close>

abbreviation SLOT :: duration where "SLOT \<equiv> 900000000"

definition total_seconds :: "duration \<Rightarrow> real" where
  "total_seconds d = real_of_int d / 1000000"

text \<open>\<open>t.astimezone(tz).date()\<close> as the number of the local day, and the local clock.\<close>

definition local_date :: "zone \<Rightarrow> instant \<Rightarrow> int" where
  "local_date tz t = (t + tz t) div us_day"

definition local_hour :: "zone \<Rightarrow> instant \<Rightarrow> int" where
  "local_hour tz t = ((t + tz t) mod us_day) div us_hour"

definition local_minute :: "zone \<Rightarrow> instant \<Rightarrow> int" where
  "local_minute tz t = ((t + tz t) mod us_hour) div us_minute"

definition utc :: zone where
  "utc t = 0"

text \<open>The UTC quarter-hour that contains an instant.\<close>

definition quarter_floor :: "instant \<Rightarrow> instant" where
  "quarter_floor t = SLOT * (t div SLOT)"

lemma total_seconds_mono: "a \<le> b \<Longrightarrow> total_seconds a \<le> total_seconds b"
  by (simp add: total_seconds_def)

lemma total_seconds_le_iff [ems_simps]: "total_seconds a \<le> total_seconds b \<longleftrightarrow> a \<le> b"
  by (simp add: total_seconds_def)

lemma quarter_floor_le: "quarter_floor t \<le> t"
proof -
  have "SLOT * (t div SLOT) + t mod SLOT = t" by simp
  moreover have "0 \<le> t mod SLOT" by simp
  ultimately show ?thesis unfolding quarter_floor_def by linarith
qed

lemma quarter_floor_gt: "t < quarter_floor t + SLOT"
proof -
  have "SLOT * (t div SLOT) + t mod SLOT = t" by simp
  moreover have "t mod SLOT < SLOT" by simp
  ultimately show ?thesis unfolding quarter_floor_def by linarith
qed

lemma quarter_floor_aligned [simp]: "quarter_floor (SLOT * k) = SLOT * k"
  by (simp add: quarter_floor_def)

subsection \<open>Numbers\<close>

text \<open>The helper \<open>_clamp(x, lo, hi) = max(lo, min(hi, x))\<close> that several modules carry.\<close>

definition clamp :: "real \<Rightarrow> real \<Rightarrow> real \<Rightarrow> real" where
  "clamp x lo hi = max lo (min hi x)"

lemma clamp_lower: "lo \<le> clamp x lo hi"
  by (simp add: clamp_def)

lemma clamp_upper: "lo \<le> hi \<Longrightarrow> clamp x lo hi \<le> hi"
  by (simp add: clamp_def)

lemma clamp_id: "lo \<le> x \<Longrightarrow> x \<le> hi \<Longrightarrow> clamp x lo hi = x"
  by (simp add: clamp_def)

lemma clamp_mono: "x \<le> y \<Longrightarrow> clamp x lo hi \<le> clamp y lo hi"
  by (auto simp: clamp_def)

lemma clamp_idem [simp]: "lo \<le> hi \<Longrightarrow> clamp (clamp x lo hi) lo hi = clamp x lo hi"
  by (simp add: clamp_def)

lemma clamp_pos: "0 < lo \<Longrightarrow> 0 < clamp x lo hi"
  by (simp add: clamp_def)

lemmas clamp_bounds = clamp_lower clamp_upper

text \<open>Python's \<open>round(x)\<close> rounds halves to even; \<open>round(x, n)\<close> scales; \<open>int(x)\<close> truncates.\<close>

definition py_round0 :: "real \<Rightarrow> int" where
  "py_round0 x =
     (let f = \<lfloor>x\<rfloor>; d = x - of_int f
      in if d < 1/2 then f else if 1/2 < d then f + 1 else if even f then f else f + 1)"

definition py_round :: "real \<Rightarrow> nat \<Rightarrow> real" where
  "py_round x n = of_int (py_round0 (x * 10 ^ n)) / 10 ^ n"

definition py_int :: "real \<Rightarrow> int" where
  "py_int x = (if x < 0 then \<lceil>x\<rceil> else \<lfloor>x\<rfloor>)"

lemma py_round0_of_int [simp]: "py_round0 (of_int k) = k"
  by (simp add: py_round0_def Let_def)

lemma py_round0_error: "\<bar>of_int (py_round0 x) - x\<bar> \<le> 1/2"
proof -
  have f: "of_int \<lfloor>x\<rfloor> \<le> x" "x < of_int \<lfloor>x\<rfloor> + 1" by linarith+
  show ?thesis unfolding py_round0_def Let_def using f by (auto simp: abs_le_iff; linarith)
qed

lemma py_round0_mono:
  assumes "x \<le> y" shows "py_round0 x \<le> py_round0 y"
proof (cases "\<lfloor>x\<rfloor> = \<lfloor>y\<rfloor>")
  case True
  with assms show ?thesis by (auto simp: py_round0_def Let_def)
next
  case False
  with floor_mono [OF assms] have lt: "\<lfloor>x\<rfloor> + 1 \<le> \<lfloor>y\<rfloor>" by linarith
  have "py_round0 x \<le> \<lfloor>x\<rfloor> + 1" by (auto simp: py_round0_def Let_def)
  moreover have "\<lfloor>y\<rfloor> \<le> py_round0 y" by (auto simp: py_round0_def Let_def)
  ultimately show ?thesis using lt by linarith
qed

lemma py_int_le: "0 \<le> x \<Longrightarrow> of_int (py_int x) \<le> x"
  by (simp add: py_int_def)

lemma py_int_nonneg: "0 \<le> x \<Longrightarrow> 0 \<le> py_int x"
  by (simp add: py_int_def)

text \<open>
  The one-way efficiency \<open>math.sqrt(max(1e-6, min(1.0, rte)))\<close>, which the projection, the charge
  sizing and the cycle budget all compute.
\<close>

definition eta_of :: "real \<Rightarrow> real" where
  "eta_of rte = sqrt (max (1/1000000) (min 1 rte))"

lemma eta_of_pos [simp]: "0 < eta_of rte"
  by (simp add: eta_of_def)

lemma eta_of_nonneg [simp]: "0 \<le> eta_of rte"
  using eta_of_pos [of rte] by linarith

lemma eta_of_le_1 [simp]: "eta_of rte \<le> 1"
  by (simp add: eta_of_def)

lemma eta_of_nonzero [simp]: "eta_of rte \<noteq> 0"
  using eta_of_pos [of rte] by linarith

lemma eta_of_one [simp]: "eta_of 1 = 1"
  by (simp add: eta_of_def)

lemma eta_of_square: "0 \<le> e \<Longrightarrow> 1/1000 \<le> e \<Longrightarrow> e \<le> 1 \<Longrightarrow> eta_of (e * e) = e"
proof -
  assume a: "0 \<le> e" "1/1000 \<le> e" "e \<le> 1"
  have "(1/1000) * (1/1000) \<le> e * e" using a by (intro mult_mono) auto
  moreover have "e * e \<le> 1 * 1" using a by (intro mult_mono) auto
  ultimately have "max (1/1000000) (min 1 (e * e)) = e * e" by simp
  with a show ?thesis by (simp add: eta_of_def)
qed

subsection \<open>Options and results\<close>

text \<open>\<open>x if x is not None else d\<close>.\<close>

definition opt_else :: "'a option \<Rightarrow> 'a \<Rightarrow> 'a" where
  "opt_else x d = (case x of Some v \<Rightarrow> v | None \<Rightarrow> d)"

lemma opt_else_simps [simp]: "opt_else None d = d" "opt_else (Some v) d = v"
  by (simp_all add: opt_else_def)

text \<open>\<open>dict.get(key, default)\<close> on a map.\<close>

definition map_get :: "('k \<rightharpoonup> 'v) \<Rightarrow> 'k \<Rightarrow> 'v \<Rightarrow> 'v" where
  "map_get m k d = opt_else (m k) d"

lemma map_get_simps [simp]:
  "map_get Map.empty k d = d" "map_get (m(k \<mapsto> v)) k d = v"
  "k \<noteq> j \<Longrightarrow> map_get (m(k \<mapsto> v)) j d = map_get m j d"
  by (simp_all add: map_get_def)

definition bind_res :: "('e + 'a) \<Rightarrow> ('a \<Rightarrow> 'e + 'b) \<Rightarrow> 'e + 'b" where
  "bind_res r f = (case r of Inl e \<Rightarrow> Inl e | Inr a \<Rightarrow> f a)"

lemma bind_res_simps [simp]: "bind_res (Inl e) f = Inl e" "bind_res (Inr a) f = f a"
  by (simp_all add: bind_res_def)

lemma bind_res_Inr_iff: "bind_res r f = Inr b \<longleftrightarrow> (\<exists>a. r = Inr a \<and> f a = Inr b)"
  by (cases r) auto

subsection \<open>Sums over lists\<close>

lemma sum_list_map_mono:
  fixes f g :: "'a \<Rightarrow> real"
  assumes "\<And>x. x \<in> set xs \<Longrightarrow> f x \<le> g x"
  shows "sum_list (map f xs) \<le> sum_list (map g xs)"
  using assms by (induction xs) (auto intro: add_mono)

lemma sum_list_map_nonneg:
  fixes f :: "'a \<Rightarrow> real"
  assumes "\<And>x. x \<in> set xs \<Longrightarrow> 0 \<le> f x"
  shows "0 \<le> sum_list (map f xs)"
  using assms by (induction xs) auto

text \<open>\<open>str.lower\<close> on ASCII.\<close>

definition lower_char :: "char \<Rightarrow> char" where
  "lower_char c = (let n = of_char c :: nat in if 65 \<le> n \<and> n \<le> 90 then char_of (n + 32) else c)"

text \<open>\<open>str.strip\<close>.\<close>

definition blank :: "char \<Rightarrow> bool" where
  "blank c = (let n = of_char c :: nat in n = 32 \<or> 9 \<le> n \<and> n \<le> 13 \<or> 28 \<le> n \<and> n \<le> 31)"

definition py_strip :: "string \<Rightarrow> string" where
  "py_strip s = rev (dropWhile blank (rev (dropWhile blank s)))"

text \<open>Strings: \<open>sub in text\<close>.\<close>

fun is_prefix :: "'a list \<Rightarrow> 'a list \<Rightarrow> bool" where
  "is_prefix [] ys = True"
| "is_prefix (x # xs) [] = False"
| "is_prefix (x # xs) (y # ys) = (x = y \<and> is_prefix xs ys)"

fun contains :: "'a list \<Rightarrow> 'a list \<Rightarrow> bool" where
  "contains sub [] = (sub = [])"
| "contains sub (y # ys) = (is_prefix sub (y # ys) \<or> contains sub ys)"

lemma is_prefix_iff: "is_prefix xs ys \<longleftrightarrow> (\<exists>zs. ys = xs @ zs)"
  by (induction xs ys rule: is_prefix.induct) auto

lemma contains_iff: "contains sub ys \<longleftrightarrow> (\<exists>us vs. ys = us @ sub @ vs)"
proof (induction sub ys rule: contains.induct)
  case (1 sub)
  then show ?case by auto
next
  case (2 sub y ys)
  have "(\<exists>us vs. y # ys = us @ sub @ vs) \<longleftrightarrow>
        (\<exists>vs. y # ys = sub @ vs) \<or> (\<exists>us vs. ys = us @ sub @ vs)" (is "?L \<longleftrightarrow> ?R")
  proof
    assume ?L
    then obtain us vs where "y # ys = us @ sub @ vs" by blast
    then show ?R by (cases us) auto
  next
    assume ?R
    then show ?L
    proof
      assume "\<exists>vs. y # ys = sub @ vs"
      then obtain vs where "y # ys = [] @ sub @ vs" by auto
      then show ?L by blast
    next
      assume "\<exists>us vs. ys = us @ sub @ vs"
      then obtain us vs where "y # ys = (y # us) @ sub @ vs" by auto
      then show ?L by blast
    qed
  qed
  then show ?case using 2 by (simp add: is_prefix_iff)
qed

end
