(* ===== verification/EnergyDomain.thy ===== *)
theory EnergyDomain
  imports EnergyPrelude
begin

section \<open>Domain types: intents, modes, capability reports, plans\<close>

text \<open>
  The data of \<open>ems/domain.py\<close>, \<open>ems/planner/schedule.py\<close> and the record of
  \<open>ems/planner/buy_pool.py\<close>: the battery intents and physical modes, the capability report of a
  driver, a plan as a tuple of slots with their energy contract, and the lookup of the slot that
  covers an instant. A text built with an f-string is a list of pieces (\<open>message\<close>), so that the
  code's tests on a reason (does it contain or start with a marker) are computed and the numbers
  in it are kept; a character outside ASCII is written in ASCII.
\<close>

subsection \<open>Formatted text\<close>

datatype piece =
    Lit string              \<comment> \<open>literal characters\<close>
  | Fixed nat real          \<comment> \<open>\<open>{x:.nf}\<close>\<close>
  | Gen real                \<comment> \<open>\<open>{x:g}\<close>\<close>
  | Count int               \<comment> \<open>\<open>{n}\<close> of an integer\<close>
  | Clock instant           \<comment> \<open>\<open>%H:%M\<close>\<close>
  | Iso instant             \<comment> \<open>\<open>isoformat()\<close>\<close>
  | IsoDay int              \<comment> \<open>\<open>isoformat()\<close> of a date, the number of the day\<close>

type_synonym message = "piece list"

fun piece_has :: "string \<Rightarrow> piece \<Rightarrow> bool" where
  "piece_has m (Lit s) = contains m s"
| "piece_has m _ = False"

definition text_has :: "string \<Rightarrow> message \<Rightarrow> bool" where
  "text_has m t = list_ex (piece_has m) t"

fun text_starts :: "string \<Rightarrow> message \<Rightarrow> bool" where
  "text_starts m (Lit s # _) = is_prefix m s"
| "text_starts m _ = False"

lemma text_has_append [simp]: "text_has m (s @ t) \<longleftrightarrow> text_has m s \<or> text_has m t"
  by (simp add: text_has_def)

lemma text_has_Cons [simp]: "text_has m (p # t) \<longleftrightarrow> piece_has m p \<or> text_has m t"
  by (simp add: text_has_def)

lemma text_has_Nil [simp]: "\<not> text_has m []"
  by (simp add: text_has_def)

fun lower_piece :: "piece \<Rightarrow> piece" where
  "lower_piece (Lit s) = Lit (map lower_char s)"
| "lower_piece p = p"

subsection \<open>\<open>ems/domain.py\<close>\<close>

datatype battery_intent =
  ALLOW_SELF_CONSUMPTION | GRID_CHARGE_TO_TARGET | HOLD_RESERVE | DISCHARGE_FOR_LOAD
| EXPORT_FOR_PROFIT

datatype physical_mode = AUTO | CHARGE | DISCHARGE | IDLE

datatype planner_mode = RULE_BASED | ML_MODE | ADVISORY

text \<open>The wire values of the two enumerations, and the constructor that reads one back.\<close>

fun intent_value :: "battery_intent \<Rightarrow> string" where
  "intent_value ALLOW_SELF_CONSUMPTION = ''allow_self_consumption''"
| "intent_value GRID_CHARGE_TO_TARGET = ''grid_charge_to_target''"
| "intent_value HOLD_RESERVE = ''hold_reserve''"
| "intent_value DISCHARGE_FOR_LOAD = ''discharge_for_load''"
| "intent_value EXPORT_FOR_PROFIT = ''export_for_profit''"

definition all_intents :: "battery_intent list" where
  "all_intents = [ALLOW_SELF_CONSUMPTION, GRID_CHARGE_TO_TARGET, HOLD_RESERVE,
                  DISCHARGE_FOR_LOAD, EXPORT_FOR_PROFIT]"

definition intent_of :: "string \<Rightarrow> py_error + battery_intent" where
  "intent_of s = (case find (\<lambda>i. intent_value i = s) all_intents of
                    Some i \<Rightarrow> Inr i | None \<Rightarrow> Inl ValueError)"

fun mode_value :: "physical_mode \<Rightarrow> string" where
  "mode_value AUTO = ''auto''"
| "mode_value CHARGE = ''charge''"
| "mode_value DISCHARGE = ''discharge''"
| "mode_value IDLE = ''idle''"

definition all_modes :: "physical_mode list" where
  "all_modes = [AUTO, CHARGE, DISCHARGE, IDLE]"

definition mode_of :: "string \<Rightarrow> py_error + physical_mode" where
  "mode_of s = (case find (\<lambda>m. mode_value m = s) all_modes of
                  Some m \<Rightarrow> Inr m | None \<Rightarrow> Inl ValueError)"

lemma intent_of_value [simp]: "intent_of (intent_value i) = Inr i"
  by (cases i) (simp_all add: intent_of_def all_intents_def)

lemma mode_of_value [simp]: "mode_of (mode_value m) = Inr m"
  by (cases m) (simp_all add: mode_of_def all_modes_def)

lemma intent_of_Inr: "intent_of s = Inr i \<Longrightarrow> s = intent_value i"
  by (auto simp: intent_of_def find_Some_iff split: option.splits)

lemma mode_of_Inr: "mode_of s = Inr m \<Longrightarrow> s = mode_value m"
  by (auto simp: mode_of_def find_Some_iff split: option.splits)

lemma mode_value_nonempty [simp]: "mode_value m \<noteq> []"
  by (cases m) simp_all

lemma intent_value_nonempty [simp]: "intent_value i \<noteq> []"
  by (cases i) simp_all

record capability_report =
  cap_services :: "string list"
  cap_energy_mode_options :: "string list"
  cap_has_standby :: bool
  cap_has_grid_charge_switch :: bool
  cap_p1_paired :: bool
  cap_max_charge_w :: real
  cap_max_discharge_w :: real
  cap_supports_discharge_control :: bool
  cap_supports_grid_charge :: bool
  cap_supports_standby :: bool
  cap_min_power_w :: real
  cap_min_target_soc :: real

record planner_input_snapshot =
  in_taken_at :: instant
  in_planner_mode :: string
  in_strategy :: string
  in_soc_pct :: real
  in_price_slots :: int
  in_price_resolution_minutes :: int
  in_price_provenance :: "string option"
  in_price_min_eur :: "real option"
  in_price_max_eur :: "real option"
  in_prices_digest :: "string option"
  in_forecast_slots :: int
  in_forecast_provider :: "string option"
  in_forecast_issued_at :: "instant option"
  in_forecast_p50_kwh :: "real option"
  in_forecast_digest :: "string option"
  in_load_digest :: "string option"
  in_baseline :: "string option"
  in_expected_ev_kwh :: "real option"
  in_capability_report_ref :: "string option"
  in_config_hash :: "string option"

subsection \<open>\<open>ems/sources/prices.py\<close>, \<open>ems/sources/forecast.py\<close>\<close>

record price_slot =
  pr_start :: instant
  pr_eur :: real
  pr_origin :: string

record forecast_slot =
  fc_start :: instant
  fc_p10_w :: real
  fc_p50_w :: real
  fc_p90_w :: real
  fc_real_p10 :: bool

text \<open>The P50 curve of a delivery, as the planners build it: by slot start, the last entry wins.\<close>

definition p50_map :: "forecast_slot list \<Rightarrow> (instant \<rightharpoonup> real)" where
  "p50_map forecast = fold (\<lambda>f m. m(fc_start f \<mapsto> fc_p50_w f)) forecast Map.empty"

text \<open>\<open>current_price\<close>: the price of the slot that covers \<open>now\<close>.\<close>

fun current_price :: "price_slot list \<Rightarrow> instant \<Rightarrow> real option" where
  "current_price [] now = None"
| "current_price (s # ss) now =
     (if pr_start s \<le> now \<and> now < pr_start s + SLOT then Some (pr_eur s)
      else current_price ss now)"

subsection \<open>\<open>ems/planner/buy_pool.py\<close>: the record a plan carries\<close>

record cheapest_slot =
  ch_start :: instant
  ch_eur :: real

record buy_pool_info =
  bp_state :: string
  bp_max_buy :: real
  bp_cheapest :: "cheapest_slot option"
  bp_shortfall_kwh :: real
  bp_next_chance :: "instant option"
  bp_pool_size :: nat
  bp_auto_max_buy :: "real option"
  bp_resident_cap :: real

subsection \<open>\<open>ems/planner/schedule.py\<close>\<close>

record plan_slot =
  sl_start :: instant
  sl_intent :: battery_intent
  sl_reason :: message
  sl_target_soc :: "real option"
  sl_target_kwh :: "real option"
  sl_power_w :: "real option"
  sl_floor_soc :: "real option"
  sl_deadline :: "instant option"
  sl_end :: "instant option"

text \<open>\<open>PlanSlot(start, intent, reason)\<close>: the optional fields default to \<open>None\<close>.\<close>

definition plan_slot0 :: "instant \<Rightarrow> battery_intent \<Rightarrow> message \<Rightarrow> plan_slot" where
  "plan_slot0 t i r =
     \<lparr>sl_start = t, sl_intent = i, sl_reason = r, sl_target_soc = None, sl_target_kwh = None,
      sl_power_w = None, sl_floor_soc = None, sl_deadline = None, sl_end = None\<rparr>"

definition slot_end :: "plan_slot \<Rightarrow> instant" where
  "slot_end s = (case sl_end s of Some e \<Rightarrow> e | None \<Rightarrow> sl_start s + SLOT)"

record plan =
  pl_created_at :: instant
  pl_slots :: "plan_slot list"
  pl_strategy :: "string option"
  pl_target_soc :: "real option"
  pl_deadline :: "instant option"
  pl_id :: "string option"
  pl_version :: int
  pl_input_snapshot :: "planner_input_snapshot option"
  pl_planner_mode :: "string option"
  pl_buy_pool :: "buy_pool_info option"
  pl_solar_basis :: "string option"

text \<open>\<open>Plan(created_at=\<dots>, slots=\<dots>)\<close> with every other field at its default.\<close>

definition plan0 :: "instant \<Rightarrow> plan_slot list \<Rightarrow> plan" where
  "plan0 t ss =
     \<lparr>pl_created_at = t, pl_slots = ss, pl_strategy = None, pl_target_soc = None,
      pl_deadline = None, pl_id = None, pl_version = 1, pl_input_snapshot = None,
      pl_planner_mode = None, pl_buy_pool = None, pl_solar_basis = None\<rparr>"

text \<open>\<open>Plan.intent_at\<close>: the first slot whose own interval contains \<open>now\<close>.\<close>

fun slot_covering :: "plan_slot list \<Rightarrow> instant \<Rightarrow> plan_slot option" where
  "slot_covering [] now = None"
| "slot_covering (s # ss) now =
     (if sl_start s \<le> now \<and> now < slot_end s then Some s else slot_covering ss now)"

definition intent_at :: "plan \<Rightarrow> instant \<Rightarrow> plan_slot option" where
  "intent_at p now = slot_covering (pl_slots p) now"

lemma slot_covering_Some:
  "slot_covering ss now = Some s \<Longrightarrow> s \<in> set ss \<and> sl_start s \<le> now \<and> now < slot_end s"
  by (induction ss) (auto split: if_splits)

lemma slot_covering_None:
  "slot_covering ss now = None \<longleftrightarrow> (\<forall>s\<in>set ss. \<not> (sl_start s \<le> now \<and> now < slot_end s))"
  by (induction ss) auto

text \<open>Slots that do not overlap: each starts at or after the end of the one before it.\<close>

fun slots_ordered :: "plan_slot list \<Rightarrow> bool" where
  "slots_ordered [] = True"
| "slots_ordered [s] = True"
| "slots_ordered (s # t # ss) = (slot_end s \<le> sl_start t \<and> sl_start t < slot_end t \<and> slots_ordered (t # ss))"

lemma slots_ordered_later:
  "slots_ordered (s # ss) \<Longrightarrow> t \<in> set ss \<Longrightarrow> slot_end s \<le> sl_start t"
proof (induction ss arbitrary: s)
  case Nil
  then show ?case by simp
next
  case (Cons u us)
  from Cons.prems(1) have u: "slot_end s \<le> sl_start u" "sl_start u < slot_end u"
    and us: "slots_ordered (u # us)" by auto
  show ?case
  proof (cases "t = u")
    case True
    with u show ?thesis by simp
  next
    case False
    with Cons.prems(2) have "t \<in> set us" by simp
    with Cons.IH [OF us] u show ?thesis by force
  qed
qed

lemma slots_ordered_tl: "slots_ordered (s # ss) \<Longrightarrow> slots_ordered ss"
  by (cases ss) auto

text \<open>In an ordered plan the covering slot is the only one that covers the instant.\<close>

lemma slot_covering_unique:
  assumes "slots_ordered ss" and "t \<in> set ss" and "sl_start t \<le> now" and "now < slot_end t"
  shows "slot_covering ss now = Some t"
  using assms
proof (induction ss)
  case Nil
  then show ?case by simp
next
  case (Cons s ss)
  show ?case
  proof (cases "t = s")
    case True
    with Cons.prems show ?thesis by simp
  next
    case False
    with Cons.prems(2) have mem: "t \<in> set ss" by simp
    have "slot_end s \<le> sl_start t" by (rule slots_ordered_later [OF Cons.prems(1) mem])
    with Cons.prems(3) have "\<not> now < slot_end s" by linarith
    moreover have "slot_covering ss now = Some t"
      using Cons.IH [OF slots_ordered_tl [OF Cons.prems(1)] mem Cons.prems(3,4)] .
    ultimately show ?thesis by simp
  qed
qed

subsection \<open>Rewriting a slot to self-consumption\<close>

text \<open>
  \<open>budgets._as_self_consumption\<close>: \<open>replace(slot, intent=ALLOW_SELF_CONSUMPTION, reason=reason,
  target_kwh=None, power_w=None)\<close>.
\<close>

definition as_self_consumption :: "plan_slot \<Rightarrow> message \<Rightarrow> plan_slot" where
  "as_self_consumption s r =
     s\<lparr>sl_intent := ALLOW_SELF_CONSUMPTION, sl_reason := r, sl_target_kwh := None,
       sl_power_w := None\<rparr>"

lemma as_self_consumption_simps [simp]:
  "sl_start (as_self_consumption s r) = sl_start s"
  "sl_intent (as_self_consumption s r) = ALLOW_SELF_CONSUMPTION"
  "sl_reason (as_self_consumption s r) = r"
  "sl_floor_soc (as_self_consumption s r) = sl_floor_soc s"
  "sl_deadline (as_self_consumption s r) = sl_deadline s"
  "sl_end (as_self_consumption s r) = sl_end s"
  "sl_target_soc (as_self_consumption s r) = sl_target_soc s"
  "sl_power_w (as_self_consumption s r) = None"
  "sl_target_kwh (as_self_consumption s r) = None"
  by (simp_all add: as_self_consumption_def)

subsection \<open>Must-charge markers of \<open>ems/planner/reason.py\<close>\<close>

definition MUST_CHARGE_REASON_PREFIX :: string where
  "MUST_CHARGE_REASON_PREFIX = ''Voorzorgslading''"

text \<open>\<open>_soc_text\<close>: a percentage that is whole within \<open>1e-6\<close> is shown without a decimal.\<close>

definition soc_text :: "real \<Rightarrow> message" where
  "soc_text pct =
     (if \<bar>pct - of_int (py_round0 pct)\<bar> < 1/1000000 then [Count (py_round0 pct)]
      else [Fixed 1 pct])"

definition format_must_charge_slot_reason :: "real \<Rightarrow> message" where
  "format_must_charge_slot_reason max_price =
     [Lit ''Voorzorgslading: batterij staat laag voor de avondpiek [plafond-instelling EUR'',
      Fixed 2 max_price, Lit ''/kWh]'']"

definition format_resident_must_charge_reason :: "real \<Rightarrow> instant \<Rightarrow> real \<Rightarrow> message" where
  "format_resident_must_charge_reason target deadline max_price =
     [Lit ''Voorzorgslading: vul tot ''] @ soc_text target
     @ [Lit ''% voor '', Clock deadline, Lit '' [plafond-instelling EUR'', Fixed 2 max_price,
        Lit ''/kWh]'']"

definition is_must_charge_slot :: "plan_slot \<Rightarrow> bool" where
  "is_must_charge_slot s = text_has MUST_CHARGE_REASON_PREFIX (sl_reason s)"

definition is_resident_must_charge_slot :: "plan_slot \<Rightarrow> bool" where
  "is_resident_must_charge_slot s =
     (text_starts MUST_CHARGE_REASON_PREFIX (sl_reason s) \<and> text_has ''vul tot '' (sl_reason s))"

lemma must_charge_reason_marked [simp]:
  "text_has MUST_CHARGE_REASON_PREFIX (format_must_charge_slot_reason x)"
  "text_has MUST_CHARGE_REASON_PREFIX (format_resident_must_charge_reason a b x)"
  by (simp_all add: format_must_charge_slot_reason_def format_resident_must_charge_reason_def
        MUST_CHARGE_REASON_PREFIX_def)

end
