(* ===== verification/Ownership.thy ===== *)
theory Ownership
  imports EnergyDomain
begin

section \<open>Ownership state machine (\<open>ems/lifecycle.py\<close>)\<close>

text \<open>
  The boot sequence, the startup grace and the manual-override overlay that decide whether the
  system may command the battery. Every operation that takes a \<open>now\<close> rejects a naive datetime
  first (\<open>require_aware\<close>), before it changes anything. Reachability is an inductive relation over
  the operations; the invariant says that commanding needs the whole readiness sequence.
\<close>

subsection \<open>Aware and naive datetimes\<close>

datatype py_datetime = Aware instant | Naive int

definition require_aware :: "py_datetime \<Rightarrow> py_error + instant" where
  "require_aware d = (case d of Aware t \<Rightarrow> Inr t | Naive _ \<Rightarrow> Inl ValueError)"

lemma require_aware_simps [simp]:
  "require_aware (Aware t) = Inr t" "require_aware (Naive w) = Inl ValueError"
  by (simp_all add: require_aware_def)

text \<open>\<open>a - b\<close> of two datetimes: mixing aware and naive raises \<open>TypeError\<close>.\<close>

fun py_sub :: "py_datetime \<Rightarrow> py_datetime \<Rightarrow> py_error + duration" where
  "py_sub (Aware a) (Aware b) = Inr (a - b)"
| "py_sub (Naive a) (Naive b) = Inr (a - b)"
| "py_sub _ _ = Inl TypeError"

subsection \<open>The state and its operations\<close>

datatype ownership_state = INACTIVE | OBSERVING | DRY_RUN | CONTROLLING | MANUAL_OVERRIDE

record lifecycle =
  lc_dry_run :: bool
  lc_grace :: real
  lc_boot_at :: "instant option"
  lc_state :: ownership_state
  lc_sensors_ok :: bool
  lc_probe_ok :: bool
  lc_plan_loaded :: bool
  lc_override_until :: "instant option"

definition lifecycle0 :: "bool \<Rightarrow> real \<Rightarrow> lifecycle" where
  "lifecycle0 dry grace =
     \<lparr>lc_dry_run = dry, lc_grace = grace, lc_boot_at = None, lc_state = INACTIVE,
      lc_sensors_ok = False, lc_probe_ok = False, lc_plan_loaded = False,
      lc_override_until = None\<rparr>"

definition reset_readiness :: "lifecycle \<Rightarrow> lifecycle" where
  "reset_readiness l = l\<lparr>lc_sensors_ok := False, lc_probe_ok := False, lc_plan_loaded := False\<rparr>"

definition lc_start :: "lifecycle \<Rightarrow> py_datetime \<Rightarrow> py_error + lifecycle" where
  "lc_start l now = bind_res (require_aware now) (\<lambda>t.
     Inr ((reset_readiness (l\<lparr>lc_boot_at := Some t\<rparr>))
            \<lparr>lc_override_until := None, lc_state := OBSERVING\<rparr>))"

definition mark_sensors_validated :: "lifecycle \<Rightarrow> lifecycle" where
  "mark_sensors_validated l = l\<lparr>lc_sensors_ok := True\<rparr>"

definition mark_probe_ok :: "lifecycle \<Rightarrow> lifecycle" where
  "mark_probe_ok l = l\<lparr>lc_probe_ok := True\<rparr>"

definition mark_plan_loaded :: "lifecycle \<Rightarrow> lifecycle" where
  "mark_plan_loaded l = l\<lparr>lc_plan_loaded := True\<rparr>"

text \<open>The three read-only questions, at an aware instant.\<close>

definition grace_elapsed :: "lifecycle \<Rightarrow> instant \<Rightarrow> bool" where
  "grace_elapsed l t = (case lc_boot_at l of None \<Rightarrow> False
                        | Some b \<Rightarrow> lc_grace l \<le> total_seconds (t - b))"

definition override_active :: "lifecycle \<Rightarrow> instant \<Rightarrow> bool" where
  "override_active l t = (case lc_override_until l of None \<Rightarrow> False | Some u \<Rightarrow> t < u)"

definition ready_to_act :: "lifecycle \<Rightarrow> instant \<Rightarrow> bool" where
  "ready_to_act l t = (lc_sensors_ok l \<and> lc_probe_ok l \<and> lc_plan_loaded l \<and> grace_elapsed l t
                       \<and> \<not> override_active l t)"

definition manual_override :: "lifecycle \<Rightarrow> py_datetime \<Rightarrow> real \<Rightarrow> py_error + lifecycle" where
  "manual_override l now duration_s = bind_res (require_aware now) (\<lambda>t.
     Inr (l\<lparr>lc_override_until := Some (t + py_round0 (duration_s * 1000000)),
            lc_state := MANUAL_OVERRIDE\<rparr>))"

definition return_to_default :: "lifecycle \<Rightarrow> lifecycle" where
  "return_to_default l =
     (reset_readiness (l\<lparr>lc_override_until := None\<rparr>))\<lparr>lc_state := OBSERVING\<rparr>"

text \<open>\<open>tick\<close>: expire a lapsed override first, then advance if ready.\<close>

definition expire_override :: "lifecycle \<Rightarrow> instant \<Rightarrow> lifecycle" where
  "expire_override l t =
     (case lc_override_until l of
        None \<Rightarrow> l
      | Some u \<Rightarrow>
          if u \<le> t
          then (let l' = l\<lparr>lc_override_until := None\<rparr>
                in if lc_state l' = MANUAL_OVERRIDE then l'\<lparr>lc_state := OBSERVING\<rparr> else l')
          else l)"

definition tick_at :: "lifecycle \<Rightarrow> instant \<Rightarrow> lifecycle" where
  "tick_at l t =
     (let l' = expire_override l t
      in if lc_state l' = OBSERVING \<and> ready_to_act l' t
         then l'\<lparr>lc_state := (if lc_dry_run l' then DRY_RUN else CONTROLLING)\<rparr>
         else l')"

definition lc_tick :: "lifecycle \<Rightarrow> py_datetime \<Rightarrow> py_error + lifecycle" where
  "lc_tick l now = bind_res (require_aware now) (\<lambda>t. Inr (tick_at l t))"

definition can_command_at :: "lifecycle \<Rightarrow> instant \<Rightarrow> bool" where
  "can_command_at l t = (lc_state l = CONTROLLING \<and> \<not> override_active l t)"

definition can_command :: "lifecycle \<Rightarrow> py_datetime \<Rightarrow> py_error + bool" where
  "can_command l now = bind_res (require_aware now) (\<lambda>t. Inr (can_command_at l t))"

subsection \<open>Runs\<close>

datatype lc_event =
    Start py_datetime | SensorsValidated | ProbeOk | PlanLoaded
  | Override py_datetime real | ReturnToDefault | Tick py_datetime

fun lc_step :: "lifecycle \<Rightarrow> lc_event \<Rightarrow> py_error + lifecycle" where
  "lc_step l (Start now) = lc_start l now"
| "lc_step l SensorsValidated = Inr (mark_sensors_validated l)"
| "lc_step l ProbeOk = Inr (mark_probe_ok l)"
| "lc_step l PlanLoaded = Inr (mark_plan_loaded l)"
| "lc_step l (Override now d) = manual_override l now d"
| "lc_step l ReturnToDefault = Inr (return_to_default l)"
| "lc_step l (Tick now) = lc_tick l now"

fun event_time :: "lc_event \<Rightarrow> instant option" where
  "event_time (Start (Aware t)) = Some t"
| "event_time (Override (Aware t) d) = Some t"
| "event_time (Tick (Aware t)) = Some t"
| "event_time _ = None"

text \<open>
  The states a run can reach, with the latest instant the clock has shown. The clock does not run
  backwards; an operation that raises leaves the state as it was (\<open>require_aware\<close> is its first
  statement).
\<close>

inductive reach :: "bool \<Rightarrow> real \<Rightarrow> lifecycle \<Rightarrow> instant \<Rightarrow> bool" for dry grace where
  boot: "reach dry grace (lifecycle0 dry grace) t"
| step: "reach dry grace l t \<Longrightarrow> lc_step l e = Inr l' \<Longrightarrow>
         event_time e = Some t' \<Longrightarrow> t \<le> t' \<Longrightarrow> reach dry grace l' t'"
| mark: "reach dry grace l t \<Longrightarrow> lc_step l e = Inr l' \<Longrightarrow>
         event_time e = None \<Longrightarrow> reach dry grace l' t"
| wait: "reach dry grace l t \<Longrightarrow> t \<le> t' \<Longrightarrow> reach dry grace l t'"

lemmas lifecycle_defs =
  lc_start_def mark_sensors_validated_def mark_probe_ok_def mark_plan_loaded_def
  manual_override_def return_to_default_def lc_tick_def reset_readiness_def tick_at_def
  expire_override_def

subsection \<open>Invariant\<close>

text \<open>
  Commanding states carry their evidence: outside \<open>dry_run\<close>, all three marks set, and the grace
  counted from the last boot over by the time the clock shows now.
\<close>

definition lc_inv :: "lifecycle \<Rightarrow> instant \<Rightarrow> bool" where
  "lc_inv l t =
     ((lc_state l = CONTROLLING \<longrightarrow> \<not> lc_dry_run l) \<and>
      (lc_state l \<in> {CONTROLLING, DRY_RUN} \<longrightarrow>
         lc_sensors_ok l \<and> lc_probe_ok l \<and> lc_plan_loaded l \<and> grace_elapsed l t) \<and>
      (lc_state l = MANUAL_OVERRIDE \<longrightarrow> lc_override_until l \<noteq> None))"

lemma grace_elapsed_mono: "grace_elapsed l t \<Longrightarrow> t \<le> t' \<Longrightarrow> grace_elapsed l t'"
  unfolding grace_elapsed_def
  using total_seconds_mono [of "t - the (lc_boot_at l)" "t' - the (lc_boot_at l)"]
  by (auto split: option.splits)

lemma lc_inv_wait: "lc_inv l t \<Longrightarrow> t \<le> t' \<Longrightarrow> lc_inv l t'"
  using grace_elapsed_mono [of l t t'] by (auto simp: lc_inv_def)

lemma expire_override_frame [simp]:
  "lc_dry_run (expire_override l t) = lc_dry_run l"
  "lc_grace (expire_override l t) = lc_grace l"
  "lc_boot_at (expire_override l t) = lc_boot_at l"
  "lc_sensors_ok (expire_override l t) = lc_sensors_ok l"
  "lc_probe_ok (expire_override l t) = lc_probe_ok l"
  "lc_plan_loaded (expire_override l t) = lc_plan_loaded l"
  by (simp_all add: expire_override_def Let_def split: option.split)

lemma expire_override_grace [simp]: "grace_elapsed (expire_override l t) t' = grace_elapsed l t'"
  by (simp add: grace_elapsed_def split: option.split)

lemma grace_elapsed_state [simp]:
  "grace_elapsed (l\<lparr>lc_state := s\<rparr>) t = grace_elapsed l t"
  "grace_elapsed (l\<lparr>lc_override_until := u\<rparr>) t = grace_elapsed l t"
  "grace_elapsed (l\<lparr>lc_sensors_ok := b\<rparr>) t = grace_elapsed l t"
  "grace_elapsed (l\<lparr>lc_probe_ok := b\<rparr>) t = grace_elapsed l t"
  "grace_elapsed (l\<lparr>lc_plan_loaded := b\<rparr>) t = grace_elapsed l t"
  by (simp_all add: grace_elapsed_def split: option.split)

lemma expire_override_inv: "lc_inv l t \<Longrightarrow> lc_inv (expire_override l t) t"
proof -
  assume inv: "lc_inv l t"
  have st: "lc_state (expire_override l t) = lc_state l \<or>
            lc_state (expire_override l t) = OBSERVING"
    by (simp add: expire_override_def Let_def split: option.split)
  have "lc_state (expire_override l t) = MANUAL_OVERRIDE \<Longrightarrow>
        lc_override_until (expire_override l t) \<noteq> None"
    using inv by (auto simp: expire_override_def Let_def lc_inv_def split: option.splits if_splits)
  with inv st show ?thesis by (auto simp: lc_inv_def)
qed

lemma tick_inv:
  assumes "lc_inv l t" shows "lc_inv (tick_at l t) t"
proof (cases "lc_state (expire_override l t) = OBSERVING \<and> ready_to_act (expire_override l t) t")
  case True
  then have "tick_at l t = (expire_override l t)\<lparr>lc_state := (if lc_dry_run l then DRY_RUN else CONTROLLING)\<rparr>"
    by (simp add: tick_at_def)
  with True show ?thesis by (simp add: lc_inv_def ready_to_act_def)
next
  case False
  then have "tick_at l t = expire_override l t" by (simp add: tick_at_def Let_def)
  with expire_override_inv [OF assms] show ?thesis by simp
qed

lemma lc_step_inv:
  assumes "lc_inv l t" and "lc_step l e = Inr l'" and "event_time e = Some t'" and "t \<le> t'"
  shows "lc_inv l' t'"
proof (cases e)
  case (Start d)
  with assms(2) show ?thesis
    by (cases d) (auto simp: lc_start_def reset_readiness_def lc_inv_def)
next
  case (Override d r)
  with assms(2) show ?thesis by (cases d) (auto simp: manual_override_def lc_inv_def)
next
  case (Tick d)
  with assms(2,3) have "l' = tick_at l t'" by (cases d) (auto simp: lc_tick_def)
  then show ?thesis using tick_inv [OF lc_inv_wait [OF assms(1,4)]] by simp
qed (use assms(3) in simp_all)

lemma lc_mark_inv:
  assumes "lc_inv l t" and "lc_step l e = Inr l'" and "event_time e = None"
  shows "lc_inv l' t"
proof (cases e)
  case (Start d)
  with assms(2,3) show ?thesis by (cases d) (simp_all add: lc_start_def)
next
  case (Override d r)
  with assms(2,3) show ?thesis by (cases d) (simp_all add: manual_override_def)
next
  case (Tick d)
  with assms(2,3) show ?thesis by (cases d) (simp_all add: lc_tick_def)
next
  case ReturnToDefault
  with assms(2) have "l' = return_to_default l" by simp
  then show ?thesis by (simp add: return_to_default_def lc_inv_def)
next
  case SensorsValidated
  with assms(2) have "l' = l\<lparr>lc_sensors_ok := True\<rparr>" by (simp add: mark_sensors_validated_def)
  with assms(1) show ?thesis by (simp add: lc_inv_def)
next
  case ProbeOk
  with assms(2) have "l' = l\<lparr>lc_probe_ok := True\<rparr>" by (simp add: mark_probe_ok_def)
  with assms(1) show ?thesis by (simp add: lc_inv_def)
next
  case PlanLoaded
  with assms(2) have "l' = l\<lparr>lc_plan_loaded := True\<rparr>" by (simp add: mark_plan_loaded_def)
  with assms(1) show ?thesis by (simp add: lc_inv_def)
qed

lemma reach_inv: "reach dry grace l t \<Longrightarrow> lc_inv l t"
proof (induction rule: reach.induct)
  case (boot t)
  then show ?case by (simp add: lc_inv_def lifecycle0_def)
next
  case (step l t e l' t')
  then show ?case by (blast intro: lc_step_inv)
next
  case (mark l t e l')
  then show ?case by (blast intro: lc_mark_inv)
next
  case (wait l t t')
  then show ?case by (blast intro: lc_inv_wait)
qed

lemma lc_step_config: "lc_step l e = Inr l' \<Longrightarrow> lc_dry_run l' = lc_dry_run l"
proof (cases e)
  case (Tick d)
  moreover assume "lc_step l e = Inr l'"
  ultimately show ?thesis
    by (cases d) (auto simp: lc_tick_def tick_at_def Let_def split: if_splits)
qed (auto simp: lifecycle_defs bind_res_Inr_iff)

lemma reach_dry_run: "reach dry grace l t \<Longrightarrow> lc_dry_run l = dry"
  by (induction rule: reach.induct) (auto simp: lifecycle0_def lc_step_config)

subsection \<open>Properties\<close>

lemma reach_ready:
  assumes "reach dry grace l t" and "can_command_at l t"
  shows "\<not> dry \<and> ready_to_act l t"
  using reach_inv [OF assms(1)] reach_dry_run [OF assms(1)] assms(2)
  by (auto simp: lc_inv_def can_command_at_def ready_to_act_def)

text \<open>A lifecycle that has run the boot sequence and advanced: the concrete input of witnesses.\<close>

definition booted :: lifecycle where
  "booted = \<lparr>lc_dry_run = False, lc_grace = 120, lc_boot_at = Some 0, lc_state = CONTROLLING,
             lc_sensors_ok = True, lc_probe_ok = True, lc_plan_loaded = True,
             lc_override_until = None\<rparr>"

lemma booted_reach: "reach False 120 booted (130 * us_second)"
proof -
  let ?l0 = "lifecycle0 False 120"
  let ?l1 = "?l0\<lparr>lc_boot_at := Some 0, lc_state := OBSERVING\<rparr>"
  have "reach False 120 ?l0 0" by (rule reach.boot)
  then have "reach False 120 ?l1 0"
    by (rule reach.step [where e = "Start (Aware 0)"])
       (simp_all add: lifecycle0_def lc_start_def reset_readiness_def)
  then have "reach False 120 (mark_sensors_validated ?l1) 0"
    by (rule reach.mark [where e = SensorsValidated]) simp_all
  then have "reach False 120 (mark_probe_ok (mark_sensors_validated ?l1)) 0"
    by (rule reach.mark [where e = ProbeOk]) simp_all
  then have "reach False 120 (mark_plan_loaded (mark_probe_ok (mark_sensors_validated ?l1))) 0"
    by (rule reach.mark [where e = PlanLoaded]) simp_all
  then show ?thesis
    by (rule reach.step [where e = "Tick (Aware (130 * us_second))"])
       (simp_all add: booted_def lifecycle0_def lifecycle_defs override_active_def
          ready_to_act_def grace_elapsed_def total_seconds_def)
qed

lemma booted_can_command [simp]: "can_command_at booted t"
  by (simp add: booted_def can_command_at_def override_active_def)

text \<open>
  C38. The system commands the battery only after the whole readiness sequence: in every state a
  run can reach, \<open>can_command\<close> at the current instant implies that the lifecycle is not in
  \<open>dry_run\<close>, that sensors, probe and plan were marked since the last (re)start, that the startup
  grace has elapsed and that no manual override is active.
\<close>

theorem commanding_needs_readiness:
  assumes "reach dry grace l t" and "can_command l (Aware t) = Inr True"
  shows "\<not> dry \<and> ready_to_act l t"
  using reach_ready [OF assms(1)] assms(2) by (simp add: can_command_def)

theorem commanding_needs_readiness_witness:
  "can_command booted (Aware (130 * us_second)) = Inr True \<and> ready_to_act booted (130 * us_second)"
proof -
  have c: "can_command booted (Aware (130 * us_second)) = Inr True" by (simp add: can_command_def)
  show ?thesis using c commanding_needs_readiness [OF booted_reach c] by blast
qed

definition run_ticks :: "lifecycle \<Rightarrow> instant list \<Rightarrow> lifecycle" where
  "run_ticks l ts = foldl tick_at l ts"

lemma tick_unready:
  assumes "lc_state l = OBSERVING" "\<not> lc_sensors_ok l" "lc_override_until l = None"
  shows "tick_at l t = l"
  using assms by (simp add: tick_at_def expire_override_def ready_to_act_def)

text \<open>
  After the emergency \<open>return_to_default\<close> the ticks of the lifecycle alone change nothing: it stays in
  OBSERVING and never commands, until readiness is marked again. (A control tick marks it itself, see
  \<open>ControlTickSafety\<close>.)
\<close>

lemma return_to_default_bare_ticks:
  "run_ticks (return_to_default l) ts = return_to_default l \<and>
   \<not> can_command_at (run_ticks (return_to_default l) ts) t"
proof -
  have "run_ticks (return_to_default l) ts = return_to_default l"
    unfolding run_ticks_def
    by (induction ts) (simp_all add: tick_unready return_to_default_def reset_readiness_def)
  then show ?thesis by (simp add: can_command_at_def return_to_default_def reset_readiness_def)
qed

text \<open>
  A manual override blocks commanding for exactly its duration and the machine recovers by
  itself: from any state with the readiness marks set and the grace over, after
  \<open>manual_override(now, d)\<close> no tick before the expiry lets the system command, and the first tick
  at or after the expiry does.
\<close>

theorem override_blocks_then_recovers:
  assumes "manual_override l (Aware now) d = Inr l'" and "\<not> lc_dry_run l"
    and "lc_sensors_ok l" and "lc_probe_ok l" and "lc_plan_loaded l" and "grace_elapsed l now"
    and "now \<le> t"
  shows "can_command_at (tick_at l' t) t \<longleftrightarrow> now + py_round0 (d * 1000000) \<le> t"
proof -
  have g: "grace_elapsed l t" by (rule grace_elapsed_mono [OF assms(6,7)])
  from assms(1) have l': "l' = l\<lparr>lc_override_until := Some (now + py_round0 (d * 1000000)),
                                 lc_state := MANUAL_OVERRIDE\<rparr>"
    by (simp add: manual_override_def)
  from g have "grace_elapsed (l\<lparr>lc_override_until := None, lc_state := OBSERVING\<rparr>) t"
    by simp
  with assms(2-5) show ?thesis
    by (auto simp: l' tick_at_def expire_override_def Let_def can_command_at_def
          override_active_def ready_to_act_def)
qed

theorem override_blocks_then_recovers_witness:
  "let l = \<lparr>lc_dry_run = False, lc_grace = 120, lc_boot_at = Some 0, lc_state = CONTROLLING,
            lc_sensors_ok = True, lc_probe_ok = True, lc_plan_loaded = True,
            lc_override_until = None\<rparr>;
       l' = l\<lparr>lc_override_until := Some (200 * us_second + py_round0 (60 * 1000000)),
              lc_state := MANUAL_OVERRIDE\<rparr>
   in \<not> can_command_at (tick_at l' (259 * us_second)) (259 * us_second) \<and>
      can_command_at (tick_at l' (260 * us_second)) (260 * us_second)"
proof -
  let ?l = "\<lparr>lc_dry_run = False, lc_grace = 120, lc_boot_at = Some 0, lc_state = CONTROLLING,
            lc_sensors_ok = True, lc_probe_ok = True, lc_plan_loaded = True,
            lc_override_until = None\<rparr>"
  let ?l' = "?l\<lparr>lc_override_until := Some (200 * us_second + py_round0 (60 * 1000000)),
                lc_state := MANUAL_OVERRIDE\<rparr>"
  have m: "manual_override ?l (Aware (200 * us_second)) 60 = Inr ?l'"
    by (simp add: manual_override_def)
  have g: "grace_elapsed ?l (200 * us_second)"
    by (simp add: grace_elapsed_def total_seconds_def)
  have r: "py_round0 (60 * 1000000) = 60 * us_second"
    by (simp add: py_round0_def Let_def)
  have "can_command_at (tick_at ?l' t) t \<longleftrightarrow> 200 * us_second + py_round0 (60 * 1000000) \<le> t"
    if "200 * us_second \<le> t" for t
    by (rule override_blocks_then_recovers [OF m _ _ _ _ g that]) simp_all
  from this [of "259 * us_second"] this [of "260 * us_second"] show ?thesis
    unfolding Let_def r by simp
qed

end
