(* ===== verification/JsonValue.thy ===== *)
theory JsonValue
  imports Ownership
begin

section \<open>Persisted values: JSON as Python reads it\<close>

text \<open>
  The values the runtime-state store keeps. A JSON string is represented by what Python's parsers
  make of its text: an ISO date, an ISO date-time (aware or naive), the text of an integer or of a
  float, or a plain string none of them accepts (a text two parsers accept, such as an eight-digit
  integer that is also a basic-format date, is not represented). So \<open>isoformat\<close> followed by \<open>fromisoformat\<close> is the
  identity by construction, and every malformed value still has a representation.
\<close>

datatype json =
    JNull | JBool bool | JNum real
  | JStr string | JTime py_datetime | JDate int | JIntStr int | JFloatStr real
  | JArr "json list" | JObj "(string \<times> json) list"

text \<open>Truth of a value (\<open>x or default\<close>, \<open>if not x\<close>).\<close>

fun truthy :: "json \<Rightarrow> bool" where
  "truthy JNull = False"
| "truthy (JBool b) = b"
| "truthy (JNum x) = (x \<noteq> 0)"
| "truthy (JStr s) = (s \<noteq> [])"
| "truthy (JArr vs) = (vs \<noteq> [])"
| "truthy (JObj kvs) = (kvs \<noteq> [])"
| "truthy _ = True"

definition py_or :: "json \<Rightarrow> json \<Rightarrow> json" where
  "py_or v d = (if truthy v then v else d)"

text \<open>\<open>d.get(k)\<close> and \<open>d[k]\<close> on an object.\<close>

definition json_get :: "(string \<times> json) list \<Rightarrow> string \<Rightarrow> json" where
  "json_get kvs k = opt_else (map_of kvs k) JNull"

text \<open>\<open>int(v)\<close>, \<open>float(v)\<close>, \<open>str(v)\<close>.\<close>

fun json_int :: "json \<Rightarrow> py_error + int" where
  "json_int (JNum x) = Inr (py_int x)"
| "json_int (JBool b) = Inr (if b then 1 else 0)"
| "json_int (JIntStr n) = Inr n"
| "json_int JNull = Inl TypeError"
| "json_int (JArr _) = Inl TypeError"
| "json_int (JObj _) = Inl TypeError"
| "json_int _ = Inl ValueError"

fun json_float :: "json \<Rightarrow> py_error + real" where
  "json_float (JNum x) = Inr x"
| "json_float (JBool b) = Inr (if b then 1 else 0)"
| "json_float (JIntStr n) = Inr (of_int n)"
| "json_float (JFloatStr x) = Inr x"
| "json_float JNull = Inl TypeError"
| "json_float (JArr _) = Inl TypeError"
| "json_float (JObj _) = Inl TypeError"
| "json_float _ = Inl ValueError"

fun json_str :: "json \<Rightarrow> json" where
  "json_str JNull = JStr ''None''"
| "json_str (JBool b) = JStr (if b then ''True'' else ''False'')"
| "json_str (JNum x) = JFloatStr x"
| "json_str (JArr _) = JStr ''[...]''"
| "json_str (JObj _) = JStr ''{...}''"
| "json_str v = v"

text \<open>\<open>datetime.fromisoformat(v)\<close> and \<open>date.fromisoformat(v)\<close>; a non-string raises \<open>TypeError\<close>.\<close>

fun json_datetime :: "json \<Rightarrow> py_error + py_datetime" where
  "json_datetime (JTime d) = Inr d"
| "json_datetime (JDate n) = Inr (Naive (n * us_day))"
| "json_datetime (JStr _) = Inl ValueError"
| "json_datetime (JIntStr _) = Inl ValueError"
| "json_datetime (JFloatStr _) = Inl ValueError"
| "json_datetime _ = Inl TypeError"

fun json_date :: "json \<Rightarrow> py_error + int" where
  "json_date (JDate n) = Inr n"
| "json_date (JStr _) = Inl ValueError"
| "json_date (JTime _) = Inl ValueError"
| "json_date (JIntStr _) = Inl ValueError"
| "json_date (JFloatStr _) = Inl ValueError"
| "json_date _ = Inl TypeError"

text \<open>The characters of a string value, as an f-string shows them.\<close>

fun json_text :: "json \<Rightarrow> message" where
  "json_text (JStr s) = [Lit s]"
| "json_text (JTime (Aware t)) = [Iso t]"
| "json_text (JIntStr n) = [Count n]"
| "json_text (JFloatStr x) = [Gen x]"
| "json_text _ = []"

definition json_opt :: "('a \<Rightarrow> json) \<Rightarrow> 'a option \<Rightarrow> json" where
  "json_opt f x = (case x of None \<Rightarrow> JNull | Some v \<Rightarrow> f v)"

lemma json_opt_simps [simp]: "json_opt f None = JNull" "json_opt f (Some v) = f v"
  by (simp_all add: json_opt_def)

lemma json_int_or_zero [simp]: "json_int (py_or (JNum (of_int n)) (JNum 0)) = Inr n"
  by (simp add: py_or_def py_int_def)

lemma json_int_or_null [simp]: "json_int (py_or JNull (JNum 0)) = Inr 0"
  by (simp add: py_or_def py_int_def)

end
