(* ===== verification/Overrides.thy ===== *)
theory Overrides
  imports EnergyDomain JsonValue
begin

section \<open>Operator overrides and validation results\<close>

text \<open>
  \<open>ems/control/override.py\<close> (one forced intent for a bounded time), \<open>ems/control/override_must_charge.py\<close>
  (the resident must-charge record) and the result type of the plan validator.
\<close>

subsection \<open>Findings (\<open>ems/planner/validator.py\<close>)\<close>

datatype severity = WARN | UNSAFE

datatype plan_status = VALID | WARNING | REJECTED

text \<open>A severity and the status it gives a plan are ordered by how bad they are.\<close>

instantiation plan_status :: linorder
begin

fun rank :: "plan_status \<Rightarrow> nat" where
  "rank VALID = 0" | "rank WARNING = 1" | "rank REJECTED = 2"

definition less_eq_plan_status :: "plan_status \<Rightarrow> plan_status \<Rightarrow> bool" where
  "a \<le> b \<longleftrightarrow> rank a \<le> rank b"

definition less_plan_status :: "plan_status \<Rightarrow> plan_status \<Rightarrow> bool" where
  "a < b \<longleftrightarrow> rank a < rank b"

instance
proof
  fix a b c :: plan_status
  show "a < b \<longleftrightarrow> a \<le> b \<and> \<not> b \<le> a" by (auto simp: less_eq_plan_status_def less_plan_status_def)
  show "a \<le> a" by (simp add: less_eq_plan_status_def)
  show "a \<le> b \<Longrightarrow> b \<le> c \<Longrightarrow> a \<le> c" by (simp add: less_eq_plan_status_def)
  show "a \<le> b \<Longrightarrow> b \<le> a \<Longrightarrow> a = b"
    by (cases a; cases b) (simp_all add: less_eq_plan_status_def)
  show "a \<le> b \<or> b \<le> a" by (auto simp: less_eq_plan_status_def)
qed

end

text \<open>The ceiling of one battery unit, used while the capability is unknown.\<close>

definition ONE_UNIT_POWER_W :: real where "ONE_UNIT_POWER_W = 2400"

record finding =
  fd_severity :: severity
  fd_code :: string
  fd_message :: message

definition finding :: "severity \<Rightarrow> string \<Rightarrow> message \<Rightarrow> finding" where
  "finding s c m = \<lparr>fd_severity = s, fd_code = c, fd_message = m\<rparr>"

lemma finding_simps [simp]:
  "fd_severity (finding s c m) = s" "fd_code (finding s c m) = c" "fd_message (finding s c m) = m"
  by (simp_all add: finding_def)

record plan_validation =
  pv_status :: plan_status
  pv_findings :: "finding list"

definition pv_ok :: "plan_validation \<Rightarrow> bool" where
  "pv_ok v = (pv_status v \<noteq> REJECTED)"

definition first_unsafe :: "plan_validation \<Rightarrow> finding option" where
  "first_unsafe v = find (\<lambda>f. fd_severity f = UNSAFE) (pv_findings v)"

definition has_finding :: "string \<Rightarrow> plan_validation \<Rightarrow> bool" where
  "has_finding c v = list_ex (\<lambda>f. fd_code f = c) (pv_findings v)"

subsection \<open>Manual override\<close>

record override =
  ov_intent :: "battery_intent option"
  ov_expires_at :: "instant option"

definition NO_OVERRIDE :: override where
  "NO_OVERRIDE = \<lparr>ov_intent = None, ov_expires_at = None\<rparr>"

definition ov_is_set :: "override \<Rightarrow> bool" where
  "ov_is_set ov = (ov_intent ov \<noteq> None \<and> ov_expires_at ov \<noteq> None)"

definition ov_active :: "override \<Rightarrow> instant \<Rightarrow> bool" where
  "ov_active ov now =
     (ov_is_set ov \<and> (case ov_expires_at ov of None \<Rightarrow> False | Some e \<Rightarrow> now < e))"

definition ov_seconds_remaining :: "override \<Rightarrow> instant \<Rightarrow> int" where
  "ov_seconds_remaining ov now =
     (if \<not> ov_active ov now then 0
      else (case ov_expires_at ov of None \<Rightarrow> 0 | Some e \<Rightarrow> max 0 (py_int (total_seconds (e - now)))))"

definition ov_to_dict :: "override \<Rightarrow> instant \<Rightarrow> (string \<times> json) list" where
  "ov_to_dict ov now =
     [(''intent'', json_opt (\<lambda>i. JStr (intent_value i)) (ov_intent ov)),
      (''expires_at'', json_opt (\<lambda>e. JTime (Aware e)) (ov_expires_at ov)),
      (''active'', JBool (ov_active ov now)),
      (''seconds_remaining'', JNum (of_int (ov_seconds_remaining ov now)))]"

definition json_intent :: "json \<Rightarrow> py_error + battery_intent" where
  "json_intent v = (case v of JStr s \<Rightarrow> intent_of s | _ \<Rightarrow> Inl ValueError)"

definition ov_from_stored :: "json \<Rightarrow> json \<Rightarrow> override" where
  "ov_from_stored intent expires_at =
     (if \<not> truthy intent \<or> \<not> truthy expires_at then NO_OVERRIDE
      else case (json_intent intent, json_datetime expires_at) of
             (Inr i, Inr (Aware e)) \<Rightarrow> \<lparr>ov_intent = Some i, ov_expires_at = Some e\<rparr>
           | _ \<Rightarrow> NO_OVERRIDE)"

definition ov_as_plan ::
  "override \<Rightarrow> instant \<Rightarrow> real option \<Rightarrow> real option \<Rightarrow> real option \<Rightarrow> py_error + plan" where
  "ov_as_plan ov now target_soc power_w floor_soc =
     (case (ov_intent ov, ov_expires_at ov) of
        (Some i, Some e) \<Rightarrow>
          (let deadline = (if i = GRID_CHARGE_TO_TARGET then Some e else None);
               slot = (plan_slot0 now i [Lit ''manual override until '', Iso e])
                        \<lparr>sl_target_soc := target_soc, sl_power_w := power_w, sl_floor_soc := floor_soc,
                         sl_deadline := deadline, sl_end := Some (max e (now + SLOT))\<rparr>
           in Inr ((plan0 now [slot])
                     \<lparr>pl_strategy := Some ''manual'', pl_target_soc := target_soc,
                      pl_deadline := deadline, pl_planner_mode := Some ''manual_override''\<rparr>))
      | _ \<Rightarrow> Inl ValueError)"

text \<open>
  A stored override round-trips, and a forgotten one always ends: what the record writes for its
  intent and expiry is read back as the same override; any other pair of stored values (unknown
  intents, unreadable or naive times, missing fields) is read as an override that is set with an
  aware expiry or as none at all; and no override is active at or after its expiry, when its
  remaining time is zero.
\<close>

theorem override_round_trip:
  "(ov_is_set ov \<longrightarrow>
      ov_from_stored (json_get (ov_to_dict ov now) ''intent'') (json_get (ov_to_dict ov now) ''expires_at'') = ov) \<and>
   (ov_from_stored v w = NO_OVERRIDE \<or>
      (\<exists>i e. ov_from_stored v w = \<lparr>ov_intent = Some i, ov_expires_at = Some e\<rparr> \<and>
             v = JStr (intent_value i))) \<and>
   (ov_expires_at ov = Some e \<and> e \<le> later \<longrightarrow> \<not> ov_active ov later \<and> ov_seconds_remaining ov later = 0)"
proof (intro conjI)
  show "ov_is_set ov \<longrightarrow>
      ov_from_stored (json_get (ov_to_dict ov now) ''intent'') (json_get (ov_to_dict ov now) ''expires_at'') = ov"
    by (cases ov) (auto simp: ov_is_set_def ov_from_stored_def ov_to_dict_def json_get_def json_intent_def)
  show "ov_from_stored v w = NO_OVERRIDE \<or>
      (\<exists>i e. ov_from_stored v w = \<lparr>ov_intent = Some i, ov_expires_at = Some e\<rparr> \<and> v = JStr (intent_value i))"
    by (auto simp: ov_from_stored_def json_intent_def dest: intent_of_Inr
          split: sum.splits json.splits py_datetime.splits)
  show "ov_expires_at ov = Some e \<and> e \<le> later \<longrightarrow> \<not> ov_active ov later \<and> ov_seconds_remaining ov later = 0"
    by (auto simp: ov_active_def ov_seconds_remaining_def)
qed

theorem override_round_trip_witness:
  "let ov = \<lparr>ov_intent = Some HOLD_RESERVE, ov_expires_at = Some 5000000\<rparr>
   in ov_from_stored (JStr ''hold_reserve'') (JTime (Aware 5000000)) = ov \<and> \<not> ov_active ov 5000000"
  using override_round_trip [of "\<lparr>ov_intent = Some HOLD_RESERVE, ov_expires_at = Some 5000000\<rparr>" 0
          JNull JNull 5000000 5000000]
  by (simp add: ov_is_set_def ov_to_dict_def json_get_def)

lemma ov_active_set: "ov_active ov now \<Longrightarrow> \<exists>i e. ov_intent ov = Some i \<and> ov_expires_at ov = Some e \<and> now < e"
  by (auto simp: ov_active_def ov_is_set_def)

lemma ov_as_plan_ok: "ov_active ov now \<Longrightarrow> \<exists>p. ov_as_plan ov now t w f = Inr p"
  by (auto simp: ov_as_plan_def Let_def dest!: ov_active_set)

subsection \<open>Resident must-charge override\<close>

record must_charge_override =
  mo_target_soc :: real
  mo_deadline :: instant
  mo_created :: instant
  mo_expires :: instant

definition KEY_TARGET :: string where "KEY_TARGET = ''override.must_charge.target_soc''"
definition KEY_DEADLINE :: string where "KEY_DEADLINE = ''override.must_charge.deadline''"
definition KEY_CREATED :: string where "KEY_CREATED = ''override.must_charge.created''"
definition KEY_EXPIRES :: string where "KEY_EXPIRES = ''override.must_charge.expires''"

definition MAX_AHEAD :: duration where "MAX_AHEAD = 24 * us_hour"

definition mo_engages :: "must_charge_override \<Rightarrow> instant \<Rightarrow> real option \<Rightarrow> bool" where
  "mo_engages r now soc_pct =
     (if mo_deadline r \<le> now \<or> mo_expires r \<le> now then False
      else case soc_pct of
             None \<Rightarrow> False
           | Some soc \<Rightarrow> if soc < 0 \<or> 100 < soc then False else soc + 1/1000000000 < mo_target_soc r)"

datatype end_cause = EndTarget | EndDeadline

definition mo_end_cause :: "must_charge_override \<Rightarrow> instant \<Rightarrow> real option \<Rightarrow> end_cause option" where
  "mo_end_cause r now soc_pct =
     (if (case soc_pct of None \<Rightarrow> False | Some soc \<Rightarrow> mo_target_soc r \<le> soc + 1/1000000000)
      then Some EndTarget
      else if mo_deadline r \<le> now \<or> mo_expires r \<le> now then Some EndDeadline else None)"

definition mo_seconds_remaining :: "must_charge_override \<Rightarrow> instant \<Rightarrow> int" where
  "mo_seconds_remaining r now =
     (if mo_deadline r \<le> now then 0 else max 0 (py_int (total_seconds (mo_deadline r - now))))"

definition mo_from_stored :: "(string \<times> json) list \<Rightarrow> must_charge_override option" where
  "mo_from_stored raw =
     (if raw = [] then None
      else
        (case (json_float (json_get raw KEY_TARGET), json_datetime (json_str (json_get raw KEY_DEADLINE)),
               json_datetime (json_str (json_get raw KEY_CREATED)),
               json_datetime (json_str (json_get raw KEY_EXPIRES))) of
           (Inr t, Inr (Aware d), Inr (Aware c), Inr (Aware e)) \<Rightarrow>
             if 0 \<le> t \<and> t \<le> 100
             then Some \<lparr>mo_target_soc = t, mo_deadline = d, mo_created = c, mo_expires = e\<rparr>
             else None
         | _ \<Rightarrow> None))"

definition validate_target_soc :: "json \<Rightarrow> real \<Rightarrow> message + real" where
  "validate_target_soc v floor_soc =
     (let low = floor_soc + 5 in
      case v of
        JNum target \<Rightarrow>
          if low - 1/1000000000 \<le> target \<and> target \<le> 100 then Inr target
          else Inl [Lit ''must be between '', Gen low, Lit '' and 100'']
      | _ \<Rightarrow> Inl [Lit ''must be a number''])"

text \<open>
  A deadline as the two parsers read the text: not a (non-blank) text, a clock time, an ISO time, or
  nothing either accepts. Turning a local wall clock into an instant needs the zone table, so that
  is an argument.
\<close>

datatype deadline_text = DNoText | DClock int int | DIso py_datetime | DOther

definition DEADLINE_FORMAT :: string where
  "DEADLINE_FORMAT = ''ISO-8601 with a timezone offset, or HH:MM (next occurrence in the site timezone)''"

definition clock_deadline :: "zone \<Rightarrow> (int \<Rightarrow> instant) \<Rightarrow> instant \<Rightarrow> int \<Rightarrow> int \<Rightarrow> instant" where
  "clock_deadline tz of_wall now h m =
     (let local = now + tz now;
          candidate = us_day * (local div us_day) + h * us_hour + m * us_minute
      in of_wall (if candidate \<le> local then candidate + us_day else candidate))"

definition parse_deadline ::
  "zone \<Rightarrow> (int \<Rightarrow> instant) \<Rightarrow> deadline_text \<Rightarrow> instant \<Rightarrow> message + instant" where
  "parse_deadline tz of_wall raw now =
     (let check = (\<lambda>d. if d \<le> now then Inl [Lit ''must be in the future and at most 24 hours ahead'']
                        else if MAX_AHEAD < d - now
                        then Inl [Lit ''must be in the future and at most 24 hours ahead'']
                        else Inr d);
          bad = Inl [Lit ''must be '', Lit DEADLINE_FORMAT]
      in case raw of
           DNoText \<Rightarrow> bad
         | DClock h m \<Rightarrow> check (clock_deadline tz of_wall now h m)
         | DIso (Aware d) \<Rightarrow> check d
         | DIso (Naive _) \<Rightarrow> bad
         | DOther \<Rightarrow> bad)"

text \<open>
  The resident must-charge record never charges without cause and never lingers: while it makes
  the planner add charge slots it has no reason to end, its deadline and expiry lie ahead and the
  known SoC is below the target; with a known, sane SoC it is either engaging or ended; and every
  deadline the parser accepts is in the future by at most 24 hours.
\<close>

theorem must_charge_engages_or_ends:
  "(mo_engages r now soc \<longrightarrow>
      mo_end_cause r now soc = None \<and> now < mo_deadline r \<and> now < mo_expires r \<and>
      (\<exists>s. soc = Some s \<and> 0 \<le> s \<and> s \<le> 100 \<and> s < mo_target_soc r)) \<and>
   (soc = Some x \<and> 0 \<le> x \<and> x \<le> 100 \<longrightarrow> mo_engages r now soc = (mo_end_cause r now soc = None)) \<and>
   (parse_deadline tz of_wall raw now = Inr d \<longrightarrow> now < d \<and> d - now \<le> 24 * us_hour)"
proof (intro conjI)
  show "mo_engages r now soc \<longrightarrow>
      mo_end_cause r now soc = None \<and> now < mo_deadline r \<and> now < mo_expires r \<and>
      (\<exists>s. soc = Some s \<and> 0 \<le> s \<and> s \<le> 100 \<and> s < mo_target_soc r)"
    by (auto simp: mo_engages_def mo_end_cause_def split: if_splits option.splits)
  show "soc = Some x \<and> 0 \<le> x \<and> x \<le> 100 \<longrightarrow> mo_engages r now soc = (mo_end_cause r now soc = None)"
    by (auto simp: mo_engages_def mo_end_cause_def)
  show "parse_deadline tz of_wall raw now = Inr d \<longrightarrow> now < d \<and> d - now \<le> 24 * us_hour"
    by (auto simp: parse_deadline_def Let_def MAX_AHEAD_def
          split: deadline_text.splits py_datetime.splits if_splits)
qed

theorem must_charge_engages_or_ends_witness:
  "let r = \<lparr>mo_target_soc = 80, mo_deadline = 3600000000, mo_created = 0, mo_expires = 3600000000\<rparr>
   in mo_engages r 0 (Some 20) \<and> mo_end_cause r 0 (Some 20) = None \<and>
      mo_end_cause r 0 (Some 80) \<noteq> None"
  using must_charge_engages_or_ends
    [of "\<lparr>mo_target_soc = 80, mo_deadline = 3600000000, mo_created = 0, mo_expires = 3600000000\<rparr>"
        0 "Some 20" 20 utc "\<lambda>w. w" DOther 0]
  by (simp add: mo_engages_def mo_end_cause_def)

end
