(* ===== verification/BatteryDriver.thy ===== *)
theory BatteryDriver
  imports EnergyDomain
begin

section \<open>The battery port and its in-memory drivers (\<open>ems/sources/battery.py\<close>)\<close>

text \<open>
  The only writer to the battery. A driver is a pair of functions over its own state: \<open>apply\<close>
  commands a physical mode and answers whether the device accepted it, refused it or timed out
  (\<open>BatteryWriteUnconfirmed\<close>); \<open>current_mode\<close> reads the mode back. The locale \<open>battery_port\<close> states
  what a controller may rely on; the mock and the failing mock of the repository provide it.
\<close>

subsection \<open>Intents to modes\<close>

definition intent_to_mode_map :: "battery_intent \<rightharpoonup> physical_mode" where
  "intent_to_mode_map =
     [ALLOW_SELF_CONSUMPTION \<mapsto> AUTO, GRID_CHARGE_TO_TARGET \<mapsto> CHARGE, HOLD_RESERVE \<mapsto> IDLE,
      DISCHARGE_FOR_LOAD \<mapsto> AUTO]"

definition intent_to_mode :: "battery_intent \<Rightarrow> bool \<Rightarrow> bool \<Rightarrow> physical_mode" where
  "intent_to_mode intent allow_export_discharge car_session =
     (if intent = DISCHARGE_FOR_LOAD then (if car_session then DISCHARGE else AUTO)
      else if intent = EXPORT_FOR_PROFIT
      then (if allow_export_discharge then DISCHARGE else AUTO)
      else the (intent_to_mode_map intent))"

text \<open>Every intent the lookup is reached with is a key of the table, so it cannot raise.\<close>

lemma intent_to_mode_total:
  "intent \<noteq> EXPORT_FOR_PROFIT \<Longrightarrow> intent_to_mode_map intent \<noteq> None"
  by (cases intent) (simp_all add: intent_to_mode_map_def)

lemma intent_to_mode_simps [simp]:
  "intent_to_mode ALLOW_SELF_CONSUMPTION a c = AUTO"
  "intent_to_mode GRID_CHARGE_TO_TARGET a c = CHARGE"
  "intent_to_mode HOLD_RESERVE a c = IDLE"
  "intent_to_mode DISCHARGE_FOR_LOAD a False = AUTO"
  "intent_to_mode DISCHARGE_FOR_LOAD a True = DISCHARGE"
  "intent_to_mode EXPORT_FOR_PROFIT True c = DISCHARGE"
  "intent_to_mode EXPORT_FOR_PROFIT False c = AUTO"
  by (simp_all add: intent_to_mode_def intent_to_mode_map_def)

lemma intent_to_mode_discharge_iff:
  "intent_to_mode i a c = DISCHARGE \<longleftrightarrow>
     (i = DISCHARGE_FOR_LOAD \<and> c) \<or> (i = EXPORT_FOR_PROFIT \<and> a)"
  by (cases i; cases a; cases c) simp_all

lemma intent_to_mode_charge_iff: "intent_to_mode i a c = CHARGE \<longleftrightarrow> i = GRID_CHARGE_TO_TARGET"
  by (cases i; cases a; cases c) simp_all

subsection \<open>The port\<close>

datatype apply_result = Accepted | Refused | Unconfirmed | Raised

record 'd driver =
  drv_apply :: "'d \<Rightarrow> physical_mode \<Rightarrow> real option \<Rightarrow> real option \<Rightarrow> apply_result \<times> 'd"
  drv_mode :: "'d \<Rightarrow> py_error + physical_mode"

text \<open>
  What the control layer relies on: an accepted command is the mode the device then reports. Nothing
  is promised about a write that timed out, nor about a refused one: a device may refuse the third
  register of a command after it took the first two.
\<close>

locale battery_port =
  fixes drv :: "'d driver"
  assumes accepted_mode:
      "drv_apply drv d m ts pw = (Accepted, d') \<Longrightarrow> drv_mode drv d' = Inr m"
begin

text \<open>A list of commands the device accepts leaves it in the last one.\<close>

lemma accepted_run_mode:
  assumes "\<And>d c. fst (drv_apply drv d (fst c) (fst (snd c)) (snd (snd c))) = Accepted"
    and "cs \<noteq> []"
  shows "drv_mode drv (foldl (\<lambda>d c. snd (drv_apply drv d (fst c) (fst (snd c)) (snd (snd c)))) d cs)
         = Inr (fst (last cs))"
  using assms(2)
proof (induction cs arbitrary: d)
  case Nil
  then show ?case by simp
next
  case (Cons c cs)
  show ?case
  proof (cases cs)
    case Nil
    have "drv_apply drv d (fst c) (fst (snd c)) (snd (snd c))
            = (Accepted, snd (drv_apply drv d (fst c) (fst (snd c)) (snd (snd c))))"
      using assms(1) [of d c] by (metis prod.collapse)
    then show ?thesis using accepted_mode Nil by simp
  next
    case (Cons c' cs')
    then show ?thesis using Cons.IH by simp
  qed
qed

end

subsection \<open>The mock drivers\<close>

record mock_driver =
  md_armed :: bool
  md_transport :: bool                \<comment> \<open>a write transport was injected\<close>
  md_calls :: "(physical_mode \<times> real option \<times> real option) list"  \<comment> \<open>what the transport saw\<close>
  md_mode :: physical_mode
  md_last_target_soc :: "real option"
  md_last_power_w :: "real option"
  md_capabilities :: capability_report

definition mock_capabilities :: capability_report where
  "mock_capabilities =
     \<lparr>cap_services = [''charge'', ''discharge''],
      cap_energy_mode_options = [''self_consumed_prioritized'', ''real_time_control''],
      cap_has_standby = True, cap_has_grid_charge_switch = True, cap_p1_paired = True,
      cap_max_charge_w = 4000, cap_max_discharge_w = 4000,
      cap_supports_discharge_control = True, cap_supports_grid_charge = True,
      cap_supports_standby = True, cap_min_power_w = 50, cap_min_target_soc = 5\<rparr>"

definition mock_init :: "bool \<Rightarrow> bool \<Rightarrow> mock_driver" where
  "mock_init armed transport =
     \<lparr>md_armed = armed, md_transport = transport, md_calls = [], md_mode = AUTO,
      md_last_target_soc = None, md_last_power_w = None, md_capabilities = mock_capabilities\<rparr>"

definition configure_power_limits :: "'z mock_driver_scheme \<Rightarrow> real \<Rightarrow> real \<Rightarrow> 'z mock_driver_scheme" where
  "configure_power_limits d c w =
     d\<lparr>md_capabilities := (md_capabilities d)\<lparr>cap_max_charge_w := c, cap_max_discharge_w := w\<rparr>\<rparr>"

definition mock_apply ::
  "'z mock_driver_scheme \<Rightarrow> physical_mode \<Rightarrow> real option \<Rightarrow> real option
     \<Rightarrow> apply_result \<times> 'z mock_driver_scheme" where
  "mock_apply d m target_soc power_w =
     (if md_transport d \<and> \<not> md_armed d then (Refused, d)
      else
        let d1 = (if md_transport d then d\<lparr>md_calls := md_calls d @ [(m, target_soc, power_w)]\<rparr>
                  else d)
        in (Accepted, d1\<lparr>md_mode := m, md_last_target_soc := target_soc,
                         md_last_power_w := power_w\<rparr>))"

definition mock_driver_port :: "mock_driver driver" where
  "mock_driver_port = \<lparr>drv_apply = mock_apply, drv_mode = (\<lambda>d. Inr (md_mode d))\<rparr>"

text \<open>\<open>FailingMockBatteryDriver\<close>: the first \<open>fail_times\<close> commands are not confirmed.\<close>

record failing_mock = mock_driver +
  fm_remaining :: int

definition failing_init :: "int \<Rightarrow> failing_mock" where
  "failing_init fail_times = mock_driver.extend (mock_init False False) \<lparr>fm_remaining = fail_times\<rparr>"

definition failing_apply ::
  "failing_mock \<Rightarrow> physical_mode \<Rightarrow> real option \<Rightarrow> real option \<Rightarrow> apply_result \<times> failing_mock" where
  "failing_apply d m target_soc power_w =
     (if 0 < fm_remaining d then (Refused, d\<lparr>fm_remaining := fm_remaining d - 1\<rparr>)
      else mock_apply d m target_soc power_w)"

definition failing_driver_port :: "failing_mock driver" where
  "failing_driver_port = \<lparr>drv_apply = failing_apply, drv_mode = (\<lambda>d. Inr (md_mode d))\<rparr>"

lemma mock_apply_Accepted: "mock_apply d m ts pw = (Accepted, d') \<Longrightarrow> md_mode d' = m"
  by (auto simp: mock_apply_def Let_def split: if_splits)

interpretation mock: battery_port mock_driver_port
  by unfold_locales (auto simp: mock_driver_port_def dest: mock_apply_Accepted)

interpretation failing: battery_port failing_driver_port
  by unfold_locales
     (auto simp: failing_driver_port_def failing_apply_def split: if_splits
       dest: mock_apply_Accepted)

text \<open>
  The arming gate of the mock write path: with a write transport injected and the driver not
  armed, no sequence of commands reaches the transport and the mode never changes.
\<close>

theorem unarmed_never_writes:
  assumes "md_transport d" and "\<not> md_armed d"
  shows "foldl (\<lambda>d c. snd (mock_apply d (fst c) (fst (snd c)) (snd (snd c)))) d cs = d"
  using assms by (induction cs) (simp_all add: mock_apply_def)

theorem unarmed_never_writes_witness:
  "foldl (\<lambda>d c. snd (mock_apply d (fst c) (fst (snd c)) (snd (snd c)))) (mock_init False True)
     [(CHARGE, Some 100, Some 2400), (AUTO, None, None)] = mock_init False True"
  by (rule unarmed_never_writes) (simp_all add: mock_init_def)

end
