(* ===== verification/ControlGuards.thy ===== *)
theory ControlGuards
  imports BatteryDriver JsonValue
begin

section \<open>Guards on the commanded intent\<close>

text \<open>
  \<open>ems/battery_limits.py\<close> (SoC floors), \<open>ems/control/failsafe.py\<close>, \<open>ems/control/safety.py\<close> (the floor
  anti-flap latch) and \<open>ems/control/car_mode.py\<close> (the battery while the car charges).
\<close>

subsection \<open>SoC floors\<close>

definition DEFAULT_MIN_TARGET_SOC_PCT :: real where
  "DEFAULT_MIN_TARGET_SOC_PCT = 5"

definition device_min_target_soc :: "capability_report option \<Rightarrow> real" where
  "device_min_target_soc capability =
     (case capability of
        Some c \<Rightarrow> if 0 < cap_min_target_soc c then cap_min_target_soc c else DEFAULT_MIN_TARGET_SOC_PCT
      | None \<Rightarrow> DEFAULT_MIN_TARGET_SOC_PCT)"

definition soc_control_floor :: "real \<Rightarrow> capability_report option \<Rightarrow> real option \<Rightarrow> real" where
  "soc_control_floor min_reserve_soc capability min_target_soc =
     (let device = (case min_target_soc of
                      Some m \<Rightarrow> if 0 < m then m else device_min_target_soc capability
                    | None \<Rightarrow> device_min_target_soc capability)
      in max 0 (max min_reserve_soc device))"

definition effective_floor_soc :: "real \<Rightarrow> capability_report option \<Rightarrow> real option \<Rightarrow> real" where
  "effective_floor_soc min_reserve_soc capability min_target_soc =
     soc_control_floor min_reserve_soc capability min_target_soc"

definition effective_floor_from_settings :: "real option \<Rightarrow> capability_report option \<Rightarrow> real" where
  "effective_floor_from_settings min_reserve_setting capability =
     effective_floor_soc (opt_else min_reserve_setting 10) capability None"

lemma device_floor_pos: "0 < device_min_target_soc capability"
  by (auto simp: device_min_target_soc_def DEFAULT_MIN_TARGET_SOC_PCT_def split: option.split)

lemma soc_control_floor_bounds:
  "0 < soc_control_floor r capability m" "r \<le> soc_control_floor r capability m"
  using device_floor_pos [of capability]
  by (auto simp: soc_control_floor_def Let_def less_max_iff_disj split: option.split)

subsection \<open>Fail-safe\<close>

definition failsafe_intent :: "battery_intent \<Rightarrow> string \<Rightarrow> battery_intent \<times> message option" where
  "failsafe_intent intent data_quality =
     (if data_quality = ''unsafe'' \<and> intent \<noteq> ALLOW_SELF_CONSUMPTION
      then (ALLOW_SELF_CONSUMPTION,
            Some [Lit ''data quality unsafe -- holding self-consumption (fail-safe)''])
      else (intent, None))"

subsection \<open>Floor anti-flap\<close>

definition FLOOR_RESUME_PP :: real where
  "FLOOR_RESUME_PP = 3"

definition resolve_floor_anti_flap ::
  "battery_intent \<Rightarrow> real option \<Rightarrow> real \<Rightarrow> physical_mode option \<Rightarrow> bool \<Rightarrow> real
     \<Rightarrow> battery_intent \<times> message option \<times> bool" where
  "resolve_floor_anti_flap intent soc_pct floor_pct observed holding resume_pp =
     (if intent \<notin> {HOLD_RESERVE, ALLOW_SELF_CONSUMPTION} then (intent, None, False)
      else case soc_pct of
        None \<Rightarrow> (intent, None, False)
      | Some soc \<Rightarrow>
          (let in_band = (if holding then soc < floor_pct + resume_pp else soc \<le> floor_pct)
           in if \<not> in_band then (intent, None, False)
              else
                (let (latched, name) =
                       (if observed = Some IDLE then (HOLD_RESERVE, ''idle'')
                        else if observed = Some AUTO then (ALLOW_SELF_CONSUMPTION, ''auto'')
                        else (ALLOW_SELF_CONSUMPTION, ''auto''));
                     safe = (observed = Some AUTO \<or> observed = Some IDLE)
                 in if latched = intent \<and> safe then (latched, None, True)
                    else if safe
                    then (latched,
                          Some [Lit ''SoC at reserve floor ('', Fixed 0 soc, Lit ''% <= '', Fixed 0 floor_pct,
                                Lit ''%) -- staying in '', Lit name,
                                Lit '' (floor anti-flap); not switching hold_reserve<->self-consumption''],
                          True)
                    else (latched,
                          Some [Lit ''SoC at reserve floor ('', Fixed 0 soc, Lit ''% <= '', Fixed 0 floor_pct,
                                Lit ''%) -- entering '', Lit name,
                                Lit '' as the single floor-safe mode (anti-flap; prefer AUTO over idle at the floor)''],
                          True))))"

definition reserve_reached :: "real \<Rightarrow> real \<Rightarrow> real \<Rightarrow> bool" where
  "reserve_reached soc_pct reserve_pct margin_pp = (soc_pct \<le> reserve_pct + margin_pp)"

definition dwell_elapsed :: "instant \<Rightarrow> instant option \<Rightarrow> duration \<Rightarrow> bool" where
  "dwell_elapsed now last_at dwell = (case last_at of None \<Rightarrow> True | Some t \<Rightarrow> dwell \<le> now - t)"

definition switch_cap_reached :: "int \<Rightarrow> int \<Rightarrow> bool" where
  "switch_cap_reached switches_today max_switches = (max_switches \<le> switches_today)"

text \<open>
  The loop the latch sits in: each cycle brings a planned intent and a SoC; the device is put in the
  mode of the intent that leaves the latch.
\<close>

fun floor_run :: "real \<Rightarrow> bool \<Rightarrow> physical_mode \<Rightarrow> (battery_intent \<times> real) list \<Rightarrow> physical_mode list" where
  "floor_run floor_pct holding m [] = []"
| "floor_run floor_pct holding m ((i, soc) # cs) =
     (let (i', _, h') = resolve_floor_anti_flap i (Some soc) floor_pct (Some m) holding FLOOR_RESUME_PP;
          m' = intent_to_mode i' False False
      in m' # floor_run floor_pct h' m' cs)"

lemma anti_flap_in_band:
  assumes "i \<in> {HOLD_RESERVE, ALLOW_SELF_CONSUMPTION}"
    and "if h then soc < f + FLOOR_RESUME_PP else soc \<le> f"
  shows "fst (resolve_floor_anti_flap i (Some soc) f (Some m) h FLOOR_RESUME_PP) =
           (if m = IDLE then HOLD_RESERVE else ALLOW_SELF_CONSUMPTION)"
    and "snd (snd (resolve_floor_anti_flap i (Some soc) f (Some m) h FLOOR_RESUME_PP))"
  using assms by (auto simp: resolve_floor_anti_flap_def Let_def split: if_splits)

lemma floor_run_length: "length (floor_run f h m cs) = length cs"
  by (induction cs arbitrary: h m) (auto simp: split_beta Let_def)

lemma floor_run_held:
  assumes "\<forall>(i, soc)\<in>set cs. i \<in> {HOLD_RESERVE, ALLOW_SELF_CONSUMPTION} \<and> soc < f + FLOOR_RESUME_PP"
    and "m' \<in> set (floor_run f True m cs)"
  shows "m' = (if m = IDLE then IDLE else AUTO)"
  using assms
proof (induction cs arbitrary: m)
  case Nil
  then show ?case by simp
next
  case (Cons c cs)
  obtain i soc where c: "c = (i, soc)" by (cases c)
  obtain i' r h' where res: "resolve_floor_anti_flap i (Some soc) f (Some m) True FLOOR_RESUME_PP = (i', r, h')"
    by (metis prod_cases3)
  have i': "i' = (if m = IDLE then HOLD_RESERVE else ALLOW_SELF_CONSUMPTION)" "h'"
    using anti_flap_in_band [of i True soc f m] Cons.prems(1) res by (auto simp: c)
  let ?m = "if m = IDLE then IDLE else AUTO"
  have run: "floor_run f True m (c # cs) = ?m # floor_run f True ?m cs"
    using i' by (simp add: c res)
  from Cons.prems(1) have rest: "\<forall>(i, soc)\<in>set cs. i \<in> {HOLD_RESERVE, ALLOW_SELF_CONSUMPTION} \<and> soc < f + FLOOR_RESUME_PP"
    by simp
  from Cons.prems(2) run have "m' = ?m \<or> m' \<in> set (floor_run f True ?m cs)" by simp
  with Cons.IH [OF rest, of ?m] show ?case by (auto split: if_splits)
qed

text \<open>
  No overnight flapping at the reserve floor: once a cycle finds the SoC at or below the reserve,
  then through any sequence of hold and self-consumption plans, as long as the SoC has not recovered
  three points above the reserve, the battery stays in one single mode: IDLE if it was idle, AUTO in
  every other case.
\<close>

theorem floor_latch_no_flap:
  assumes "i0 \<in> {HOLD_RESERVE, ALLOW_SELF_CONSUMPTION}" and "soc0 \<le> f"
    and "\<forall>(i, soc)\<in>set cs. i \<in> {HOLD_RESERVE, ALLOW_SELF_CONSUMPTION} \<and> soc < f + FLOOR_RESUME_PP"
  shows "\<forall>m'\<in>set (floor_run f holding m ((i0, soc0) # cs)). m' = (if m = IDLE then IDLE else AUTO)"
proof -
  obtain i' r h' where res: "resolve_floor_anti_flap i0 (Some soc0) f (Some m) holding FLOOR_RESUME_PP = (i', r, h')"
    by (metis prod_cases3)
  have "if holding then soc0 < f + FLOOR_RESUME_PP else soc0 \<le> f"
    using assms(2) by (simp add: FLOOR_RESUME_PP_def)
  from anti_flap_in_band [OF assms(1) this, of m] res
  have i': "i' = (if m = IDLE then HOLD_RESERVE else ALLOW_SELF_CONSUMPTION)" "h'" by auto
  then show ?thesis
    by (auto simp: res dest: floor_run_held [OF assms(3)] split: if_splits)
qed

theorem floor_latch_no_flap_witness:
  "floor_run 5 False IDLE [(HOLD_RESERVE, 5), (ALLOW_SELF_CONSUMPTION, 6), (HOLD_RESERVE, 7)]
     = [IDLE, IDLE, IDLE]"
proof -
  let ?r = "floor_run 5 False IDLE [(HOLD_RESERVE, 5), (ALLOW_SELF_CONSUMPTION, 6), (HOLD_RESERVE, 7)]"
  have "\<forall>m'\<in>set ?r. m' = (if IDLE = IDLE then IDLE else AUTO)"
    by (rule floor_latch_no_flap) (simp_all add: FLOOR_RESUME_PP_def)
  moreover have "length ?r = 3" by (simp only: floor_run_length list.size)
  ultimately have "?r = replicate 3 IDLE" by (intro replicate_eqI) (simp_all only: simp_thms if_True)
  then show ?thesis by (simp only: numeral_3_eq_3 replicate.simps)
qed

subsection \<open>The battery while the car charges\<close>

record car_mode_action =
  ca_action :: string
  ca_power_w :: "real option"
  ca_reason :: message
  ca_recommand :: bool
  ca_reserve_hold :: bool

definition car_action :: "string \<Rightarrow> real option \<Rightarrow> message \<Rightarrow> bool \<Rightarrow> bool \<Rightarrow> car_mode_action" where
  "car_action a p r rec hold =
     \<lparr>ca_action = a, ca_power_w = p, ca_reason = r, ca_recommand = rec, ca_reserve_hold = hold\<rparr>"

lemma car_action_simps [simp]:
  "ca_action (car_action a p r rec h) = a" "ca_power_w (car_action a p r rec h) = p"
  "ca_reason (car_action a p r rec h) = r" "ca_recommand (car_action a p r rec h) = rec"
  "ca_reserve_hold (car_action a p r rec h) = h"
  by (simp_all add: car_action_def)

definition PREDICT_FLOOR_W :: real where "PREDICT_FLOOR_W = 150"
definition PREDICT_CAP_W :: real where "PREDICT_CAP_W = 3000"
definition SETPOINT_STEP_W :: real where "SETPOINT_STEP_W = 50"
definition STATIC_FLOOR_W :: real where "STATIC_FLOOR_W = 100"
definition MATCH_FLOOR_W :: real where "MATCH_FLOOR_W = 150"
definition RESERVE_ENTER_PP :: real where "RESERVE_ENTER_PP = 1"
definition RESERVE_RESUME_PP :: real where "RESERVE_RESUME_PP = 3"

lemmas car_mode_consts =
  PREDICT_FLOOR_W_def PREDICT_CAP_W_def SETPOINT_STEP_W_def STATIC_FLOOR_W_def MATCH_FLOOR_W_def
  RESERVE_ENTER_PP_def RESERVE_RESUME_PP_def

text \<open>Weekday (Monday 0) and hour of a wall clock, in microseconds; 1970-01-01 was a Thursday.\<close>

definition wall_bucket :: "int \<Rightarrow> int \<times> int" where
  "wall_bucket w = ((w div us_day + 3) mod 7, (w mod us_day) div us_hour)"

definition bucket :: "zone \<Rightarrow> instant \<Rightarrow> int \<times> int" where
  "bucket tz t = wall_bucket (t + tz t)"

text \<open>Adding an hour to an aware \<open>datetime\<close> moves its wall clock, so the loop runs on that.\<close>

function hour_buckets :: "int \<Rightarrow> int \<Rightarrow> (int \<times> int) list" where
  "hour_buckets t e = (if t < e then wall_bucket t # hour_buckets (t + us_hour) e else [])"
  by auto
termination by (relation "measure (\<lambda>(t, e). nat (e - t))") auto

declare hour_buckets.simps [simp del]

definition horizon_buckets :: "zone \<Rightarrow> instant \<Rightarrow> real \<Rightarrow> (int \<times> int) list" where
  "horizon_buckets tz now hours =
     (let w = now + tz now
      in wall_bucket w # hour_buckets w (w + py_round0 (hours * 3600000000)))"

definition parse_utc :: "json \<Rightarrow> instant option" where
  "parse_utc ts =
     (case json_datetime ts of
        Inr (Aware t) \<Rightarrow> Some t
      | Inr (Naive t) \<Rightarrow> Some t
      | Inl _ \<Rightarrow> None)"

definition matched_load :: "zone \<Rightarrow> (int \<times> int) list \<Rightarrow> (string \<times> json) list \<Rightarrow> real option" where
  "matched_load tz targets row =
     (case parse_utc (json_get row ''slot_start'') of
        None \<Rightarrow> None
      | Some t \<Rightarrow>
          if json_get row ''mean_non_ev_load_w'' = JNull then None
          else if bucket tz t \<in> set targets
          then (case json_float (json_get row ''mean_non_ev_load_w'') of Inr x \<Rightarrow> Some x | Inl _ \<Rightarrow> None)
          else None)"

definition predict_house_load_w ::
  "zone \<Rightarrow> (string \<times> json) list list \<Rightarrow> real \<Rightarrow> instant \<Rightarrow> real \<Rightarrow> real" where
  "predict_house_load_w tz rows profile_expected_w now horizon_hours =
     (let matched = List.map_filter (matched_load tz (horizon_buckets tz now horizon_hours)) rows;
          expected = (if matched = [] then profile_expected_w
                      else sum_list matched / real (length matched));
          clamped = clamp expected PREDICT_FLOOR_W PREDICT_CAP_W
      in of_int (py_round0 (clamped / SETPOINT_STEP_W)) * SETPOINT_STEP_W)"

lemma predict_house_load_bounds:
  "150 \<le> predict_house_load_w tz rows p now h \<and> predict_house_load_w tz rows p now h \<le> 3000"
proof -
  have "3 \<le> py_round0 (clamp x 150 3000 / 50) \<and> py_round0 (clamp x 150 3000 / 50) \<le> 60" for x
  proof
    have "py_round0 (of_int 3) \<le> py_round0 (clamp x 150 3000 / 50)"
      by (rule py_round0_mono) (simp add: clamp_def)
    then show "3 \<le> py_round0 (clamp x 150 3000 / 50)" by (simp only: py_round0_of_int)
    have "py_round0 (clamp x 150 3000 / 50) \<le> py_round0 (of_int 60)"
      by (rule py_round0_mono) (simp add: clamp_def)
    then show "py_round0 (clamp x 150 3000 / 50) \<le> 60" by (simp only: py_round0_of_int)
  qed
  then have r: "3 \<le> real_of_int (py_round0 (clamp x 150 3000 / 50))"
    "real_of_int (py_round0 (clamp x 150 3000 / 50)) \<le> 60" for x
    by (metis of_int_le_iff of_int_numeral)+
  show ?thesis
    unfolding predict_house_load_w_def car_mode_consts Let_def
    using r [of "if List.map_filter (matched_load tz (horizon_buckets tz now h)) rows = [] then p
                 else sum_list (List.map_filter (matched_load tz (horizon_buckets tz now h)) rows) /
                      real (length (List.map_filter (matched_load tz (horizon_buckets tz now h)) rows))"]
    by linarith
qed

definition decide_car_mode_action ::
  "string \<Rightarrow> bool \<Rightarrow> real \<Rightarrow> real \<Rightarrow> real \<Rightarrow> real \<Rightarrow> real \<Rightarrow> real option \<Rightarrow> real \<Rightarrow> bool \<Rightarrow> car_mode_action" where
  "decide_car_mode_action mode car_charging soc_pct min_reserve_soc max_discharge_w static_w
       predicted_house_w current_setpoint_w rebond_threshold_w reserve_holding =
     (if \<not> car_charging
      then car_action ''none'' None [Lit ''car not charging -- normal planning applies''] False False
      else if mode \<notin> {''static_discharge'', ''match_home_load''}
      then car_action ''hold'' None
             [Lit ''car charging -- holding the battery so it won't discharge into the car (solar + grid cover the car)'']
             True False
      else if (if reserve_holding then soc_pct < min_reserve_soc + RESERVE_RESUME_PP
               else soc_pct \<le> min_reserve_soc + RESERVE_ENTER_PP)
      then car_action ''hold'' None
             [Lit ''battery at reserve -- holding; grid covers the car and house''] True True
      else
        (let (power, reason) =
           (if mode = ''static_discharge''
            then (let power = clamp static_w STATIC_FLOOR_W max_discharge_w
                  in (power,
                      if predicted_house_w < static_w
                      then [Lit ''discharging '', Fixed 0 power, Lit '' W -- above the predicted house load (~'',
                            Fixed 0 predicted_house_w, Lit '' W), so part of this feeds the car -- your setting'']
                      else [Lit ''discharging '', Fixed 0 power,
                            Lit '' W to cover the house while the grid feeds the car'']))
            else (let power = clamp predicted_house_w MATCH_FLOOR_W max_discharge_w
                  in (power, [Lit ''covering the house (~'', Fixed 0 power,
                              Lit '' W predicted) while the grid feeds the car''])));
             recommand = (case current_setpoint_w of
                            None \<Rightarrow> True
                          | Some w \<Rightarrow> rebond_threshold_w < \<bar>power - w\<bar>)
         in car_action ''discharge'' (Some power) reason recommand False))"

text \<open>
  While the car charges the battery is protected: a discharge is ordered only above the reserve
  (at least three points above it when the reserve hold was on, more than one point otherwise), never
  above the discharge limit, only in the two modes the user opted into; and in the mode that follows
  the predicted house load, with the prediction of \<open>predict_house_load_w\<close>, never above that
  prediction, so the battery does not feed the car.
\<close>

theorem car_discharge_is_bounded:
  assumes "decide_car_mode_action mode charging soc reserve max_w static_w predicted setpoint thr holding = act"
    and "ca_action act = ''discharge''" and "150 \<le> max_w"
  shows "\<exists>p. ca_power_w act = Some p \<and> charging \<and> mode \<in> {''static_discharge'', ''match_home_load''} \<and>
           (if holding then reserve + 3 \<le> soc else reserve + 1 < soc) \<and> 100 \<le> p \<and> p \<le> max_w \<and>
           (mode = ''match_home_load'' \<and> predicted = predict_house_load_w tz rows profile now h
              \<longrightarrow> p \<le> predicted)"
proof -
  note b = predict_house_load_bounds [of tz rows profile now h]
  have ch: "charging" "mode \<in> {''static_discharge'', ''match_home_load''}"
    "\<not> (if holding then soc < reserve + 3 else soc \<le> reserve + 1)"
    using assms(1,2) by (auto simp: decide_car_mode_action_def car_mode_consts split: if_splits)
  define p where "p = (if mode = ''static_discharge'' then clamp static_w 100 max_w else clamp predicted 150 max_w)"
  have "ca_power_w act = Some p"
    using assms(1) ch unfolding p_def
    by (cases holding) (auto simp: decide_car_mode_action_def car_mode_consts Let_def)
  moreover have "100 \<le> p" "p \<le> max_w" using assms(3) by (auto simp: p_def clamp_def)
  moreover have "mode = ''match_home_load'' \<and> predicted = predict_house_load_w tz rows profile now h \<longrightarrow> p \<le> predicted"
    using b by (auto simp: p_def clamp_def)
  ultimately show ?thesis using ch by (auto split: if_splits)
qed

theorem car_discharge_is_bounded_witness:
  "let act = decide_car_mode_action ''match_home_load'' True 50 10 2400 0
               (predict_house_load_w utc [] 420 0 2) None 500 False
   in \<exists>p. ca_power_w act = Some p \<and> 100 \<le> p \<and> p \<le> predict_house_load_w utc [] 420 0 2"
proof -
  let ?act = "decide_car_mode_action ''match_home_load'' True 50 10 2400 0
               (predict_house_load_w utc [] 420 0 2) None 500 False"
  have "ca_action ?act = ''discharge''"
    by (simp add: decide_car_mode_action_def car_mode_consts Let_def)
  from car_discharge_is_bounded [OF refl this, of utc "[]" 420 0 2]
  show ?thesis by auto
qed

end
