(* ===== verification/DecisionEngine.thy ===== *)
theory DecisionEngine
  imports Overrides ControlGuards
begin

section \<open>The control decision (\<open>ems/control/decision.py\<close>)\<close>

text \<open>
  Which intent the loop hands to the mode controller, with what energy contract. The engine owns no
  control state; what it is given as callbacks (data quality, the validator, the plan, the price
  horizon, the car-mode action) are fields of one record of inputs, read at the decision's instant.
  The validator is a function of the plan, since an override is materialised as a plan first.
\<close>

record decision_inputs =
  di_quality :: string
  di_override :: override
  di_validate :: "plan \<Rightarrow> plan_validation"
  di_prices_unavailable :: bool                  \<comment> \<open>\<open>prices_unavailable_since\<close> is not None\<close>
  di_plan :: "plan option"
  di_horizon :: "(bool \<times> message) option"       \<comment> \<open>price horizon status: ok, reason\<close>
  di_car_action :: "car_mode_action option"
  di_car_session :: bool
  di_export_armed :: bool
  di_min_reserve_soc :: real
  di_max_charge_w :: real
  di_max_discharge_w :: real

record effective =
  ef_intent :: "battery_intent option"
  ef_reason :: "message option"
  ef_override_active :: bool
  ef_target_soc :: "real option"
  ef_power_w :: "real option"
  ef_validation :: "plan_validation option"
  ef_car_action :: "car_mode_action option"

subsection \<open>Resolving the intent\<close>

text \<open>The state of \<open>effective_intent\<close> before the car guard; \<open>None\<close> is its early return.\<close>

record resolved =
  rs_intent :: battery_intent
  rs_reason :: message
  rs_override_active :: bool
  rs_slot :: "plan_slot option"
  rs_validation :: "plan_validation option"
  rs_target_soc :: "real option"
  rs_power_w :: "real option"

definition finding_note :: "plan_validation \<Rightarrow> string \<Rightarrow> message" where
  "finding_note v d = (case first_unsafe v of Some f \<Rightarrow> fd_message f | None \<Rightarrow> [Lit d])"

definition override_contract :: "decision_inputs \<Rightarrow> battery_intent \<Rightarrow> real option \<times> real option" where
  "override_contract di i =
     (if i = GRID_CHARGE_TO_TARGET then (Some 100, Some (di_max_charge_w di))
      else if i = EXPORT_FOR_PROFIT \<and> di_export_armed di
      then (Some (di_min_reserve_soc di), Some (di_max_discharge_w di))
      else (None, None))"

definition resolve_override :: "decision_inputs \<Rightarrow> instant \<Rightarrow> battery_intent \<Rightarrow> instant \<Rightarrow> py_error + resolved" where
  "resolve_override di now i until =
     (let (t, w) = override_contract di i in
      bind_res (ov_as_plan (di_override di) now t w (Some (di_min_reserve_soc di))) (\<lambda>p.
      let v = di_validate di p in
      if \<not> pv_ok v \<and> i \<noteq> ALLOW_SELF_CONSUMPTION
      then Inr \<lparr>rs_intent = ALLOW_SELF_CONSUMPTION,
                rs_reason = [Lit ''manual override held -- ''] @ finding_note v ''override failed validation''
                            @ [Lit ''; holding self-consumption until '', Clock until],
                rs_override_active = True, rs_slot = None, rs_validation = Some v,
                rs_target_soc = None, rs_power_w = None\<rparr>
      else Inr \<lparr>rs_intent = i,
                rs_reason = [Lit ''manual override: '', Lit (intent_value i), Lit '' until '', Clock until],
                rs_override_active = True, rs_slot = None, rs_validation = Some v,
                rs_target_soc = t, rs_power_w = w\<rparr>))"

definition hold_self :: "message \<Rightarrow> plan_validation option \<Rightarrow> resolved" where
  "hold_self r v =
     \<lparr>rs_intent = ALLOW_SELF_CONSUMPTION, rs_reason = r, rs_override_active = False, rs_slot = None,
      rs_validation = v, rs_target_soc = None, rs_power_w = None\<rparr>"

definition resolve_plan :: "decision_inputs \<Rightarrow> instant \<Rightarrow> resolved option" where
  "resolve_plan di now =
     (if di_prices_unavailable di
      then Some (hold_self [Lit ''holding self-consumption -- live Tibber prices unavailable''] None)
      else case di_plan di of
        None \<Rightarrow>
          (case di_horizon di of
             Some (ok, r) \<Rightarrow>
               if \<not> ok
               then Some (hold_self ([Lit ''holding self-consumption -- incomplete prices: ''] @ r) None)
               else None
           | None \<Rightarrow> None)
      | Some p \<Rightarrow>
          (case intent_at p now of
             None \<Rightarrow> None
           | Some cur \<Rightarrow>
               (let v = di_validate di p in
                if \<not> pv_ok v
                then Some (hold_self ([Lit ''holding self-consumption -- '']
                             @ finding_note v ''plan failed validation'') (Some v))
                else (let (safe, fs_reason) = failsafe_intent (sl_intent cur) (di_quality di)
                      in Some \<lparr>rs_intent = safe, rs_reason = opt_else fs_reason (sl_reason cur),
                               rs_override_active = False, rs_slot = Some cur, rs_validation = Some v,
                               rs_target_soc = None, rs_power_w = None\<rparr>))))"

definition resolve_intent :: "decision_inputs \<Rightarrow> instant \<Rightarrow> py_error + resolved option" where
  "resolve_intent di now =
     (if ov_active (di_override di) now
      then (case (ov_intent (di_override di), ov_expires_at (di_override di)) of
              (Some i, Some e) \<Rightarrow> bind_res (resolve_override di now i e) (\<lambda>r. Inr (Some r))
            | _ \<Rightarrow> Inl AssertionError)
      else Inr (resolve_plan di now))"

subsection \<open>The car guard\<close>

definition car_guard ::
  "decision_inputs \<Rightarrow> battery_intent \<Rightarrow> message \<Rightarrow> battery_intent \<times> message \<times> car_mode_action option" where
  "car_guard di intent reason =
     (if intent \<notin> {DISCHARGE_FOR_LOAD, ALLOW_SELF_CONSUMPTION, EXPORT_FOR_PROFIT}
      then (intent, reason, None)
      else case di_car_action di of
        None \<Rightarrow> (intent, reason, None)
      | Some act \<Rightarrow>
          if intent = EXPORT_FOR_PROFIT
          then (HOLD_RESERVE,
                [Lit ''car charging -- holding the battery (export paused so it won't feed the car)''], None)
          else if ca_action act = ''discharge''
          then (if di_quality di = ''unsafe''
                then (HOLD_RESERVE,
                      [Lit ''car charging -- holding the battery so it won't discharge into the car (sensor data is unsafe, so EMS won't discharge on an untrusted level)''],
                      None)
                else (DISCHARGE_FOR_LOAD, ca_reason act, Some act))
          else if ca_action act = ''hold''
          then (if ca_reserve_hold act \<and> di_car_session di
                then (HOLD_RESERVE, ca_reason act, Some act)
                else (HOLD_RESERVE, ca_reason act, None))
          else (intent, reason, None))"

subsection \<open>The energy contract and the result\<close>

definition slot_contract ::
  "decision_inputs \<Rightarrow> resolved \<Rightarrow> battery_intent \<Rightarrow> car_mode_action option \<Rightarrow> real option \<times> real option" where
  "slot_contract di rs intent car =
     (if (case car of Some a \<Rightarrow> ca_action a = ''discharge'' | None \<Rightarrow> False)
      then (Some (di_min_reserve_soc di), ca_power_w (the car))
      else if rs_override_active rs then (rs_target_soc rs, rs_power_w rs)
      else case rs_slot rs of
        None \<Rightarrow> (None, None)
      | Some cur \<Rightarrow>
          if intent = sl_intent cur
          then (if intent = GRID_CHARGE_TO_TARGET then (sl_target_soc cur, sl_power_w cur)
                else if intent = EXPORT_FOR_PROFIT \<and> di_export_armed di
                then (sl_floor_soc cur, sl_power_w cur)
                else (None, None))
          else (None, None))"

definition one_unit_cap :: "decision_inputs \<Rightarrow> resolved \<Rightarrow> battery_intent \<Rightarrow> real option \<Rightarrow> real option" where
  "one_unit_cap di rs intent power_w =
     (case rs_validation rs of
        None \<Rightarrow> power_w
      | Some v \<Rightarrow>
          if has_finding ''capability_unknown_conservative'' v
          then (let w = (if power_w = None \<and> intent = GRID_CHARGE_TO_TARGET then Some (di_max_charge_w di)
                         else if power_w = None \<and> intent = EXPORT_FOR_PROFIT then Some (di_max_discharge_w di)
                         else power_w)
                in map_option (\<lambda>x. min x ONE_UNIT_POWER_W) w)
          else power_w)"

definition export_note :: "decision_inputs \<Rightarrow> battery_intent \<Rightarrow> message \<Rightarrow> message" where
  "export_note di intent reason =
     (let suffix = [Lit ''export plan-only (live forced discharge not armed); holding vendor AUTO'']
      in if intent = EXPORT_FOR_PROFIT \<and> \<not> di_export_armed di
         then (if reason = [] then suffix
               else if text_has ''plan-only'' reason then reason
               else reason @ [Lit '' -- ''] @ suffix)
         else reason)"

definition effective_none :: effective where
  "effective_none = \<lparr>ef_intent = None, ef_reason = None, ef_override_active = False,
     ef_target_soc = None, ef_power_w = None, ef_validation = None, ef_car_action = None\<rparr>"

definition effective_of :: "decision_inputs \<Rightarrow> resolved \<Rightarrow> effective" where
  "effective_of di rs =
     (let (intent, reason, car) = car_guard di (rs_intent rs) (rs_reason rs);
          (target_soc, power_w) = slot_contract di rs intent car;
          power_w = one_unit_cap di rs intent power_w;
          reason = export_note di intent reason
      in \<lparr>ef_intent = Some intent, ef_reason = Some reason,
          ef_override_active = rs_override_active rs,
          ef_target_soc = target_soc, ef_power_w = power_w,
          ef_validation = rs_validation rs, ef_car_action = car\<rparr>)"

definition effective_intent :: "decision_inputs \<Rightarrow> instant \<Rightarrow> py_error + effective" where
  "effective_intent di now =
     bind_res (resolve_intent di now) (\<lambda>r.
       case r of None \<Rightarrow> Inr effective_none | Some rs \<Rightarrow> Inr (effective_of di rs))"

definition demo_inputs :: decision_inputs where
  "demo_inputs = \<lparr>di_quality = ''complete'', di_override = NO_OVERRIDE,
     di_validate = (\<lambda>p. \<lparr>pv_status = VALID, pv_findings = []\<rparr>), di_prices_unavailable = True,
     di_plan = None, di_horizon = None, di_car_action = None, di_car_session = False,
     di_export_armed = False, di_min_reserve_soc = 10, di_max_charge_w = 4800,
     di_max_discharge_w = 4800\<rparr>"

subsection \<open>Properties\<close>

lemma effective_intent_total: "\<exists>e. effective_intent di now = Inr e"
proof -
  have "\<exists>r. resolve_intent di now = Inr r"
  proof (cases "ov_active (di_override di) now")
    case True
    from ov_active_set [OF True] obtain i e where ie: "ov_intent (di_override di) = Some i"
      "ov_expires_at (di_override di) = Some e" by auto
    obtain p where "ov_as_plan (di_override di) now (fst (override_contract di i))
        (snd (override_contract di i)) (Some (di_min_reserve_soc di)) = Inr p"
      using ov_as_plan_ok [OF True] by blast
    with True ie show ?thesis
      by (auto simp: resolve_intent_def resolve_override_def split_beta Let_def)
  qed (simp add: resolve_intent_def)
  then show ?thesis by (auto simp: effective_intent_def split: option.split)
qed

lemma resolve_plan_slot:
  "resolve_plan di now = Some rs \<Longrightarrow> rs_override_active rs = False \<and>
     (rs_intent rs = ALLOW_SELF_CONSUMPTION \<or>
      (\<exists>p cur. di_plan di = Some p \<and> \<not> di_prices_unavailable di \<and> intent_at p now = Some cur \<and>
         rs_slot rs = Some cur \<and> rs_intent rs = sl_intent cur \<and> pv_ok (di_validate di p) \<and>
         di_quality di \<noteq> ''unsafe''))"
  by (auto simp: resolve_plan_def hold_self_def failsafe_intent_def Let_def
        split: if_splits option.splits prod.splits)

lemma resolve_override_cases:
  "resolve_override di now i e = Inr rs \<Longrightarrow> rs_override_active rs \<and>
     (rs_intent rs = ALLOW_SELF_CONSUMPTION \<or>
      rs_intent rs = i \<and> (\<exists>p. ov_as_plan (di_override di) now (rs_target_soc rs) (rs_power_w rs)
                               (Some (di_min_reserve_soc di)) = Inr p \<and> pv_ok (di_validate di p)))"
  by (auto simp: resolve_override_def Let_def bind_res_Inr_iff split: if_splits prod.splits)

lemma car_guard_risky:
  "fst (car_guard di i r) \<in> {GRID_CHARGE_TO_TARGET, EXPORT_FOR_PROFIT} \<Longrightarrow> fst (car_guard di i r) = i"
  "fst (car_guard di i r) = DISCHARGE_FOR_LOAD \<Longrightarrow>
     i = DISCHARGE_FOR_LOAD \<or>
     (\<exists>act. di_car_action di = Some act \<and> ca_action act = ''discharge'' \<and> di_quality di \<noteq> ''unsafe'')"
  by (auto simp: car_guard_def split: if_splits option.splits)

lemma risky_intent_cases:
  "\<exists>e. effective_intent di now = Inr e \<and>
     (\<forall>i. ef_intent e = Some i \<and> i \<in> {GRID_CHARGE_TO_TARGET, EXPORT_FOR_PROFIT, DISCHARGE_FOR_LOAD} \<longrightarrow>
        (\<exists>p cur. di_plan di = Some p \<and> intent_at p now = Some cur \<and> sl_intent cur = i \<and>
                 \<not> di_prices_unavailable di \<and> di_quality di \<noteq> ''unsafe'' \<and> pv_ok (di_validate di p)) \<or>
        (ov_active (di_override di) now \<and> ov_intent (di_override di) = Some i \<and>
         (\<exists>t w p. ov_as_plan (di_override di) now t w (Some (di_min_reserve_soc di)) = Inr p \<and>
                  pv_ok (di_validate di p))) \<or>
        (i = DISCHARGE_FOR_LOAD \<and> di_quality di \<noteq> ''unsafe'' \<and>
         (\<exists>act. di_car_action di = Some act \<and> ca_action act = ''discharge'')))"
proof -
  obtain e where e: "effective_intent di now = Inr e" using effective_intent_total by blast
  have "(\<exists>p cur. di_plan di = Some p \<and> intent_at p now = Some cur \<and> sl_intent cur = i \<and>
                 \<not> di_prices_unavailable di \<and> di_quality di \<noteq> ''unsafe'' \<and> pv_ok (di_validate di p)) \<or>
        (ov_active (di_override di) now \<and> ov_intent (di_override di) = Some i \<and>
         (\<exists>t w p. ov_as_plan (di_override di) now t w (Some (di_min_reserve_soc di)) = Inr p \<and>
                  pv_ok (di_validate di p))) \<or>
        (i = DISCHARGE_FOR_LOAD \<and> di_quality di \<noteq> ''unsafe'' \<and>
         (\<exists>act. di_car_action di = Some act \<and> ca_action act = ''discharge''))"
    if i: "ef_intent e = Some i" "i \<in> {GRID_CHARGE_TO_TARGET, EXPORT_FOR_PROFIT, DISCHARGE_FOR_LOAD}" for i
  proof -
    from e i obtain rs where rs: "resolve_intent di now = Inr (Some rs)" "e = effective_of di rs"
      by (auto simp: effective_intent_def bind_res_Inr_iff effective_none_def split: option.splits)
    have g: "fst (car_guard di (rs_intent rs) (rs_reason rs)) = i"
      using i(1) rs(2) by (simp add: effective_of_def split_beta Let_def)
    have "rs_intent rs = i \<or> (i = DISCHARGE_FOR_LOAD \<and> di_quality di \<noteq> ''unsafe'' \<and>
            (\<exists>act. di_car_action di = Some act \<and> ca_action act = ''discharge''))"
      using car_guard_risky [of di "rs_intent rs" "rs_reason rs"] g i(2) by (cases i) auto
    moreover have "rs_intent rs = i \<Longrightarrow> ?thesis"
    proof (cases "ov_active (di_override di) now")
      case True
      assume ri: "rs_intent rs = i"
      from ov_active_set [OF True] obtain j x where "ov_intent (di_override di) = Some j"
        "ov_expires_at (di_override di) = Some x" by auto
      with True rs(1) have "resolve_override di now j x = Inr rs"
        by (auto simp: resolve_intent_def bind_res_Inr_iff)
      from resolve_override_cases [OF this] ri i(2) True \<open>ov_intent _ = _\<close> show ?thesis by auto
    next
      case False
      assume ri: "rs_intent rs = i"
      from False rs(1) have "resolve_plan di now = Some rs" by (simp add: resolve_intent_def)
      from resolve_plan_slot [OF this] ri i(2) show ?thesis by auto
    qed
    ultimately show ?thesis by blast
  qed
  with e show ?thesis by blast
qed

text \<open>A car action that leaves the decision is the one the car mode gave, and a discharge only on usable data.\<close>

lemma effective_car_action:
  assumes "effective_intent di now = Inr e" and "ef_car_action e = Some a"
  shows "di_car_action di = Some a" "ca_action a = ''discharge'' \<Longrightarrow> di_quality di \<noteq> ''unsafe''"
proof -
  from assms obtain rs where "e = effective_of di rs"
    by (auto simp: effective_intent_def bind_res_Inr_iff effective_none_def split: option.splits)
  with assms(2) have car: "snd (snd (car_guard di (rs_intent rs) (rs_reason rs))) = Some a"
    by (simp add: effective_of_def split_beta Let_def)
  then show "di_car_action di = Some a"
    by (auto simp: car_guard_def split: option.splits if_splits)
  from car show "ca_action a = ''discharge'' \<Longrightarrow> di_quality di \<noteq> ''unsafe''"
    by (auto simp: car_guard_def split: option.splits if_splits)
qed

text \<open>
  C3. The decision never acts on bad data. It always returns (no branch raises, for any override,
  plan and validator), and when it returns an intent that charges from the grid or exports, that
  intent is either the planned one, with prices available, data not unsafe and a plan the validator
  accepted, or the operator's, in a plan the validator accepted. A forced discharge needs the same,
  or a car-mode discharge on data that is not unsafe.
\<close>

theorem risky_intents_are_validated:
  "\<exists>e. effective_intent di now = Inr e \<and>
     (\<forall>i. ef_intent e = Some i \<and> i \<in> {GRID_CHARGE_TO_TARGET, EXPORT_FOR_PROFIT, DISCHARGE_FOR_LOAD} \<longrightarrow>
        (\<exists>p cur. di_plan di = Some p \<and> intent_at p now = Some cur \<and> sl_intent cur = i \<and>
                 \<not> di_prices_unavailable di \<and> di_quality di \<noteq> ''unsafe'' \<and> pv_ok (di_validate di p)) \<or>
        (ov_active (di_override di) now \<and> ov_intent (di_override di) = Some i \<and>
         (\<exists>t w p. ov_as_plan (di_override di) now t w (Some (di_min_reserve_soc di)) = Inr p \<and>
                  pv_ok (di_validate di p))) \<or>
        (i = DISCHARGE_FOR_LOAD \<and> di_quality di \<noteq> ''unsafe'' \<and>
         (\<exists>act. di_car_action di = Some act \<and> ca_action act = ''discharge'')))"
  by (rule risky_intent_cases)

theorem risky_intents_are_validated_witness:
  "let di = demo_inputs\<lparr>di_override := \<lparr>ov_intent = Some GRID_CHARGE_TO_TARGET, ov_expires_at = Some 10\<rparr>\<rparr>
   in \<exists>e. effective_intent di 0 = Inr e \<and> ef_intent e = Some GRID_CHARGE_TO_TARGET \<and>
          (\<exists>t w p. ov_as_plan (di_override di) 0 t w (Some (di_min_reserve_soc di)) = Inr p \<and>
                   pv_ok (di_validate di p))"
proof -
  let ?di = "demo_inputs\<lparr>di_override := \<lparr>ov_intent = Some GRID_CHARGE_TO_TARGET, ov_expires_at = Some 10\<rparr>\<rparr>"
  from risky_intents_are_validated [of ?di 0] obtain e where e: "effective_intent ?di 0 = Inr e"
    and r: "\<forall>i. ef_intent e = Some i \<and> i \<in> {GRID_CHARGE_TO_TARGET, EXPORT_FOR_PROFIT, DISCHARGE_FOR_LOAD} \<longrightarrow>
        (\<exists>p cur. di_plan ?di = Some p \<and> intent_at p 0 = Some cur \<and> sl_intent cur = i \<and>
                 \<not> di_prices_unavailable ?di \<and> di_quality ?di \<noteq> ''unsafe'' \<and> pv_ok (di_validate ?di p)) \<or>
        (ov_active (di_override ?di) 0 \<and> ov_intent (di_override ?di) = Some i \<and>
         (\<exists>t w p. ov_as_plan (di_override ?di) 0 t w (Some (di_min_reserve_soc ?di)) = Inr p \<and>
                  pv_ok (di_validate ?di p))) \<or>
        (i = DISCHARGE_FOR_LOAD \<and> di_quality ?di \<noteq> ''unsafe'' \<and>
         (\<exists>act. di_car_action ?di = Some act \<and> ca_action act = ''discharge''))"
    by blast
  have i: "ef_intent e = Some GRID_CHARGE_TO_TARGET"
    using e by (auto simp: effective_intent_def resolve_intent_def resolve_override_def override_contract_def
      ov_as_plan_def ov_active_def ov_is_set_def demo_inputs_def pv_ok_def effective_of_def car_guard_def
      split_beta Let_def)
  have np: "di_plan ?di = None" by (simp add: demo_inputs_def)
  from spec [OF r, of GRID_CHARGE_TO_TARGET] i np
  have "\<exists>t w p. ov_as_plan (di_override ?di) 0 t w (Some (di_min_reserve_soc ?di)) = Inr p \<and>
          pv_ok (di_validate ?di p)" by auto
  with e i show ?thesis by (auto simp: Let_def)
qed

text \<open>
  The battery never leaks into the car. While the car-mode action is a hold, whatever path chose
  the intent (plan, override, price outage or incomplete prices), the decision is to hold or to charge
  from the grid, never self-consumption, forced discharge or export.
\<close>

theorem hold_while_car_charges:
  assumes "di_car_action di = Some act" and "ca_action act = ''hold''"
    and "effective_intent di now = Inr e" and "ef_intent e = Some i"
  shows "i = HOLD_RESERVE \<or> i = GRID_CHARGE_TO_TARGET"
proof -
  from assms(3,4) obtain rs where "e = effective_of di rs"
    by (auto simp: effective_intent_def bind_res_Inr_iff effective_none_def split: option.splits)
  then have "i = fst (car_guard di (rs_intent rs) (rs_reason rs))"
    using assms(4) by (simp add: effective_of_def split_beta Let_def)
  then show ?thesis using assms(1,2)
    by (cases "rs_intent rs") (auto simp: car_guard_def split: if_splits)
qed

theorem hold_while_car_charges_witness:
  "let di = demo_inputs\<lparr>di_car_action :=
              Some (decide_car_mode_action ''hold'' True 50 10 2400 0 300 None 500 False)\<rparr>
   in \<exists>e. effective_intent di 0 = Inr e \<and> ef_intent e = Some HOLD_RESERVE"
proof -
  let ?a = "decide_car_mode_action ''hold'' True 50 10 2400 0 300 None 500 False"
  let ?di = "demo_inputs\<lparr>di_car_action := Some ?a\<rparr>"
  have a: "ca_action ?a = ''hold''" by (simp add: decide_car_mode_action_def)
  have np: "resolve_intent ?di 0 =
      Inr (Some (hold_self [Lit ''holding self-consumption -- live Tibber prices unavailable''] None))"
    by (simp add: resolve_intent_def resolve_plan_def demo_inputs_def ov_active_def ov_is_set_def NO_OVERRIDE_def)
  obtain e where e: "effective_intent ?di 0 = Inr e" using effective_intent_total by blast
  then have ee: "e = effective_of ?di (hold_self [Lit ''holding self-consumption -- live Tibber prices unavailable''] None)"
    by (simp add: effective_intent_def np)
  obtain i where i: "ef_intent e = Some i" by (simp add: ee effective_of_def split_beta Let_def)
  have "i = HOLD_RESERVE \<or> i = GRID_CHARGE_TO_TARGET"
    by (rule hold_while_car_charges [OF _ a e i]) simp
  moreover have "i \<noteq> GRID_CHARGE_TO_TARGET"
    using i car_guard_risky(1) [of ?di ALLOW_SELF_CONSUMPTION "rs_reason (hold_self [Lit ''holding self-consumption -- live Tibber prices unavailable''] None)"]
    by (auto simp: ee effective_of_def split_beta Let_def hold_self_def)
  ultimately show ?thesis using e i by (auto simp: Let_def)
qed

text \<open>
  An unknown battery is asked for one unit of power at most: when the validation carries the
  unknown-capability finding, every power the decision commands (of a plan, an override or a car
  session) is at most 2400 W, and a grid-charge is always given a power.
\<close>

theorem unknown_capability_one_unit:
  assumes "effective_intent di now = Inr e" and "ef_validation e = Some v"
    and "has_finding ''capability_unknown_conservative'' v"
  shows "(\<forall>w. ef_power_w e = Some w \<longrightarrow> w \<le> 2400) \<and>
         (ef_intent e = Some GRID_CHARGE_TO_TARGET \<longrightarrow> ef_power_w e \<noteq> None)"
proof -
  from assms(1,2) obtain rs where e: "e = effective_of di rs"
    by (auto simp: effective_intent_def bind_res_Inr_iff effective_none_def split: option.splits)
  then have v: "rs_validation rs = Some v"
    using assms(2) by (simp add: effective_of_def split_beta Let_def)
  show ?thesis using v assms(3)
    by (auto simp: e effective_of_def split_beta Let_def one_unit_cap_def ONE_UNIT_POWER_W_def)
qed

theorem unknown_capability_one_unit_witness:
  "let v = \<lparr>pv_status = WARNING, pv_findings = [finding WARN ''capability_unknown_conservative'' []]\<rparr>;
       di = demo_inputs\<lparr>di_override := \<lparr>ov_intent = Some GRID_CHARGE_TO_TARGET, ov_expires_at = Some 10\<rparr>,
                        di_validate := (\<lambda>p. v)\<rparr>
   in \<exists>e w. effective_intent di 0 = Inr e \<and> ef_power_w e = Some w \<and> w \<le> 2400"
proof -
  let ?v = "\<lparr>pv_status = WARNING, pv_findings = [finding WARN ''capability_unknown_conservative'' []]\<rparr>"
  let ?di = "demo_inputs\<lparr>di_override := \<lparr>ov_intent = Some GRID_CHARGE_TO_TARGET, ov_expires_at = Some 10\<rparr>,
                        di_validate := (\<lambda>p. ?v)\<rparr>"
  obtain e where e: "effective_intent ?di 0 = Inr e" using effective_intent_total by blast
  have r: "ef_validation e = Some ?v \<and> ef_intent e = Some GRID_CHARGE_TO_TARGET"
    using e by (auto simp: effective_intent_def resolve_intent_def resolve_override_def override_contract_def
      ov_as_plan_def ov_active_def ov_is_set_def demo_inputs_def pv_ok_def effective_of_def car_guard_def
      split_beta Let_def)
  from unknown_capability_one_unit [OF e, of ?v] r
  have "(\<forall>w. ef_power_w e = Some w \<longrightarrow> w \<le> 2400)" "ef_power_w e \<noteq> None"
    by (auto simp: has_finding_def)
  with e show ?thesis by (auto simp: Let_def)
qed

end
