(* ===== verification/ChargeCommitment.thy ===== *)
theory ChargeCommitment
  imports JsonValue
begin

section \<open>Restart-safe charge commitments (\<open>ems/control/charge_commitment.py\<close>)\<close>

text \<open>
  An applied grid-charge contract that survives a restart: its persisted form, the tolerant reader,
  and the decision whether to resume, hold or abort it at boot.
\<close>

record charge_commitment =
  cc_target_soc :: real
  cc_deadline :: instant
  cc_reason :: json             \<comment> \<open>a text, as \<open>str\<close> gives it\<close>
  cc_applied_at :: instant
  cc_power_w :: "real option"
  cc_intent :: string

definition commitment_to_dict :: "charge_commitment \<Rightarrow> (string \<times> json) list" where
  "commitment_to_dict c =
     [(''intent'', JStr (cc_intent c)),
      (''target_soc'', JNum (cc_target_soc c)),
      (''deadline'', JTime (Aware (cc_deadline c))),
      (''reason'', cc_reason c),
      (''applied_at'', JTime (Aware (cc_applied_at c))),
      (''power_w'', json_opt JNum (cc_power_w c))]"

text \<open>
  The body of \<open>from_dict\<close>'s \<open>try\<close>: the fields in order, a missing key (\<open>KeyError\<close>) or an unreadable
  value being the exceptions it catches. \<open>None\<close> stands for the early return on a foreign intent.
\<close>

definition json_index :: "(string \<times> json) list \<Rightarrow> string \<Rightarrow> py_error + json" where
  "json_index kvs k = (case map_of kvs k of None \<Rightarrow> Inl ValueError | Some v \<Rightarrow> Inr v)"

definition commitment_fields ::
  "(string \<times> json) list
     \<Rightarrow> py_error + (real \<times> py_datetime \<times> json \<times> py_datetime \<times> real option) option" where
  "commitment_fields kvs =
     (if json_str (py_or (json_get kvs ''intent'') (JStr (intent_value GRID_CHARGE_TO_TARGET)))
           \<noteq> JStr (intent_value GRID_CHARGE_TO_TARGET)
      then Inr None
      else
        bind_res (json_index kvs ''target_soc'') (\<lambda>t.
        bind_res (json_float t) (\<lambda>target.
        bind_res (json_index kvs ''deadline'') (\<lambda>d.
        bind_res (json_datetime (json_str d)) (\<lambda>deadline.
        bind_res (json_index kvs ''applied_at'') (\<lambda>a.
        bind_res (json_datetime (json_str a)) (\<lambda>applied_at.
        let reason = json_str (py_or (json_get kvs ''reason'') (JStr ''grid charge commitment''));
            power_raw = json_get kvs ''power_w''
        in if power_raw = JNull then Inr (Some (target, deadline, reason, applied_at, None))
           else bind_res (json_float power_raw) (\<lambda>p.
                  Inr (Some (target, deadline, reason, applied_at, Some p))))))))))"

definition commitment_from_dict :: "json \<Rightarrow> charge_commitment option" where
  "commitment_from_dict raw =
     (case raw of
        JObj kvs \<Rightarrow>
          if kvs = [] then None
          else
            (case commitment_fields kvs of
               Inr (Some (target, Aware deadline, reason, Aware applied_at, power_w)) \<Rightarrow>
                 if 0 < target \<and> target \<le> 100
                 then Some \<lparr>cc_target_soc = target, cc_deadline = deadline, cc_reason = reason,
                            cc_applied_at = applied_at, cc_power_w = power_w,
                            cc_intent = intent_value GRID_CHARGE_TO_TARGET\<rparr>
                 else None
             | _ \<Rightarrow> None)
      | _ \<Rightarrow> None)"

text \<open>What the code puts into a commitment it builds.\<close>

definition commitment_ok :: "charge_commitment \<Rightarrow> bool" where
  "commitment_ok c =
     (0 < cc_target_soc c \<and> cc_target_soc c \<le> 100 \<and>
      cc_intent c = intent_value GRID_CHARGE_TO_TARGET \<and>
      truthy (cc_reason c) \<and> json_str (cc_reason c) = cc_reason c)"

lemma commitment_from_dict_ok: "commitment_from_dict raw = Some c \<Longrightarrow> 0 < cc_target_soc c \<and> cc_target_soc c \<le> 100"
  by (auto simp: commitment_from_dict_def split: json.splits sum.splits option.splits if_splits
        prod.splits py_datetime.splits)

lemma commitment_read_back:
  assumes "commitment_ok c"
  shows "commitment_from_dict (JObj (commitment_to_dict c)) = Some c"
  using assms
  by (cases "cc_power_w c")
     (simp_all add: commitment_from_dict_def commitment_fields_def commitment_to_dict_def
        commitment_ok_def json_get_def json_index_def py_or_def)

subsection \<open>The verdict at boot\<close>

datatype commitment_action = CNone | CResume | CAbort | CHold

record commitment_verdict =
  cv_action :: commitment_action
  cv_reason :: message
  cv_commitment :: "charge_commitment option"

definition verdict :: "commitment_action \<Rightarrow> message \<Rightarrow> charge_commitment \<Rightarrow> commitment_verdict" where
  "verdict a r c = \<lparr>cv_action = a, cv_reason = r, cv_commitment = Some c\<rparr>"

definition evaluate_commitment ::
  "charge_commitment option \<Rightarrow> instant \<Rightarrow> real option \<Rightarrow> bool \<Rightarrow> bool \<Rightarrow> string \<Rightarrow> bool
     \<Rightarrow> commitment_verdict" where
  "evaluate_commitment commitment now soc_pct dry_run armed data_quality grace_over =
     (case commitment of
        None \<Rightarrow> \<lparr>cv_action = CNone, cv_reason = [Lit ''no active charge commitment''],
                 cv_commitment = None\<rparr>
      | Some c \<Rightarrow>
          if cc_deadline c \<le> now
          then verdict CAbort [Lit ''commitment_aborted: expired -- deadline '',
                               Iso (cc_deadline c), Lit '' passed''] c
          else if (case soc_pct of None \<Rightarrow> False | Some s \<Rightarrow> cc_target_soc c \<le> s)
          then verdict CAbort [Lit ''commitment_completed: target_soc_reached -- SoC '',
                               Fixed 0 (the soc_pct), Lit ''% >= target '',
                               Fixed 0 (cc_target_soc c), Lit ''%''] c
          else if dry_run
          then verdict CAbort [Lit ''commitment_aborted: dry_run -- would have resumed GRID_CHARGE to '',
                               Fixed 0 (cc_target_soc c), Lit ''% by '', Iso (cc_deadline c)] c
          else if \<not> armed
          then verdict CAbort [Lit ''commitment_aborted: unarmed -- driver not armed; cannot resume GRID_CHARGE''] c
          else if data_quality = ''unsafe''
          then verdict CAbort [Lit ''commitment_aborted: unsafe -- data quality unsafe; fail-safe AUTO (commitment cleared)''] c
          else if data_quality = ''price_fallback''
          then verdict CAbort [Lit ''commitment_aborted: price_fallback -- backup/display prices only; cannot resume GRID_CHARGE (commitment cleared)''] c
          else if \<not> grace_over
          then verdict CHold [Lit ''charge commitment held during startup grace (observe only)''] c
          else verdict CResume ([Lit ''resuming GRID_CHARGE commitment to '', Fixed 0 (cc_target_soc c),
                                Lit ''% by '', Iso (cc_deadline c), Lit '' -- '']
                               @ json_text (cc_reason c)) c)"

definition shutdown_preserve_reason :: "charge_commitment option \<Rightarrow> message option" where
  "shutdown_preserve_reason commitment =
     map_option (\<lambda>c. [Lit ''commitment_preserved: shutdown_restore -- battery restored to AUTO; GRID_CHARGE to '',
                      Fixed 0 (cc_target_soc c), Lit ''% by '', Iso (cc_deadline c),
                      Lit '' kept for resume on next boot'']) commitment"

lemma verdict_simps [simp]:
  "cv_action (verdict a r c) = a" "cv_commitment (verdict a r c) = Some c"
  "cv_reason (verdict a r c) = r"
  by (simp_all add: verdict_def)

text \<open>
  C40. What becomes of a persisted commitment after a restart, in every case. The gates are: its deadline
  is still ahead, the battery is not known to have reached the target, the system is live and armed, and
  the data is neither unsafe nor backup prices. It resumes exactly when all of them hold and the startup
  grace is over, and is held exactly when they hold and the grace is not over; with a gate closed it is
  aborted; and the verdict \<open>none\<close> is given exactly when nothing was stored. Every verdict names the
  commitment it is about.
\<close>

theorem resume_iff_all_gates:
  "(let v = evaluate_commitment commitment now soc_pct dry_run armed dq grace_over;
        gates = (\<lambda>c. now < cc_deadline c \<and>
                     (soc_pct = None \<or> (\<exists>s. soc_pct = Some s \<and> s < cc_target_soc c)) \<and>
                     \<not> dry_run \<and> armed \<and> dq \<noteq> ''unsafe'' \<and> dq \<noteq> ''price_fallback'')
    in (cv_action v = CResume \<longleftrightarrow> (\<exists>c. commitment = Some c \<and> gates c \<and> grace_over)) \<and>
       (cv_action v = CHold \<longleftrightarrow> (\<exists>c. commitment = Some c \<and> gates c \<and> \<not> grace_over)) \<and>
       (cv_action v = CAbort \<longleftrightarrow> (\<exists>c. commitment = Some c \<and> \<not> gates c)) \<and>
       (cv_action v = CNone \<longleftrightarrow> commitment = None) \<and>
       cv_commitment v = commitment)"
proof (cases commitment)
  case None
  then show ?thesis by (simp add: evaluate_commitment_def)
next
  case (Some c)
  then show ?thesis
    by (cases soc_pct) (auto simp: evaluate_commitment_def not_le Let_def)
qed

text \<open>
  Round trip of the persisted form: a commitment the code builds is read back exactly from its
  dictionary, and whatever the reader accepts (from any stored JSON) is a commitment with a target
  in \<open>(0, 100]\<close>, so a corrupt row can at worst lose the commitment, never install an impossible one.
\<close>

theorem commitment_round_trip:
  "(commitment_ok c \<longrightarrow> commitment_from_dict (JObj (commitment_to_dict c)) = Some c) \<and>
   (commitment_from_dict raw = Some d \<longrightarrow> 0 < cc_target_soc d \<and> cc_target_soc d \<le> 100)"
  using commitment_read_back commitment_from_dict_ok by blast

theorem commitment_round_trip_witness:
  "let c = \<lparr>cc_target_soc = 80, cc_deadline = 1000, cc_reason = JStr ''cheap window'',
            cc_applied_at = 0, cc_power_w = Some 2400,
            cc_intent = intent_value GRID_CHARGE_TO_TARGET\<rparr>
   in commitment_from_dict (JObj (commitment_to_dict c)) = Some c \<and> 0 < cc_target_soc c"
proof -
  let ?c = "\<lparr>cc_target_soc = 80, cc_deadline = 1000, cc_reason = JStr ''cheap window'',
             cc_applied_at = 0, cc_power_w = Some 2400,
             cc_intent = intent_value GRID_CHARGE_TO_TARGET\<rparr>"
  have ok: "commitment_ok ?c" by (simp add: commitment_ok_def)
  have a: "commitment_from_dict (JObj (commitment_to_dict ?c)) = Some ?c"
    using commitment_round_trip [of ?c JNull ?c] ok by blast
  show ?thesis
    using commitment_round_trip [of ?c "JObj (commitment_to_dict ?c)" ?c] a by simp
qed

end
