(* ===== verification/ModeController.thy ===== *)
theory ModeController
  imports BatteryDriver ChargeCommitment
begin

section \<open>The mode controller (\<open>ems/control/mode_controller.py\<close>)\<close>

text \<open>
  Turns an intent into at most one battery write, gated by dry-run, ownership, idempotency, minimum
  dwell and two daily switch budgets. \<open>preview\<close> reads, \<open>decide\<close> writes. The state passed through is
  the controller's record, the driver's state and, read only, the lifecycle; an exception that
  leaves \<open>decide\<close> is an \<open>Inl\<close> beside the state it leaves behind. The callback that persists the
  state is modelled by the list of snapshots handed to it.
\<close>

subsection \<open>State\<close>

datatype outcome =
    O_dry_run | O_not_controlling | O_idempotent | O_dwell | O_cap_reached | O_would_apply
  | O_applied | O_failed_recovered | O_failed_unrecovered | O_unconfirmed

record action_decision =
  ad_intent :: battery_intent
  ad_mode :: physical_mode
  ad_applied :: bool
  ad_outcome :: outcome
  ad_reason :: message
  ad_audit :: bool

definition action :: "battery_intent \<Rightarrow> physical_mode \<Rightarrow> bool \<Rightarrow> outcome \<Rightarrow> message \<Rightarrow> action_decision" where
  "action i m a out r =
     \<lparr>ad_intent = i, ad_mode = m, ad_applied = a, ad_outcome = out, ad_reason = r, ad_audit = True\<rparr>"

lemma action_simps [simp]:
  "ad_intent (action i m a out r) = i" "ad_mode (action i m a out r) = m"
  "ad_applied (action i m a out r) = a" "ad_outcome (action i m a out r) = out"
  "ad_audit (action i m a out r)"
  by (simp_all add: action_def)

record mode_controller =
  mc_dry_run :: bool
  mc_allow_export :: bool
  mc_export_probe_until :: "instant option"
  mc_max_switches :: int
  mc_max_commitments :: int
  mc_min_dwell :: duration
  mc_tz :: zone
  mc_switches_today :: int
  mc_commitments_today :: int
  mc_last_switch_at :: "py_datetime option"
  mc_counter_date :: "int option"
  mc_last_requested :: "physical_mode option"
  mc_last_confirmed :: "physical_mode option"
  mc_original_mode :: "physical_mode option"
  mc_unconfirmed :: bool
  mc_last_write_outcome :: "outcome option"
  mc_episode_key :: "(battery_intent \<times> physical_mode) option"
  mc_episode_at :: "instant option"
  mc_commitment :: "charge_commitment option"
  mc_persists :: bool                          \<comment> \<open>a callback was configured\<close>
  mc_persisted :: "(string \<times> json) list list"   \<comment> \<open>what it was given, latest first\<close>

subsection \<open>Persisted state\<close>

definition json_mode :: "physical_mode option \<Rightarrow> json" where
  "json_mode = json_opt (\<lambda>m. JStr (mode_value m))"

definition state_snapshot :: "mode_controller \<Rightarrow> (string \<times> json) list" where
  "state_snapshot c =
     [(''switches_today'', JNum (of_int (mc_switches_today c))),
      (''commitment_switches_today'', JNum (of_int (mc_commitments_today c))),
      (''last_switch_at'', json_opt JTime (mc_last_switch_at c)),
      (''counter_date'', json_opt JDate (mc_counter_date c)),
      (''last_requested_action'', json_mode (mc_last_requested c)),
      (''last_confirmed_action'', json_mode (mc_last_confirmed c)),
      (''original_vendor_mode'', json_mode (mc_original_mode c)),
      (''last_command_unconfirmed'', JBool (mc_unconfirmed c)),
      (''charge_commitment'', json_opt (\<lambda>k. JObj (commitment_to_dict k)) (mc_commitment c))]"

definition persist :: "mode_controller \<Rightarrow> mode_controller" where
  "persist c = (if mc_persists c then c\<lparr>mc_persisted := state_snapshot c # mc_persisted c\<rparr> else c)"

definition set_charge_commitment :: "mode_controller \<Rightarrow> charge_commitment option \<Rightarrow> mode_controller" where
  "set_charge_commitment c k = persist (c\<lparr>mc_commitment := k\<rparr>)"

definition clear_charge_commitment :: "mode_controller \<Rightarrow> mode_controller" where
  "clear_charge_commitment c =
     (if mc_commitment c \<noteq> None then persist (c\<lparr>mc_commitment := None\<rparr>) else c)"

definition mode_or_unknown :: "json \<Rightarrow> physical_mode option \<times> bool" where
  "mode_or_unknown v =
     (if \<not> truthy v then (None, False)
      else (case v of
              JStr s \<Rightarrow> (case mode_of s of Inr m \<Rightarrow> (Some m, False) | Inl _ \<Rightarrow> (None, True))
            | _ \<Rightarrow> (None, True)))"

text \<open>
  \<open>restore_state\<close>: the argument is nothing, the store's \<open>CONTROL_STATE_CORRUPT\<close> sentinel, or a JSON
  value. The fields are assigned one after the other, so a value that raises leaves the fields
  before it assigned; the handler then fails safe.
\<close>

datatype stored_state = SNone | SCorrupt | SValue json

definition restore_counters :: "(string \<times> json) list \<Rightarrow> mode_controller \<Rightarrow> mode_controller \<times> bool" where
  "restore_counters kvs c =
     (case json_int (py_or (json_get kvs ''switches_today'') (JNum 0)) of
        Inl _ \<Rightarrow> (c, False)
      | Inr n \<Rightarrow>
     (let c = c\<lparr>mc_switches_today := n\<rparr> in
      case json_int (py_or (json_get kvs ''commitment_switches_today'') (JNum 0)) of
        Inl _ \<Rightarrow> (c, False)
      | Inr k \<Rightarrow>
     (let c = c\<lparr>mc_commitments_today := k\<rparr>; lsa = json_get kvs ''last_switch_at'' in
      case (if truthy lsa then map_sum id Some (json_datetime lsa) else Inr None) of
        Inl _ \<Rightarrow> (c, False)
      | Inr d \<Rightarrow>
     (let c = c\<lparr>mc_last_switch_at := d\<rparr>; cd = json_get kvs ''counter_date'' in
      case (if truthy cd then map_sum id Some (json_date cd) else Inr None) of
        Inl _ \<Rightarrow> (c, False)
      | Inr day \<Rightarrow> (c\<lparr>mc_counter_date := day\<rparr>, True)))))"

definition restore_modes :: "(string \<times> json) list \<Rightarrow> mode_controller \<Rightarrow> mode_controller" where
  "restore_modes kvs c =
     (let (req, req_unknown) = mode_or_unknown (json_get kvs ''last_requested_action'');
          (conf, conf_unknown) = mode_or_unknown (json_get kvs ''last_confirmed_action'');
          (vendor, vendor_unknown) = mode_or_unknown (json_get kvs ''original_vendor_mode'');
          mode_unknown = (req_unknown \<or> conf_unknown \<or> vendor_unknown)
      in c\<lparr>mc_last_requested := req, mc_last_confirmed := conf, mc_original_mode := vendor,
           mc_unconfirmed :=
             (case json_get kvs ''last_command_unconfirmed'' of
                JBool b \<Rightarrow> if mode_unknown then True else b
              | _ \<Rightarrow> True),
           mc_commitment := commitment_from_dict (json_get kvs ''charge_commitment'')\<rparr>)"

definition restore_state :: "mode_controller \<Rightarrow> stored_state \<Rightarrow> mode_controller" where
  "restore_state c st =
     (case st of
        SCorrupt \<Rightarrow> c\<lparr>mc_unconfirmed := True\<rparr>
      | SNone \<Rightarrow> c
      | SValue v \<Rightarrow>
          (case v of
             JObj kvs \<Rightarrow>
               if kvs = [] then c
               else (let (c', ok) = restore_counters kvs c
                     in if ok then restore_modes kvs c'
                        else c'\<lparr>mc_unconfirmed := True, mc_commitment := None\<rparr>)
           | _ \<Rightarrow> c))"

subsection \<open>Mapping an intent, the export probe\<close>

definition export_probe_active :: "mode_controller \<Rightarrow> instant \<Rightarrow> bool" where
  "export_probe_active c now =
     (case mc_export_probe_until c of None \<Rightarrow> False | Some u \<Rightarrow> now < u)"

definition begin_export_probe :: "mode_controller \<Rightarrow> instant \<Rightarrow> mode_controller" where
  "begin_export_probe c u = c\<lparr>mc_export_probe_until := Some u\<rparr>"

definition clear_export_probe :: "mode_controller \<Rightarrow> mode_controller" where
  "clear_export_probe c = c\<lparr>mc_export_probe_until := None\<rparr>"

definition desired :: "mode_controller \<Rightarrow> battery_intent \<Rightarrow> bool \<Rightarrow> instant option \<Rightarrow> physical_mode" where
  "desired c intent car_session now =
     (let allow = mc_allow_export c;
          allow' = (if \<not> allow \<and> intent = EXPORT_FOR_PROFIT
                       \<and> (case now of None \<Rightarrow> False | Some t \<Rightarrow> export_probe_active c t)
                    then True else allow)
      in intent_to_mode intent allow' car_session)"

subsection \<open>Unconfirmed episodes\<close>

definition note_unconfirmed_episode ::
  "mode_controller \<Rightarrow> battery_intent \<Rightarrow> physical_mode \<Rightarrow> instant \<Rightarrow> mode_controller \<times> bool" where
  "note_unconfirmed_episode c intent m now =
     (if mc_episode_key c \<noteq> Some (intent, m)
         \<or> (case mc_episode_at c of None \<Rightarrow> True | Some t \<Rightarrow> 60 * us_minute \<le> now - t)
      then (c\<lparr>mc_episode_key := Some (intent, m), mc_episode_at := Some now\<rparr>, True)
      else (c, False))"

definition clear_unconfirmed_episode :: "mode_controller \<Rightarrow> mode_controller" where
  "clear_unconfirmed_episode c = c\<lparr>mc_episode_key := None, mc_episode_at := None\<rparr>"

subsection \<open>The gate\<close>

definition effective_switches :: "mode_controller \<Rightarrow> instant \<Rightarrow> int" where
  "effective_switches c now =
     (case mc_counter_date c of
        Some d \<Rightarrow> if d \<noteq> local_date (mc_tz c) now then 0 else mc_switches_today c
      | None \<Rightarrow> mc_switches_today c)"

definition effective_commitments :: "mode_controller \<Rightarrow> instant \<Rightarrow> int" where
  "effective_commitments c now =
     (case mc_counter_date c of
        Some d \<Rightarrow> if d \<noteq> local_date (mc_tz c) now then 0 else mc_commitments_today c
      | None \<Rightarrow> mc_commitments_today c)"

definition cap_block ::
  "mode_controller \<Rightarrow> battery_intent \<Rightarrow> physical_mode \<Rightarrow> instant \<Rightarrow> bool \<Rightarrow> action_decision option" where
  "cap_block c intent m now commitment =
     (if commitment
      then (let used = effective_commitments c now; cap = mc_max_commitments c
            in if cap \<le> used
               then Some (action intent m False O_cap_reached
                      [Lit ''commitment-limiet bereikt ('', Count used, Lit ''/'', Count cap,
                       Lit '' commitment-schakelingen vandaag); holding''])
               else None)
      else (let used = effective_switches c now; cap = mc_max_switches c
            in if cap \<le> used
               then Some (action intent m False O_cap_reached
                      [Lit ''daily switch cap reached ('', Count used, Lit ''/'', Count cap,
                       Lit '' used); holding''])
               else None))"

text \<open>The dwell comparison may raise: a restored \<open>last_switch_at\<close> can be naive.\<close>

definition dwell_block ::
  "mode_controller \<Rightarrow> battery_intent \<Rightarrow> physical_mode \<Rightarrow> instant \<Rightarrow> py_error + bool" where
  "dwell_block c intent m now =
     (case mc_last_switch_at c of
        None \<Rightarrow> Inr False
      | Some d \<Rightarrow> bind_res (py_sub (Aware now) d) (\<lambda>x. Inr (x < mc_min_dwell c)))"

record gate_flags =
  gf_manual :: bool
  gf_priority :: bool
  gf_force :: bool
  gf_commitment :: bool

definition gate ::
  "'d driver \<Rightarrow> 'd \<Rightarrow> lifecycle \<Rightarrow> mode_controller \<Rightarrow> battery_intent \<Rightarrow> instant \<Rightarrow> physical_mode
     \<Rightarrow> physical_mode option \<Rightarrow> gate_flags \<Rightarrow> py_error + action_decision option" where
  "gate drv dev lc c intent now m observed f =
     (if mc_dry_run c
      then Inr (Some (action intent m False O_dry_run
                        [Lit ''dry-run: would set '', Lit (mode_value m)]))
      else if \<not> can_command_at lc now
      then Inr (Some (action intent m False O_not_controlling [Lit ''not commanding'']))
      else bind_res (case observed of Some om \<Rightarrow> Inr om | None \<Rightarrow> drv_mode drv dev) (\<lambda>current.
        if m = current \<and> \<not> gf_force f
        then Inr (Some (action intent m False O_idempotent [Lit ''already in '', Lit (mode_value m)]))
        else if \<not> gf_force f \<and> m = CHARGE \<and> current = IDLE
                \<and> mc_last_requested c = Some CHARGE \<and> mc_last_confirmed c = Some CHARGE
        then Inr (Some (action intent m False O_idempotent
               [Lit ''holding active charge request (observed idle; not re-commanding)'']))
        else if gf_manual f \<or> gf_priority f \<or> m = AUTO then Inr None
        else bind_res (dwell_block c intent m now) (\<lambda>dwell.
          if dwell
          then Inr (Some (action intent m False O_dwell [Lit ''min dwell not elapsed; holding'']))
          else Inr (cap_block c intent m now (gf_commitment f)))))"

definition preview ::
  "'d driver \<Rightarrow> 'd \<Rightarrow> lifecycle \<Rightarrow> mode_controller \<Rightarrow> battery_intent \<Rightarrow> instant \<Rightarrow> real option
     \<Rightarrow> physical_mode option \<Rightarrow> bool \<Rightarrow> bool \<Rightarrow> bool \<Rightarrow> bool \<Rightarrow> py_error + action_decision" where
  "preview drv dev lc c intent now target_soc observed manual priority car_session commitment =
     (let m = desired c intent car_session (Some now) in
      bind_res (gate drv dev lc c intent now m observed
                  \<lparr>gf_manual = manual, gf_priority = priority, gf_force = False,
                   gf_commitment = commitment\<rparr>) (\<lambda>blocked.
      case blocked of
        Some d \<Rightarrow> Inr d
      | None \<Rightarrow>
          Inr (action intent m False O_would_apply
                 ([Lit ''would set '', Lit (mode_value m)] @
                  (case target_soc of
                     Some t \<Rightarrow> if m \<in> {CHARGE, DISCHARGE} then [Lit '' to '', Fixed 0 t, Lit ''%''] else []
                   | None \<Rightarrow> [])))))"

subsection \<open>The write path\<close>

definition record_switch ::
  "mode_controller \<Rightarrow> physical_mode \<Rightarrow> instant \<Rightarrow> bool \<Rightarrow> bool \<Rightarrow> mode_controller" where
  "record_switch c m now count_toward_cap commitment =
     (if count_toward_cap
      then (let c' = (if m \<noteq> AUTO
                      then (if commitment
                            then c\<lparr>mc_commitments_today := mc_commitments_today c + 1\<rparr>
                            else c\<lparr>mc_switches_today := mc_switches_today c + 1\<rparr>)
                      else c)
            in c'\<lparr>mc_last_switch_at := Some (Aware now)\<rparr>)
      else c)"

definition reset_counter_if_new_day :: "mode_controller \<Rightarrow> instant \<Rightarrow> mode_controller" where
  "reset_counter_if_new_day c now =
     (let today = local_date (mc_tz c) now
      in if mc_counter_date c \<noteq> Some today
         then c\<lparr>mc_switches_today := 0, mc_commitments_today := 0, mc_counter_date := Some today\<rparr>
         else c)"

text \<open>The mode the battery was in before the first command; a read that raises is ignored.\<close>

definition capture_original :: "'d driver \<Rightarrow> 'd \<Rightarrow> mode_controller \<Rightarrow> mode_controller" where
  "capture_original drv dev c =
     (if mc_original_mode c = None
      then (case drv_mode drv dev of Inr m \<Rightarrow> c\<lparr>mc_original_mode := Some m\<rparr> | Inl _ \<Rightarrow> c)
      else c)"

record decide_args =
  da_intent :: battery_intent
  da_target_soc :: "real option"
  da_power_w :: "real option"
  da_observed :: "physical_mode option"
  da_manual :: bool
  da_priority :: bool
  da_car_session :: bool
  da_force :: bool
  da_count_toward_cap :: bool
  da_commitment :: bool

definition da_flags :: "decide_args \<Rightarrow> gate_flags" where
  "da_flags a = \<lparr>gf_manual = da_manual a, gf_priority = da_priority a, gf_force = da_force a,
                 gf_commitment = da_commitment a\<rparr>"

text \<open>The three ways a write ends, on the controller state prepared by \<open>decide\<close>.\<close>

definition on_unconfirmed ::
  "mode_controller \<Rightarrow> decide_args \<Rightarrow> physical_mode \<Rightarrow> instant \<Rightarrow> mode_controller \<times> action_decision" where
  "on_unconfirmed c a m now =
     (let c = record_switch c m now (da_count_toward_cap a) (da_commitment a);
          c = c\<lparr>mc_unconfirmed := True, mc_last_write_outcome := Some O_unconfirmed\<rparr>;
          (c, audit) = note_unconfirmed_episode c (da_intent a) m now
      in (persist c,
          (action (da_intent a) m False O_unconfirmed
             [Lit (mode_value m),
              Lit '' unconfirmed -- device slow/unreachable; holding (not reverting), will re-verify next cycle''])
            \<lparr>ad_audit := audit\<rparr>))"

definition on_refused ::
  "mode_controller \<Rightarrow> decide_args \<Rightarrow> physical_mode \<Rightarrow> instant \<Rightarrow> bool \<Rightarrow> mode_controller \<times> action_decision" where
  "on_refused c a m now recovered =
     (let out = (if recovered then O_failed_recovered else O_failed_unrecovered);
          c = c\<lparr>mc_last_confirmed := (if recovered then Some AUTO else None),
                mc_unconfirmed := \<not> recovered, mc_last_write_outcome := Some out\<rparr>;
          c = record_switch c m now (da_count_toward_cap a) (da_commitment a);
          c = clear_unconfirmed_episode c
      in (persist c,
          action (da_intent a) AUTO recovered out
            (if recovered then [Lit (mode_value m), Lit '' unconfirmed -> reverted to AUTO'']
             else [Lit (mode_value m),
                   Lit '' unconfirmed AND AUTO recovery unconfirmed -- ALERT''])))"

definition on_accepted ::
  "mode_controller \<Rightarrow> decide_args \<Rightarrow> physical_mode \<Rightarrow> instant \<Rightarrow> mode_controller \<times> action_decision" where
  "on_accepted c a m now =
     (let c = record_switch c m now (da_count_toward_cap a) (da_commitment a);
          c = c\<lparr>mc_last_confirmed := Some m, mc_unconfirmed := False, mc_last_write_outcome := None\<rparr>;
          c = clear_unconfirmed_episode c
      in (persist c,
          action (da_intent a) m True O_applied [Lit ''set '', Lit (mode_value m)]))"

text \<open>What \<open>decide\<close> does to the controller before it calls the driver.\<close>

definition prepare_write ::
  "'d driver \<Rightarrow> 'd \<Rightarrow> mode_controller \<Rightarrow> physical_mode \<Rightarrow> instant \<Rightarrow> mode_controller" where
  "prepare_write drv dev c m now =
     (capture_original drv dev (reset_counter_if_new_day c now))\<lparr>mc_last_requested := Some m\<rparr>"

definition write_mode ::
  "'d driver \<Rightarrow> 'd \<Rightarrow> mode_controller \<Rightarrow> decide_args \<Rightarrow> physical_mode \<Rightarrow> instant
     \<Rightarrow> 'd \<times> mode_controller \<times> (py_error + action_decision)" where
  "write_mode drv dev c a m now =
     (case drv_apply drv dev m (da_target_soc a) (da_power_w a) of
        (Raised, dev1) \<Rightarrow> (dev1, c, Inl DeviceError)
      | (Unconfirmed, dev1) \<Rightarrow>
          (let (c', d) = on_unconfirmed c a m now in (dev1, c', Inr d))
      | (Refused, dev1) \<Rightarrow>
          (case drv_apply drv dev1 AUTO None None of
             (Raised, dev2) \<Rightarrow> (dev2, c, Inl DeviceError)
           | (Accepted, dev2) \<Rightarrow> (let (c', d) = on_refused c a m now True in (dev2, c', Inr d))
           | (_, dev2) \<Rightarrow> (let (c', d) = on_refused c a m now False in (dev2, c', Inr d)))
      | (Accepted, dev1) \<Rightarrow>
          (let (c', d) = on_accepted c a m now in (dev1, c', Inr d)))"

definition decide ::
  "'d driver \<Rightarrow> 'd \<Rightarrow> lifecycle \<Rightarrow> mode_controller \<Rightarrow> decide_args \<Rightarrow> instant
     \<Rightarrow> 'd \<times> mode_controller \<times> (py_error + action_decision)" where
  "decide drv dev lc c a now =
     (let m = desired c (da_intent a) (da_car_session a) (Some now) in
      case gate drv dev lc c (da_intent a) now m (da_observed a) (da_flags a) of
        Inl e \<Rightarrow> (dev, c, Inl e)
      | Inr (Some d) \<Rightarrow> (dev, c, Inr d)
      | Inr None \<Rightarrow> write_mode drv dev (prepare_write drv dev c m now) a m now)"

definition note_confirmed_auto :: "mode_controller \<Rightarrow> mode_controller" where
  "note_confirmed_auto c =
     persist (c\<lparr>mc_last_confirmed := Some AUTO, mc_unconfirmed := False,
                mc_last_write_outcome := None\<rparr>)"

definition note_overrun_recovery :: "mode_controller \<Rightarrow> mode_controller" where
  "note_overrun_recovery c = persist (c\<lparr>mc_unconfirmed := True\<rparr>)"

end
