(* ===== verification/ModeControllerSafety.thy ===== *)
theory ModeControllerSafety
  imports ModeController
begin

section \<open>Safety of the mode controller\<close>

text \<open>
  What the gate admits, what a write leaves behind, the daily budgets over a run, the persisted
  state and the fail-safe reading of it.
\<close>

subsection \<open>What the gate lets through\<close>

lemma gate_None:
  assumes "gate drv dev lc c i now m ob f = Inr None"
  shows "\<not> mc_dry_run c \<and> can_command_at lc now \<and>
         (\<exists>current. (case ob of Some om \<Rightarrow> Inr om | None \<Rightarrow> drv_mode drv dev) = Inr current \<and>
                    (m \<noteq> current \<or> gf_force f)) \<and>
         (gf_manual f \<or> gf_priority f \<or> m = AUTO \<or>
          dwell_block c i m now = Inr False \<and> cap_block c i m now (gf_commitment f) = None)"
  using assms by (auto simp: gate_def bind_res_Inr_iff split: if_splits)

lemma cap_block_Some:
  "cap_block c i m now k = Some d \<Longrightarrow>
     ad_intent d = i \<and> ad_mode d = m \<and> \<not> ad_applied d \<and> ad_outcome d = O_cap_reached"
  by (auto simp: cap_block_def Let_def split: if_splits)

lemma gate_Some:
  assumes "gate drv dev lc c i now m ob f = Inr (Some d)"
  shows "ad_intent d = i \<and> ad_mode d = m \<and> \<not> ad_applied d \<and>
         ad_outcome d \<in> {O_dry_run, O_not_controlling, O_idempotent, O_dwell, O_cap_reached}"
  using assms
  by (auto simp: gate_def bind_res_Inr_iff dest: cap_block_Some split: if_splits)

lemma decide_cases [consumes 1, case_names raised blocked written]:
  assumes "decide drv dev lc c a now = (dev', c', r)"
  obtains e where "gate drv dev lc c (da_intent a) now (desired c (da_intent a) (da_car_session a) (Some now))
                    (da_observed a) (da_flags a) = Inl e" "dev' = dev" "c' = c" "r = Inl e"
  | d where "gate drv dev lc c (da_intent a) now (desired c (da_intent a) (da_car_session a) (Some now))
                    (da_observed a) (da_flags a) = Inr (Some d)" "dev' = dev" "c' = c" "r = Inr d"
  | "gate drv dev lc c (da_intent a) now (desired c (da_intent a) (da_car_session a) (Some now))
                    (da_observed a) (da_flags a) = Inr None"
    "write_mode drv dev (prepare_write drv dev c (desired c (da_intent a) (da_car_session a) (Some now)) now)
                a (desired c (da_intent a) (da_car_session a) (Some now)) now = (dev', c', r)"
  using assms by (auto simp: decide_def Let_def split: sum.splits option.splits)

subsection \<open>Frame facts of the helpers\<close>

lemma persist_simps [simp]:
  "mc_dry_run (persist c) = mc_dry_run c" "mc_tz (persist c) = mc_tz c"
  "mc_max_switches (persist c) = mc_max_switches c"
  "mc_max_commitments (persist c) = mc_max_commitments c"
  "mc_min_dwell (persist c) = mc_min_dwell c"
  "mc_switches_today (persist c) = mc_switches_today c"
  "mc_commitments_today (persist c) = mc_commitments_today c"
  "mc_last_switch_at (persist c) = mc_last_switch_at c"
  "mc_counter_date (persist c) = mc_counter_date c"
  "mc_last_requested (persist c) = mc_last_requested c"
  "mc_last_confirmed (persist c) = mc_last_confirmed c"
  "mc_unconfirmed (persist c) = mc_unconfirmed c"
  "mc_last_write_outcome (persist c) = mc_last_write_outcome c"
  "mc_commitment (persist c) = mc_commitment c"
  by (simp_all add: persist_def)

lemma note_episode_simps [simp]:
  "mc_dry_run (fst (note_unconfirmed_episode c i m now)) = mc_dry_run c"
  "mc_tz (fst (note_unconfirmed_episode c i m now)) = mc_tz c"
  "mc_max_switches (fst (note_unconfirmed_episode c i m now)) = mc_max_switches c"
  "mc_max_commitments (fst (note_unconfirmed_episode c i m now)) = mc_max_commitments c"
  "mc_min_dwell (fst (note_unconfirmed_episode c i m now)) = mc_min_dwell c"
  "mc_switches_today (fst (note_unconfirmed_episode c i m now)) = mc_switches_today c"
  "mc_commitments_today (fst (note_unconfirmed_episode c i m now)) = mc_commitments_today c"
  "mc_last_switch_at (fst (note_unconfirmed_episode c i m now)) = mc_last_switch_at c"
  "mc_counter_date (fst (note_unconfirmed_episode c i m now)) = mc_counter_date c"
  "mc_last_confirmed (fst (note_unconfirmed_episode c i m now)) = mc_last_confirmed c"
  "mc_unconfirmed (fst (note_unconfirmed_episode c i m now)) = mc_unconfirmed c"
  by (simp_all add: note_unconfirmed_episode_def)

lemma clear_episode_simps [simp]:
  "mc_tz (clear_unconfirmed_episode c) = mc_tz c"
  "mc_max_switches (clear_unconfirmed_episode c) = mc_max_switches c"
  "mc_max_commitments (clear_unconfirmed_episode c) = mc_max_commitments c"
  "mc_min_dwell (clear_unconfirmed_episode c) = mc_min_dwell c"
  "mc_switches_today (clear_unconfirmed_episode c) = mc_switches_today c"
  "mc_commitments_today (clear_unconfirmed_episode c) = mc_commitments_today c"
  "mc_last_switch_at (clear_unconfirmed_episode c) = mc_last_switch_at c"
  "mc_counter_date (clear_unconfirmed_episode c) = mc_counter_date c"
  "mc_last_confirmed (clear_unconfirmed_episode c) = mc_last_confirmed c"
  "mc_unconfirmed (clear_unconfirmed_episode c) = mc_unconfirmed c"
  by (simp_all add: clear_unconfirmed_episode_def)

lemma record_switch_simps [simp]:
  "mc_tz (record_switch c m now k q) = mc_tz c"
  "mc_max_switches (record_switch c m now k q) = mc_max_switches c"
  "mc_max_commitments (record_switch c m now k q) = mc_max_commitments c"
  "mc_min_dwell (record_switch c m now k q) = mc_min_dwell c"
  "mc_counter_date (record_switch c m now k q) = mc_counter_date c"
  "mc_last_confirmed (record_switch c m now k q) = mc_last_confirmed c"
  "mc_unconfirmed (record_switch c m now k q) = mc_unconfirmed c"
  "mc_switches_today (record_switch c m now k q) =
     mc_switches_today c + (if k \<and> m \<noteq> AUTO \<and> \<not> q then 1 else 0)"
  "mc_commitments_today (record_switch c m now k q) =
     mc_commitments_today c + (if k \<and> m \<noteq> AUTO \<and> q then 1 else 0)"
  "mc_last_switch_at (record_switch c m now k q) =
     (if k then Some (Aware now) else mc_last_switch_at c)"
  by (simp_all add: record_switch_def Let_def)

lemma capture_simps [simp]:
  "mc_tz (capture_original drv dev c) = mc_tz c"
  "mc_max_switches (capture_original drv dev c) = mc_max_switches c"
  "mc_max_commitments (capture_original drv dev c) = mc_max_commitments c"
  "mc_min_dwell (capture_original drv dev c) = mc_min_dwell c"
  "mc_switches_today (capture_original drv dev c) = mc_switches_today c"
  "mc_commitments_today (capture_original drv dev c) = mc_commitments_today c"
  "mc_last_switch_at (capture_original drv dev c) = mc_last_switch_at c"
  "mc_counter_date (capture_original drv dev c) = mc_counter_date c"
  "mc_last_confirmed (capture_original drv dev c) = mc_last_confirmed c"
  "mc_unconfirmed (capture_original drv dev c) = mc_unconfirmed c"
  by (simp_all add: capture_original_def split: sum.split)

lemma reset_counter_simps [simp]:
  "mc_tz (reset_counter_if_new_day c now) = mc_tz c"
  "mc_max_switches (reset_counter_if_new_day c now) = mc_max_switches c"
  "mc_max_commitments (reset_counter_if_new_day c now) = mc_max_commitments c"
  "mc_min_dwell (reset_counter_if_new_day c now) = mc_min_dwell c"
  "mc_last_switch_at (reset_counter_if_new_day c now) = mc_last_switch_at c"
  "mc_counter_date (reset_counter_if_new_day c now) = Some (local_date (mc_tz c) now)"
  "mc_last_confirmed (reset_counter_if_new_day c now) = mc_last_confirmed c"
  "mc_unconfirmed (reset_counter_if_new_day c now) = mc_unconfirmed c"
  "mc_switches_today (reset_counter_if_new_day c now) =
     (if mc_counter_date c = Some (local_date (mc_tz c) now) then mc_switches_today c else 0)"
  "mc_commitments_today (reset_counter_if_new_day c now) =
     (if mc_counter_date c = Some (local_date (mc_tz c) now) then mc_commitments_today c else 0)"
  by (simp_all add: reset_counter_if_new_day_def Let_def)

lemma prepare_write_simps [simp]:
  "mc_tz (prepare_write drv dev c m now) = mc_tz c"
  "mc_max_switches (prepare_write drv dev c m now) = mc_max_switches c"
  "mc_max_commitments (prepare_write drv dev c m now) = mc_max_commitments c"
  "mc_min_dwell (prepare_write drv dev c m now) = mc_min_dwell c"
  "mc_last_switch_at (prepare_write drv dev c m now) = mc_last_switch_at c"
  "mc_counter_date (prepare_write drv dev c m now) = Some (local_date (mc_tz c) now)"
  "mc_last_requested (prepare_write drv dev c m now) = Some m"
  "mc_last_confirmed (prepare_write drv dev c m now) = mc_last_confirmed c"
  "mc_unconfirmed (prepare_write drv dev c m now) = mc_unconfirmed c"
  "mc_switches_today (prepare_write drv dev c m now) =
     (if mc_counter_date c = Some (local_date (mc_tz c) now) then mc_switches_today c else 0)"
  "mc_commitments_today (prepare_write drv dev c m now) =
     (if mc_counter_date c = Some (local_date (mc_tz c) now) then mc_commitments_today c else 0)"
  by (simp_all add: prepare_write_def)

text \<open>A write that returns: its outcome, and the counters it leaves.\<close>

definition write_outcomes :: "outcome set" where
  "write_outcomes = {O_applied, O_unconfirmed, O_failed_recovered, O_failed_unrecovered}"

lemma write_mode_Inr:
  assumes "write_mode drv dev c a m now = (dev', c', Inr d)"
  shows "ad_outcome d \<in> write_outcomes \<and> mc_tz c' = mc_tz c \<and>
         mc_max_switches c' = mc_max_switches c \<and> mc_max_commitments c' = mc_max_commitments c \<and>
         mc_min_dwell c' = mc_min_dwell c \<and>
         mc_counter_date c' = mc_counter_date c \<and>
         mc_switches_today c' =
           mc_switches_today c + (if da_count_toward_cap a \<and> m \<noteq> AUTO \<and> \<not> da_commitment a then 1 else 0) \<and>
         mc_commitments_today c' =
           mc_commitments_today c + (if da_count_toward_cap a \<and> m \<noteq> AUTO \<and> da_commitment a then 1 else 0) \<and>
         mc_last_switch_at c' = (if da_count_toward_cap a then Some (Aware now) else mc_last_switch_at c)"
  using assms
  by (auto simp: write_mode_def on_unconfirmed_def on_refused_def on_accepted_def Let_def
        write_outcomes_def split_beta split: prod.splits apply_result.splits)

subsection \<open>Who may write, and what a preview promises\<close>

text \<open>
  C1. Nothing reaches the battery, and nothing in the controller changes, unless the system owns the
  battery: if a \<open>decide\<close> changes the device or the controller, then the controller is not in
  dry-run and the lifecycle, in any state a run can reach, has completed the readiness sequence,
  is past its startup grace and is not under a manual override.
\<close>

theorem writes_only_when_owning:
  assumes "reach dry grace lc now"
    and "decide drv dev lc c a now = (dev', c', r)" and "dev' \<noteq> dev \<or> c' \<noteq> c"
  shows "\<not> mc_dry_run c \<and> \<not> dry \<and> ready_to_act lc now"
  using assms(2)
proof (cases rule: decide_cases)
  case (raised e)
  with assms(3) show ?thesis by simp
next
  case (blocked d)
  with assms(3) show ?thesis by simp
next
  case written
  from gate_None [OF written(1)] reach_ready [OF assms(1)] show ?thesis by simp
qed

definition demo_controller :: mode_controller where
  "demo_controller =
     \<lparr>mc_dry_run = False, mc_allow_export = False, mc_export_probe_until = None,
      mc_max_switches = 10, mc_max_commitments = 4, mc_min_dwell = 600 * us_second, mc_tz = utc,
      mc_switches_today = 0, mc_commitments_today = 0, mc_last_switch_at = None,
      mc_counter_date = None, mc_last_requested = None, mc_last_confirmed = None,
      mc_original_mode = None, mc_unconfirmed = False, mc_last_write_outcome = None,
      mc_episode_key = None, mc_episode_at = None, mc_commitment = None,
      mc_persists = False, mc_persisted = []\<rparr>"

definition demo_args :: "battery_intent \<Rightarrow> decide_args" where
  "demo_args i = \<lparr>da_intent = i, da_target_soc = Some 80, da_power_w = Some 2400, da_observed = None,
     da_manual = False, da_priority = False, da_car_session = False, da_force = False,
     da_count_toward_cap = True, da_commitment = False\<rparr>"

lemmas controller_eval =
  decide_def desired_def gate_def da_flags_def dwell_block_def cap_block_def effective_switches_def
  effective_commitments_def write_mode_def prepare_write_def capture_original_def
  reset_counter_if_new_day_def on_accepted_def on_refused_def on_unconfirmed_def
  record_switch_def clear_unconfirmed_episode_def note_unconfirmed_episode_def persist_def
  demo_controller_def demo_args_def mock_driver_port_def mock_apply_def mock_init_def
  local_date_def utc_def action_def bind_res_def Let_def

theorem writes_only_when_owning_witness:
  "md_mode (fst (decide mock_driver_port (mock_init True False) booted demo_controller
                   (demo_args GRID_CHARGE_TO_TARGET) (130 * us_second))) = CHARGE \<and>
   ready_to_act booted (130 * us_second)"
proof -
  let ?d = "decide mock_driver_port (mock_init True False) booted demo_controller
              (demo_args GRID_CHARGE_TO_TARGET) (130 * us_second)"
  have m: "md_mode (fst ?d) = CHARGE" by (simp add: controller_eval)
  then have "fst ?d \<noteq> mock_init True False" by (auto simp: mock_init_def)
  then have "ready_to_act booted (130 * us_second)"
    using writes_only_when_owning [OF booted_reach, of mock_driver_port "mock_init True False"
            demo_controller "demo_args GRID_CHARGE_TO_TARGET" "fst ?d" "fst (snd ?d)" "snd (snd ?d)"]
    by simp
  with m show ?thesis by simp
qed

text \<open>
  C34. The read-only preview is honest: for the same arguments, if it raises, \<open>decide\<close> raises the same
  and changes nothing; if it reports a blocked decision, \<open>decide\<close> returns that very decision and
  changes nothing; and if it reports \<open>would_apply\<close>, \<open>decide\<close> goes on to write exactly the mode the
  preview named.
\<close>

theorem preview_predicts_decide:
  assumes "\<not> da_force a"
  shows "case preview drv dev lc c (da_intent a) now (da_target_soc a) (da_observed a)
                (da_manual a) (da_priority a) (da_car_session a) (da_commitment a) of
           Inl e \<Rightarrow> decide drv dev lc c a now = (dev, c, Inl e)
         | Inr d \<Rightarrow>
             (if ad_outcome d = O_would_apply
              then decide drv dev lc c a now =
                     write_mode drv dev (prepare_write drv dev c (ad_mode d) now) a (ad_mode d) now
              else decide drv dev lc c a now = (dev, c, Inr d))"
proof -
  let ?m = "desired c (da_intent a) (da_car_session a) (Some now)"
  have f: "da_flags a = \<lparr>gf_manual = da_manual a, gf_priority = da_priority a, gf_force = False,
                         gf_commitment = da_commitment a\<rparr>"
    using assms by (simp add: da_flags_def)
  show ?thesis
  proof (cases "gate drv dev lc c (da_intent a) now ?m (da_observed a) (da_flags a)")
    case (Inl e)
    then show ?thesis by (simp add: preview_def decide_def Let_def f)
  next
    case (Inr b)
    show ?thesis
    proof (cases b)
      case None
      with Inr show ?thesis by (simp add: preview_def decide_def Let_def f)
    next
      case (Some d)
      with Inr have g: "gate drv dev lc c (da_intent a) now ?m (da_observed a) (da_flags a) = Inr (Some d)"
        by simp
      from gate_Some [OF g] have "ad_outcome d \<noteq> O_would_apply" by auto
      with g show ?thesis by (simp add: preview_def decide_def Let_def f)
    qed
  qed
qed

theorem preview_predicts_decide_witness:
  "decide mock_driver_port (mock_init True False) booted demo_controller (demo_args HOLD_RESERVE) 0 =
   write_mode mock_driver_port (mock_init True False)
     (prepare_write mock_driver_port (mock_init True False) demo_controller IDLE 0)
     (demo_args HOLD_RESERVE) IDLE 0"
proof -
  have "\<not> da_force (demo_args HOLD_RESERVE)" by (simp add: demo_args_def)
  from preview_predicts_decide [OF this, of mock_driver_port "mock_init True False" booted
         demo_controller 0]
  show ?thesis by (simp add: preview_def controller_eval)
qed

text \<open>
  C35. The fail-safe passes every budget: while the system owns the battery, live, an intent that maps to
  AUTO is written whatever the dwell timer and the spent budgets say. Only the mode reading stands before
  the write. It is the mode the caller observed (which can be stale), or else a read of the device: when
  that read raises, the decision raises the same and changes nothing; when the reading is AUTO already
  and the write is not forced, nothing is written; in every other case AUTO is written.
\<close>

theorem return_to_auto_needs_only_a_reading:
  assumes "\<not> mc_dry_run c" and "can_command_at lc now"
    and "desired c (da_intent a) (da_car_session a) (Some now) = AUTO"
  shows "decide drv dev lc c a now =
           (case (case da_observed a of Some om \<Rightarrow> Inr om | None \<Rightarrow> drv_mode drv dev) of
              Inl e \<Rightarrow> (dev, c, Inl e)
            | Inr seen \<Rightarrow>
                if seen = AUTO \<and> \<not> da_force a
                then (dev, c, Inr (action (da_intent a) AUTO False O_idempotent [Lit ''already in '', Lit (mode_value AUTO)]))
                else write_mode drv dev (prepare_write drv dev c AUTO now) a AUTO now)"
  using assms
  by (simp add: decide_def gate_def da_flags_def Let_def split: option.split sum.split)

theorem return_to_auto_needs_only_a_reading_witness:
  "let c = demo_controller\<lparr>mc_switches_today := 99, mc_counter_date := Some 0,
             mc_last_switch_at := Some (Aware 0)\<rparr>;
       d = (mock_init True False)\<lparr>md_mode := IDLE\<rparr>;
       a = demo_args ALLOW_SELF_CONSUMPTION
   in decide mock_driver_port d booted c a 5 =
        write_mode mock_driver_port d (prepare_write mock_driver_port d c AUTO 5) a AUTO 5"
  unfolding Let_def
  by (subst return_to_auto_needs_only_a_reading)
     (simp_all add: demo_controller_def demo_args_def desired_def mock_driver_port_def)

text \<open>
  The two daily budgets are independent: a committed grid-charge passes or fails the gate
  regardless of how many routine switches were spent, and a routine decision regardless of the
  commitment count.
\<close>

theorem budgets_independent:
  "gate drv dev lc (c\<lparr>mc_switches_today := n\<rparr>) i now m ob (f\<lparr>gf_commitment := True\<rparr>) =
     gate drv dev lc c i now m ob (f\<lparr>gf_commitment := True\<rparr>) \<and>
   gate drv dev lc (c\<lparr>mc_commitments_today := n\<rparr>) i now m ob (f\<lparr>gf_commitment := False\<rparr>) =
     gate drv dev lc c i now m ob (f\<lparr>gf_commitment := False\<rparr>)"
proof -
  have sub: "dwell_block (c\<lparr>mc_switches_today := n\<rparr>) i m now = dwell_block c i m now"
    "dwell_block (c\<lparr>mc_commitments_today := n\<rparr>) i m now = dwell_block c i m now"
    "cap_block (c\<lparr>mc_switches_today := n\<rparr>) i m now True = cap_block c i m now True"
    "cap_block (c\<lparr>mc_commitments_today := n\<rparr>) i m now False = cap_block c i m now False"
    by (simp_all add: dwell_block_def cap_block_def effective_switches_def
          effective_commitments_def split: option.split)
  show ?thesis by (simp add: gate_def sub cong: if_cong)
qed

end
