(* ===== verification/CarSession.thy ===== *)
theory CarSession
  imports ModeControllerSafety ControlGuards
begin

section \<open>The car-charging session (\<open>ems/control/service.py\<close>, the pure decisions)\<close>

text \<open>
  When a discharge that covers the house while the car charges is commanded again, when a session ends,
  and what a cycle does while a short dip of the car's power is bridged. The session is the box
  \<open>ctx.car_session\<close>; \<open>commanded_at\<close> is the text it keeps, read back with \<open>fromisoformat\<close>.
\<close>

definition CAR_SESSION_DWELL :: duration where "CAR_SESSION_DWELL = 10 * us_minute"
definition CAR_SESSION_MAX_COMMANDS :: int where "CAR_SESSION_MAX_COMMANDS = 6"

definition CAR_ATTEMPTED_OUTCOMES :: "outcome set" where
  "CAR_ATTEMPTED_OUTCOMES = {O_applied, O_unconfirmed, O_failed_recovered, O_failed_unrecovered}"

definition CAR_BAD_OUTCOMES :: "outcome set" where
  "CAR_BAD_OUTCOMES = {O_unconfirmed, O_failed_recovered, O_failed_unrecovered}"

record car_session =
  ss_active :: bool
  ss_setpoint_w :: "real option"
  ss_commanded_at :: json
  ss_commands :: int
  ss_below_cycles :: int
  ss_reserve_hold :: bool
  ss_last_outcome :: "outcome option"

definition car_session0 :: car_session where
  "car_session0 = \<lparr>ss_active = False, ss_setpoint_w = None, ss_commanded_at = JNull, ss_commands = 0,
     ss_below_cycles = 0, ss_reserve_hold = False, ss_last_outcome = None\<rparr>"

datatype car_event = CarStart | CarRecommand | CarReconcile | CarHold | CarCap | CarCapReconcile

text \<open>Time since the last command; \<open>None\<close> when there was none or its text does not parse.\<close>

definition car_elapsed :: "car_session \<Rightarrow> instant \<Rightarrow> duration option" where
  "car_elapsed s now =
     (if \<not> truthy (ss_commanded_at s) then None
      else case bind_res (json_datetime (ss_commanded_at s)) (py_sub (Aware now)) of
             Inr d \<Rightarrow> Some d | Inl _ \<Rightarrow> None)"

definition elapsed_ok :: "duration option \<Rightarrow> duration \<Rightarrow> bool" where
  "elapsed_ok e d = (case e of None \<Rightarrow> True | Some x \<Rightarrow> d \<le> x)"

definition car_reconcile :: "car_session \<Rightarrow> instant \<Rightarrow> physical_mode option \<Rightarrow> duration \<Rightarrow> bool" where
  "car_reconcile s now observed spacing =
     (ss_active s \<and> elapsed_ok (car_elapsed s now) spacing \<and>
      ((observed \<noteq> None \<and> observed \<noteq> Some DISCHARGE) \<or>
       (case ss_last_outcome s of None \<Rightarrow> False | Some out \<Rightarrow> out \<in> CAR_BAD_OUTCOMES)))"

text \<open>
  The box returned is the one after the caller's \<open>session.update(next)\<close>: the keys that \<open>next\<close> does
  not have keep their values.
\<close>

definition decide_car_command ::
  "car_session \<Rightarrow> car_mode_action \<Rightarrow> instant \<Rightarrow> physical_mode option \<Rightarrow> duration \<Rightarrow> int \<Rightarrow> duration
     \<Rightarrow> bool \<times> car_session \<times> car_event" where
  "decide_car_command s act now observed dwell max_commands spacing =
     (let first = (\<not> ss_active s);
          reconcile = car_reconcile s now observed spacing;
          ordinary = (ca_recommand act \<and> (first \<or> elapsed_ok (car_elapsed s now) dwell));
          want = (ordinary \<or> reconcile)
      in if want \<and> max_commands \<le> ss_commands s
         then (False, s\<lparr>ss_active := True\<rparr>, if reconcile then CarCapReconcile else CarCap)
         else if want
         then (True,
               s\<lparr>ss_active := True, ss_setpoint_w := ca_power_w act, ss_commanded_at := JTime (Aware now),
                 ss_commands := ss_commands s + 1\<rparr>,
               if first then CarStart else if reconcile \<and> \<not> ordinary then CarReconcile else CarRecommand)
         else (False,
               s\<lparr>ss_active := True,
                 ss_setpoint_w := (case ss_setpoint_w s of Some w \<Rightarrow> Some w | None \<Rightarrow> ca_power_w act)\<rparr>,
               CarHold))"

definition decide_car_session_end :: "car_session \<Rightarrow> bool \<Rightarrow> int \<Rightarrow> bool \<times> int" where
  "decide_car_session_end s car_below_threshold end_cycles =
     (if \<not> car_below_threshold then (True, 0)
      else (let cycles = ss_below_cycles s + 1
            in if cycles < max 1 end_cycles then (False, cycles) else (True, 0)))"

datatype grace_action = FallThrough | GraceReserveHold | GraceHold

definition decide_grace_action :: "bool \<Rightarrow> bool \<Rightarrow> real option \<Rightarrow> real \<Rightarrow> grace_action" where
  "decide_grace_action overridden failsafe soc_pct min_reserve_soc =
     (if overridden \<or> failsafe then FallThrough
      else case soc_pct of
             None \<Rightarrow> FallThrough
           | Some soc \<Rightarrow> if soc \<le> min_reserve_soc + RESERVE_ENTER_PP then GraceReserveHold else GraceHold)"

subsection \<open>The end of a session\<close>

text \<open>The end decision over consecutive cycles, each with its reading of the car: the cycle at which it ends.\<close>

fun end_run :: "int \<Rightarrow> car_session \<Rightarrow> bool list \<Rightarrow> nat option" where
  "end_run n s [] = None"
| "end_run n s (below # bs) =
     (let (ended, cycles) = decide_car_session_end s below n
      in if ended then Some 0 else map_option Suc (end_run n (s\<lparr>ss_below_cycles := cycles\<rparr>) bs))"

lemma end_run_below:
  "0 \<le> k \<Longrightarrow> k < max 1 n \<Longrightarrow> ss_below_cycles s = k \<Longrightarrow> int (length bs) = max 1 n - k \<Longrightarrow>
     end_run n s (map (\<lambda>_. True) bs) = Some (length bs - 1)"
proof (induction bs arbitrary: s k)
  case (Cons b bs)
  show ?case
  proof (cases "k + 1 < max 1 n")
    case True
    then have "bs \<noteq> []" using Cons.prems(4) by auto
    with True Cons.IH [of "k + 1" "s\<lparr>ss_below_cycles := k + 1\<rparr>"] Cons.prems
    show ?thesis by (cases bs) (auto simp: decide_car_session_end_def Let_def)
  next
    case False
    with Cons.prems(4) have "length bs = 0" by (simp del: length_0_conv)
    then have "bs = []" by simp
    with False Cons.prems show ?thesis by (auto simp: decide_car_session_end_def Let_def)
  qed
qed simp

text \<open>
  A dip of the car's power ends a session only when it lasts: with \<open>n\<close> end cycles configured, a
  session whose counter is reset survives every shorter run of readings below the threshold, and ends
  at the \<open>n\<close>-th of them; any other reason to stop ends it at once.
\<close>

theorem session_end_needs_cycles:
  assumes "ss_below_cycles s = 0" and "1 \<le> n"
  shows "end_run n s (replicate (nat n) True) = Some (nat n - 1) \<and>
         decide_car_session_end s False n = (True, 0)"
proof -
  have "map (\<lambda>_. True) (replicate (nat n) True) = replicate (nat n) True" by simp
  moreover have "end_run n s (map (\<lambda>_. True) (replicate (nat n) True)) = Some (length (replicate (nat n) True) - 1)"
    by (rule end_run_below [of 0]) (use assms in auto)
  ultimately show ?thesis by (simp add: decide_car_session_end_def)
qed

theorem session_end_needs_cycles_witness:
  "end_run 3 (car_session0\<lparr>ss_active := True\<rparr>) (replicate (nat 3) True) = Some (nat 3 - 1) \<and>
   decide_car_session_end (car_session0\<lparr>ss_active := True\<rparr>) False 3 = (True, 0)"
  by (rule session_end_needs_cycles) (simp_all add: car_session0_def)

end
