(* ===== verification/CycleCounters.thy ===== *)
theory CycleCounters
  imports ModeController
begin

section \<open>Audit rows and the counters of the control loop\<close>

text \<open>
  The rows a control tick hands to the audit log, the counters kept since boot
  (\<open>ems/control/loop_counters.py\<close>) and how a finished tick is counted
  (\<open>ControlService._observe_cycle_counters\<close>). A row is its summary and its detail dictionary.
\<close>

datatype detail =
    DText message | DStr string | DReal real | DInt int | DBool bool | DPairs "(string \<times> string) list" | DNone

record audit_row =
  ar_summary :: message
  ar_detail :: "(string \<times> detail) list"

definition row :: "message \<Rightarrow> (string \<times> detail) list \<Rightarrow> audit_row" where
  "row s d = \<lparr>ar_summary = s, ar_detail = d\<rparr>"

fun outcome_value :: "outcome \<Rightarrow> string" where
  "outcome_value O_dry_run = ''dry_run''"
| "outcome_value O_not_controlling = ''not_controlling''"
| "outcome_value O_idempotent = ''idempotent''"
| "outcome_value O_dwell = ''dwell''"
| "outcome_value O_cap_reached = ''cap_reached''"
| "outcome_value O_would_apply = ''would_apply''"
| "outcome_value O_applied = ''applied''"
| "outcome_value O_failed_recovered = ''failed_recovered''"
| "outcome_value O_failed_unrecovered = ''failed_unrecovered''"
| "outcome_value O_unconfirmed = ''unconfirmed''"

subsection \<open>The counters\<close>

record loop_counters =
  ln_cycles :: int
  ln_latency_sum :: real
  ln_latency_last :: "real option"
  ln_stale :: int
  ln_http_retries :: int
  ln_applies :: int
  ln_rejects :: int
  ln_cap_blocked :: int
  ln_applied :: int
  ln_idempotent :: int
  ln_dry_run :: int
  ln_fail_safe :: int
  ln_last_outcome :: "string option"
  ln_pending_fail_safe :: bool

definition counters_reset :: loop_counters where
  "counters_reset = \<lparr>ln_cycles = 0, ln_latency_sum = 0, ln_latency_last = None, ln_stale = 0,
     ln_http_retries = 0, ln_applies = 0, ln_rejects = 0, ln_cap_blocked = 0, ln_applied = 0,
     ln_idempotent = 0, ln_dry_run = 0, ln_fail_safe = 0, ln_last_outcome = None,
     ln_pending_fail_safe = False\<rparr>"

definition latency_ms_avg :: "loop_counters \<Rightarrow> real option" where
  "latency_ms_avg k = (if ln_cycles k \<le> 0 then None else Some (ln_latency_sum k / of_int (ln_cycles k)))"

definition incr_http_retries :: "loop_counters \<Rightarrow> int \<Rightarrow> loop_counters" where
  "incr_http_retries k n = k\<lparr>ln_http_retries := ln_http_retries k + max 0 n\<rparr>"

definition incr_validator_rejects :: "loop_counters \<Rightarrow> int \<Rightarrow> loop_counters" where
  "incr_validator_rejects k n = k\<lparr>ln_rejects := ln_rejects k + max 0 n, ln_pending_fail_safe := True\<rparr>"

definition incr_charge_blocked_by_cap :: "loop_counters \<Rightarrow> int \<Rightarrow> loop_counters" where
  "incr_charge_blocked_by_cap k n = k\<lparr>ln_cap_blocked := ln_cap_blocked k + max 0 n\<rparr>"

definition record_cycle ::
  "loop_counters \<Rightarrow> real option \<Rightarrow> string option \<Rightarrow> bool \<Rightarrow> bool \<Rightarrow> loop_counters" where
  "record_cycle k latency_ms out fail_safe stale_sensors =
     (let k = k\<lparr>ln_cycles := ln_cycles k + 1\<rparr>;
          k = (case latency_ms of None \<Rightarrow> k
               | Some ms \<Rightarrow> k\<lparr>ln_latency_last := Some ms, ln_latency_sum := ln_latency_sum k + ms\<rparr>);
          k = (if stale_sensors then k\<lparr>ln_stale := ln_stale k + 1\<rparr> else k);
          k = (if out = Some ''applied'' then k\<lparr>ln_applies := ln_applies k + 1, ln_applied := ln_applied k + 1\<rparr>
               else if out = Some ''idempotent'' then k\<lparr>ln_idempotent := ln_idempotent k + 1\<rparr>
               else if out = Some ''dry_run'' then k\<lparr>ln_dry_run := ln_dry_run k + 1\<rparr>
               else k);
          k = (if fail_safe \<or> ln_pending_fail_safe k
               then k\<lparr>ln_fail_safe := ln_fail_safe k + 1, ln_pending_fail_safe := False\<rparr> else k)
      in k\<lparr>ln_last_outcome := out\<rparr>)"

subsection \<open>Counting a tick\<close>

text \<open>
  A reason counts as a fail-safe by its wording; a text about a locked database alone does not.
\<close>

definition reason_counts_as_fail_safe :: "message \<Rightarrow> bool" where
  "reason_counts_as_fail_safe reason =
     (let low = map lower_piece reason in text_has ''fail-safe'' low \<or> text_has ''holding self-consumption'' low)"

fun detail_text :: "detail option \<Rightarrow> message" where
  "detail_text (Some (DText m)) = m"
| "detail_text (Some (DStr s)) = [Lit s]"
| "detail_text _ = []"

definition row_outcome :: "audit_row \<Rightarrow> string option" where
  "row_outcome r = (case map_of (ar_detail r) ''outcome'' of
                      Some (DStr s) \<Rightarrow> if s = [] then None else Some s | _ \<Rightarrow> None)"

definition row_event :: "audit_row \<Rightarrow> string option" where
  "row_event r = (case map_of (ar_detail r) ''event'' of Some (DStr s) \<Rightarrow> Some s | _ \<Rightarrow> None)"

definition row_fail_safe :: "audit_row \<Rightarrow> bool" where
  "row_fail_safe r =
     (row_event r \<in> {Some ''startup_safe_auto'', Some ''control.overrun''} \<or> row_outcome r = Some ''fail_safe'' \<or>
      reason_counts_as_fail_safe (detail_text (map_of (ar_detail r) ''reason'')))"

text \<open>The outcome of the tick: what the last decision returned, or the last row that has one.\<close>

definition tick_outcome_of :: "outcome option \<Rightarrow> audit_row list \<Rightarrow> string option" where
  "tick_outcome_of out rows =
     (case out of Some x \<Rightarrow> Some (outcome_value x)
      | None \<Rightarrow> (case List.map_filter row_outcome (rev rows) of [] \<Rightarrow> None | x # _ \<Rightarrow> Some x))"

definition observe_cycle_counters ::
  "loop_counters \<Rightarrow> outcome option \<Rightarrow> audit_row list \<Rightarrow> string \<Rightarrow> (bool \<times> message) option \<Rightarrow> real \<Rightarrow> loop_counters" where
  "observe_cycle_counters k out rows quality horizon latency_ms =
     record_cycle k (Some latency_ms) (tick_outcome_of out rows)
       (list_ex row_fail_safe rows \<or> quality = ''unsafe'' \<or>
        (case horizon of Some (ok, _) \<Rightarrow> \<not> ok | None \<Rightarrow> False))
       (quality \<in> {''degraded'', ''unsafe''})"

text \<open>
  Every tick is counted once, and the outcome buckets never count more ticks than there were.
\<close>

definition counters_sane :: "loop_counters \<Rightarrow> bool" where
  "counters_sane k = (0 \<le> ln_applied k \<and> 0 \<le> ln_idempotent k \<and> 0 \<le> ln_dry_run k \<and> 0 \<le> ln_fail_safe k \<and> 0 \<le> ln_stale k \<and>
     ln_applies k = ln_applied k \<and> ln_applied k + ln_idempotent k + ln_dry_run k \<le> ln_cycles k \<and>
     ln_fail_safe k \<le> ln_cycles k \<and> ln_stale k \<le> ln_cycles k)"

lemma counters_sane_reset: "counters_sane counters_reset"
  by (simp add: counters_sane_def counters_reset_def)

lemma counters_sane_record: "counters_sane k \<Longrightarrow> counters_sane (record_cycle k ms out fs stale)"
  by (auto simp: counters_sane_def record_cycle_def Let_def split: option.split)

lemma counters_sane_incr [simp]:
  "counters_sane (incr_http_retries k n) = counters_sane k"
  "counters_sane (incr_validator_rejects k n) = counters_sane k"
  "counters_sane (incr_charge_blocked_by_cap k n) = counters_sane k"
  by (simp_all add: counters_sane_def incr_http_retries_def incr_validator_rejects_def incr_charge_blocked_by_cap_def)

end
