(* ===== verification/ControlState.thy ===== *)
theory ControlState
  imports DecisionEngine CarSession CycleCounters
    "HOL-Library.List_Lexorder" "HOL-Library.Char_ord" "HOL-Library.Product_Lexorder" "HOL-Library.AList"
begin

section \<open>The state of the control loop (\<open>ems/control/service.py\<close>)\<close>

text \<open>
  What a control tick works on, what it reads, and the commands it gives. The state is what \<open>ControlContext\<close> and the
  service keep between ticks, the mode controller, the lifecycle and the device; a tick reads its
  surroundings (settings, data quality, towers, plan, validator, SoC, the car) once, as fields of one
  record, where the code reads coalesced caches that do not change within a tick. An
  exception that leaves an operation is an \<open>Inl\<close> beside the state it leaves.
\<close>

subsection \<open>State and inputs\<close>

record tower =
  tw_ip :: string
  tw_role :: "string option"
  tw_online :: bool
  tw_mode :: "string option"

record ctl_settings =
  st_max_switches :: int
  st_max_commitments :: "int option"
  st_min_dwell_seconds :: real
  st_allow_export :: "bool option"
  st_end_cycles :: int
  st_hold_when_car :: bool
  st_car_mode :: string
  st_car_discharge_w :: real
  st_car_threshold_w :: real
  st_persistence_cycles :: "json option"
  st_min_reserve_soc :: real
  st_max_charge_w :: real
  st_max_discharge_w :: real

text \<open>The signatures the tick remembers so that a recurring explanation is given once.\<close>

datatype held_sig =
    SigCommitmentHold | SigDeferred | SigIntentPending physical_mode | SigStartup string physical_mode
  | SigHeld outcome physical_mode | SigResume instant real

record 'd control_state =
  ct_dev :: 'd
  ct_mc :: mode_controller
  ct_lc :: lifecycle
  ct_override :: override
  ct_car :: car_session
  ct_held :: "held_sig option"
  ct_cap_blocked :: bool
  ct_pending_mode :: "physical_mode option"
  ct_pending_count :: int
  ct_floor_holding :: bool
  ct_floor_sig :: "physical_mode option"
  ct_drift :: "(string \<times> string) list option"
  ct_intended :: "battery_intent option"
  ct_outcome :: "outcome option"
  ct_counters :: loop_counters

record tick_inputs =
  ti_settings :: ctl_settings
  ti_dry_run :: bool
  ti_armed :: bool
  ti_cycle_seconds :: real
  ti_quality :: string
  ti_towers :: "tower list option"
  ti_plan :: "py_error + plan option"
  ti_horizon :: "(bool \<times> message) option"
  ti_validate :: "plan \<Rightarrow> plan_validation"
  ti_prices_unavailable :: bool
  ti_soc :: "real option"
  ti_ev_power :: "real option"                  \<comment> \<open>\<open>None\<close>: no sample\<close>
  ti_predicted_house_w :: real
  ti_fence_open :: bool                         \<comment> \<open>no ticket, or the fence lets this one enter\<close>
  ti_render :: "message \<Rightarrow> string"               \<comment> \<open>the text of an f-string\<close>

definition the_plan :: "tick_inputs \<Rightarrow> plan option" where
  "the_plan ti = (case ti_plan ti of Inr p \<Rightarrow> p | Inl _ \<Rightarrow> None)"

subsection \<open>Reading the surroundings\<close>

definition apply_control_settings :: "mode_controller \<Rightarrow> ctl_settings \<Rightarrow> mode_controller" where
  "apply_control_settings c s =
     c\<lparr>mc_max_switches := st_max_switches s,
       mc_max_commitments := opt_else (st_max_commitments s) 4,
       mc_min_dwell := py_round0 (st_min_dwell_seconds s * 1000000),
       mc_allow_export := opt_else (st_allow_export s) False\<rparr>"

definition label_to_mode :: "string \<rightharpoonup> physical_mode" where
  "label_to_mode = [''self-consumption'' \<mapsto> AUTO, ''standby'' \<mapsto> IDLE, ''charging'' \<mapsto> CHARGE,
                    ''discharging'' \<mapsto> DISCHARGE, ''outdoor'' \<mapsto> AUTO, ''schedule'' \<mapsto> AUTO]"

definition tower_family :: "string option \<Rightarrow> string option" where
  "tower_family label =
     (if label = Some ''self-consumption'' then Some ''self-consumption''
      else if label \<in> {Some ''standby'', Some ''charging'', Some ''discharging''} then Some ''real-time''
      else None)"

definition commanded_family :: "physical_mode \<Rightarrow> string" where
  "commanded_family m = (if m = AUTO then ''self-consumption'' else ''real-time'')"

definition has_mode :: "tower \<Rightarrow> bool" where
  "has_mode t = (case tw_mode t of None \<Rightarrow> False | Some s \<Rightarrow> s \<noteq> [])"

definition mode_tower :: "tower list \<Rightarrow> tower option" where
  "mode_tower ts =
     (case filter (\<lambda>t. tw_role t = Some ''master'' \<and> tw_online t \<and> has_mode t) ts of
        t # _ \<Rightarrow> Some t
      | [] \<Rightarrow> (case filter (\<lambda>t. tw_online t \<and> has_mode t) ts of t # _ \<Rightarrow> Some t | [] \<Rightarrow> None))"

definition current_mode :: "'d driver \<Rightarrow> tick_inputs \<Rightarrow> 'd \<Rightarrow> physical_mode option" where
  "current_mode drv ti dev =
     (if ti_dry_run ti then None
      else case ti_towers ti of
             Some ts \<Rightarrow> (case mode_tower ts of None \<Rightarrow> None | Some t \<Rightarrow> label_to_mode (the (tw_mode t)))
           | None \<Rightarrow> (case drv_mode drv dev of Inr m \<Rightarrow> Some m | Inl _ \<Rightarrow> None))"

definition car_charging :: "tick_inputs \<Rightarrow> bool" where
  "car_charging ti = (case ti_ev_power ti of None \<Rightarrow> False | Some w \<Rightarrow> st_car_threshold_w (ti_settings ti) < w)"

definition car_mode_action_at :: "tick_inputs \<Rightarrow> car_session \<Rightarrow> car_mode_action option" where
  "car_mode_action_at ti s =
     (let cfg = ti_settings ti
      in if \<not> st_hold_when_car cfg \<or> \<not> car_charging ti then None
         else case ti_soc ti of
                None \<Rightarrow> None
              | Some soc \<Rightarrow>
                  Some (decide_car_mode_action (st_car_mode cfg) True soc (st_min_reserve_soc cfg)
                          (st_max_discharge_w cfg) (st_car_discharge_w cfg) (ti_predicted_house_w ti)
                          (ss_setpoint_w s) 500 (ss_reserve_hold s)))"

definition export_allowed :: "mode_controller \<Rightarrow> instant \<Rightarrow> bool" where
  "export_allowed c now = (mc_allow_export c \<or> export_probe_active c now)"

definition tick_decision_inputs :: "tick_inputs \<Rightarrow> 'd control_state \<Rightarrow> instant \<Rightarrow> decision_inputs" where
  "tick_decision_inputs ti st now =
     (let cfg = ti_settings ti
      in \<lparr>di_quality = ti_quality ti, di_override = ct_override st, di_validate = ti_validate ti,
          di_prices_unavailable = ti_prices_unavailable ti, di_plan = the_plan ti, di_horizon = ti_horizon ti,
          di_car_action = car_mode_action_at ti (ct_car st), di_car_session = ss_active (ct_car st),
          di_export_armed = export_allowed (ct_mc st) now, di_min_reserve_soc = st_min_reserve_soc cfg,
          di_max_charge_w = st_max_charge_w cfg, di_max_discharge_w = st_max_discharge_w cfg\<rparr>)"

text \<open>The first part of the tick: settings, lifecycle, readiness. \<open>lc.start\<close> is given the aware \<open>now\<close>.\<close>

definition reachable :: "tick_inputs \<Rightarrow> physical_mode option \<Rightarrow> bool" where
  "reachable ti observed =
     (case ti_towers ti of
        Some ts \<Rightarrow> if ts \<noteq> [] then list_ex tw_online ts else observed \<noteq> None
      | None \<Rightarrow> observed \<noteq> None)"

definition tick_sense ::
  "'d driver \<Rightarrow> tick_inputs \<Rightarrow> 'd control_state \<Rightarrow> instant \<Rightarrow> 'd control_state \<times> (py_error + physical_mode option)" where
  "tick_sense drv ti st now =
     (let mc = apply_control_settings (ct_mc st) (ti_settings ti);
          lc = ct_lc st;
          lc = (if lc_state lc = INACTIVE then (case lc_start lc (Aware now) of Inr l \<Rightarrow> l | Inl _ \<Rightarrow> lc) else lc);
          lc = (if ti_quality ti \<noteq> ''unsafe'' then mark_sensors_validated lc else lc);
          observed = current_mode drv ti (ct_dev st);
          lc = (if reachable ti observed then mark_probe_ok lc else lc);
          st = st\<lparr>ct_cap_blocked := False, ct_mc := mc, ct_lc := lc\<rparr>
      in case ti_plan ti of
           Inl e \<Rightarrow> (st, Inl e)
         | Inr p \<Rightarrow>
             (let lc = (if p \<noteq> None then mark_plan_loaded lc else lc)
              in (st\<lparr>ct_lc := tick_at lc now\<rparr>, Inr observed)))"

subsection \<open>One command through the fence\<close>

text \<open>\<open>_decide\<close>: the command fence is entered before the controller decides.\<close>

definition ask ::
  "'d driver \<Rightarrow> tick_inputs \<Rightarrow> 'd control_state \<Rightarrow> decide_args \<Rightarrow> instant
     \<Rightarrow> 'd control_state \<times> (py_error + action_decision)" where
  "ask drv ti st a now =
     (if \<not> ti_fence_open ti then (st, Inl CommandSuperseded)
      else (let (dev, mc, r) = decide drv (ct_dev st) (ct_lc st) (ct_mc st) a now
            in (st\<lparr>ct_dev := dev, ct_mc := mc,
                   ct_outcome := (case r of Inr d \<Rightarrow> Some (ad_outcome d) | Inl _ \<Rightarrow> ct_outcome st)\<rparr>, r)))"

definition hold_args :: "physical_mode option \<Rightarrow> bool \<Rightarrow> decide_args" where
  "hold_args observed manual =
     \<lparr>da_intent = HOLD_RESERVE, da_target_soc = None, da_power_w = None, da_observed = observed,
      da_manual = manual, da_priority = True, da_car_session = False, da_force = False,
      da_count_toward_cap = False, da_commitment = False\<rparr>"

definition car_args :: "real option \<Rightarrow> real option \<Rightarrow> physical_mode option \<Rightarrow> bool \<Rightarrow> decide_args" where
  "car_args target watts observed manual =
     \<lparr>da_intent = DISCHARGE_FOR_LOAD, da_target_soc = target, da_power_w = watts, da_observed = observed,
      da_manual = manual, da_priority = True, da_car_session = True, da_force = True,
      da_count_toward_cap = False, da_commitment = False\<rparr>"

subsection \<open>The car session\<close>

definition car_session_reset :: "car_session \<Rightarrow> car_session" where
  "car_session_reset s = car_session0"

text \<open>\<open>None\<close>: the grace window is still open.\<close>

definition car_session_end_if_active ::
  "tick_inputs \<Rightarrow> 'd control_state \<Rightarrow> 'd control_state \<times> audit_row list option" where
  "car_session_end_if_active ti st =
     (if \<not> ss_active (ct_car st) then (st, Some [])
      else (let (ended, cycles) = decide_car_session_end (ct_car st) (\<not> car_charging ti) (st_end_cycles (ti_settings ti))
            in if \<not> ended then (st\<lparr>ct_car := (ct_car st)\<lparr>ss_below_cycles := cycles\<rparr>\<rparr>, None)
               else (st\<lparr>ct_car := car_session_reset (ct_car st)\<rparr>,
                     Some [row [Lit ''car session ended -- resuming plan''] [(''event'', DStr ''car_session_end'')]])))"

text \<open>\<open>f"{x:.0f}"\<close> of a missing value raises.\<close>

definition fixed0 :: "real option \<Rightarrow> py_error + piece" where
  "fixed0 x = (case x of None \<Rightarrow> Inl TypeError | Some v \<Rightarrow> Inr (Fixed 0 v))"

definition car_summary :: "bool \<Rightarrow> car_mode_action \<Rightarrow> action_decision \<Rightarrow> py_error + message" where
  "car_summary first act d =
     (let lead = Lit (if first then ''car session started'' else ''car session'')
      in if ad_outcome d = O_applied then Inr ([lead, Lit '': ''] @ ca_reason act @ [Lit '' (command sent)''])
         else if ad_outcome d = O_unconfirmed
         then bind_res (fixed0 (ca_power_w act)) (\<lambda>w.
                Inr [lead, Lit '': '', w, Lit '' W unconfirmed -- device slow to respond; holding (not reverting), will re-verify next cycle''])
         else if ad_outcome d \<in> {O_failed_recovered, O_failed_unrecovered}
         then Inr ([lead, Lit '': discharge command FAILED (''] @ ad_reason d @ [Lit '')''])
         else if ad_outcome d = O_dry_run
         then bind_res (fixed0 (ca_power_w act)) (\<lambda>w.
                Inr [lead, Lit '' (dry-run): would cover the house at '', w, Lit '' W -- no write''])
         else Inr ([lead, Lit '': not commanded (''] @ ad_reason d @ [Lit '')'']))"

definition opt_detail :: "('a \<Rightarrow> detail) \<Rightarrow> 'a option \<Rightarrow> detail" where
  "opt_detail f x = (case x of None \<Rightarrow> DNone | Some v \<Rightarrow> f v)"

definition car_session_command ::
  "'d driver \<Rightarrow> tick_inputs \<Rightarrow> 'd control_state \<Rightarrow> instant \<Rightarrow> car_mode_action \<Rightarrow> real option \<Rightarrow> bool
     \<Rightarrow> physical_mode option \<Rightarrow> 'd control_state \<times> (py_error + audit_row list)" where
  "car_session_command drv ti st now act target overridden observed =
     (let (command, nxt, event) =
            decide_car_command (ct_car st) act now observed CAR_SESSION_DWELL CAR_SESSION_MAX_COMMANDS
              (py_round0 (ti_cycle_seconds ti * 1000000))
      in if \<not> command
         then
           (if event = CarCapReconcile
            then (case ask drv ti st (hold_args observed overridden) now of
                    (st', Inl e) \<Rightarrow> (st', Inl e)
                  | (st', Inr d) \<Rightarrow>
                      (st'\<lparr>ct_car := nxt\<lparr>ss_last_outcome := Some (ad_outcome d)\<rparr>\<rparr>,
                       Inr [row [Lit ''car session: command budget spent and the battery never took the discharge -- holding at reserve (idle) so it can't drain into the car'']
                              [(''event'', DStr ''car_session_cap_reconcile''),
                               (''outcome'', DStr (outcome_value (ad_outcome d))),
                               (''commands'', DInt (ss_commands nxt))]]))
            else if event = CarCap
            then (st\<lparr>ct_car := nxt\<rparr>,
                  bind_res (fixed0 (ss_setpoint_w nxt)) (\<lambda>w.
                    Inr [row [Lit ''car session: command budget spent -- holding the current setpoint (~'', w,
                              Lit '' W), not re-commanding a moving prediction'']
                           [(''event'', DStr ''car_session_cap''),
                            (''setpoint_w'', opt_detail DReal (ss_setpoint_w nxt)),
                            (''commands'', DInt (ss_commands nxt))]]))
            else (st\<lparr>ct_car := nxt\<rparr>, Inr []))
         else
           (case ask drv ti st (car_args target (ca_power_w act) observed overridden) now of
              (st', Inl e) \<Rightarrow> (st', Inl e)
            | (st', Inr d) \<Rightarrow>
                (let s = (if ad_outcome d \<in> CAR_ATTEMPTED_OUTCOMES then nxt
                          else (ct_car st')\<lparr>ss_active := True, ss_setpoint_w := ca_power_w act\<rparr>);
                     s = s\<lparr>ss_last_outcome := Some (ad_outcome d)\<rparr>;
                     first = (event = CarStart)
                 in (st'\<lparr>ct_car := s\<rparr>,
                     bind_res (car_summary first act d) (\<lambda>summary.
                       Inr [row summary
                              [(''event'', DStr ''car_session''), (''first'', DBool first),
                               (''setpoint_w'', opt_detail DReal (ca_power_w act)),
                               (''commands'', DInt (ss_commands s)),
                               (''outcome'', DStr (outcome_value (ad_outcome d))),
                               (''accepted'', DBool (ad_applied d)), (''reason'', DText (ca_reason act)),
                               (''override_active'', DBool overridden)]])))))"

end
