(* ===== verification/ControlTick.thy ===== *)
theory ControlTick
  imports ControlState
begin

section \<open>The control tick (\<open>ControlService.control_tick\<close>)\<close>

text \<open>
  One cycle of the control loop, in the order of the code: sense, resume or drop a charge commitment,
  choose, give at most one command, explain. The choice is a value, so that what a tick may command can
  be stated before the mode controller gates it.
\<close>

subsection \<open>Cluster drift\<close>

definition laggards_of :: "physical_mode \<Rightarrow> tower list \<Rightarrow> tower list" where
  "laggards_of wanted towers =
     (let want = commanded_family wanted;
          online = filter tw_online towers;
          masters = filter (\<lambda>t. tw_role t = Some ''master'') online;
          judged = (if want = ''self-consumption'' then online else if masters \<noteq> [] then masters else online)
      in filter (\<lambda>t. has_mode t \<and> tower_family (tw_mode t) \<notin> {Some want, None}) judged)"

definition comma_list :: "string list \<Rightarrow> string" where
  "comma_list ss = (case ss of [] \<Rightarrow> [] | s # rest \<Rightarrow> s @ concat (map (\<lambda>x. '', '' @ x) rest))"

definition cluster_drift_record ::
  "'d control_state \<Rightarrow> physical_mode \<Rightarrow> tower list option \<Rightarrow> 'd control_state \<times> audit_row option" where
  "cluster_drift_record st wanted towers =
     (case towers of
        None \<Rightarrow> (st, None)
      | Some [] \<Rightarrow> (st, None)
      | Some ts \<Rightarrow>
          (let laggards = laggards_of wanted ts;
               sig = sort (map (\<lambda>t. (tw_ip t, the (tw_mode t))) laggards);
               prev = ct_drift st;
               modes = fold (\<lambda>t m. AList.update (tw_ip t) (the (tw_mode t)) m) laggards []
           in if ct_drift st = Some sig then (st, None)
              else (st\<lparr>ct_drift := Some sig\<rparr>,
                    if laggards = []
                    then (if prev \<noteq> None \<and> prev \<noteq> Some []
                          then Some (row [Lit ''Battery cluster back in sync -- all towers match the commanded mode'']
                                       [(''event'', DStr ''drift_resolved''), (''commanded'', DStr (mode_value wanted))])
                          else None)
                    else Some (row [Lit ''Battery cluster MISMATCH -- '', Count (int (length laggards)),
                                    Lit '' tower(s) NOT following the commanded '', Lit (mode_value wanted), Lit '': '',
                                    Lit (comma_list (sorted_list_of_set (snd ` set modes)))]
                                 [(''event'', DStr ''cluster_drift''), (''commanded'', DStr (mode_value wanted)),
                                  (''laggards'', DPairs modes)]))))"

subsection \<open>Intent persistence\<close>

definition intent_persistence_cycles :: "json option \<Rightarrow> int" where
  "intent_persistence_cycles setting =
     (case setting of None \<Rightarrow> 1
      | Some v \<Rightarrow> (case json_int v of Inr n \<Rightarrow> max 1 n | Inl _ \<Rightarrow> 1))"

text \<open>\<open>None\<close>: act now.\<close>

definition confirm_routine_intent ::
  "'d control_state \<Rightarrow> battery_intent \<Rightarrow> physical_mode \<Rightarrow> int \<Rightarrow> 'd control_state \<times> audit_row list option" where
  "confirm_routine_intent st intent wanted cycles =
     (let count = (if ct_pending_mode st = Some wanted then ct_pending_count st + 1 else 1);
          sig = SigIntentPending wanted;
          reason = [Lit ''intent changed to '', Lit (intent_value intent), Lit '' -- confirming for '', Count cycles,
                    Lit '' cycles before switching to '', Lit (mode_value wanted), Lit '' (anti-flap)'']
      in if cycles \<le> count then (st\<lparr>ct_pending_mode := None, ct_pending_count := 0\<rparr>, None)
         else if ct_held st = Some sig
         then (st\<lparr>ct_pending_mode := Some wanted, ct_pending_count := count\<rparr>, Some [])
         else (st\<lparr>ct_pending_mode := Some wanted, ct_pending_count := count, ct_held := Some sig\<rparr>,
               Some [row ([Lit ''Battery NOT switched to '', Lit (mode_value wanted), Lit '' yet -- ''] @ reason)
                       [(''desired_mode'', DStr (mode_value wanted)), (''intent'', DStr (intent_value intent)),
                        (''outcome'', DStr ''intent_pending''), (''reason'', DText reason),
                        (''override_active'', DBool False)]]))"

subsection \<open>Charge commitments\<close>

definition charge_deadline :: "plan option \<Rightarrow> instant \<Rightarrow> instant option" where
  "charge_deadline p now =
     (case p of None \<Rightarrow> None
      | Some q \<Rightarrow>
          (case intent_at q now of
             Some s \<Rightarrow> (case sl_deadline s of Some d \<Rightarrow> Some d
                       | None \<Rightarrow> (case pl_deadline q of Some d \<Rightarrow> Some d | None \<Rightarrow> Some (slot_end s)))
           | None \<Rightarrow> pl_deadline q))"

definition persist_charge_commitment ::
  "tick_inputs \<Rightarrow> mode_controller \<Rightarrow> instant \<Rightarrow> real option \<Rightarrow> real option \<Rightarrow> message \<Rightarrow> mode_controller" where
  "persist_charge_commitment ti c now target watts reason =
     (case target of None \<Rightarrow> c
      | Some t \<Rightarrow>
          (let deadline = opt_else (charge_deadline (the_plan ti) now) (now + 4 * us_hour);
               shown = ti_render ti reason
           in if (case mc_commitment c of None \<Rightarrow> False
                  | Some k \<Rightarrow> \<bar>cc_target_soc k - t\<bar> < 5/100 \<and> cc_deadline k = deadline) then c
              else set_charge_commitment c
                     (Some \<lparr>cc_target_soc = t, cc_deadline = deadline,
                            cc_reason = JStr (if shown = [] then ''grid_charge_to_target'' else shown),
                            cc_applied_at = now, cc_power_w = watts,
                            cc_intent = intent_value GRID_CHARGE_TO_TARGET\<rparr>)))"

definition commitment_audit :: "message \<Rightarrow> string \<Rightarrow> audit_row" where
  "commitment_audit reason out =
     row reason [(''event'', DStr ''charge_commitment''), (''outcome'', DStr out), (''reason'', DText reason)]"

definition commitment_verdict_of :: "tick_inputs \<Rightarrow> 'd control_state \<Rightarrow> instant \<Rightarrow> commitment_verdict" where
  "commitment_verdict_of ti st now =
     evaluate_commitment (mc_commitment (ct_mc st)) now (ti_soc ti) (ti_dry_run ti \<or> lc_dry_run (ct_lc st))
       (ti_armed ti) (ti_quality ti) (grace_elapsed (ct_lc st) now)"

definition resolve_charge_commitment ::
  "tick_inputs \<Rightarrow> 'd control_state \<Rightarrow> instant \<Rightarrow> 'd control_state \<times> audit_row list" where
  "resolve_charge_commitment ti st now =
     (if mc_commitment (ct_mc st) = None then (st, [])
      else (let v = commitment_verdict_of ti st now
            in case cv_action v of
                 CHold \<Rightarrow>
                   if ct_held st = Some SigCommitmentHold then (st, [])
                   else (st\<lparr>ct_held := Some SigCommitmentHold\<rparr>, [commitment_audit (cv_reason v) ''hold''])
               | CAbort \<Rightarrow>
                   (st\<lparr>ct_mc := clear_charge_commitment (ct_mc st), ct_held := None\<rparr>,
                    [commitment_audit (cv_reason v) ''aborted''])
               | _ \<Rightarrow> (st, [])))"

text \<open>The intent of the tick and its contract, as \<open>effective_intent\<close> returned them or as resumed.\<close>

definition apply_charge_commitment ::
  "tick_inputs \<Rightarrow> 'd control_state \<Rightarrow> instant \<Rightarrow> effective \<Rightarrow> 'd control_state \<times> audit_row list \<times> effective" where
  "apply_charge_commitment ti st now e =
     (case mc_commitment (ct_mc st) of
        None \<Rightarrow> (st, [], e)
      | Some c \<Rightarrow>
          if ef_override_active e
          then (if ef_intent e = Some GRID_CHARGE_TO_TARGET then (st, [], e)
                else (st\<lparr>ct_mc := clear_charge_commitment (ct_mc st)\<rparr>,
                      [commitment_audit [Lit ''commitment_aborted: manual_override -- cleared GRID_CHARGE to '',
                         Fixed 0 (cc_target_soc c), Lit ''% by '', Iso (cc_deadline c)] ''aborted''], e))
          else (let v = commitment_verdict_of ti st now
                in case cv_action v of
                     CAbort \<Rightarrow> (st\<lparr>ct_mc := clear_charge_commitment (ct_mc st)\<rparr>,
                               [commitment_audit (cv_reason v) ''aborted''], e)
                   | CHold \<Rightarrow> (st, [commitment_audit (cv_reason v) ''hold''], e)
                   | CNone \<Rightarrow> (st, [], e)
                   | CResume \<Rightarrow>
                       if ef_intent e = Some GRID_CHARGE_TO_TARGET \<and>
                          (case ef_target_soc e of None \<Rightarrow> False | Some t \<Rightarrow> \<bar>t - cc_target_soc c\<bar> < 1)
                       then (st, [], e)
                       else (let sig = SigResume (cc_deadline c) (cc_target_soc c);
                                 e' = e\<lparr>ef_intent := Some GRID_CHARGE_TO_TARGET, ef_reason := Some (cv_reason v),
                                        ef_target_soc := Some (cc_target_soc c),
                                        ef_power_w := (case cc_power_w c of Some w \<Rightarrow> Some w | None \<Rightarrow> ef_power_w e)\<rparr>
                             in if ct_held st = Some sig then (st, [], e')
                                else (st\<lparr>ct_held := Some sig\<rparr>, [commitment_audit (cv_reason v) ''resumed''], e'))))"

subsection \<open>Safe AUTO after a restart\<close>

definition startup_texts :: "string \<Rightarrow> physical_mode \<Rightarrow> message \<times> message" where
  "startup_texts out observed =
     (if out = ''applied''
      then ([Lit ''Post-restart fail-safe -- forced battery to AUTO (confirmed) because readiness is incomplete and observed mode was '',
             Lit (mode_value observed)],
            [Lit ''readiness incomplete after startup grace; refuse to leave forced mode''])
      else if out = ''unconfirmed''
      then ([Lit ''Post-restart fail-safe -- AUTO write unconfirmed while readiness is incomplete; battery may still be in a forced mode''],
            [Lit ''AUTO write timed out or was not accepted; will retry next cycle''])
      else ([Lit ''Post-restart fail-safe -- could not force AUTO while readiness is incomplete; battery may still be in a forced mode''],
            [Lit ''write raised; readiness incomplete after grace'']))"

definition startup_needed :: "tick_inputs \<Rightarrow> 'd control_state \<Rightarrow> instant \<Rightarrow> physical_mode option \<Rightarrow> bool" where
  "startup_needed ti st now observed =
     (\<not> ti_dry_run ti \<and> ti_armed ti \<and> grace_elapsed (ct_lc st) now \<and> \<not> ov_active (ct_override st) now \<and>
      \<not> override_active (ct_lc st) now \<and> \<not> ready_to_act (ct_lc st) now \<and> observed \<notin> {None, Some AUTO})"

definition startup_safe_auto ::
  "'d driver \<Rightarrow> tick_inputs \<Rightarrow> 'd control_state \<Rightarrow> instant \<Rightarrow> physical_mode option \<Rightarrow> 'd control_state \<times> audit_row list" where
  "startup_safe_auto drv ti st now observed =
     (if \<not> startup_needed ti st now observed \<or> \<not> ti_fence_open ti then (st, [])
      else (let (res, dev) = drv_apply drv (ct_dev st) AUTO None None;
                out = (case res of Accepted \<Rightarrow> ''applied'' | Raised \<Rightarrow> ''failed'' | _ \<Rightarrow> ''unconfirmed'');
                st = st\<lparr>ct_dev := dev,
                        ct_mc := (if res = Accepted then note_confirmed_auto (ct_mc st)
                                  else note_overrun_recovery (ct_mc st)),
                        ct_held := (if res = Accepted then None else ct_held st)\<rparr>;
                sig = SigStartup out (the observed);
                (summary, reason) = startup_texts out (the observed)
            in if ct_held st = Some sig then (st, [])
               else (st\<lparr>ct_held := Some sig\<rparr>,
                     [row summary [(''event'', DStr ''startup_safe_auto''), (''outcome'', DStr out),
                        (''observed_mode'', DStr (mode_value (the observed))), (''reason'', DText reason)]])))"

subsection \<open>Choosing what to do\<close>

datatype tick_choice =
    Finished "audit_row list"
  | RunCarSession car_mode_action
  | HoldAtReserve car_mode_action bool          \<comment> \<open>whether the hold begins this tick\<close>
  | EndAtReserve
  | Command battery_intent "message option"     \<comment> \<open>with the note of the floor anti-flap\<close>

definition intent_of_tick ::
  "tick_inputs \<Rightarrow> 'd control_state \<Rightarrow> instant \<Rightarrow> 'd control_state \<times> (py_error + audit_row list \<times> effective)" where
  "intent_of_tick ti st now =
     (let di = tick_decision_inputs ti st now
      in case effective_intent di now of
           Inl e \<Rightarrow> (st, Inl e)
         | Inr ef \<Rightarrow>
             (let rejected = (case ef_validation ef of
                                None \<Rightarrow> False
                              | Some v \<Rightarrow> \<not> pv_ok v \<and>
                                  \<not> (ef_override_active ef \<and>
                                     ov_intent (ct_override st) = Some ALLOW_SELF_CONSUMPTION));
                  st = (if rejected then st\<lparr>ct_counters := incr_validator_rejects (ct_counters st) 1\<rparr> else st);
                  (st, rows, ef) = apply_charge_commitment ti st now ef
              in (st\<lparr>ct_intended := ef_intent ef\<rparr>, Inr (rows, ef))))"

text \<open>The routine part: floor anti-flap, then intent persistence.\<close>

definition choose_routine ::
  "tick_inputs \<Rightarrow> 'd control_state \<Rightarrow> instant \<Rightarrow> physical_mode option \<Rightarrow> audit_row list \<Rightarrow> effective \<Rightarrow> battery_intent
     \<Rightarrow> 'd control_state \<times> audit_row list \<times> tick_choice" where
  "choose_routine ti st now observed rows ef intent =
     (let (intent, remark, holding) =
            (if ef_override_active ef then (intent, None, ct_floor_holding st)
             else resolve_floor_anti_flap intent (ti_soc ti) (st_min_reserve_soc (ti_settings ti)) observed
                    (ct_floor_holding st) FLOOR_RESUME_PP);
          st = (if ef_override_active ef then st
                else st\<lparr>ct_floor_holding := holding, ct_intended := Some intent,
                        ct_floor_sig := (if holding then ct_floor_sig st else None)\<rparr>);
          cycles = intent_persistence_cycles (st_persistence_cycles (ti_settings ti));
          wanted = intent_to_mode intent (export_allowed (ct_mc st) now) False
      in if 1 < cycles \<and> \<not> ef_override_active ef \<and> \<not> car_charging ti \<and> intent \<noteq> GRID_CHARGE_TO_TARGET \<and>
            wanted \<noteq> AUTO \<and> observed \<noteq> Some wanted
         then (case confirm_routine_intent st intent wanted cycles of
                 (st, Some held) \<Rightarrow> (st, rows, Finished held)
               | (st, None) \<Rightarrow> (st, rows, Command intent remark))
         else (st\<lparr>ct_pending_mode := None, ct_pending_count := 0\<rparr>, rows, Command intent remark))"

definition tick_failsafe :: "tick_inputs \<Rightarrow> effective \<Rightarrow> bool" where
  "tick_failsafe ti ef =
     (ti_quality ti = ''unsafe'' \<or> (case ef_validation ef of Some v \<Rightarrow> \<not> pv_ok v | None \<Rightarrow> False) \<or>
      (case ti_horizon ti of Some (ok, _) \<Rightarrow> \<not> ok | None \<Rightarrow> False))"

definition defer_reason :: message where
  "defer_reason = [Lit ''car charging in progress -- deferring grid-charge command to avoid Indevolt write timeouts; will retry after session ends'']"

definition choose_action ::
  "tick_inputs \<Rightarrow> 'd control_state \<Rightarrow> instant \<Rightarrow> physical_mode option \<Rightarrow> audit_row list \<Rightarrow> effective
     \<Rightarrow> 'd control_state \<times> audit_row list \<times> tick_choice" where
  "choose_action ti st now observed rows ef =
     (case ef_intent ef of
        None \<Rightarrow>
          (let (st, ended) = car_session_end_if_active ti st in (st, rows, Finished (opt_else ended [])))
      | Some intent \<Rightarrow>
          if (case ef_car_action ef of Some a \<Rightarrow> ca_action a = ''discharge'' | None \<Rightarrow> False)
          then (st\<lparr>ct_car := (ct_car st)\<lparr>ss_below_cycles := 0, ss_reserve_hold := False\<rparr>\<rparr>, rows,
                RunCarSession (the (ef_car_action ef)))
          else if (case ef_car_action ef of Some a \<Rightarrow> ca_action a = ''hold'' \<and> ca_reserve_hold a | None \<Rightarrow> False) \<and>
                  ss_active (ct_car st)
          then (st\<lparr>ct_car := (ct_car st)\<lparr>ss_below_cycles := 0, ss_reserve_hold := True\<rparr>\<rparr>, rows,
                HoldAtReserve (the (ef_car_action ef)) (\<not> ss_reserve_hold (ct_car st)))
          else if ss_active (ct_car st) \<and> \<not> ef_override_active ef \<and> intent = GRID_CHARGE_TO_TARGET \<and>
                  st_hold_when_car (ti_settings ti) \<and> car_charging ti
          then (if ct_held st = Some SigDeferred then (st, rows, Finished [])
                else (st\<lparr>ct_held := Some SigDeferred\<rparr>, rows,
                      Finished [row defer_reason
                        [(''desired_mode'', DStr (mode_value CHARGE)), (''intent'', DStr (intent_value intent)),
                         (''outcome'', DStr ''deferred''), (''reason'', DText defer_reason),
                         (''override_active'', DBool (ef_override_active ef))]]))
          else (case car_session_end_if_active ti st of
                  (st, Some ended) \<Rightarrow> choose_routine ti st now observed (rows @ ended) ef intent
                | (st, None) \<Rightarrow>
                    (case decide_grace_action (ef_override_active ef) (tick_failsafe ti ef) (ti_soc ti)
                            (st_min_reserve_soc (ti_settings ti)) of
                       GraceHold \<Rightarrow> (st, rows, Finished [])
                     | GraceReserveHold \<Rightarrow> (st\<lparr>ct_car := car_session_reset (ct_car st)\<rparr>, rows, EndAtReserve)
                     | FallThrough \<Rightarrow>
                         choose_routine ti (st\<lparr>ct_car := car_session_reset (ct_car st)\<rparr>) now observed
                           (rows @ [row [Lit ''car session ended -- override/fail-safe takes precedence'']
                                      [(''event'', DStr ''car_session_end''), (''reason'', DStr ''override_or_failsafe'')]])
                           ef intent)))"

subsection \<open>Explaining the command\<close>

definition planned_grid_charge_minutes :: "plan option \<Rightarrow> instant \<Rightarrow> real" where
  "planned_grid_charge_minutes p now =
     (case p of None \<Rightarrow> 0
      | Some q \<Rightarrow> (case intent_at q now of
                    None \<Rightarrow> 0
                  | Some s \<Rightarrow> if sl_intent s \<noteq> GRID_CHARGE_TO_TARGET then 0
                            else max 0 (total_seconds (slot_end s - sl_start s) / 60)))"

definition decision_detail :: "action_decision \<Rightarrow> message \<Rightarrow> bool \<Rightarrow> (string \<times> detail) list" where
  "decision_detail d reason overridden =
     [(''desired_mode'', DStr (mode_value (ad_mode d))), (''intent'', DStr (intent_value (ad_intent d))),
      (''outcome'', DStr (outcome_value (ad_outcome d))), (''reason'', DText reason),
      (''override_active'', DBool overridden)]"

definition written_row :: "physical_mode option \<Rightarrow> action_decision \<Rightarrow> message option \<Rightarrow> audit_row" where
  "written_row observed d remark =
     (let before = (case observed of Some m \<Rightarrow> mode_value m | None \<Rightarrow> ''unknown'')
      in row ([Lit ''Battery mode '', Lit before, Lit '' -> '', Lit (mode_value (ad_mode d)), Lit '' -- ''] @
              (if ad_applied d then [Lit ''command sent''] else [Lit ''command FAILED (''] @ ad_reason d @ [Lit '')'']))
           [(''from_mode'', DStr before), (''desired_mode'', DStr (mode_value (ad_mode d))),
            (''intent'', DStr (intent_value (ad_intent d))), (''outcome'', DStr (outcome_value (ad_outcome d))),
            (''accepted'', DBool (ad_applied d)),
            (''reason'', DText (case remark of None \<Rightarrow> ad_reason d | Some n \<Rightarrow> if n = [] then ad_reason d else n))])"

definition persist_if_charging ::
  "tick_inputs \<Rightarrow> 'd control_state \<Rightarrow> instant \<Rightarrow> effective \<Rightarrow> action_decision \<Rightarrow> 'd control_state" where
  "persist_if_charging ti st now ef d =
     (let reason = (case ef_reason ef of Some r \<Rightarrow> if r = [] then ad_reason d else r | None \<Rightarrow> ad_reason d)
      in st\<lparr>ct_mc := persist_charge_commitment ti (ct_mc st) now (ef_target_soc ef) (ef_power_w ef) reason\<rparr>)"

definition explain_command ::
  "tick_inputs \<Rightarrow> 'd control_state \<Rightarrow> instant \<Rightarrow> physical_mode option \<Rightarrow> effective \<Rightarrow> message option \<Rightarrow> action_decision
     \<Rightarrow> 'd control_state \<times> audit_row list" where
  "explain_command ti st now observed ef remark d =
     (if ad_outcome d \<in> {O_applied, O_failed_recovered, O_failed_unrecovered}
      then (let st = st\<lparr>ct_held := None, ct_floor_sig := None\<rparr>;
                st = (if ad_applied d \<and> ad_intent d = GRID_CHARGE_TO_TARGET
                      then persist_if_charging ti st now ef d else st)
            in (st, [written_row observed d remark]))
      else if ad_outcome d = O_idempotent
      then (let st = st\<lparr>ct_held := None\<rparr>;
                st = (if ad_intent d = GRID_CHARGE_TO_TARGET \<and> ad_mode d = CHARGE \<and>
                         mc_commitment (ct_mc st) = None \<and> ef_target_soc ef \<noteq> None
                      then persist_if_charging ti st now ef d else st);
                (st, drift) = cluster_drift_record st (ad_mode d) (ti_towers ti);
                rows = (case drift of Some r \<Rightarrow> [r] | None \<Rightarrow> [])
            in (case remark of
                  None \<Rightarrow> (st, rows)
                | Some n \<Rightarrow>
                    if n = [] \<or> ct_floor_sig st = Some (ad_mode d) then (st, rows)
                    else (st\<lparr>ct_floor_sig := Some (ad_mode d)\<rparr>,
                          rows @ [row ([Lit ''Battery NOT switched -- ''] @ n)
                            [(''desired_mode'', DStr (mode_value (ad_mode d))),
                             (''intent'', DStr (intent_value (ad_intent d))),
                             (''outcome'', DStr ''floor_anti_flap''), (''reason'', DText n),
                             (''override_active'', DBool (ef_override_active ef))]])))
      else if ad_outcome d = O_unconfirmed
      then (st\<lparr>ct_held := None\<rparr>,
            if ad_audit d
            then [row [Lit ''Battery '', Lit (mode_value (ad_mode d)),
                       Lit '' unconfirmed -- device slow to respond; holding and retrying (not reverting)'']
                    (decision_detail d (ad_reason d) (ef_override_active ef))]
            else [])
      else if ad_outcome d \<in> {O_dwell, O_cap_reached, O_not_controlling}
      then (let blocked = (ad_outcome d = O_cap_reached \<and> ad_intent d = GRID_CHARGE_TO_TARGET \<and>
                           15 \<le> planned_grid_charge_minutes (the_plan ti) now);
                st = st\<lparr>ct_cap_blocked := blocked,
                        ct_counters := (if blocked then incr_charge_blocked_by_cap (ct_counters st) 1 else ct_counters st)\<rparr>;
                sig = SigHeld (ad_outcome d) (ad_mode d)
            in if ct_held st = Some sig then (st, [])
               else (st\<lparr>ct_held := Some sig\<rparr>,
                     [row ([Lit ''Battery NOT switched to '', Lit (mode_value (ad_mode d)), Lit '' -- ''] @ ad_reason d)
                        (decision_detail d (ad_reason d) (ef_override_active ef) @
                         (if blocked then [(''charge_blocked_by_cap'', DBool True)] else []))]))
      else (st, []))"

subsection \<open>Acting on the choice\<close>

definition command_args ::
  "tick_inputs \<Rightarrow> effective \<Rightarrow> battery_intent \<Rightarrow> physical_mode option \<Rightarrow> decide_args" where
  "command_args ti ef intent observed =
     \<lparr>da_intent = intent, da_target_soc = ef_target_soc ef, da_power_w = ef_power_w ef, da_observed = observed,
      da_manual = ef_override_active ef, da_priority = car_charging ti, da_car_session = False, da_force = False,
      da_count_toward_cap = True, da_commitment = (intent = GRID_CHARGE_TO_TARGET)\<rparr>"

definition act ::
  "'d driver \<Rightarrow> tick_inputs \<Rightarrow> 'd control_state \<Rightarrow> instant \<Rightarrow> physical_mode option \<Rightarrow> effective \<Rightarrow> tick_choice
     \<Rightarrow> 'd control_state \<times> (py_error + audit_row list)" where
  "act drv ti st now observed ef choice =
     (case choice of
        Finished rows \<Rightarrow> (st, Inr rows)
      | RunCarSession a \<Rightarrow> car_session_command drv ti st now a (ef_target_soc ef) (ef_override_active ef) observed
      | HoldAtReserve a entering \<Rightarrow>
          (case ask drv ti st (hold_args observed (ef_override_active ef)) now of
             (st, Inl e) \<Rightarrow> (st, Inl e)
           | (st, Inr d) \<Rightarrow>
               (st\<lparr>ct_car := (ct_car st)\<lparr>ss_last_outcome := Some (ad_outcome d)\<rparr>\<rparr>,
                Inr (if entering
                     then [row ([Lit ''car session held at the reserve floor -- ''] @ ca_reason a)
                             [(''event'', DStr ''car_session_reserve_hold''),
                              (''outcome'', DStr (outcome_value (ad_outcome d)))]]
                     else [])))
      | EndAtReserve \<Rightarrow>
          (case ask drv ti st (hold_args observed (ef_override_active ef)) now of
             (st, Inl e) \<Rightarrow> (st, Inl e)
           | (st, Inr d) \<Rightarrow>
               (st, Inr [row [Lit ''car session ended at the reserve floor -- holding (idle) so the battery can't drain into the car'']
                           [(''event'', DStr ''car_session_end''), (''reason'', DStr ''reserve_floor''),
                            (''outcome'', DStr (outcome_value (ad_outcome d)))]]))
      | Command intent remark \<Rightarrow>
          (case ask drv ti st (command_args ti ef intent observed) now of
             (st, Inl e) \<Rightarrow> (st, Inl e)
           | (st, Inr d) \<Rightarrow>
               (let (st, rows) = explain_command ti st now observed ef remark d in (st, Inr rows))))"

subsection \<open>The tick\<close>

definition control_tick_body ::
  "'d driver \<Rightarrow> tick_inputs \<Rightarrow> 'd control_state \<Rightarrow> instant \<Rightarrow> 'd control_state \<times> (py_error + audit_row list)" where
  "control_tick_body drv ti st now =
     (case tick_sense drv ti st now of
        (st, Inl e) \<Rightarrow> (st, Inl e)
      | (st, Inr observed) \<Rightarrow>
          if \<not> can_command_at (ct_lc st) now
          then (let (st, rows) = resolve_charge_commitment ti st now;
                    (st, more) = startup_safe_auto drv ti st now observed
                in (st, Inr (rows @ more)))
          else (case intent_of_tick ti st now of
                  (st, Inl e) \<Rightarrow> (st, Inl e)
                | (st, Inr (rows, ef)) \<Rightarrow>
                    (let (st, rows, choice) = choose_action ti st now observed rows ef;
                         (st, res) = act drv ti st now observed ef choice
                     in (st, bind_res res (\<lambda>more. Inr (rows @ more))))))"

text \<open>
  \<open>control_tick\<close>: the body, then the counters, also when the body raises (then with no rows). The
  structured reason attached to decision rows is the presentation layer's and is left out.
\<close>

definition control_tick ::
  "'d driver \<Rightarrow> tick_inputs \<Rightarrow> 'd control_state \<Rightarrow> instant \<Rightarrow> real \<Rightarrow> 'd control_state \<times> (py_error + audit_row list)" where
  "control_tick drv ti st now latency_ms =
     (let (st, res) = control_tick_body drv ti (st\<lparr>ct_outcome := None\<rparr>) now;
          rows = (case res of Inr rows \<Rightarrow> rows | Inl _ \<Rightarrow> [])
      in (st\<lparr>ct_counters := observe_cycle_counters (ct_counters st) (ct_outcome st) rows (ti_quality ti)
                             (ti_horizon ti) latency_ms\<rparr>, res))"

end
