(* ===== verification/ControlTickSafety.thy ===== *)
theory ControlTickSafety
  imports ControlTick
begin

section \<open>What a control tick may write\<close>

text \<open>
  Every physical command of a tick is traced by running it on a driver that keeps a log beside the
  device. The lemmas follow the tick inwards: the command log of one decision, the choice that led to
  it, the intent behind the choice.
\<close>

subsection \<open>A driver that keeps a log\<close>

type_synonym command = "physical_mode \<times> real option \<times> real option"

definition logged :: "'d driver \<Rightarrow> ('d \<times> command list) driver" where
  "logged drv =
     \<lparr>drv_apply = (\<lambda>(d, lg) m t w. let (r, d') = drv_apply drv d m t w in (r, d', lg @ [(m, t, w)])),
      drv_mode = (\<lambda>(d, lg). drv_mode drv d)\<rparr>"

lemma logged_simps [simp]:
  "drv_apply (logged drv) (d, lg) m t w = (fst (drv_apply drv d m t w), snd (drv_apply drv d m t w), lg @ [(m, t, w)])"
  "drv_mode (logged drv) (d, lg) = drv_mode drv d"
  by (simp_all add: logged_def split_beta)

text \<open>
  One command, or none; a refused command is followed by one more, back to AUTO.
\<close>

definition one_command :: "command \<Rightarrow> command list \<Rightarrow> command list \<Rightarrow> bool" where
  "one_command c lg lg' = (lg' = lg \<or> lg' = lg @ [c] \<or> lg' = lg @ [c, (AUTO, None, None)])"

lemma one_command_in: "one_command c [] lg' \<Longrightarrow> x \<in> set lg' \<Longrightarrow> x = c \<or> x = (AUTO, None, None)"
  by (auto simp: one_command_def)

lemma write_mode_logged:
  "write_mode (logged drv) dl c a m now = (dl', c', r) \<Longrightarrow>
     one_command (m, da_target_soc a, da_power_w a) (snd dl) (snd dl')"
  by (cases dl) (auto simp: write_mode_def one_command_def Let_def split: prod.splits apply_result.splits)

lemma decide_logged:
  assumes "decide (logged drv) dl lc c a now = (dl', c', r)"
  shows "one_command (desired c (da_intent a) (da_car_session a) (Some now), da_target_soc a, da_power_w a)
           (snd dl) (snd dl')"
    and "snd dl' \<noteq> snd dl \<Longrightarrow> \<not> mc_dry_run c \<and> can_command_at lc now"
  using assms
  by (cases rule: decide_cases; auto simp: one_command_def dest!: write_mode_logged gate_None)+

lemma ask_logged:
  assumes "ask (logged drv) ti st a now = (st', r)"
  shows "one_command (desired (ct_mc st) (da_intent a) (da_car_session a) (Some now), da_target_soc a, da_power_w a)
           (snd (ct_dev st)) (snd (ct_dev st'))"
    and "snd (ct_dev st') \<noteq> snd (ct_dev st) \<Longrightarrow> \<not> mc_dry_run (ct_mc st) \<and> can_command_at (ct_lc st) now"
  using assms decide_logged [of drv "ct_dev st" "ct_lc st" "ct_mc st" a now]
  by (auto simp: ask_def one_command_def Let_def split: if_splits prod.splits)

lemma desired_risky:
  "desired c i s (Some now) = CHARGE \<longleftrightarrow> i = GRID_CHARGE_TO_TARGET"
  "desired c i False (Some now) = DISCHARGE \<longleftrightarrow> i = EXPORT_FOR_PROFIT \<and> export_allowed c now"
  by (auto simp: desired_def Let_def intent_to_mode_charge_iff intent_to_mode_discharge_iff export_allowed_def)

subsection \<open>Frame facts\<close>

lemma session_end_frame:
  "car_session_end_if_active ti st = (st', e) \<Longrightarrow>
     ct_dev st' = ct_dev st \<and> ct_mc st' = ct_mc st \<and> ct_lc st' = ct_lc st"
  by (auto simp: car_session_end_if_active_def Let_def split: if_splits prod.splits)

lemma confirm_frame:
  "confirm_routine_intent st i w n = (st', h) \<Longrightarrow>
     ct_dev st' = ct_dev st \<and> ct_mc st' = ct_mc st \<and> ct_lc st' = ct_lc st"
  by (auto simp: confirm_routine_intent_def Let_def split: if_splits)

lemma choose_routine_frame:
  "choose_routine ti st now ob rows ef i = (st', rows', ch) \<Longrightarrow>
     ct_dev st' = ct_dev st \<and> ct_mc st' = ct_mc st \<and> ct_lc st' = ct_lc st"
  by (auto simp: choose_routine_def Let_def dest: confirm_frame split: if_splits prod.splits option.splits)

lemma clear_commitment_simps [simp]:
  "mc_dry_run (clear_charge_commitment c) = mc_dry_run c"
  "mc_allow_export (clear_charge_commitment c) = mc_allow_export c"
  "mc_export_probe_until (clear_charge_commitment c) = mc_export_probe_until c"
  by (simp_all add: clear_charge_commitment_def persist_def)

lemma apply_commitment_frame:
  "apply_charge_commitment ti st now e = (st', rows, e') \<Longrightarrow>
     ct_dev st' = ct_dev st \<and> ct_lc st' = ct_lc st \<and> mc_dry_run (ct_mc st') = mc_dry_run (ct_mc st) \<and>
     export_allowed (ct_mc st') now = export_allowed (ct_mc st) now \<and>
     ef_car_action e' = ef_car_action e \<and> ef_override_active e' = ef_override_active e"
  by (auto simp: apply_charge_commitment_def export_allowed_def export_probe_active_def Let_def
      split: option.splits if_splits commitment_action.splits)

subsection \<open>The choice\<close>

lemma floor_anti_flap_risky:
  "resolve_floor_anti_flap i soc f ob h p = (i', r, h') \<Longrightarrow> i' \<notin> {HOLD_RESERVE, ALLOW_SELF_CONSUMPTION} \<Longrightarrow> i' = i"
  by (auto simp: resolve_floor_anti_flap_def Let_def split: if_splits option.splits)

lemma choose_routine_command:
  assumes "choose_routine ti st now ob rows ef i = (st', rows', ch)"
  shows "(\<exists>rs. ch = Finished rs) \<or> (\<exists>j n. ch = Command j n \<and> (j \<notin> {HOLD_RESERVE, ALLOW_SELF_CONSUMPTION} \<longrightarrow> j = i))"
  using assms
  by (auto simp: choose_routine_def Let_def dest: floor_anti_flap_risky
      split: if_splits prod.splits option.splits)

text \<open>A choice is made here, or by the routine part on a state that differs in the car session only.\<close>

lemma choose_action_shape:
  assumes "choose_action ti st now ob rows ef = (st', rows', ch)"
  obtains i st1 rows1 where "ef_intent ef = Some i" "choose_routine ti st1 now ob rows1 ef i = (st', rows', ch)"
      "ct_dev st1 = ct_dev st" "ct_mc st1 = ct_mc st" "ct_lc st1 = ct_lc st"
  | "ct_dev st' = ct_dev st" "ct_mc st' = ct_mc st" "ct_lc st' = ct_lc st"
    "(\<exists>rs. ch = Finished rs) \<or> ch = EndAtReserve \<or> (\<exists>a b. ch = HoldAtReserve a b) \<or>
     (\<exists>a. ch = RunCarSession a \<and> ef_car_action ef = Some a \<and> ca_action a = ''discharge'')"
proof -
  obtain st1 ended where se: "car_session_end_if_active ti st = (st1, ended)" by (metis prod.exhaust)
  note fr = session_end_frame [OF se]
  show ?thesis
  proof (cases "ef_intent ef")
    case None
    with assms se fr that(2) show ?thesis by (auto simp: choose_action_def)
  next
    case (Some i)
    show ?thesis
    proof (cases "(case ef_car_action ef of Some a \<Rightarrow> ca_action a = ''discharge'' | None \<Rightarrow> False)")
      case True
      with assms Some that(2) show ?thesis by (auto simp: choose_action_def split: option.splits)
    next
      case nd: False
      show ?thesis
      proof (cases "(case ef_car_action ef of Some a \<Rightarrow> ca_action a = ''hold'' \<and> ca_reserve_hold a | None \<Rightarrow> False) \<and>
                  ss_active (ct_car st)")
        case True
        with assms Some nd that(2) show ?thesis by (auto simp: choose_action_def)
      next
        case nh: False
        show ?thesis
        proof (cases "ss_active (ct_car st) \<and> \<not> ef_override_active ef \<and> i = GRID_CHARGE_TO_TARGET \<and>
                  st_hold_when_car (ti_settings ti) \<and> car_charging ti")
          case True
          with assms Some nd nh that(2) show ?thesis by (auto simp: choose_action_def split: if_splits)
        next
          case False
          note eq = assms [unfolded choose_action_def Some option.case if_not_P [OF nd] if_not_P [OF nh] if_not_P [OF False] se prod.case]
          show ?thesis
          proof (cases ended)
            case (Some rs)
            with eq fr that(1) [OF \<open>ef_intent ef = Some i\<close>] show ?thesis by simp
          next
            case None
            with eq fr that(1) [OF \<open>ef_intent ef = Some i\<close>] that(2) show ?thesis
              by (auto split: grace_action.splits)
          qed
        qed
      qed
    qed
  qed
qed

lemma choose_action_cases:
  assumes "choose_action ti st now ob rows ef = (st', rows', ch)"
  shows "ct_dev st' = ct_dev st \<and> ct_mc st' = ct_mc st \<and> ct_lc st' = ct_lc st"
    and "(\<exists>rs. ch = Finished rs) \<or> ch = EndAtReserve \<or> (\<exists>a b. ch = HoldAtReserve a b) \<or>
         (\<exists>a. ch = RunCarSession a \<and> ef_car_action ef = Some a \<and> ca_action a = ''discharge'') \<or>
         (\<exists>j n. ch = Command j n \<and> (j \<notin> {HOLD_RESERVE, ALLOW_SELF_CONSUMPTION} \<longrightarrow> ef_intent ef = Some j))"
  using assms
  by (cases rule: choose_action_shape; auto dest: choose_routine_frame choose_routine_command)+

subsection \<open>The intent\<close>

definition plan_orders :: "tick_inputs \<Rightarrow> instant \<Rightarrow> battery_intent \<Rightarrow> bool" where
  "plan_orders ti now i =
     (\<exists>p cur. the_plan ti = Some p \<and> intent_at p now = Some cur \<and> sl_intent cur = i \<and>
        \<not> ti_prices_unavailable ti \<and> ti_quality ti \<noteq> ''unsafe'' \<and> pv_ok (ti_validate ti p))"

definition operator_orders :: "tick_inputs \<Rightarrow> override \<Rightarrow> instant \<Rightarrow> battery_intent \<Rightarrow> bool" where
  "operator_orders ti ov now i =
     (ov_active ov now \<and> ov_intent ov = Some i \<and>
      (\<exists>t w p. ov_as_plan ov now t w (Some (st_min_reserve_soc (ti_settings ti))) = Inr p \<and> pv_ok (ti_validate ti p)))"

definition commitment_orders :: "tick_inputs \<Rightarrow> charge_commitment \<Rightarrow> instant \<Rightarrow> bool" where
  "commitment_orders ti c now =
     (now < cc_deadline c \<and> (\<forall>s. ti_soc ti = Some s \<longrightarrow> s < cc_target_soc c) \<and> \<not> ti_dry_run ti \<and> ti_armed ti \<and>
      ti_quality ti \<notin> {''unsafe'', ''price_fallback''})"

definition car_mode_orders :: "tick_inputs \<Rightarrow> bool" where
  "car_mode_orders ti =
     (st_hold_when_car (ti_settings ti) \<and> car_charging ti \<and> ti_quality ti \<noteq> ''unsafe'' \<and>
      st_car_mode (ti_settings ti) \<in> {''static_discharge'', ''match_home_load''} \<and>
      (\<exists>soc. ti_soc ti = Some soc \<and> st_min_reserve_soc (ti_settings ti) + RESERVE_ENTER_PP < soc))"

lemma car_mode_action_discharge:
  "car_mode_action_at ti s = Some a \<Longrightarrow> ca_action a = ''discharge'' \<Longrightarrow> ti_quality ti \<noteq> ''unsafe'' \<Longrightarrow> car_mode_orders ti"
  by (auto simp: car_mode_action_at_def decide_car_mode_action_def car_mode_orders_def car_mode_consts Let_def
      split: if_splits option.splits)

lemma resume_gates:
  "cv_action (evaluate_commitment (Some c) now soc dry armed q grace) = CResume \<Longrightarrow>
     now < cc_deadline c \<and> (\<forall>s. soc = Some s \<longrightarrow> s < cc_target_soc c) \<and> \<not> dry \<and> armed \<and>
     q \<notin> {''unsafe'', ''price_fallback''}"
  by (auto simp: evaluate_commitment_def verdict_def not_le split: if_splits option.splits)

lemma commitment_verdict_resume:
  "mc_commitment (ct_mc st) = Some c \<Longrightarrow> cv_action (commitment_verdict_of ti st now) = CResume \<Longrightarrow>
     commitment_orders ti c now"
  by (auto simp: commitment_verdict_of_def commitment_orders_def dest!: resume_gates)

lemma apply_commitment_intent:
  assumes "apply_charge_commitment ti st now e = (st', rows, e')"
  shows "ef_intent e' = ef_intent e \<or>
         (ef_intent e' = Some GRID_CHARGE_TO_TARGET \<and> (\<exists>c. mc_commitment (ct_mc st) = Some c \<and> commitment_orders ti c now))"
  using assms commitment_verdict_resume [of st _ ti now]
  by (auto simp: apply_charge_commitment_def Let_def split: option.splits if_splits commitment_action.splits)

lemma intent_of_tick_cases:
  assumes "intent_of_tick ti st now = (st', Inr (rows, ef))"
  shows "ct_dev st' = ct_dev st \<and> ct_lc st' = ct_lc st \<and> mc_dry_run (ct_mc st') = mc_dry_run (ct_mc st) \<and>
         export_allowed (ct_mc st') now = export_allowed (ct_mc st) now"
    and "ef_intent ef = Some i \<Longrightarrow> i \<in> {GRID_CHARGE_TO_TARGET, EXPORT_FOR_PROFIT} \<Longrightarrow>
         plan_orders ti now i \<or> operator_orders ti (ct_override st) now i \<or>
         (i = GRID_CHARGE_TO_TARGET \<and> (\<exists>c. mc_commitment (ct_mc st) = Some c \<and> commitment_orders ti c now))"
    and "ef_car_action ef = Some a \<Longrightarrow> ca_action a = ''discharge'' \<Longrightarrow> car_mode_orders ti"
proof -
  let ?di = "tick_decision_inputs ti st now"
  have di: "di_quality ?di = ti_quality ti" "di_override ?di = ct_override st" "di_validate ?di = ti_validate ti"
    "di_plan ?di = the_plan ti" "di_prices_unavailable ?di = ti_prices_unavailable ti"
    "di_car_action ?di = car_mode_action_at ti (ct_car st)"
    "di_min_reserve_soc ?di = st_min_reserve_soc (ti_settings ti)"
    by (simp_all add: tick_decision_inputs_def Let_def)
  from assms obtain e where e: "effective_intent ?di now = Inr e"
    by (auto simp: intent_of_tick_def Let_def split: sum.splits)
  have decided: "plan_orders ti now i \<or> operator_orders ti (ct_override st) now i"
    if "ef_intent e = Some i" "i \<in> {GRID_CHARGE_TO_TARGET, EXPORT_FOR_PROFIT}" for i
  proof -
    from risky_intent_cases [of ?di now, unfolded di] e that show ?thesis
      unfolding plan_orders_def operator_orders_def by fastforce
  qed
  define rejected where "rejected = (case ef_validation e of None \<Rightarrow> False
     | Some v \<Rightarrow> \<not> pv_ok v \<and> \<not> (ef_override_active e \<and> ov_intent (ct_override st) = Some ALLOW_SELF_CONSUMPTION))"
  define st1 where "st1 = (if rejected then st\<lparr>ct_counters := incr_validator_rejects (ct_counters st) 1\<rparr> else st)"
  have st1: "ct_dev st1 = ct_dev st" "ct_lc st1 = ct_lc st" "ct_mc st1 = ct_mc st" by (simp_all add: st1_def)
  obtain st2 rows2 ef2 where ap2: "apply_charge_commitment ti st1 now e = (st2, rows2, ef2)" by (metis prod_cases3)
  have "intent_of_tick ti st now = (st2\<lparr>ct_intended := ef_intent ef2\<rparr>, Inr (rows2, ef2))"
    by (simp add: intent_of_tick_def e Let_def ap2 rejected_def [symmetric] st1_def [symmetric])
  with assms ap2 have ap: "apply_charge_commitment ti st1 now e = (st2, rows, ef)"
    and st': "st' = st2\<lparr>ct_intended := ef_intent ef\<rparr>" by auto
  note fr = apply_commitment_frame [OF ap]
  show "ct_dev st' = ct_dev st \<and> ct_lc st' = ct_lc st \<and> mc_dry_run (ct_mc st') = mc_dry_run (ct_mc st) \<and>
         export_allowed (ct_mc st') now = export_allowed (ct_mc st) now"
    using fr st1 st' by simp
  show "ef_intent ef = Some i \<Longrightarrow> i \<in> {GRID_CHARGE_TO_TARGET, EXPORT_FOR_PROFIT} \<Longrightarrow>
         plan_orders ti now i \<or> operator_orders ti (ct_override st) now i \<or>
         (i = GRID_CHARGE_TO_TARGET \<and> (\<exists>c. mc_commitment (ct_mc st) = Some c \<and> commitment_orders ti c now))"
    using apply_commitment_intent [OF ap] decided [of i] unfolding st1(3) by auto
  show "ef_car_action ef = Some a \<Longrightarrow> ca_action a = ''discharge'' \<Longrightarrow> car_mode_orders ti"
    using fr effective_car_action [OF e] car_mode_action_discharge di by auto
qed

subsection \<open>The tick\<close>

lemma sense_same:
  "tick_sense drv ti st now = (st', r) \<Longrightarrow>
     ct_dev st' = ct_dev st \<and> ct_override st' = ct_override st \<and>
     mc_dry_run (ct_mc st') = mc_dry_run (ct_mc st) \<and> mc_commitment (ct_mc st') = mc_commitment (ct_mc st) \<and>
     export_allowed (ct_mc st') now =
       (opt_else (st_allow_export (ti_settings ti)) False \<or> export_probe_active (ct_mc st) now)"
  by (auto simp: tick_sense_def apply_control_settings_def export_allowed_def export_probe_active_def Let_def
      split: sum.splits)

text \<open>Whatever the tick does to the device, it does through one call of \<open>ask\<close>.\<close>

lemma car_command_asks:
  assumes "car_session_command drv ti st now a target ov ob = (st', r)"
  shows "ct_dev st' = ct_dev st \<or>
         (\<exists>args \<in> {hold_args ob ov, car_args target (ca_power_w a) ob ov}.
            ct_dev st' = ct_dev (fst (ask drv ti st args now)))"
  using assms
  by (auto simp: car_session_command_def Let_def split: prod.splits if_splits sum.splits)

lemma drift_frame: "cluster_drift_record st m ts = (st', r) \<Longrightarrow> ct_dev st' = ct_dev st"
  by (auto simp: cluster_drift_record_def Let_def split: option.splits list.splits if_splits)

lemma explain_frame: "explain_command ti st now ob ef n d = (st', rows) \<Longrightarrow> ct_dev st' = ct_dev st"
  by (auto simp: explain_command_def persist_if_charging_def Let_def dest!: drift_frame
      split: prod.splits if_splits option.splits)

lemma act_asks:
  assumes "act drv ti st now ob ef ch = (st', r)"
  shows "ct_dev st' = ct_dev st \<or>
         (\<exists>args. ct_dev st' = ct_dev (fst (ask drv ti st args now)) \<and>
            (args = hold_args ob (ef_override_active ef) \<or>
             (\<exists>a. ch = RunCarSession a \<and> args = car_args (ef_target_soc ef) (ca_power_w a) ob (ef_override_active ef)) \<or>
             (\<exists>i n. ch = Command i n \<and> args = command_args ti ef i ob)))"
proof (cases ch)
  case (RunCarSession a)
  with assms show ?thesis by (auto simp: act_def dest!: car_command_asks)
next
  case (Command i n)
  show ?thesis
  proof (cases "ask drv ti st (command_args ti ef i ob) now")
    case (Pair st1 res)
    with assms Command have "ct_dev st' = ct_dev st1"
      by (auto simp: act_def dest!: explain_frame split: sum.splits prod.splits)
    with Pair have "ct_dev st' = ct_dev (fst (ask drv ti st (command_args ti ef i ob) now))" by simp
    with Command show ?thesis by blast
  qed
qed (use assms in \<open>auto simp: act_def split: prod.splits sum.splits\<close>)

text \<open>What one log entry of a tick may be, for the state and lifecycle the tick acts on.\<close>

definition justified :: "tick_inputs \<Rightarrow> 'd control_state \<Rightarrow> instant \<Rightarrow> physical_mode \<Rightarrow> bool" where
  "justified ti st now m =
     (case m of
        AUTO \<Rightarrow> True
      | IDLE \<Rightarrow> True
      | CHARGE \<Rightarrow> plan_orders ti now GRID_CHARGE_TO_TARGET \<or>
                  operator_orders ti (ct_override st) now GRID_CHARGE_TO_TARGET \<or>
                  (\<exists>c. mc_commitment (ct_mc st) = Some c \<and> commitment_orders ti c now)
      | DISCHARGE \<Rightarrow> car_mode_orders ti \<or>
                  (opt_else (st_allow_export (ti_settings ti)) False \<or> export_probe_active (ct_mc st) now) \<and>
                  (plan_orders ti now EXPORT_FOR_PROFIT \<or> operator_orders ti (ct_override st) now EXPORT_FOR_PROFIT))"

lemma desired_hold: "desired c HOLD_RESERVE s (Some now) = IDLE"
  by (simp add: desired_def Let_def)

lemma desired_car: "desired c DISCHARGE_FOR_LOAD True (Some now) = DISCHARGE"
  by (simp add: desired_def Let_def)

lemma startup_logged:
  assumes "startup_safe_auto (logged drv) ti st now ob = (st', rows)"
  shows "snd (ct_dev st') = snd (ct_dev st) \<or> snd (ct_dev st') = snd (ct_dev st) @ [(AUTO, None, None)]"
  using assms
  by (cases "ct_dev st") (auto simp: startup_safe_auto_def Let_def split: if_splits prod.splits)

lemma resolve_commitment_frame: "resolve_charge_commitment ti st now = (st', rows) \<Longrightarrow> ct_dev st' = ct_dev st"
  by (auto simp: resolve_charge_commitment_def Let_def split: if_splits commitment_action.splits)

lemma one_command_log:
  assumes "one_command (m, t, w) [] lg" and "justified ti st now m"
    and "lg \<noteq> [] \<Longrightarrow> P"
  shows "length (filter (\<lambda>c. fst c \<noteq> AUTO) lg) \<le> 1 \<and>
         (\<forall>c \<in> set lg. justified ti st now (fst c) \<and> (fst c \<noteq> AUTO \<longrightarrow> P))"
  using assms by (auto simp: one_command_def justified_def)

lemma acted_log:
  assumes "intent_of_tick ti st0 now = (st1, Inr (rows, ef))"
    and "choose_action ti st1 now ob rows ef = (st2, rows2, ch)"
    and "act (logged drv) ti st2 now ob ef ch = (st3, res)" and "snd (ct_dev st0) = []"
    and same: "ct_override st0 = ct_override st" "mc_commitment (ct_mc st0) = mc_commitment (ct_mc st)"
      "export_allowed (ct_mc st0) now =
         (opt_else (st_allow_export (ti_settings ti)) False \<or> export_probe_active (ct_mc st) now)"
  shows "length (filter (\<lambda>c. fst c \<noteq> AUTO) (snd (ct_dev st3))) \<le> 1 \<and>
         (\<forall>c \<in> set (snd (ct_dev st3)).
            justified ti st now (fst c) \<and>
            (fst c \<noteq> AUTO \<longrightarrow> \<not> mc_dry_run (ct_mc st0) \<and> can_command_at (ct_lc st0) now))"
proof -
  note it = intent_of_tick_cases [OF assms(1), unfolded same]
  note ch = choose_action_cases [OF assms(2)]
  have dev: "snd (ct_dev st2) = []" using ch(1) it(1) assms(4) by simp
  from act_asks [OF assms(3)] show ?thesis
  proof (elim disjE exE conjE)
    assume "ct_dev st3 = ct_dev st2"
    with dev show ?thesis by simp
  next
    fix args assume d: "ct_dev st3 = ct_dev (fst (ask (logged drv) ti st2 args now))"
    note al = ask_logged [of drv ti st2 args now "fst (ask (logged drv) ti st2 args now)" "snd (ask (logged drv) ti st2 args now)",
        simplified prod.collapse, OF refl, folded d, unfolded dev]
    have own: "snd (ct_dev st3) \<noteq> [] \<Longrightarrow> \<not> mc_dry_run (ct_mc st0) \<and> can_command_at (ct_lc st0) now"
      using al(2) ch(1) it(1) by simp
    note conclude = one_command_log [where st = st and ti = ti and now = now, OF al(1) _ own]
    {
      assume "args = hold_args ob (ef_override_active ef)"
      then show ?thesis by (intro conclude) (simp_all add: hold_args_def desired_hold justified_def)
    next
      fix a assume "ch = RunCarSession a" "args = car_args (ef_target_soc ef) (ca_power_w a) ob (ef_override_active ef)"
      moreover from this ch(2) it(3) have "car_mode_orders ti" by auto
      ultimately show ?thesis by (intro conclude) (simp_all add: car_args_def desired_car justified_def)
    next
      fix i n assume c: "ch = Command i n" "args = command_args ti ef i ob"
      have "justified ti st now (desired (ct_mc st2) i False (Some now))"
      proof (cases "i \<in> {GRID_CHARGE_TO_TARGET, EXPORT_FOR_PROFIT}")
        case True
        with c ch(2) have "ef_intent ef = Some i" by auto
        from it(2) [OF this True] True it(1) ch(1) same(3) show ?thesis
          by (auto simp: justified_def desired_risky split: physical_mode.split)
      next
        case False
        then show ?thesis by (auto simp: justified_def desired_risky split: physical_mode.split)
      qed
      with c show ?thesis by (intro conclude) (simp_all add: command_args_def)
    }
  qed
qed

lemma tick_log:
  assumes "control_tick_body (logged drv) ti st now = (st', res)" and "snd (ct_dev st) = []"
    and "tick_sense (logged drv) ti st now = (st0, r0)"
  shows "length (filter (\<lambda>c. fst c \<noteq> AUTO) (snd (ct_dev st'))) \<le> 1 \<and>
         (\<forall>c \<in> set (snd (ct_dev st')).
            justified ti st now (fst c) \<and>
            (fst c \<noteq> AUTO \<longrightarrow> \<not> mc_dry_run (ct_mc st) \<and> can_command_at (ct_lc st0) now))"
proof -
  note se = sense_same [OF assms(3)]
  have dev: "snd (ct_dev st0) = []" using se assms(2) by simp
  show ?thesis
  proof (cases r0)
    case (Inl e)
    with assms(1,3) dev show ?thesis by (simp add: control_tick_body_def)
  next
    case (Inr ob)
    show ?thesis
    proof (cases "can_command_at (ct_lc st0) now")
      case False
      obtain st1 rows1 where r: "resolve_charge_commitment ti st0 now = (st1, rows1)" by (metis prod.exhaust)
      obtain st2 rows2 where s: "startup_safe_auto (logged drv) ti st1 now ob = (st2, rows2)" by (metis prod.exhaust)
      from assms(1,3) Inr False r s have "st' = st2" by (simp add: control_tick_body_def)
      with startup_logged [OF s] resolve_commitment_frame [OF r] dev show ?thesis
        by (auto simp: justified_def)
    next
      case True
      obtain st1 r1 where i: "intent_of_tick ti st0 now = (st1, r1)" by (metis prod.exhaust)
      show ?thesis
      proof (cases r1)
        case (Inl e)
        with i have "ct_dev st1 = ct_dev st0" by (auto simp: intent_of_tick_def Let_def split: sum.splits prod.splits)
        with assms(1,3) \<open>r0 = Inr ob\<close> True i Inl dev show ?thesis by (simp add: control_tick_body_def)
      next
        case r1: (Inr p)
        obtain rows ef where p: "p = (rows, ef)" by (metis prod.exhaust)
        obtain st2 rows2 ch where c: "choose_action ti st1 now ob rows ef = (st2, rows2, ch)" by (metis prod_cases3)
        obtain st3 res3 where a: "act (logged drv) ti st2 now ob ef ch = (st3, res3)" by (metis prod.exhaust)
        from assms(1,3) Inr True i r1 p c a have "st' = st3" by (simp add: control_tick_body_def Let_def)
        with acted_log [OF i [unfolded r1 p] c a dev, of st] se show ?thesis by simp
      qed
    qed
  qed
qed

lemma sense_outcome [simp]:
  "tick_sense drv ti (st\<lparr>ct_outcome := x\<rparr>) now = map_prod (\<lambda>s. s\<lparr>ct_outcome := x\<rparr>) id (tick_sense drv ti st now)"
  by (simp add: tick_sense_def Let_def split: sum.split)

text \<open>
  C5. A tick gives at most one command that is not AUTO, and never one without its grounds. Whatever
  the driver answers, a charge is written only for a grid-charge slot of a validated plan with prices
  available and usable data, for a validated operator override, or for a stored commitment that is
  still due (before its deadline, below its target, armed, not dry-run, on trustworthy data); a
  discharge only for a car session the user opted into, above the reserve, or for a validated export
  that is armed. Every command but AUTO needs a controller that owns the battery. So on unsafe data,
  with no operator override, a tick writes AUTO and IDLE only.
\<close>

theorem tick_writes_are_justified:
  assumes "control_tick (logged drv) ti st now ms = (st', res)" and "snd (ct_dev st) = []"
  shows "length (filter (\<lambda>c. fst c \<noteq> AUTO) (snd (ct_dev st'))) \<le> 1 \<and>
         (\<forall>c \<in> set (snd (ct_dev st')).
            justified ti st now (fst c) \<and>
            (fst c \<noteq> AUTO \<longrightarrow> \<not> mc_dry_run (ct_mc st) \<and>
               can_command_at (ct_lc (fst (tick_sense (logged drv) ti st now))) now) \<and>
            (ti_quality ti = ''unsafe'' \<and> \<not> ov_active (ct_override st) now \<longrightarrow> fst c \<in> {AUTO, IDLE}))"
proof -
  obtain st1 where body: "control_tick_body (logged drv) ti (st\<lparr>ct_outcome := None\<rparr>) now = (st1, res)"
    and dev: "ct_dev st' = ct_dev st1"
    using assms(1) by (auto simp: control_tick_def Let_def split: prod.splits)
  obtain st0 r0 where se: "tick_sense (logged drv) ti st now = (st0, r0)" by (metis prod.exhaust)
  have eq: "justified ti (st\<lparr>ct_outcome := None\<rparr>) now m = justified ti st now m" for m
    by (cases m) (simp_all add: justified_def)
  have unsafe: "justified ti st now m \<Longrightarrow> ti_quality ti = ''unsafe'' \<Longrightarrow> \<not> ov_active (ct_override st) now \<Longrightarrow>
      m \<in> {AUTO, IDLE}" for m
    by (cases m) (auto simp: justified_def plan_orders_def operator_orders_def commitment_orders_def car_mode_orders_def)
  from tick_log [OF body, of "st0\<lparr>ct_outcome := None\<rparr>" r0] assms(2) se eq unsafe show ?thesis
    unfolding dev by simp
qed

definition demo_settings :: ctl_settings where
  "demo_settings = \<lparr>st_max_switches = 10, st_max_commitments = None, st_min_dwell_seconds = 600,
     st_allow_export = None, st_end_cycles = 2, st_hold_when_car = True, st_car_mode = ''static_discharge'',
     st_car_discharge_w = 500, st_car_threshold_w = 1000, st_persistence_cycles = None,
     st_min_reserve_soc = 10, st_max_charge_w = 4800, st_max_discharge_w = 4800\<rparr>"

definition demo_tick :: tick_inputs where
  "demo_tick = \<lparr>ti_settings = demo_settings, ti_dry_run = False, ti_armed = True, ti_cycle_seconds = 300,
     ti_quality = ''complete'', ti_towers = None, ti_plan = Inr (Some (plan0 0 [])), ti_horizon = None,
     ti_validate = (\<lambda>p. \<lparr>pv_status = VALID, pv_findings = []\<rparr>), ti_prices_unavailable = False,
     ti_soc = Some 40, ti_ev_power = None, ti_predicted_house_w = 400, ti_fence_open = True,
     ti_render = (\<lambda>m. [])\<rparr>"

definition demo_promise :: charge_commitment where
  "demo_promise = \<lparr>cc_target_soc = 80, cc_deadline = 10 * us_hour, cc_reason = JStr ''cheap'',
     cc_applied_at = 0, cc_power_w = Some 2400, cc_intent = intent_value GRID_CHARGE_TO_TARGET\<rparr>"

definition demo_ctl :: "(mock_driver \<times> command list) control_state" where
  "demo_ctl = \<lparr>ct_dev = (mock_init True False, []), ct_mc = demo_controller\<lparr>mc_commitment := Some demo_promise\<rparr>,
     ct_lc = booted, ct_override = NO_OVERRIDE, ct_car = car_session0, ct_held = None, ct_cap_blocked = False,
     ct_pending_mode = None, ct_pending_count = 0, ct_floor_holding = False, ct_floor_sig = None,
     ct_drift = None, ct_intended = None, ct_outcome = None, ct_counters = counters_reset\<rparr>"

lemmas tick_eval =
  control_tick_def control_tick_body_def tick_sense_def current_mode_def reachable_def the_plan_def
  apply_control_settings_def intent_of_tick_def tick_decision_inputs_def car_mode_action_at_def car_charging_def
  effective_intent_def resolve_intent_def resolve_plan_def intent_at_def ov_active_def ov_is_set_def NO_OVERRIDE_def
  effective_none_def apply_charge_commitment_def commitment_verdict_of_def evaluate_commitment_def
  choose_action_def choose_routine_def car_session_end_if_active_def act_def ask_def command_args_def
  intent_persistence_cycles_def resolve_floor_anti_flap_def
  mark_sensors_validated_def mark_probe_ok_def mark_plan_loaded_def tick_at_def expire_override_def
  explain_command_def persist_if_charging_def persist_charge_commitment_def
  set_charge_commitment_def

lemma demo_tick_log: "snd (ct_dev (fst (control_tick (logged mock_driver_port) demo_tick demo_ctl us_hour 5))) = [(CHARGE, Some 80, Some 2400)]"
  by (simp add: tick_eval controller_eval demo_tick_def demo_settings_def demo_ctl_def demo_promise_def booted_def logged_def
       can_command_at_def override_active_def grace_elapsed_def total_seconds_def car_session0_def plan0_def Let_def)

theorem tick_writes_are_justified_witness:
  "let st' = fst (control_tick (logged mock_driver_port) demo_tick demo_ctl us_hour 5)
   in map fst (snd (ct_dev st')) = [CHARGE] \<and> commitment_orders demo_tick demo_promise us_hour"
proof -
  obtain st' res where r: "control_tick (logged mock_driver_port) demo_tick demo_ctl us_hour 5 = (st', res)"
    by (metis prod.exhaust)
  have lg: "snd (ct_dev st') = [(CHARGE, Some 80, Some 2400)]" using demo_tick_log r by simp
  have "snd (ct_dev demo_ctl) = []" by (simp add: demo_ctl_def)
  from tick_writes_are_justified [OF r this] lg have "justified demo_tick demo_ctl us_hour CHARGE" by simp
  moreover have "\<not> plan_orders demo_tick us_hour GRID_CHARGE_TO_TARGET"
    by (simp add: plan_orders_def demo_tick_def the_plan_def plan0_def intent_at_def)
  moreover have "\<not> operator_orders demo_tick (ct_override demo_ctl) us_hour GRID_CHARGE_TO_TARGET"
    by (simp add: operator_orders_def demo_ctl_def NO_OVERRIDE_def)
  moreover have "mc_commitment (ct_mc demo_ctl) = Some demo_promise" by (simp add: demo_ctl_def)
  ultimately have "commitment_orders demo_tick demo_promise us_hour" by (simp add: justified_def)
  with r lg show ?thesis by simp
qed

subsection \<open>How long the emergency return lasts\<close>

text \<open>
  The sensing part of a control tick marks what it finds ready and then lets the lifecycle advance. A cycle
  is the rest of the state, the inputs and the instant of one tick: whatever else happens between two ticks
  may have changed the rest of the state.
\<close>

type_synonym 'd cycle = "'d control_state \<times> tick_inputs \<times> instant"

definition sense_step :: "'d driver \<Rightarrow> lifecycle \<Rightarrow> 'd cycle \<Rightarrow> lifecycle" where
  "sense_step drv l k = (case k of (st, ti, now) \<Rightarrow> ct_lc (fst (tick_sense drv ti (st\<lparr>ct_lc := l\<rparr>) now)))"

definition sense_run :: "'d driver \<Rightarrow> lifecycle \<Rightarrow> 'd cycle list \<Rightarrow> lifecycle" where
  "sense_run drv l ks = foldl (sense_step drv) l ks"

definition sensors_seen :: "'d cycle list \<Rightarrow> bool" where
  "sensors_seen ks = list_ex (\<lambda>(st, ti, now). ti_quality ti \<noteq> ''unsafe'') ks"

definition battery_seen :: "'d driver \<Rightarrow> 'd cycle list \<Rightarrow> bool" where
  "battery_seen drv ks = list_ex (\<lambda>(st, ti, now). reachable ti (current_mode drv ti (ct_dev st))) ks"

definition plan_seen :: "'d cycle list \<Rightarrow> bool" where
  "plan_seen ks = list_ex (\<lambda>(st, ti, now). the_plan ti \<noteq> None) ks"

text \<open>The planner of the last cycle did not raise, the grace is over, and all three were seen by then.\<close>

definition completes :: "'d driver \<Rightarrow> lifecycle \<Rightarrow> 'd cycle list \<Rightarrow> bool" where
  "completes drv l ks =
     (case last ks of (st, ti, now) \<Rightarrow>
        (case ti_plan ti of Inl _ \<Rightarrow> False | Inr _ \<Rightarrow> True) \<and> grace_elapsed l now \<and>
        sensors_seen ks \<and> battery_seen drv ks \<and> plan_seen ks)"

definition ever_completes :: "'d driver \<Rightarrow> lifecycle \<Rightarrow> 'd cycle list \<Rightarrow> bool" where
  "ever_completes drv l ks = list_ex (\<lambda>k. completes drv l (take (Suc k) ks)) [0..<length ks]"

lemma ever_completes_snoc: "ever_completes drv l (ks @ [k]) \<longleftrightarrow> ever_completes drv l ks \<or> completes drv l (ks @ [k])"
proof -
  have "list_ex (\<lambda>i. completes drv l (take (Suc i) (ks @ [k]))) [0..<length ks] \<longleftrightarrow>
        list_ex (\<lambda>i. completes drv l (take (Suc i) ks)) [0..<length ks]"
    by (rule list_ex_cong) simp_all
  then show ?thesis by (simp add: ever_completes_def)
qed

lemma sense_step_lifecycle:
  assumes "lc_state l \<noteq> INACTIVE"
  shows "sense_step drv l (st, ti, now) =
    (let l = (if ti_quality ti \<noteq> ''unsafe'' then mark_sensors_validated l else l);
         l = (if reachable ti (current_mode drv ti (ct_dev st)) then mark_probe_ok l else l)
     in case ti_plan ti of
          Inl _ \<Rightarrow> l
        | Inr p \<Rightarrow> tick_at (if p \<noteq> None then mark_plan_loaded l else l) now)"
  using assms by (simp add: sense_step_def tick_sense_def Let_def split: sum.split)

text \<open>The lifecycle after a run of cycles that began with the emergency return.\<close>

definition returned :: "'d driver \<Rightarrow> lifecycle \<Rightarrow> 'd cycle list \<Rightarrow> lifecycle" where
  "returned drv l ks =
     l\<lparr>lc_state := (if \<not> ever_completes drv l ks then OBSERVING else if lc_dry_run l then DRY_RUN else CONTROLLING),
       lc_sensors_ok := sensors_seen ks, lc_probe_ok := battery_seen drv ks, lc_plan_loaded := plan_seen ks,
       lc_override_until := None\<rparr>"

lemma returned_fields [simp]:
  "lc_state (returned drv l ks) =
     (if \<not> ever_completes drv l ks then OBSERVING else if lc_dry_run l then DRY_RUN else CONTROLLING)"
  "lc_override_until (returned drv l ks) = None"
  by (simp_all add: returned_def)

lemma sense_run_returned: "sense_run drv (return_to_default l) ks = returned drv l ks"
proof (induction ks rule: rev_induct)
  case Nil
  show ?case
    by (simp add: sense_run_def returned_def return_to_default_def reset_readiness_def ever_completes_def
        sensors_seen_def battery_seen_def plan_seen_def)
next
  case (snoc k ks)
  obtain st ti now where k: "k = (st, ti, now)" by (metis prod_cases3)
  have seen: "sensors_seen (ks @ [k]) \<longleftrightarrow> sensors_seen ks \<or> ti_quality ti \<noteq> ''unsafe''"
    "battery_seen drv (ks @ [k]) \<longleftrightarrow> battery_seen drv ks \<or> reachable ti (current_mode drv ti (ct_dev st))"
    "plan_seen (ks @ [k]) \<longleftrightarrow> plan_seen ks \<or> the_plan ti \<noteq> None"
    by (auto simp: k sensors_seen_def battery_seen_def plan_seen_def)
  have "sense_run drv (return_to_default l) (ks @ [k]) = sense_step drv (returned drv l ks) k"
    by (simp add: sense_run_def snoc.IH [unfolded sense_run_def])
  also have "\<dots> = returned drv l (ks @ [k])"
  proof -
    define L where "L = returned drv l ks"
    define S where "S = sensors_seen (ks @ [k])"
    define B where "B = battery_seen drv (ks @ [k])"
    define P where "P = plan_seen (ks @ [k])"
    have L: "lc_sensors_ok L = sensors_seen ks" "lc_probe_ok L = battery_seen drv ks" "lc_plan_loaded L = plan_seen ks"
      by (simp_all add: L_def returned_def)
    have sensors: "(if ti_quality ti \<noteq> ''unsafe'' then mark_sensors_validated L else L) = L\<lparr>lc_sensors_ok := S\<rparr>"
      using L by (simp add: S_def seen mark_sensors_validated_def)
    have probe: "(if reachable ti (current_mode drv ti (ct_dev st)) then mark_probe_ok (L\<lparr>lc_sensors_ok := S\<rparr>)
        else L\<lparr>lc_sensors_ok := S\<rparr>) = L\<lparr>lc_sensors_ok := S, lc_probe_ok := B\<rparr>"
      using L by (simp add: B_def seen mark_probe_ok_def)
    have "lc_state L \<noteq> INACTIVE" by (simp add: L_def)
    note step = sense_step_lifecycle [OF this, of drv st ti now, unfolded sensors Let_def, unfolded probe]
    have comp: "completes drv l (ks @ [k]) \<longleftrightarrow> (case ti_plan ti of Inl _ \<Rightarrow> False | Inr _ \<Rightarrow> True) \<and> grace_elapsed l now \<and> S \<and> B \<and> P"
      by (simp add: completes_def S_def B_def P_def k)
    have goal: "returned drv l (ks @ [k]) = L\<lparr>lc_state := (if \<not> (ever_completes drv l ks \<or> completes drv l (ks @ [k])) then OBSERVING
        else if lc_dry_run l then DRY_RUN else CONTROLLING), lc_sensors_ok := S, lc_probe_ok := B, lc_plan_loaded := P\<rparr>"
      by (simp add: L_def returned_def ever_completes_snoc S_def B_def P_def)
    have "sense_step drv L k = returned drv l (ks @ [k])"
    proof (cases "ti_plan ti")
      case (Inl e)
      then have "P = plan_seen ks" "\<not> completes drv l (ks @ [k])" using comp by (simp_all add: P_def seen the_plan_def)
      moreover have "sense_step drv L k = L\<lparr>lc_sensors_ok := S, lc_probe_ok := B\<rparr>" using step Inl by (simp add: k)
      ultimately show ?thesis unfolding goal by (simp add: L_def returned_def)
    next
      case (Inr p)
      have plan: "(if p \<noteq> None then mark_plan_loaded (L\<lparr>lc_sensors_ok := S, lc_probe_ok := B\<rparr>)
          else L\<lparr>lc_sensors_ok := S, lc_probe_ok := B\<rparr>) = L\<lparr>lc_sensors_ok := S, lc_probe_ok := B, lc_plan_loaded := P\<rparr>"
        using L Inr by (simp add: P_def seen mark_plan_loaded_def the_plan_def)
      have grace: "grace_elapsed L now = grace_elapsed l now" by (simp add: L_def returned_def)
      have "tick_at (L\<lparr>lc_sensors_ok := S, lc_probe_ok := B, lc_plan_loaded := P\<rparr>) now = returned drv l (ks @ [k])"
        unfolding goal using comp Inr grace
        by (simp add: tick_at_def expire_override_def ready_to_act_def override_active_def Let_def L_def)
          (simp add: returned_def)
      moreover have "sense_step drv L k = tick_at (L\<lparr>lc_sensors_ok := S, lc_probe_ok := B, lc_plan_loaded := P\<rparr>) now"
        using step Inr by (simp only: k sum.case plan)
      ultimately show ?thesis by simp
    qed
    then show ?thesis by (simp only: L_def)
  qed
  finally show ?case .
qed

text \<open>
  C37. How long the emergency \<open>return_to_default\<close> keeps the hands off. After it, along any sequence of control
  ticks, the system commands again exactly when it is not in dry-run and some tick since has completed the
  readiness sequence: its planner did not raise, the startup grace was over, and by then some tick since
  the return saw data that is not unsafe, some a battery that answers, some a plan. A tick marks all
  three by itself, so one tick on a healthy system is enough: the return does not outlast the next tick.
\<close>

theorem return_to_default_lasts_until_sensed:
  "can_command_at (sense_run drv (return_to_default l) ks) t \<longleftrightarrow> \<not> lc_dry_run l \<and> ever_completes drv l ks"
  by (simp add: sense_run_returned can_command_at_def override_active_def)

theorem return_to_default_lasts_until_sensed_witness:
  "can_command_at (sense_run (logged mock_driver_port) (return_to_default booted) [(demo_ctl, demo_tick, us_hour)]) us_hour \<and>
   \<not> can_command_at (sense_run (logged mock_driver_port) (return_to_default booted)
       [(demo_ctl, demo_tick\<lparr>ti_quality := ''unsafe''\<rparr>, us_hour)]) us_hour"
  unfolding return_to_default_lasts_until_sensed
  by (simp add: ever_completes_def completes_def sensors_seen_def battery_seen_def plan_seen_def demo_tick_def demo_ctl_def
      booted_def grace_elapsed_def total_seconds_def the_plan_def reachable_def current_mode_def mock_driver_port_def
      mock_init_def logged_def)

subsection \<open>A resumed commitment and the car\<close>

text \<open>
  While a commitment is due, a tick in which the car charges resumes it in name (the audit row says so)
  and then commands the car session's discharge with the target of the charge: 80 percent here, with the
  battery at 40, where the session's own target is the reserve of 10.
\<close>

definition demo_car_tick :: tick_inputs where
  "demo_car_tick = demo_tick\<lparr>ti_ev_power := Some 7000,
     ti_plan := Inr (Some (plan0 0 [plan_slot0 0 ALLOW_SELF_CONSUMPTION [], plan_slot0 us_hour ALLOW_SELF_CONSUMPTION []]))\<rparr>"

lemmas car_eval =
  decide_car_mode_action_def car_action_def car_mode_consts effective_of_def car_guard_def slot_contract_def
  one_unit_cap_def has_finding_def export_note_def car_session_command_def decide_car_command_def
  car_reconcile_def elapsed_ok_def car_elapsed_def car_args_def CAR_SESSION_MAX_COMMANDS_def clamp_def verdict_def

lemma resumed_commitment_misdirects_car_session:
  "snd (ct_dev (fst (control_tick (logged mock_driver_port) demo_car_tick demo_ctl us_hour 5))) = [(DISCHARGE, Some 80, Some 500)]"
  "snd (ct_dev (fst (control_tick (logged mock_driver_port) demo_car_tick
       (demo_ctl\<lparr>ct_mc := demo_controller\<rparr>) us_hour 5))) = [(DISCHARGE, Some 10, Some 500)]"
  by (simp_all add: tick_eval car_eval controller_eval demo_car_tick_def demo_tick_def demo_settings_def demo_ctl_def
       demo_promise_def booted_def logged_def can_command_at_def override_active_def grace_elapsed_def total_seconds_def
       car_session0_def plan0_def plan_slot0_def slot_end_def failsafe_intent_def pv_ok_def Let_def)

text \<open>
  The resume is meant for a restart, but it runs on every tick. Here a validated plan charges in the
  first quarter and leaves the battery to self-consumption in the second. The tick in the second quarter
  would return the battery to AUTO; with the commitment that the first tick stored, it keeps charging.
\<close>

definition demo_quarters :: tick_inputs where
  "demo_quarters = demo_tick\<lparr>ti_plan := Inr (Some (plan0 0
     [(plan_slot0 0 GRID_CHARGE_TO_TARGET [])\<lparr>sl_target_soc := Some 80, sl_power_w := Some 2400,
        sl_deadline := Some (7 * us_hour)\<rparr>,
      plan_slot0 SLOT ALLOW_SELF_CONSUMPTION []]))\<rparr>"

definition demo_charging :: "(mock_driver \<times> command list) control_state" where
  "demo_charging = fst (control_tick (logged mock_driver_port) demo_quarters
     (demo_ctl\<lparr>ct_mc := demo_controller\<rparr>) (5 * us_minute) 5)"

lemma demo_charging_state:
  "snd (ct_dev demo_charging) = [(CHARGE, Some 80, Some 2400)]"
  "md_mode (fst (ct_dev demo_charging)) = CHARGE"
  by (simp_all add: demo_charging_def tick_eval controller_eval demo_quarters_def demo_tick_def demo_settings_def demo_ctl_def
       booted_def logged_def can_command_at_def override_active_def grace_elapsed_def total_seconds_def
       car_session0_def plan0_def plan_slot0_def slot_end_def failsafe_intent_def pv_ok_def car_eval Let_def)

lemma commitment_outlives_its_slot:
  "snd (ct_dev (fst (control_tick (logged mock_driver_port) demo_quarters demo_charging (20 * us_minute) 5)))
     = [(CHARGE, Some 80, Some 2400)]"
  "snd (ct_dev (fst (control_tick (logged mock_driver_port) demo_quarters
        (demo_charging\<lparr>ct_mc := clear_charge_commitment (ct_mc demo_charging)\<rparr>) (20 * us_minute) 5)))
     = [(CHARGE, Some 80, Some 2400), (AUTO, None, None)]"
  by (simp_all add: demo_charging_def tick_eval controller_eval demo_quarters_def demo_tick_def demo_settings_def demo_ctl_def
       booted_def logged_def can_command_at_def override_active_def grace_elapsed_def total_seconds_def
       car_session0_def plan0_def plan_slot0_def slot_end_def failsafe_intent_def pv_ok_def car_eval
       clear_charge_commitment_def charge_deadline_def cluster_drift_record_def Let_def)

end
