(* ===== verification/CarSessionRuns.thy ===== *)
theory CarSessionRuns
  imports ControlTickSafety
begin

section \<open>The commands of one charging session\<close>

text \<open>
  A charging session as \<open>ControlService.car_session_command\<close> runs it, cycle after cycle, on a driver that
  keeps a log of its commands with their answers. The loop does more between two cycles than the session:
  all of the state but the three fields that carry the session (active, the number of commands, the time of
  the last one) may be anything at the start of each cycle.
\<close>

subsection \<open>A driver that logs its answers\<close>

definition answering :: "'d driver \<Rightarrow> ('d \<times> (physical_mode \<times> apply_result) list) driver" where
  "answering drv =
     \<lparr>drv_apply = (\<lambda>(d, lg) m t w. let (r, d') = drv_apply drv d m t w in (r, d', lg @ [(m, r)])),
      drv_mode = (\<lambda>(d, lg). drv_mode drv d)\<rparr>"

lemma answering_apply [simp]:
  "drv_apply (answering drv) (d, lg) m t w =
     (fst (drv_apply drv d m t w), snd (drv_apply drv d m t w), lg @ [(m, fst (drv_apply drv d m t w))])"
  by (simp add: answering_def split_beta)

text \<open>A cycle commanded a discharge, and no call of the driver raised.\<close>

definition discharged :: "(physical_mode \<times> apply_result) list \<Rightarrow> bool" where
  "discharged lg = (list_ex (\<lambda>(m, r). m = DISCHARGE) lg \<and> list_all (\<lambda>(m, r). r \<noteq> Raised) lg)"

lemma write_mode_answers:
  assumes "write_mode (answering drv) (d, []) c a m now = (dl, c', r)"
  shows "m = DISCHARGE \<Longrightarrow> discharged (snd dl) \<longleftrightarrow> (\<exists>x. r = Inr x \<and> ad_outcome x \<in> CAR_ATTEMPTED_OUTCOMES)"
    and "m \<noteq> DISCHARGE \<Longrightarrow> \<not> discharged (snd dl)"
  using assms
  by (auto simp: write_mode_def discharged_def on_unconfirmed_def on_refused_def on_accepted_def
      CAR_ATTEMPTED_OUTCOMES_def Let_def split_beta split: apply_result.splits prod.splits)

lemma ask_answers:
  assumes ask: "ask (answering drv) ti st a now = (st', r)" and dev: "ct_dev st = (d, [])"
  shows "ct_car st' = ct_car st"
    and "desired (ct_mc st) (da_intent a) (da_car_session a) (Some now) = DISCHARGE \<Longrightarrow>
         discharged (snd (ct_dev st')) \<longleftrightarrow> (\<exists>x. r = Inr x \<and> ad_outcome x \<in> CAR_ATTEMPTED_OUTCOMES)"
    and "desired (ct_mc st) (da_intent a) (da_car_session a) (Some now) \<noteq> DISCHARGE \<Longrightarrow> \<not> discharged (snd (ct_dev st'))"
proof -
  show "ct_car st' = ct_car st"
    using ask by (auto simp: ask_def Let_def split: if_splits prod.splits)
  have none: "\<not> discharged []" by (simp add: discharged_def)
  let ?m = "desired (ct_mc st) (da_intent a) (da_car_session a) (Some now)"
  have "(?m = DISCHARGE \<longrightarrow> (discharged (snd (ct_dev st')) \<longleftrightarrow> (\<exists>x. r = Inr x \<and> ad_outcome x \<in> CAR_ATTEMPTED_OUTCOMES))) \<and>
        (?m \<noteq> DISCHARGE \<longrightarrow> \<not> discharged (snd (ct_dev st')))"
  proof (cases "ti_fence_open ti")
    case False
    then show ?thesis using ask none dev by (auto simp: ask_def)
  next
    case True
    obtain dl c' r' where run: "decide (answering drv) (d, []) (ct_lc st) (ct_mc st) a now = (dl, c', r')" by (metis prod_cases3)
    have st': "ct_dev st' = dl" "r = r'" using ask True dev run by (auto simp: ask_def)
    from run show ?thesis
    proof (cases rule: decide_cases)
      case (raised e)
      then show ?thesis using none by (simp add: st')
    next
      case (blocked x)
      from gate_Some [OF blocked(1)] have "ad_outcome x \<notin> CAR_ATTEMPTED_OUTCOMES" by (auto simp: CAR_ATTEMPTED_OUTCOMES_def)
      with blocked show ?thesis using none by (simp add: st')
    next
      case written
      from write_mode_answers [OF written(2)] show ?thesis by (simp add: st')
    qed
  qed
  then show "?m = DISCHARGE \<Longrightarrow> discharged (snd (ct_dev st')) \<longleftrightarrow> (\<exists>x. r = Inr x \<and> ad_outcome x \<in> CAR_ATTEMPTED_OUTCOMES)"
    and "?m \<noteq> DISCHARGE \<Longrightarrow> \<not> discharged (snd (ct_dev st'))" by blast+
qed

subsection \<open>A run of cycles\<close>

record 'd car_call =
  cl_state :: "('d \<times> (physical_mode \<times> apply_result) list) control_state"
  cl_inputs :: tick_inputs
  cl_now :: instant
  cl_action :: car_mode_action
  cl_target :: "real option"
  cl_overridden :: bool
  cl_observed :: "physical_mode option"

definition session_state :: "car_session \<Rightarrow> 'd car_call \<Rightarrow> ('d \<times> (physical_mode \<times> apply_result) list) control_state" where
  "session_state s k =
     (cl_state k)\<lparr>ct_dev := (fst (ct_dev (cl_state k)), []),
       ct_car := (ct_car (cl_state k))\<lparr>ss_active := ss_active s, ss_commands := ss_commands s,
                                      ss_commanded_at := ss_commanded_at s\<rparr>\<rparr>"

definition session_cycle ::
  "'d driver \<Rightarrow> real \<Rightarrow> car_session \<Rightarrow> 'd car_call
     \<Rightarrow> ('d \<times> (physical_mode \<times> apply_result) list) control_state \<times> (py_error + audit_row list)" where
  "session_cycle drv cycle_seconds s k =
     car_session_command (answering drv) ((cl_inputs k)\<lparr>ti_cycle_seconds := cycle_seconds\<rparr>) (session_state s k)
       (cl_now k) (cl_action k) (cl_target k) (cl_overridden k) (cl_observed k)"

text \<open>The instants of the cycles that commanded a discharge.\<close>

fun session_discharges :: "'d driver \<Rightarrow> real \<Rightarrow> car_session \<Rightarrow> 'd car_call list \<Rightarrow> instant list" where
  "session_discharges drv cycle_seconds s [] = []"
| "session_discharges drv cycle_seconds s (k # ks) =
     (case session_cycle drv cycle_seconds s k of
        (st, _) \<Rightarrow> (if discharged (snd (ct_dev st)) then [cl_now k] else []) @
                  session_discharges drv cycle_seconds (ct_car st) ks)"

fun gaps_at_least :: "duration \<Rightarrow> instant list \<Rightarrow> bool" where
  "gaps_at_least d (t # u # ts) = (d \<le> u - t \<and> gaps_at_least d (u # ts))"
| "gaps_at_least d _ = True"

text \<open>A session that has commanded is active and knows when.\<close>

definition session_ok :: "car_session \<Rightarrow> bool" where
  "session_ok s =
     (ss_commands s \<le> CAR_SESSION_MAX_COMMANDS \<and>
      (ss_commanded_at s = JNull \<or> ss_active s \<and> (\<exists>t. ss_commanded_at s = JTime (Aware t))))"

lemma decide_car_bounds:
  assumes "decide_car_command s ca now ob CAR_SESSION_DWELL CAR_SESSION_MAX_COMMANDS spacing = (command, s', event)"
    and "session_ok s"
  shows "ss_active s'"
    and "command \<Longrightarrow> ss_commands s' = ss_commands s + 1 \<and> ss_commands s < CAR_SESSION_MAX_COMMANDS \<and>
         ss_commanded_at s' = JTime (Aware now) \<and>
         (\<forall>t. ss_commanded_at s = JTime (Aware t) \<longrightarrow> min spacing CAR_SESSION_DWELL \<le> now - t)"
    and "\<not> command \<Longrightarrow> ss_commands s' = ss_commands s \<and> ss_commanded_at s' = ss_commanded_at s"
  using assms
  by (auto simp: decide_car_command_def car_reconcile_def car_elapsed_def elapsed_ok_def session_ok_def Let_def
      split: if_splits)

lemma session_cycle_step:
  assumes cycle: "session_cycle drv cycle_seconds s k = (st, r)" and ok: "session_ok s"
  shows "session_ok (ct_car st)"
    and "if discharged (snd (ct_dev st))
         then ss_commands (ct_car st) = ss_commands s + 1 \<and> ss_commanded_at (ct_car st) = JTime (Aware (cl_now k)) \<and>
              (\<forall>t. ss_commanded_at s = JTime (Aware t) \<longrightarrow>
                 min (py_round0 (cycle_seconds * 1000000)) CAR_SESSION_DWELL \<le> cl_now k - t)
         else ss_commands (ct_car st) = ss_commands s \<and> ss_commanded_at (ct_car st) = ss_commanded_at s"
proof -
  let ?st = "session_state s k" and ?ti = "(cl_inputs k)\<lparr>ti_cycle_seconds := cycle_seconds\<rparr>"
  let ?ask = "\<lambda>a. ask (answering drv) ?ti ?st a (cl_now k)"
  have dev: "ct_dev ?st = (fst (ct_dev (cl_state k)), [])" by (simp add: session_state_def)
  have ss: "ss_active (ct_car ?st) = ss_active s" "ss_commands (ct_car ?st) = ss_commands s"
    "ss_commanded_at (ct_car ?st) = ss_commanded_at s" by (simp_all add: session_state_def)
  then have ok': "session_ok (ct_car ?st)" using ok by (simp add: session_ok_def)
  have none: "\<not> discharged []" by (simp add: discharged_def)
  obtain command nxt event where d: "decide_car_command (ct_car ?st) (cl_action k) (cl_now k) (cl_observed k)
      CAR_SESSION_DWELL CAR_SESSION_MAX_COMMANDS (py_round0 (cycle_seconds * 1000000)) = (command, nxt, event)"
    by (metis prod_cases3)
  note b = decide_car_bounds [OF d ok', unfolded ss]
  have "session_ok (ct_car st) \<and>
    (if discharged (snd (ct_dev st))
     then ss_commands (ct_car st) = ss_commands s + 1 \<and> ss_commanded_at (ct_car st) = JTime (Aware (cl_now k)) \<and>
          (\<forall>t. ss_commanded_at s = JTime (Aware t) \<longrightarrow>
             min (py_round0 (cycle_seconds * 1000000)) CAR_SESSION_DWELL \<le> cl_now k - t)
     else ss_commands (ct_car st) = ss_commands s \<and> ss_commanded_at (ct_car st) = ss_commanded_at s)"
  proof (cases command)
    case False
    have keep: "ss_commands nxt = ss_commands s" "ss_commanded_at nxt = ss_commanded_at s" "ss_active nxt"
      using b(1,3) False by simp_all
    then have nxt: "session_ok nxt" "session_ok (nxt\<lparr>ss_last_outcome := x\<rparr>)" for x
      using ok by (auto simp: session_ok_def)
    show ?thesis
    proof (cases "event = CarCapReconcile")
      case True
      obtain st1 r1 where a: "?ask (hold_args (cl_observed k) (cl_overridden k)) = (st1, r1)" by (metis prod.exhaust)
      have "\<not> discharged (snd (ct_dev st1))"
        using ask_answers(3) [OF a dev] by (simp add: hold_args_def desired_hold)
      with cycle d False True a ask_answers(1) [OF a dev] keep nxt ok' ss show ?thesis
        by (auto simp: session_cycle_def car_session_command_def split: sum.splits)
    next
      case other: False
      with cycle d False have "st = ?st\<lparr>ct_car := nxt\<rparr>"
        by (auto simp: session_cycle_def car_session_command_def split: if_splits)
      with keep nxt none dev show ?thesis by simp
    qed
  next
    case True
    let ?args = "car_args (cl_target k) (ca_power_w (cl_action k)) (cl_observed k) (cl_overridden k)"
    obtain st1 r1 where a: "?ask ?args = (st1, r1)" by (metis prod.exhaust)
    have same: "ct_car st1 = ct_car ?st" by (rule ask_answers(1) [OF a dev])
    have log: "discharged (snd (ct_dev st1)) \<longleftrightarrow> (\<exists>x. r1 = Inr x \<and> ad_outcome x \<in> CAR_ATTEMPTED_OUTCOMES)"
      using ask_answers(2) [OF a dev] by (simp add: car_args_def desired_car)
    show ?thesis
    proof (cases r1)
      case (Inl e)
      with cycle d True a have "st = st1" by (simp add: session_cycle_def car_session_command_def)
      with log Inl same ok' ss show ?thesis by simp
    next
      case (Inr x)
      define s1 where "s1 = (if ad_outcome x \<in> CAR_ATTEMPTED_OUTCOMES then nxt
          else (ct_car st1)\<lparr>ss_active := True, ss_setpoint_w := ca_power_w (cl_action k)\<rparr>)"
      from cycle d True a Inr have st: "st = st1\<lparr>ct_car := s1\<lparr>ss_last_outcome := Some (ad_outcome x)\<rparr>\<rparr>"
        by (auto simp: session_cycle_def car_session_command_def Let_def s1_def)
      show ?thesis
      proof (cases "ad_outcome x \<in> CAR_ATTEMPTED_OUTCOMES")
        case att: True
        with log Inr have "discharged (snd (ct_dev st))" by (simp add: st)
        with att b(1) b(2) [OF True] ok show ?thesis by (auto simp: st s1_def session_ok_def)
      next
        case False
        with log Inr have "\<not> discharged (snd (ct_dev st))" by (simp add: st)
        with False same ss ok show ?thesis by (auto simp: st s1_def session_ok_def)
      qed
    qed
  qed
  then show "session_ok (ct_car st)"
    and "if discharged (snd (ct_dev st))
         then ss_commands (ct_car st) = ss_commands s + 1 \<and> ss_commanded_at (ct_car st) = JTime (Aware (cl_now k)) \<and>
              (\<forall>t. ss_commanded_at s = JTime (Aware t) \<longrightarrow>
                 min (py_round0 (cycle_seconds * 1000000)) CAR_SESSION_DWELL \<le> cl_now k - t)
         else ss_commands (ct_car st) = ss_commands s \<and> ss_commanded_at (ct_car st) = ss_commanded_at s"
    by blast+
qed

lemma session_discharge_count:
  "session_ok s \<Longrightarrow> int (length (session_discharges drv cyc s ks)) \<le> CAR_SESSION_MAX_COMMANDS - ss_commands s"
proof (induction ks arbitrary: s)
  case Nil
  then show ?case by (simp add: session_ok_def)
next
  case (Cons k ks)
  obtain st r where c: "session_cycle drv cyc s k = (st, r)" by (metis prod.exhaust)
  note st = session_cycle_step [OF c Cons.prems]
  from Cons.IH [OF st(1)] st(2) show ?case by (auto simp: c split: if_splits)
qed

lemma session_discharge_gaps:
  assumes "session_ok s"
  shows "gaps_at_least (min (py_round0 (cyc * 1000000)) CAR_SESSION_DWELL)
           ((case ss_commanded_at s of JTime (Aware t) \<Rightarrow> [t] | _ \<Rightarrow> []) @ session_discharges drv cyc s ks)"
  using assms
proof (induction ks arbitrary: s)
  case Nil
  then show ?case by (auto simp: session_ok_def)
next
  case (Cons k ks)
  obtain st r where c: "session_cycle drv cyc s k = (st, r)" by (metis prod.exhaust)
  note st = session_cycle_step [OF c Cons.prems]
  note ih = Cons.IH [OF st(1)]
  show ?case
  proof (cases "discharged (snd (ct_dev st))")
    case True
    with st(2) ih Cons.prems show ?thesis by (auto simp: c session_ok_def)
  next
    case False
    with st(2) ih show ?thesis by (simp add: c)
  qed
qed

text \<open>
  C33. A charging session cannot hammer the battery. Along any number of cycles of
  \<open>car_session_command\<close>, whatever its predictions, its observations, the state of the controller and the
  answers of the driver are (accepted, refused, unconfirmed), a session commands a discharge in at most
  six cycles, any two of them at least the shorter of the control cycle and ten minutes apart. A cycle in
  which the driver raises is not counted, by the code nor here: it leaves the session as it was. The
  battery's own driver never raises anything but the unconfirmed write (\<open>driver_never_raises\<close>).
\<close>

theorem car_session_writes_bounded:
  "length (session_discharges drv cycle_seconds car_session0 ks) \<le> 6 \<and>
   gaps_at_least (min (py_round0 (cycle_seconds * 1000000)) CAR_SESSION_DWELL)
     (session_discharges drv cycle_seconds car_session0 ks)"
proof
  have ok: "session_ok car_session0" by (simp add: session_ok_def car_session0_def CAR_SESSION_MAX_COMMANDS_def)
  from session_discharge_count [OF ok, of drv cycle_seconds ks]
  show "length (session_discharges drv cycle_seconds car_session0 ks) \<le> 6"
    by (simp add: car_session0_def CAR_SESSION_MAX_COMMANDS_def)
  from session_discharge_gaps [OF ok, of cycle_seconds drv ks]
  show "gaps_at_least (min (py_round0 (cycle_seconds * 1000000)) CAR_SESSION_DWELL)
     (session_discharges drv cycle_seconds car_session0 ks)"
    by (simp add: car_session0_def)
qed

text \<open>
  A session of two cycles, ten minutes apart, in which the prediction asks for another setpoint: both
  discharge. A third one five minutes later has to wait.
\<close>

definition demo_session :: "(mock_driver \<times> (physical_mode \<times> apply_result) list) control_state" where
  "demo_session = \<lparr>ct_dev = (mock_init True False, []), ct_mc = demo_controller, ct_lc = booted,
     ct_override = NO_OVERRIDE, ct_car = car_session0, ct_held = None, ct_cap_blocked = False,
     ct_pending_mode = None, ct_pending_count = 0, ct_floor_holding = False, ct_floor_sig = None,
     ct_drift = None, ct_intended = None, ct_outcome = None, ct_counters = counters_reset\<rparr>"

definition demo_cycle :: "instant \<Rightarrow> real \<Rightarrow> mock_driver car_call" where
  "demo_cycle t w = \<lparr>cl_state = demo_session, cl_inputs = demo_tick, cl_now = t,
     cl_action = \<lparr>ca_action = ''discharge'', ca_power_w = Some w, ca_reason = [], ca_recommand = True, ca_reserve_hold = False\<rparr>,
     cl_target = Some 10, cl_overridden = False, cl_observed = Some DISCHARGE\<rparr>"

lemma demo_session_discharges:
  "session_discharges mock_driver_port 300 car_session0
     [demo_cycle 0 500, demo_cycle (10 * us_minute) 700, demo_cycle (15 * us_minute) 900] = [0, 10 * us_minute]"
  by (simp add: session_cycle_def session_state_def demo_cycle_def demo_session_def demo_tick_def car_eval ask_def
      controller_eval answering_def discharged_def car_session0_def CAR_SESSION_DWELL_def CAR_ATTEMPTED_OUTCOMES_def
      car_summary_def Let_def)

end
