(* ===== verification/ModeControllerRuns.thy ===== *)
theory ModeControllerRuns
  imports ModeControllerSafety
begin

section \<open>Runs of the mode controller: budgets, dwell, what is known of the device\<close>

text \<open>
  A run is a list of calls of \<open>decide\<close>, each with its own lifecycle, arguments and instant, over a
  device whose state is threaded through. The daily budgets and the dwell are statements about whole
  runs.
\<close>

type_synonym call = "lifecycle \<times> decide_args \<times> instant"

definition result_written :: "py_error + action_decision \<Rightarrow> bool" where
  "result_written r = (case r of Inr d \<Rightarrow> ad_outcome d \<in> write_outcomes | Inl _ \<Rightarrow> False)"

text \<open>A call that spends the budget \<open>q\<close> (\<open>True\<close> commitments, \<open>False\<close> routine switches).\<close>

definition spends :: "bool \<Rightarrow> mode_controller \<Rightarrow> decide_args \<Rightarrow> instant \<Rightarrow> py_error + action_decision \<Rightarrow> bool" where
  "spends q c a now r =
     (result_written r \<and> da_count_toward_cap a \<and> da_commitment a = q \<and>
      desired c (da_intent a) (da_car_session a) (Some now) \<noteq> AUTO)"

fun spent :: "bool \<Rightarrow> 'd driver \<Rightarrow> 'd \<Rightarrow> mode_controller \<Rightarrow> call list \<Rightarrow> int" where
  "spent q drv dev c [] = 0"
| "spent q drv dev c ((lc, a, now) # cs) =
     (let (dev', c', r) = decide drv dev lc c a now
      in (if spends q c a now r then 1 else 0) + spent q drv dev' c' cs)"

definition automatic :: "decide_args \<Rightarrow> bool" where
  "automatic a = (\<not> da_manual a \<and> \<not> da_priority a)"

definition used_today :: "bool \<Rightarrow> mode_controller \<Rightarrow> int \<Rightarrow> int" where
  "used_today q c day =
     (if mc_counter_date c = Some day then (if q then mc_commitments_today c else mc_switches_today c)
      else 0)"

definition budget :: "bool \<Rightarrow> mode_controller \<Rightarrow> int" where
  "budget q c = (if q then mc_max_commitments c else mc_max_switches c)"

definition counters_ok :: "mode_controller \<Rightarrow> bool" where
  "counters_ok c = (0 \<le> mc_switches_today c \<and> 0 \<le> mc_commitments_today c)"

lemma write_mode_frame:
  assumes "write_mode drv dev c a m now = (dev', c', r)"
  shows "mc_tz c' = mc_tz c \<and> mc_max_switches c' = mc_max_switches c \<and>
         mc_max_commitments c' = mc_max_commitments c \<and> mc_min_dwell c' = mc_min_dwell c"
proof (cases r)
  case (Inl e)
  with assms have "c' = c"
    by (auto simp: write_mode_def Let_def split_beta split: prod.splits apply_result.splits)
  then show ?thesis by simp
next
  case (Inr d)
  with write_mode_Inr [of drv dev c a m now dev' c' d] assms show ?thesis by simp
qed

lemma write_mode_Inl: "write_mode drv dev c a m now = (dev', c', Inl e) \<Longrightarrow> c' = c"
  by (auto simp: write_mode_def Let_def split_beta split: prod.splits apply_result.splits)

lemma cap_block_None:
  "cap_block c i m now q = None \<Longrightarrow> counters_ok c \<Longrightarrow>
     used_today q c (local_date (mc_tz c) now) < budget q c"
  by (auto simp: cap_block_def effective_switches_def effective_commitments_def used_today_def
        budget_def counters_ok_def Let_def split: if_splits option.splits)

text \<open>One call: the budget spent so far on a day grows by one exactly when the call spends.\<close>

lemma decide_budget_step:
  assumes dec: "decide drv dev lc c a now = (dev', c', r)"
    and auto: "automatic a" and ok: "counters_ok c"
    and day: "local_date (mc_tz c) now = day"
  shows "counters_ok c' \<and> mc_tz c' = mc_tz c \<and> budget q c' = budget q c \<and>
         used_today q c' day = used_today q c day + (if spends q c a now r then 1 else 0) \<and>
         (spends q c a now r \<longrightarrow> used_today q c day < budget q c)"
  using dec
proof (cases rule: decide_cases)
  case (raised e)
  then show ?thesis using ok by (simp add: spends_def result_written_def)
next
  case (blocked d)
  from gate_Some [OF blocked(1)] have "\<not> spends q c a now r"
    using blocked(4) by (auto simp: spends_def result_written_def write_outcomes_def)
  then show ?thesis using ok blocked by simp
next
  case written
  let ?m = "desired c (da_intent a) (da_car_session a) (Some now)"
  let ?p = "prepare_write drv dev c ?m now"
  have p: "counters_ok ?p" "used_today q ?p day = used_today q c day" "budget q ?p = budget q c"
    using ok day by (auto simp: counters_ok_def used_today_def budget_def)
  note fr = write_mode_frame [OF written(2)]
  have bud: "budget q c' = budget q c" using fr by (simp add: budget_def)
  show ?thesis
  proof (cases r)
    case (Inl e)
    with written(2) have "c' = ?p" by (auto dest: write_mode_Inl)
    with p Inl bud show ?thesis by (simp add: spends_def result_written_def)
  next
    case (Inr d)
    with written(2) have w: "write_mode drv dev ?p a ?m now = (dev', c', Inr d)" by simp
    note wi = write_mode_Inr [OF w]
    have dt: "mc_counter_date c' = Some day" using wi day by simp
    have sp: "spends q c a now r \<longleftrightarrow> da_count_toward_cap a \<and> da_commitment a = q \<and> ?m \<noteq> AUTO"
      using wi Inr by (simp add: spends_def result_written_def)
    have used: "used_today q c' day = used_today q ?p day + (if spends q c a now r then 1 else 0)"
      using wi dt sp day by (auto simp: used_today_def)
    have ok': "counters_ok c'" using wi p(1) by (auto simp: counters_ok_def)
    have "used_today q c day < budget q c" if "spends q c a now r"
    proof -
      from that sp have "?m \<noteq> AUTO" and qa: "da_commitment a = q" by simp_all
      with gate_None [OF written(1)] auto
      have "cap_block c (da_intent a) ?m now q = None"
        by (auto simp: automatic_def da_flags_def)
      from cap_block_None [OF this ok] day show ?thesis by simp
    qed
    with ok' used p bud fr show ?thesis by simp
  qed
qed

lemma spent_budget:
  assumes "counters_ok c" and "\<forall>(lc, a, now)\<in>set cs. automatic a \<and> local_date (mc_tz c) now = day"
  shows "used_today q c day + spent q drv dev c cs \<le> max (used_today q c day) (budget q c)"
  using assms
proof (induction cs arbitrary: dev c)
  case Nil
  then show ?case by simp
next
  case (Cons call cs)
  obtain lc a now where call: "call = (lc, a, now)" by (cases call)
  obtain dev' c' r where dec: "decide drv dev lc c a now = (dev', c', r)"
    by (cases "decide drv dev lc c a now") auto
  from Cons.prems(2) call have "automatic a" and "local_date (mc_tz c) now = day" by auto
  note st = decide_budget_step [OF dec this(1) Cons.prems(1) this(2), of q]
  from st Cons.prems(2) have "\<forall>(lc, a, now)\<in>set cs. automatic a \<and> local_date (mc_tz c') now = day"
    by auto
  with Cons.IH [of c' dev'] st
  have ih: "used_today q c' day + spent q drv dev' c' cs \<le> max (used_today q c' day) (budget q c)"
    by auto
  show ?case using ih st by (auto simp: call dec)
qed

text \<open>
  C2. The daily switch budgets hold over whole runs. For any sequence of automatic decisions
  (neither an operator's nor a safety action) that fall on one local day, whatever the device
  answers, the number of counted writes to a mode other than AUTO, on top of what the counters
  already held for that day, never exceeds the configured maximum, separately for the routine
  budget and for the commitment budget.
\<close>

theorem daily_budget_respected:
  assumes "counters_ok c" and "0 \<le> budget q c"
    and "\<forall>(lc, a, now)\<in>set cs. automatic a \<and> local_date (mc_tz c) now = day"
    and "used_today q c day \<le> budget q c"
  shows "used_today q c day + spent q drv dev c cs \<le> budget q c"
  using spent_budget [OF assms(1,3), of q drv dev] assms(4) by simp

theorem daily_budget_respected_witness:
  "let cs = [(booted, demo_args HOLD_RESERVE, 0),
             (booted, demo_args GRID_CHARGE_TO_TARGET, 600 * us_second)]
   in spent False mock_driver_port (mock_init True False) demo_controller cs = 2 \<and>
      0 + spent False mock_driver_port (mock_init True False) demo_controller cs \<le> 10"
proof -
  let ?cs = "[(booted, demo_args HOLD_RESERVE, 0),
              (booted, demo_args GRID_CHARGE_TO_TARGET, 600 * us_second)]"
  have s: "spent False mock_driver_port (mock_init True False) demo_controller ?cs = 2"
    by (simp add: controller_eval spends_def result_written_def write_outcomes_def)
  have "used_today False demo_controller 0
          + spent False mock_driver_port (mock_init True False) demo_controller ?cs
        \<le> budget False demo_controller"
    by (rule daily_budget_respected)
       (simp_all add: counters_ok_def demo_controller_def budget_def used_today_def automatic_def
          demo_args_def local_date_def utc_def)
  then have "0 + spent False mock_driver_port (mock_init True False) demo_controller ?cs \<le> 10"
    by (simp add: used_today_def budget_def demo_controller_def)
  with s show ?thesis by (simp add: Let_def)
qed

subsection \<open>Dwell\<close>

text \<open>
  The instants of the counted writes of a run, in order, each with the answer to: was it an
  automatic write to a mode other than AUTO?
\<close>

fun write_trace :: "'d driver \<Rightarrow> 'd \<Rightarrow> mode_controller \<Rightarrow> call list \<Rightarrow> (instant \<times> bool) list" where
  "write_trace drv dev c [] = []"
| "write_trace drv dev c ((lc, a, now) # cs) =
     (let (dev', c', r) = decide drv dev lc c a now;
          rest = write_trace drv dev' c' cs
      in if result_written r
         then (now, automatic a \<and> desired c (da_intent a) (da_car_session a) (Some now) \<noteq> AUTO) # rest
         else rest)"

fun spaced :: "duration \<Rightarrow> instant option \<Rightarrow> (instant \<times> bool) list \<Rightarrow> bool" where
  "spaced d prev [] = True"
| "spaced d prev ((t, gated) # ws) =
     ((gated \<longrightarrow> (case prev of None \<Rightarrow> True | Some t0 \<Rightarrow> d \<le> t - t0)) \<and> spaced d (Some t) ws)"

lemma dwell_block_False:
  "dwell_block c i m now = Inr False \<Longrightarrow> mc_last_switch_at c = Some (Aware t0) \<Longrightarrow>
     mc_min_dwell c \<le> now - t0"
  by (simp add: dwell_block_def)

lemma write_trace_spaced:
  assumes "\<forall>(lc, a, now)\<in>set cs. da_count_toward_cap a"
    and "mc_last_switch_at c = map_option Aware prev"
  shows "spaced (mc_min_dwell c) prev (write_trace drv dev c cs)"
  using assms
proof (induction cs arbitrary: dev c prev)
  case Nil
  then show ?case by simp
next
  case (Cons call cs)
  obtain lc a now where call: "call = (lc, a, now)" by (cases call)
  obtain dev' c' r where dec: "decide drv dev lc c a now = (dev', c', r)"
    by (cases "decide drv dev lc c a now") auto
  from Cons.prems(1) call have cnt: "da_count_toward_cap a"
    and rest: "\<forall>(lc, a, now)\<in>set cs. da_count_toward_cap a" by auto
  show ?case using dec
  proof (cases rule: decide_cases)
    case (raised e)
    then show ?thesis using Cons.IH [OF rest Cons.prems(2), of dev]
      by (simp add: call dec result_written_def)
  next
    case (blocked d)
    from gate_Some [OF blocked(1)] have "\<not> result_written r"
      using blocked(4) by (auto simp: result_written_def write_outcomes_def)
    then show ?thesis using blocked Cons.IH [OF rest Cons.prems(2), of dev]
      by (simp add: call dec)
  next
    case written
    let ?m = "desired c (da_intent a) (da_car_session a) (Some now)"
    note fr = write_mode_frame [OF written(2)]
    show ?thesis
    proof (cases r)
      case (Inl e)
      with written(2) have "c' = prepare_write drv dev c ?m now" by (auto dest: write_mode_Inl)
      then have "mc_last_switch_at c' = map_option Aware prev" using Cons.prems(2) by simp
      from Cons.IH [OF rest this, of dev'] fr Inl show ?thesis
        by (simp add: call dec result_written_def)
    next
      case (Inr d)
      with written(2) have w: "write_mode drv dev (prepare_write drv dev c ?m now) a ?m now = (dev', c', Inr d)"
        by simp
      note wi = write_mode_Inr [OF w]
      have l': "mc_last_switch_at c' = map_option Aware (Some now)" using wi cnt by simp
      have gated: "automatic a \<and> ?m \<noteq> AUTO \<Longrightarrow> prev = Some t0 \<Longrightarrow> mc_min_dwell c \<le> now - t0" for t0
        using gate_None [OF written(1)] Cons.prems(2)
        by (auto simp: automatic_def da_flags_def intro: dwell_block_False)
      from Cons.IH [OF rest l', of dev'] fr gated wi Inr show ?thesis
        by (auto simp: call dec result_written_def split: option.split)
    qed
  qed
qed

text \<open>
  The minimum dwell holds over whole runs: in any sequence of counted decisions, whatever the
  device answers and whatever operator or return-to-AUTO writes lie in between, every automatic
  write to a mode other than AUTO comes at least \<open>min_dwell\<close> after the write before it (or after
  the persisted last switch).
\<close>

theorem dwell_respected:
  assumes "\<forall>(lc, a, now)\<in>set cs. da_count_toward_cap a"
    and "mc_last_switch_at c = map_option Aware prev"
  shows "spaced (mc_min_dwell c) prev (write_trace drv dev c cs)"
  using assms by (rule write_trace_spaced)

theorem dwell_respected_witness:
  "let cs = [(booted, demo_args HOLD_RESERVE, 0),
             (booted, demo_args GRID_CHARGE_TO_TARGET, 300 * us_second),
             (booted, demo_args GRID_CHARGE_TO_TARGET, 600 * us_second)]
   in write_trace mock_driver_port (mock_init True False) demo_controller cs
        = [(0, True), (600 * us_second, True)] \<and>
      spaced (600 * us_second) None
        (write_trace mock_driver_port (mock_init True False) demo_controller cs)"
proof -
  let ?cs = "[(booted, demo_args HOLD_RESERVE, 0),
             (booted, demo_args GRID_CHARGE_TO_TARGET, 300 * us_second),
             (booted, demo_args GRID_CHARGE_TO_TARGET, 600 * us_second)]"
  have w: "write_trace mock_driver_port (mock_init True False) demo_controller ?cs
             = [(0, True), (600 * us_second, True)]"
    by (simp add: controller_eval automatic_def result_written_def write_outcomes_def)
  have "spaced (mc_min_dwell demo_controller) None
          (write_trace mock_driver_port (mock_init True False) demo_controller ?cs)"
    by (rule dwell_respected) (simp_all add: demo_args_def demo_controller_def)
  with w show ?thesis by (simp add: demo_controller_def Let_def)
qed

subsection \<open>What is known of the device\<close>

text \<open>
  While the last command is not flagged unconfirmed, the mode recorded as confirmed is the mode the
  device reports.
\<close>

definition synced :: "'d driver \<Rightarrow> 'd \<Rightarrow> mode_controller \<Rightarrow> bool" where
  "synced drv dev c =
     (\<not> mc_unconfirmed c \<longrightarrow>
        (case mc_last_confirmed c of None \<Rightarrow> True | Some m \<Rightarrow> drv_mode drv dev = Inr m))"

fun run_calls :: "'d driver \<Rightarrow> 'd \<Rightarrow> mode_controller \<Rightarrow> call list
                   \<Rightarrow> 'd \<times> mode_controller \<times> (py_error + action_decision) list" where
  "run_calls drv dev c [] = (dev, c, [])"
| "run_calls drv dev c ((lc, a, now) # cs) =
     (let (dev', c', r) = decide drv dev lc c a now;
          (dev'', c'', rs) = run_calls drv dev' c' cs
      in (dev'', c'', r # rs))"

context battery_port
begin

lemma write_synced:
  assumes "write_mode drv dev c a m now = (dev', c', Inr d)"
  shows "synced drv dev' c' \<and>
         (ad_outcome d = O_applied \<longrightarrow> drv_mode drv dev' = Inr m \<and> \<not> mc_unconfirmed c') \<and>
         (ad_outcome d = O_failed_recovered \<longrightarrow> drv_mode drv dev' = Inr AUTO \<and> \<not> mc_unconfirmed c')"
proof -
  obtain r1 dev1 where a1: "drv_apply drv dev m (da_target_soc a) (da_power_w a) = (r1, dev1)"
    by (cases "drv_apply drv dev m (da_target_soc a) (da_power_w a)")
  obtain r2 dev2 where a2: "drv_apply drv dev1 AUTO None None = (r2, dev2)"
    by (cases "drv_apply drv dev1 AUTO None None")
  show ?thesis
    using assms accepted_mode [of dev m "da_target_soc a" "da_power_w a" dev1]
      accepted_mode [of dev1 AUTO None None dev2]
    by (cases r1; cases r2)
       (auto simp: write_mode_def a1 a2 on_unconfirmed_def on_refused_def on_accepted_def Let_def
          synced_def split_beta)
qed

lemma decide_synced:
  assumes "decide drv dev lc c a now = (dev', c', Inr d)" and "synced drv dev c"
  shows "synced drv dev' c'"
  using assms(1)
proof (cases rule: decide_cases)
  case (raised e)
  then show ?thesis using assms(2) by simp
next
  case (blocked d)
  then show ?thesis using assms(2) by simp
next
  case written
  from write_synced [OF written(2)] show ?thesis by simp
qed

lemma run_synced:
  assumes "run_calls drv dev c cs = (dev', c', rs)" and "synced drv dev c"
    and "\<forall>r\<in>set rs. \<exists>d. r = Inr d"
  shows "synced drv dev' c'"
  using assms
proof (induction cs arbitrary: dev c rs)
  case Nil
  then show ?case by simp
next
  case (Cons call cs)
  obtain lc a now where call: "call = (lc, a, now)" by (cases call)
  obtain dev1 c1 r where dec: "decide drv dev lc c a now = (dev1, c1, r)"
    by (cases "decide drv dev lc c a now") auto
  obtain dev2 c2 rs2 where run: "run_calls drv dev1 c1 cs = (dev2, c2, rs2)"
    by (cases "run_calls drv dev1 c1 cs") auto
  from Cons.prems(1) have eq: "dev2 = dev'" "c2 = c'" "rs = r # rs2"
    by (simp_all add: call dec run)
  with Cons.prems(3) obtain d where "r = Inr d" by auto
  with dec Cons.prems(2) have "synced drv dev1 c1" using decide_synced by blast
  with Cons.IH [OF run [unfolded eq(1,2)]] Cons.prems(3) eq show ?case by simp
qed

end

text \<open>
  The controller never believes more than the device showed. Over any run against the failing
  mock, whose first commands are refused without a mode change, as long as no call raised: whenever
  the last command is not flagged unconfirmed, the recorded confirmed mode is the mode the device
  reports. (The locale \<open>battery_port\<close> gives the same for every driver that obeys its law.)
\<close>

theorem confirmed_mode_is_device_mode:
  assumes "run_calls failing_driver_port dev c cs = (dev', c', rs)"
    and "synced failing_driver_port dev c" and "\<forall>r\<in>set rs. \<exists>d. r = Inr d"
  shows "\<not> mc_unconfirmed c' \<Longrightarrow> mc_last_confirmed c' = Some m \<Longrightarrow> md_mode dev' = m"
  using failing.run_synced [OF assms] by (simp add: synced_def failing_driver_port_def)

theorem confirmed_mode_is_device_mode_witness:
  "let cs = [(booted, demo_args GRID_CHARGE_TO_TARGET, 0),
             (booted, demo_args GRID_CHARGE_TO_TARGET, 600 * us_second)];
       (dev', c', rs) = run_calls failing_driver_port (failing_init 1) demo_controller cs
   in map (\<lambda>r. case r of Inr d \<Rightarrow> ad_outcome d | Inl _ \<Rightarrow> O_dry_run) rs
        = [O_failed_recovered, O_applied] \<and> md_mode dev' = CHARGE"
proof -
  let ?cs = "[(booted, demo_args GRID_CHARGE_TO_TARGET, 0),
             (booted, demo_args GRID_CHARGE_TO_TARGET, 600 * us_second)]"
  let ?r = "run_calls failing_driver_port (failing_init 1) demo_controller ?cs"
  have e: "map (\<lambda>r. case r of Inr d \<Rightarrow> ad_outcome d | Inl _ \<Rightarrow> O_dry_run) (snd (snd ?r))
             = [O_failed_recovered, O_applied]" "\<forall>r\<in>set (snd (snd ?r)). \<exists>d. r = Inr d"
      "\<not> mc_unconfirmed (fst (snd ?r))" "mc_last_confirmed (fst (snd ?r)) = Some CHARGE"
    by (simp_all add: controller_eval failing_driver_port_def failing_apply_def failing_init_def
          mock_driver.extend_def)
  have s: "synced failing_driver_port (failing_init 1) demo_controller"
    by (simp add: synced_def demo_controller_def)
  have r: "?r = (fst ?r, fst (snd ?r), snd (snd ?r))" by (simp only: prod.collapse)
  have "md_mode (fst ?r) = CHARGE"
    by (rule confirmed_mode_is_device_mode [OF r s e(2) e(3) e(4)])
  with e(1) show ?thesis by (simp add: Let_def split_beta)
qed

end
