(* ===== verification/ModeControllerState.thy ===== *)
theory ModeControllerState
  imports ModeControllerRuns
begin

section \<open>The persisted state of the mode controller\<close>

text \<open>
  What \<open>restore_state\<close> makes of a stored row: a well-formed snapshot is restored field by field, and
  the refuse-when-busy flag is cleared only by a row that proves the last command confirmed.
\<close>

subsection \<open>Round trip\<close>

text \<open>The fields a snapshot carries, put on top of another controller.\<close>

definition carry_state :: "mode_controller \<Rightarrow> mode_controller \<Rightarrow> mode_controller" where
  "carry_state c c0 =
     c0\<lparr>mc_switches_today := mc_switches_today c, mc_commitments_today := mc_commitments_today c,
        mc_last_switch_at := mc_last_switch_at c, mc_counter_date := mc_counter_date c,
        mc_last_requested := mc_last_requested c, mc_last_confirmed := mc_last_confirmed c,
        mc_original_mode := mc_original_mode c, mc_unconfirmed := mc_unconfirmed c,
        mc_commitment := mc_commitment c\<rparr>"

lemma mode_or_unknown_json_mode [simp]: "mode_or_unknown (json_mode m) = (m, False)"
  by (cases m) (simp_all add: json_mode_def mode_or_unknown_def)

lemma snapshot_get [simp]:
  "json_get (state_snapshot c) ''switches_today'' = JNum (of_int (mc_switches_today c))"
  "json_get (state_snapshot c) ''commitment_switches_today'' = JNum (of_int (mc_commitments_today c))"
  "json_get (state_snapshot c) ''last_switch_at'' = json_opt JTime (mc_last_switch_at c)"
  "json_get (state_snapshot c) ''counter_date'' = json_opt JDate (mc_counter_date c)"
  "json_get (state_snapshot c) ''last_requested_action'' = json_mode (mc_last_requested c)"
  "json_get (state_snapshot c) ''last_confirmed_action'' = json_mode (mc_last_confirmed c)"
  "json_get (state_snapshot c) ''original_vendor_mode'' = json_mode (mc_original_mode c)"
  "json_get (state_snapshot c) ''last_command_unconfirmed'' = JBool (mc_unconfirmed c)"
  "json_get (state_snapshot c) ''charge_commitment'' =
     json_opt (\<lambda>k. JObj (commitment_to_dict k)) (mc_commitment c)"
  by (simp_all add: state_snapshot_def json_get_def)

lemma restore_counters_snapshot:
  "restore_counters (state_snapshot c) c0 =
     (c0\<lparr>mc_switches_today := mc_switches_today c, mc_commitments_today := mc_commitments_today c,
         mc_last_switch_at := mc_last_switch_at c, mc_counter_date := mc_counter_date c\<rparr>, True)"
  by (cases "mc_last_switch_at c"; cases "mc_counter_date c")
     (simp_all add: restore_counters_def Let_def)

lemma commitment_snapshot:
  "(\<And>k. mc_commitment c = Some k \<Longrightarrow> commitment_ok k) \<Longrightarrow>
     commitment_from_dict (json_opt (\<lambda>k. JObj (commitment_to_dict k)) (mc_commitment c)) = mc_commitment c"
  by (cases "mc_commitment c") (simp_all add: commitment_read_back commitment_from_dict_def [of JNull])

text \<open>
  C39. A restart loses no control state: restoring the snapshot a controller persisted, into any
  other controller, gives it exactly the counters, the last switch, the counter date, the
  requested, confirmed and original modes, the unconfirmed flag and the charge commitment of the
  first, and leaves everything else alone.
\<close>

theorem restore_snapshot:
  assumes "\<And>k. mc_commitment c = Some k \<Longrightarrow> commitment_ok k"
  shows "restore_state c0 (SValue (JObj (state_snapshot c))) = carry_state c c0"
proof -
  have "state_snapshot c \<noteq> []" by (simp add: state_snapshot_def)
  then show ?thesis
    by (simp add: restore_state_def restore_counters_snapshot restore_modes_def carry_state_def
          commitment_snapshot [OF assms])
qed

theorem restore_snapshot_witness:
  "let k = \<lparr>cc_target_soc = 80, cc_deadline = 1000, cc_reason = JStr ''cheap window'',
            cc_applied_at = 0, cc_power_w = Some 2400,
            cc_intent = intent_value GRID_CHARGE_TO_TARGET\<rparr>;
       c = demo_controller\<lparr>mc_commitment := Some k, mc_switches_today := 3,
             mc_last_confirmed := Some CHARGE, mc_last_switch_at := Some (Aware 7)\<rparr>;
       r = restore_state demo_controller (SValue (JObj (state_snapshot c)))
   in mc_commitment r = Some k \<and> mc_switches_today r = 3 \<and> mc_last_confirmed r = Some CHARGE"
proof -
  let ?k = "\<lparr>cc_target_soc = 80, cc_deadline = 1000, cc_reason = JStr ''cheap window'',
            cc_applied_at = 0, cc_power_w = Some 2400,
            cc_intent = intent_value GRID_CHARGE_TO_TARGET\<rparr>"
  let ?c = "demo_controller\<lparr>mc_commitment := Some ?k, mc_switches_today := 3,
             mc_last_confirmed := Some CHARGE, mc_last_switch_at := Some (Aware 7)\<rparr>"
  have "restore_state demo_controller (SValue (JObj (state_snapshot ?c))) = carry_state ?c demo_controller"
    by (rule restore_snapshot) (auto simp: commitment_ok_def)
  then show ?thesis by (simp add: carry_state_def Let_def)
qed

subsection \<open>Reading an arbitrary row\<close>

definition mode_field_ok :: "(string \<times> json) list \<Rightarrow> string \<Rightarrow> bool" where
  "mode_field_ok kvs k = (\<not> snd (mode_or_unknown (json_get kvs k)))"

lemma mode_field_ok_iff:
  "mode_field_ok kvs k \<longleftrightarrow>
     \<not> truthy (json_get kvs k) \<or> (\<exists>m. json_get kvs k = JStr (mode_value m))"
  by (auto simp: mode_field_ok_def mode_or_unknown_def dest: mode_of_Inr
        split: json.splits sum.splits)

text \<open>
  The refuse-when-busy flag fails safe for every row the store can hold. Restoring a non-empty
  object leaves the last command marked confirmed only when the row says so with a real boolean,
  its three mode fields are absent or known modes, and its counters and times parse; a corrupt row
  always marks it unconfirmed; and no row raises or installs a commitment with an impossible target.
\<close>

theorem restore_fails_safe:
  "(kvs \<noteq> [] \<longrightarrow>
      (\<not> mc_unconfirmed (restore_state c (SValue (JObj kvs))) \<longleftrightarrow>
         json_get kvs ''last_command_unconfirmed'' = JBool False \<and>
         mode_field_ok kvs ''last_requested_action'' \<and>
         mode_field_ok kvs ''last_confirmed_action'' \<and>
         mode_field_ok kvs ''original_vendor_mode'' \<and> snd (restore_counters kvs c)) \<and>
      (\<forall>k. mc_commitment (restore_state c (SValue (JObj kvs))) = Some k \<longrightarrow>
         0 < cc_target_soc k \<and> cc_target_soc k \<le> 100)) \<and>
   mc_unconfirmed (restore_state c SCorrupt)"
proof -
  obtain c' ok where r: "restore_counters kvs c = (c', ok)" by (cases "restore_counters kvs c")
  have k: "0 < cc_target_soc k \<and> cc_target_soc k \<le> 100"
    if "mc_commitment (restore_state c (SValue (JObj kvs))) = Some k" and "kvs \<noteq> []" for k
    using that r commitment_from_dict_ok
    by (auto simp: restore_state_def restore_modes_def split_beta split: if_splits)
  show ?thesis
    using k r
    by (auto simp: restore_state_def restore_modes_def mode_field_ok_def split_beta
          split: json.splits if_splits)
qed

theorem restore_fails_safe_witness:
  "mc_unconfirmed (restore_state demo_controller
     (SValue (JObj [(''switches_today'', JNum 2), (''last_command_unconfirmed'', JNum 0)])))"
  using restore_fails_safe [of "[(''switches_today'', JNum 2), (''last_command_unconfirmed'', JNum 0)]"
          demo_controller]
  by (auto simp: json_get_def)

subsection \<open>A naive last switch time\<close>

text \<open>
  The reader accepts a \<open>last_switch_at\<close> without a UTC offset, where the commitment reader rejects
  naive times. The comparison in the dwell gate then raises.
\<close>

lemma restore_naive_switch:
  "mc_last_switch_at (restore_state c (SValue (JObj
      [(''last_switch_at'', JTime (Naive t)), (''last_command_unconfirmed'', JBool False)]))) = Some (Naive t)"
  by (simp add: restore_state_def restore_counters_def restore_modes_def json_get_def Let_def split_beta)

text \<open>
  A stored row whose last switch time carries no UTC offset is restored as it stands, and from
  then on every automatic decision to leave AUTO raises \<open>TypeError\<close> in the dwell gate, for a live,
  owning system, with no write and no change of state: nothing such a decision does repairs the row.
\<close>

theorem naive_last_switch_raises:
  assumes "mc_last_switch_at c = Some (Naive t)"
    and "\<not> mc_dry_run c" and "can_command_at lc now" and "automatic a"
    and "da_observed a = None" and "drv_mode drv dev = Inr AUTO"
    and "desired c (da_intent a) (da_car_session a) (Some now) \<noteq> AUTO"
  shows "decide drv dev lc c a now = (dev, c, Inl TypeError)"
  using assms by (simp add: decide_def gate_def dwell_block_def Let_def automatic_def da_flags_def)

theorem naive_last_switch_raises_witness:
  "let c = restore_state demo_controller (SValue (JObj
             [(''last_switch_at'', JTime (Naive 0)), (''last_command_unconfirmed'', JBool False)]))
   in decide mock_driver_port (mock_init True False) booted c (demo_args HOLD_RESERVE) 0
        = (mock_init True False, c, Inl TypeError)"
proof -
  let ?c = "restore_state demo_controller (SValue (JObj
             [(''last_switch_at'', JTime (Naive 0)), (''last_command_unconfirmed'', JBool False)]))"
  have "\<not> mc_dry_run ?c" "desired ?c HOLD_RESERVE False (Some 0) \<noteq> AUTO"
    by (simp_all add: restore_state_def restore_counters_def restore_modes_def json_get_def
          Let_def split_beta demo_controller_def desired_def)
  then have "decide mock_driver_port (mock_init True False) booted ?c (demo_args HOLD_RESERVE) 0
               = (mock_init True False, ?c, Inl TypeError)"
    by (intro naive_last_switch_raises [where t = 0])
       (simp_all add: restore_naive_switch demo_args_def automatic_def mock_driver_port_def mock_init_def)
  then show ?thesis by (simp add: Let_def)
qed

end
