(* ===== verification/LatePack.thy ===== *)
theory LatePack
  imports EnergyDomain "HOL-Library.Product_Lexorder"
begin

section \<open>Late packing: which slots to charge in\<close>

text \<open>
  The slot packer of \<open>ems/planner/rule_based.py\<close> that the winter planner and both must-charge overlays
  use, with the charge quantum of \<open>ems/planner/charge_need.py\<close> and the buy-pool record of
  \<open>ems/planner/buy_pool.py\<close>. The packer looks for the cheapest window of consecutive quarter hours; a
  Python set of starts is a set.
\<close>

subsection \<open>The charge quantum\<close>

definition stored_kwh_per_slot :: "real \<Rightarrow> real \<Rightarrow> real" where
  "stored_kwh_per_slot max_charge_w rte = max_charge_w * (1/4) / 1000 * eta_of rte"

lemma stored_kwh_pos: "0 < w \<Longrightarrow> 0 < stored_kwh_per_slot w rte"
  by (simp add: stored_kwh_per_slot_def)

definition charge_slot_count :: "real \<Rightarrow> real \<Rightarrow> int" where
  "charge_slot_count shortfall slot_kwh =
     (if 0 < slot_kwh \<and> 1/1000000000 < shortfall then \<lceil>shortfall / slot_kwh\<rceil> else 0)"

lemma charge_slot_count_covers:
  assumes "0 < slot_kwh" and "0 \<le> shortfall"
  shows "0 \<le> charge_slot_count shortfall slot_kwh" "of_int (charge_slot_count shortfall slot_kwh) * slot_kwh < shortfall + slot_kwh"
proof -
  have "of_int \<lceil>shortfall / slot_kwh\<rceil> < shortfall / slot_kwh + 1" by linarith
  then have "of_int \<lceil>shortfall / slot_kwh\<rceil> * slot_kwh < (shortfall / slot_kwh + 1) * slot_kwh"
    using assms(1) by (rule mult_strict_right_mono)
  also have "\<dots> = shortfall + slot_kwh" using assms(1) by (simp add: field_simps)
  finally have "of_int \<lceil>shortfall / slot_kwh\<rceil> * slot_kwh < shortfall + slot_kwh" .
  then show "of_int (charge_slot_count shortfall slot_kwh) * slot_kwh < shortfall + slot_kwh"
    using assms by (simp add: charge_slot_count_def)
  have "0 \<le> shortfall / slot_kwh" using assms by simp
  then show "0 \<le> charge_slot_count shortfall slot_kwh" by (simp add: charge_slot_count_def)
qed

subsection \<open>The packer\<close>

fun contiguous :: "price_slot list \<Rightarrow> bool" where
  "contiguous (a # b # ps) = (pr_start a + SLOT = pr_start b \<and> contiguous (b # ps))"
| "contiguous _ = True"

definition starts_of :: "price_slot list \<Rightarrow> instant set" where
  "starts_of ps = set (map pr_start ps)"

definition window_cost :: "(price_slot \<Rightarrow> real) \<Rightarrow> price_slot list \<Rightarrow> real" where
  "window_cost price_of w = sum_list (map price_of w)"

definition buyable_window :: "(price_slot \<Rightarrow> real) \<Rightarrow> real \<Rightarrow> price_slot list \<Rightarrow> bool" where
  "buyable_window price_of max_buy w = (contiguous w \<and> list_all (\<lambda>p. price_of p \<le> max_buy) w)"

definition windows :: "nat \<Rightarrow> price_slot list \<Rightarrow> price_slot list list" where
  "windows n ps = map (\<lambda>i. take n (drop i ps)) [0..<length ps + 1 - n]"

text \<open>The best window so far: its starts, its cost, and its last start; an infinite cost is \<open>None\<close>.\<close>

type_synonym best_window = "(instant set \<times> real \<times> instant) option"

definition COST_EPS :: real where "COST_EPS = 1 / 1000000000000"

definition pack_step ::
  "(price_slot \<Rightarrow> real) \<Rightarrow> real \<Rightarrow> best_window \<Rightarrow> price_slot list \<Rightarrow> best_window" where
  "pack_step price_of max_buy best w =
     (if \<not> buyable_window price_of max_buy w then best
      else (let cost = window_cost price_of w; stop = pr_start (last w); this = Some (starts_of w, cost, stop)
            in case best of
                 None \<Rightarrow> this
               | Some (_, best_cost, best_end) \<Rightarrow>
                   if cost < best_cost - COST_EPS \<or> \<bar>cost - best_cost\<bar> \<le> COST_EPS \<and> best_end < stop
                   then this else best))"

definition best_of :: "(price_slot \<Rightarrow> real) \<Rightarrow> real \<Rightarrow> price_slot list list \<Rightarrow> best_window" where
  "best_of price_of max_buy ws = foldl (pack_step price_of max_buy) None ws"

definition cheapest_buyable :: "(price_slot \<Rightarrow> real) \<Rightarrow> real \<Rightarrow> nat \<Rightarrow> price_slot list \<Rightarrow> price_slot list" where
  "cheapest_buyable price_of max_buy n ps =
     take n (sort_key (\<lambda>p. (price_of p, pr_start p)) (filter (\<lambda>p. price_of p \<le> max_buy) ps))"

definition late_pack_charge_starts ::
  "price_slot list \<Rightarrow> int \<Rightarrow> (price_slot \<Rightarrow> real) \<Rightarrow> real \<Rightarrow> instant set" where
  "late_pack_charge_starts pre_peak n_charge price_of max_buy =
     (if n_charge \<le> 0 \<or> pre_peak = [] then {}
      else case best_of price_of max_buy (windows (nat n_charge) pre_peak) of
             Some (starts, _) \<Rightarrow> starts
           | None \<Rightarrow> starts_of (cheapest_buyable price_of max_buy (nat n_charge) pre_peak))"

text \<open>What the loop knows after a prefix of the windows, when each ends later than the one before.\<close>

definition packed ::
  "(price_slot \<Rightarrow> real) \<Rightarrow> real \<Rightarrow> price_slot list list \<Rightarrow> best_window \<Rightarrow> bool" where
  "packed price_of max_buy ws best =
     (case best of
        None \<Rightarrow> \<forall>w\<in>set ws. \<not> buyable_window price_of max_buy w
      | Some (S, c, e) \<Rightarrow>
          \<exists>w\<in>set ws. buyable_window price_of max_buy w \<and> S = starts_of w \<and> c = window_cost price_of w \<and>
             e = pr_start (last w) \<and>
             (\<forall>u\<in>set ws. buyable_window price_of max_buy u \<longrightarrow>
                c \<le> window_cost price_of u + COST_EPS * real (length ws) \<and>
                (e < pr_start (last u) \<longrightarrow> c + COST_EPS < window_cost price_of u)))"

lemma packed_step:
  assumes "packed price_of max_buy ws best" and "\<forall>u\<in>set ws. pr_start (last u) < pr_start (last w)"
  shows "packed price_of max_buy (ws @ [w]) (pack_step price_of max_buy best w)"
proof -
  let ?c = "window_cost price_of"
  have eps: "0 < COST_EPS" by (simp add: COST_EPS_def)
  have grow: "COST_EPS * real (length (ws @ [w])) = COST_EPS * real (length ws) + COST_EPS"
    by (simp add: distrib_left)
  have pos: "0 \<le> COST_EPS * real (length ws)" using eps by simp
  show ?thesis
  proof (cases "buyable_window price_of max_buy w")
    case False
    then show ?thesis using assms(1) eps unfolding packed_def pack_step_def grow
      by (fastforce split: option.splits)
  next
    case el: True
    show ?thesis
    proof (cases best)
      case None
      then show ?thesis using assms(1) el eps pos unfolding packed_def pack_step_def grow
        by (auto simp: Let_def)
    next
      case (Some b)
      obtain S c e where b: "b = (S, c, e)" by (cases b)
      from assms(1) Some b obtain v where v: "v \<in> set ws" "buyable_window price_of max_buy v" "S = starts_of v"
        "c = ?c v" "e = pr_start (last v)"
        and opt: "\<forall>u\<in>set ws. buyable_window price_of max_buy u \<longrightarrow>
                c \<le> ?c u + COST_EPS * real (length ws) \<and> (e < pr_start (last u) \<longrightarrow> c + COST_EPS < ?c u)"
        by (auto simp: packed_def)
      have e: "e < pr_start (last w)" using v(1,5) assms(2) by blast
      show ?thesis
      proof (cases "?c w < c - COST_EPS \<or> \<bar>?c w - c\<bar> \<le> COST_EPS")
        case True
        then have le: "?c w \<le> c + COST_EPS" using eps by linarith
        have "?c w \<le> ?c u + (COST_EPS * real (length ws) + COST_EPS)"
          if "u \<in> set ws" "buyable_window price_of max_buy u" for u using opt that le by fastforce
        moreover have "pack_step price_of max_buy best w = Some (starts_of w, ?c w, pr_start (last w))"
          using True el Some b e by (auto simp: pack_step_def Let_def)
        ultimately show ?thesis using el assms(2) pos eps unfolding packed_def grow
          by (fastforce simp: not_less_iff_gr_or_eq)
      next
        case False
        then have gt: "c + COST_EPS < ?c w" by linarith
        have "pack_step price_of max_buy best w = best"
          using False el Some b by (simp add: pack_step_def Let_def)
        moreover have "c \<le> ?c u + (COST_EPS * real (length ws) + COST_EPS) \<and>
            (e < pr_start (last u) \<longrightarrow> c + COST_EPS < ?c u)"
          if "u \<in> set (ws @ [w])" "buyable_window price_of max_buy u" for u
        proof (cases "u = w")
          case True
          from gt eps pos have "c \<le> ?c w + (COST_EPS * real (length ws) + COST_EPS)" by linarith
          with gt True show ?thesis by simp
        next
          case False
          with that opt have "c \<le> ?c u + COST_EPS * real (length ws)"
            "e < pr_start (last u) \<longrightarrow> c + COST_EPS < ?c u" by auto
          moreover from this(1) eps have "c \<le> ?c u + (COST_EPS * real (length ws) + COST_EPS)" by linarith
          ultimately show ?thesis by blast
        qed
        ultimately show ?thesis using v Some b unfolding packed_def grow by auto
      qed
    qed
  qed
qed

lemma packed_best_of:
  "sorted_wrt (\<lambda>u w. pr_start (last u) < pr_start (last w)) ws \<Longrightarrow>
     packed price_of max_buy ws (best_of price_of max_buy ws)"
proof (induction ws rule: rev_induct)
  case Nil
  then show ?case by (simp add: packed_def best_of_def)
next
  case (snoc w ws)
  then show ?case using packed_step [of price_of max_buy ws _ w]
    by (simp add: best_of_def sorted_wrt_append)
qed

lemma windows_last:
  assumes "w = take n (drop i ps)" and "0 < n" and "i + n \<le> length ps"
  shows "last w = ps ! (i + n - 1)" "length w = n" "set w \<subseteq> set ps"
proof -
  show "length w = n" using assms by simp
  then show "last w = ps ! (i + n - 1)" using assms by (simp add: last_conv_nth)
  show "set w \<subseteq> set ps" using assms(1) by (meson in_set_dropD in_set_takeD subsetI)
qed

lemma windows_sorted:
  assumes "0 < n" and "sorted_wrt (<) (map pr_start ps)"
  shows "sorted_wrt (\<lambda>u w. pr_start (last u) < pr_start (last w)) (windows n ps)"
proof -
  have "pr_start (last (take n (drop i ps))) < pr_start (last (take n (drop j ps)))"
    if "i < j" "j < length ps + 1 - n" for i j
  proof -
    have "i + n \<le> length ps" "j + n \<le> length ps" "i + n - 1 < j + n - 1" "j + n - 1 < length ps"
      using that assms(1) by linarith+
    then show ?thesis
      using windows_last(1) [OF refl assms(1), of i ps] windows_last(1) [OF refl assms(1), of j ps]
        sorted_wrt_nth_less [OF assms(2), of "i + n - 1" "j + n - 1"] by simp
  qed
  then show ?thesis by (simp add: windows_def sorted_wrt_map sorted_wrt_iff_nth_less)
qed

lemma windows_mem:
  assumes "w \<in> set (windows n ps)" and "0 < n"
  shows "length w = n" "set w \<subseteq> set ps"
proof -
  obtain i where "w = take n (drop i ps)" "i < length ps + 1 - n"
    using assms(1) by (auto simp: windows_def)
  then show "length w = n" "set w \<subseteq> set ps" using windows_last [of w n i ps] assms(2) by simp_all
qed

lemma cheapest_buyable_set:
  "p \<in> set (cheapest_buyable price_of max_buy n ps) \<Longrightarrow> p \<in> set ps \<and> price_of p \<le> max_buy"
  by (auto simp: cheapest_buyable_def dest: in_set_takeD)

text \<open>Only slots worth buying are ever chosen, however the feed is ordered.\<close>

lemma best_of_eligible:
  assumes "best_of price_of max_buy ws = Some (S, c, e)"
  shows "\<exists>w\<in>set ws. buyable_window price_of max_buy w \<and> S = starts_of w"
proof -
  have "foldl (pack_step price_of max_buy) b ws = Some (S, c, e) \<Longrightarrow>
      b = Some (S, c, e) \<or> (\<exists>w\<in>set ws. buyable_window price_of max_buy w \<and> S = starts_of w)" for b
  proof (induction ws arbitrary: b)
    case (Cons w ws)
    from Cons.IH [of "pack_step price_of max_buy b w"] Cons.prems
    show ?case by (auto simp: pack_step_def Let_def split: if_splits option.splits)
  qed simp
  from this [of None] assms show ?thesis by (simp add: best_of_def)
qed

lemma late_pack_buyable:
  assumes "t \<in> late_pack_charge_starts ps n price_of max_buy"
  shows "\<exists>p\<in>set ps. pr_start p = t \<and> price_of p \<le> max_buy"
proof (cases "best_of price_of max_buy (windows (nat n) ps)")
  case None
  with assms show ?thesis
    by (auto simp: late_pack_charge_starts_def starts_of_def dest!: cheapest_buyable_set split: if_splits)
next
  case (Some b)
  obtain S c e where b: "b = (S, c, e)" by (cases b)
  have n: "0 < nat n" using assms by (auto simp: late_pack_charge_starts_def split: if_splits)
  have S: "t \<in> S" using assms Some b by (auto simp: late_pack_charge_starts_def split: if_splits)
  from best_of_eligible [OF Some [unfolded b]] obtain w where
    w: "w \<in> set (windows (nat n) ps)" "buyable_window price_of max_buy w" "S = starts_of w" by blast
  with S obtain p where "p \<in> set w" "pr_start p = t" by (auto simp: starts_of_def)
  with w windows_mem(2) [OF w(1) n] show ?thesis by (auto simp: buyable_window_def list_all_iff)
qed

lemma starts_of_card: "card (starts_of w) \<le> length w"
  unfolding starts_of_def using card_length [of "map pr_start w"] by simp

lemma starts_of_finite [simp]: "finite (starts_of w)"
  by (simp add: starts_of_def)

lemma late_pack_card:
  "finite (late_pack_charge_starts ps n price_of max_buy) \<and>
   int (card (late_pack_charge_starts ps n price_of max_buy)) \<le> max 0 n"
proof (cases "n \<le> 0 \<or> ps = []")
  case True
  then show ?thesis by (auto simp: late_pack_charge_starts_def)
next
  case n: False
  show ?thesis
  proof (cases "best_of price_of max_buy (windows (nat n) ps)")
    case None
    have "length (cheapest_buyable price_of max_buy (nat n) ps) \<le> nat n" by (simp add: cheapest_buyable_def)
    with starts_of_card [of "cheapest_buyable price_of max_buy (nat n) ps"]
    have "int (card (starts_of (cheapest_buyable price_of max_buy (nat n) ps))) \<le> n" using n by linarith
    then show ?thesis using None n by (simp add: late_pack_charge_starts_def)
  next
    case (Some b)
    obtain S c e where b: "b = (S, c, e)" by (cases b)
    from best_of_eligible [OF Some [unfolded b]] obtain w where
      w: "w \<in> set (windows (nat n) ps)" "S = starts_of w" by blast
    have "length w = nat n" using windows_mem(1) [OF w(1)] n by simp
    with starts_of_card [of w] n have "int (card S) \<le> n" unfolding w(2) by linarith
    then show ?thesis using Some b n w(2) by (simp add: late_pack_charge_starts_def)
  qed
qed

text \<open>
  C12. The packer buys where it is cheapest, as late as it can. On a chronological list of slots it never
  chooses a slot above the buy ceiling and never more slots than asked for. If some run of
  \<open>n\<close> consecutive quarter hours is affordable throughout, the choice is such a run, its total
  price is at most that of every other affordable run (up to the code's tie tolerance, which can add up
  once per run compared), and every affordable run that ends later is strictly dearer. Otherwise the
  choice is the \<open>n\<close> cheapest affordable slots.
\<close>

theorem late_pack_is_cheapest:
  assumes n: "0 < n" and sorted: "sorted_wrt (<) (map pr_start ps)"
    and S: "S = late_pack_charge_starts ps (int n) price_of max_buy"
    and ws: "ws = windows n ps"
  shows "(\<forall>t\<in>S. \<exists>p\<in>set ps. pr_start p = t \<and> price_of p \<le> max_buy) \<and> card S \<le> n \<and>
         (if \<exists>w\<in>set ws. buyable_window price_of max_buy w
          then \<exists>w\<in>set ws. buyable_window price_of max_buy w \<and> S = starts_of w \<and>
                 (\<forall>u\<in>set ws. buyable_window price_of max_buy u \<longrightarrow>
                    window_cost price_of w \<le> window_cost price_of u + COST_EPS * real (length ps + 1 - n) \<and>
                    (pr_start (last w) < pr_start (last u) \<longrightarrow>
                       window_cost price_of w + COST_EPS < window_cost price_of u))
          else S = starts_of (cheapest_buyable price_of max_buy n ps))"
proof -
  have buyable: "\<forall>t\<in>S. \<exists>p\<in>set ps. pr_start p = t \<and> price_of p \<le> max_buy"
    using late_pack_buyable S by blast
  have len: "length ws = length ps + 1 - n" by (simp add: ws windows_def)
  have card: "card (starts_of w) \<le> length w" for w
    unfolding starts_of_def using card_length [of "map pr_start w"] by simp
  have best: "packed price_of max_buy ws (best_of price_of max_buy ws)"
    unfolding ws by (rule packed_best_of [OF windows_sorted [OF n sorted]])
  show ?thesis
  proof (cases "best_of price_of max_buy ws")
    case None
    have "S = starts_of (cheapest_buyable price_of max_buy n ps)"
      using None n by (auto simp: S ws late_pack_charge_starts_def starts_of_def cheapest_buyable_def)
    moreover have "length (cheapest_buyable price_of max_buy n ps) \<le> n" by (simp add: cheapest_buyable_def)
    ultimately show ?thesis using best None buyable card [of "cheapest_buyable price_of max_buy n ps"]
      by (auto simp: packed_def)
  next
    case (Some b)
    obtain X c e where b: "b = (X, c, e)" by (cases b)
    have "ps \<noteq> []"
    proof
      assume "ps = []"
      then have "ws = []" using n by (simp add: ws windows_def)
      with Some show False by (simp add: best_of_def)
    qed
    then have SX: "S = X" using Some b n by (simp add: S ws late_pack_charge_starts_def)
    from best Some b obtain w where w: "w \<in> set ws" "buyable_window price_of max_buy w" "X = starts_of w"
      "c = window_cost price_of w" "e = pr_start (last w)"
      and opt: "\<forall>u\<in>set ws. buyable_window price_of max_buy u \<longrightarrow>
             c \<le> window_cost price_of u + COST_EPS * real (length ws) \<and>
             (e < pr_start (last u) \<longrightarrow> c + COST_EPS < window_cost price_of u)"
      by (auto simp: packed_def)
    have "card S \<le> n" using card [of w] windows_mem(1) [of w n ps] w(1,3) n SX ws by simp
    moreover have "\<exists>w\<in>set ws. buyable_window price_of max_buy w \<and> S = starts_of w \<and>
             (\<forall>u\<in>set ws. buyable_window price_of max_buy u \<longrightarrow>
                window_cost price_of w \<le> window_cost price_of u + COST_EPS * real (length ps + 1 - n) \<and>
                (pr_start (last w) < pr_start (last u) \<longrightarrow>
                   window_cost price_of w + COST_EPS < window_cost price_of u))"
      using w opt SX len by metis
    ultimately show ?thesis using buyable w(1,2) by auto
  qed
qed

definition demo_night :: "price_slot list" where
  "demo_night = map (\<lambda>(i, x). \<lparr>pr_start = SLOT * i, pr_eur = x, pr_origin = ''tibber''\<rparr>)
                  [(0, 2/10), (1, 1/10), (2, 1/10), (3, 1/10), (4, 3/10)]"

theorem late_pack_is_cheapest_witness:
  "late_pack_charge_starts demo_night 2 pr_eur (25/100) = {2 * SLOT, 3 * SLOT} \<and>
   card (late_pack_charge_starts demo_night 2 pr_eur (25/100)) \<le> 2"
proof -
  have s: "sorted_wrt (<) (map pr_start demo_night)" by (simp add: demo_night_def)
  have "late_pack_charge_starts demo_night 2 pr_eur (25/100) = {2 * SLOT, 3 * SLOT}"
    by (simp add: late_pack_charge_starts_def best_of_def windows_def upt_rec demo_night_def pack_step_def
          buyable_window_def window_cost_def starts_of_def COST_EPS_def)
  with late_pack_is_cheapest [OF _ s refl refl, of 2 pr_eur "25/100"] show ?thesis by auto
qed

subsection \<open>The buy pool\<close>

definition classify_buy_pool_state :: "int \<Rightarrow> real \<Rightarrow> nat \<Rightarrow> string" where
  "classify_buy_pool_state n_charge shortfall_kwh pool_size =
     (if n_charge \<le> 0 \<or> shortfall_kwh \<le> 1/1000000000 then ''not_needed''
      else if pool_size = 0 then ''empty'' else ''open'')"

text \<open>\<open>min(ps, key=\<dots>)\<close>: the first element with the least key.\<close>

fun first_min :: "('a \<Rightarrow> 'k::linorder) \<Rightarrow> 'a \<Rightarrow> 'a list \<Rightarrow> 'a" where
  "first_min key best [] = best"
| "first_min key best (x # xs) = first_min key (if key x < key best then x else best) xs"

definition build_buy_pool_info ::
  "price_slot list \<Rightarrow> price_slot list \<Rightarrow> int \<Rightarrow> real \<Rightarrow> real \<Rightarrow> (price_slot \<Rightarrow> real) \<Rightarrow> real option \<Rightarrow> real
     \<Rightarrow> buy_pool_info" where
  "build_buy_pool_info pre_peak pool n_charge shortfall_kwh max_buy price_of auto_max_buy resident_cap =
     \<lparr>bp_state = classify_buy_pool_state n_charge shortfall_kwh (length pool),
      bp_max_buy = max_buy,
      bp_cheapest = (case pre_peak of
                       [] \<Rightarrow> None
                     | p # ps \<Rightarrow> (let best = first_min (\<lambda>p. (price_of p, pr_start p)) p ps
                                 in Some \<lparr>ch_start = pr_start best, ch_eur = price_of best\<rparr>)),
      bp_shortfall_kwh = shortfall_kwh,
      bp_next_chance = (if pool = [] then None else Some (Min (starts_of pool))),
      bp_pool_size = length pool,
      bp_auto_max_buy = auto_max_buy,
      bp_resident_cap = resident_cap\<rparr>"

definition resident_cap_limits_pool :: "buy_pool_info \<Rightarrow> bool" where
  "resident_cap_limits_pool info =
     (0 < bp_resident_cap info \<and>
      (case bp_auto_max_buy info of Some auto \<Rightarrow> bp_resident_cap info < auto | None \<Rightarrow> False))"

definition format_empty_buy_summary :: "buy_pool_info \<Rightarrow> message" where
  "format_empty_buy_summary info =
     (let resident = resident_cap_limits_pool info;
          ceiling_phrase = (if resident then [Lit ''jouw limiet EUR'', Fixed 2 (bp_resident_cap info)]
                            else [Lit ''je max-inkoopprijs EUR'', Fixed 2 (bp_max_buy info)])
      in case bp_cheapest info of
           None \<Rightarrow> [Lit ''Geen koopmoment: geen prijsmoment voor de piek ligt onder ''] @ ceiling_phrase
         | Some cs \<Rightarrow> [Lit ''Geen koopmoment: goedkoopste slot EUR'', Fixed 2 (ch_eur cs), Lit '' ('',
                       Clock (ch_start cs), Lit '') ligt boven ''] @ ceiling_phrase)"

lemma first_min_least: "key (first_min key b xs) \<le> key b \<and> (\<forall>x\<in>set xs. key (first_min key b xs) \<le> key x)"
proof (induction xs arbitrary: b)
  case (Cons x xs)
  from Cons.IH [of "if key x < key b then x else b"] show ?case by (auto split: if_splits)
qed simp

end
