(* ===== verification/PlanOverlay.thy ===== *)
theory PlanOverlay
  imports EnergyDomain
begin

section \<open>Plan overlays: the contract of the post-planning passes\<close>

text \<open>
  After a planner has built a plan, several passes rewrite single slots of it: the daily grid-charge
  cap and the cycle budget turn buying and exporting slots into self-consumption, the floor marking
  and the evening reserve turn discharge slots into holds. What the rest of the system relies on is
  that such a pass never moves a slot and never changes an intent other than in its own direction.
  That contract is a locale; each pass is an interpretation of it.
\<close>

definition slot_rewritten ::
  "(battery_intent \<Rightarrow> battery_intent \<Rightarrow> bool) \<Rightarrow> plan_slot \<Rightarrow> plan_slot \<Rightarrow> bool" where
  "slot_rewritten allowed s s' =
     (sl_start s' = sl_start s \<and> sl_end s' = sl_end s \<and> sl_deadline s' = sl_deadline s \<and>
      (s' = s \<or> allowed (sl_intent s) (sl_intent s')))"

lemma rewritten_times:
  assumes "slot_rewritten allowed s s'"
  shows "sl_start s' = sl_start s" "slot_end s' = slot_end s"
    "s' = s \<or> allowed (sl_intent s) (sl_intent s')"
  using assms by (simp_all add: slot_rewritten_def slot_end_def cong: option.case_cong)

locale plan_overlay =
  fixes allowed :: "battery_intent \<Rightarrow> battery_intent \<Rightarrow> bool"
    and apply_to :: "'a \<Rightarrow> plan \<Rightarrow> plan"
  assumes overlay_slots: "list_all2 (slot_rewritten allowed) (pl_slots p) (pl_slots (apply_to x p))"
    and overlay_frame: "pl_created_at (apply_to x p) = pl_created_at p \<and>
          pl_strategy (apply_to x p) = pl_strategy p \<and> pl_target_soc (apply_to x p) = pl_target_soc p \<and>
          pl_deadline (apply_to x p) = pl_deadline p"
begin

lemma slot_count: "length (pl_slots (apply_to x p)) = length (pl_slots p)"
  using list_all2_lengthD [OF overlay_slots [of p x]] by simp

lemma slot_times:
  "map sl_start (pl_slots (apply_to x p)) = map sl_start (pl_slots p) \<and>
   map slot_end (pl_slots (apply_to x p)) = map slot_end (pl_slots p)"
  using overlay_slots [of p x]
  by (induction rule: list_all2_induct) (auto dest: rewritten_times)

lemma covering_rewritten:
  assumes "list_all2 (slot_rewritten allowed) ss ss'"
  shows "(slot_covering ss now = None \<longleftrightarrow> slot_covering ss' now = None) \<and>
         (\<forall>s s'. slot_covering ss now = Some s \<and> slot_covering ss' now = Some s' \<longrightarrow>
            slot_rewritten allowed s s')"
  using assms
proof (induction rule: list_all2_induct)
  case Nil
  then show ?case by simp
next
  case (Cons s ss s' ss')
  note t = rewritten_times [OF Cons.hyps(1)]
  show ?case
  proof (cases "sl_start s \<le> now \<and> now < slot_end s")
    case True
    with Cons.hyps(1) t show ?thesis by simp
  next
    case False
    with Cons.IH t show ?thesis by auto
  qed
qed

text \<open>At every instant the rewritten plan says what the plan said, or a permitted change of it.\<close>

lemma intent_rewritten:
  "(intent_at (apply_to x p) now = None \<longleftrightarrow> intent_at p now = None) \<and>
   (\<forall>s'. intent_at (apply_to x p) now = Some s' \<longrightarrow>
      (\<exists>s. intent_at p now = Some s \<and> (s' = s \<or> allowed (sl_intent s) (sl_intent s'))))"
proof (cases "slot_covering (pl_slots p) now")
  case None
  then show ?thesis using covering_rewritten [OF overlay_slots [of p x], of now]
    by (simp add: intent_at_def)
next
  case (Some s)
  with covering_rewritten [OF overlay_slots [of p x], of now] obtain s' where
    "slot_covering (pl_slots (apply_to x p)) now = Some s'" "slot_rewritten allowed s s'" by auto
  with Some show ?thesis by (auto simp: intent_at_def dest: rewritten_times)
qed

lemma ordered_kept: "slots_ordered (pl_slots p) \<Longrightarrow> slots_ordered (pl_slots (apply_to x p))"
proof -
  have "list_all2 (slot_rewritten allowed) ss ss' \<Longrightarrow> slots_ordered ss \<Longrightarrow> slots_ordered ss'" for ss ss'
  proof (induction ss arbitrary: ss' rule: slots_ordered.induct)
    case 1
    then show ?case by simp
  next
    case (2 s)
    then show ?case by (auto simp: list_all2_Cons1)
  next
    case (3 s t ss)
    then obtain s' t' us where u: "ss' = s' # t' # us" "slot_rewritten allowed s s'"
      "slot_rewritten allowed t t'" "list_all2 (slot_rewritten allowed) ss us"
      by (auto simp: list_all2_Cons1)
    from 3 u have "slots_ordered (t' # us)" by simp
    with 3(3) u(1) rewritten_times [OF u(2)] rewritten_times [OF u(3)] show ?case by simp
  qed
  with overlay_slots [of p x] show "slots_ordered (pl_slots p) \<Longrightarrow> ?thesis" by blast
qed

end

text \<open>A pass that only takes grid-charge and export away.\<close>

definition restricts :: "battery_intent \<Rightarrow> battery_intent \<Rightarrow> bool" where
  "restricts i j = (i \<in> {GRID_CHARGE_TO_TARGET, EXPORT_FOR_PROFIT} \<and> j = ALLOW_SELF_CONSUMPTION)"

locale restrict_only = plan_overlay restricts apply_to for apply_to :: "'a \<Rightarrow> plan \<Rightarrow> plan"
begin

text \<open>Whatever it makes the loop do at any instant is the plan's own intent or self-consumption.\<close>

lemma never_adds:
  "intent_at (apply_to x p) now = Some s' \<Longrightarrow>
     (\<exists>s. intent_at p now = Some s \<and> (sl_intent s' = sl_intent s \<or> sl_intent s' = ALLOW_SELF_CONSUMPTION))"
  using intent_rewritten [of x p now] by (auto simp: restricts_def)

lemma discharge_kept:
  "intent_at p now = Some s \<Longrightarrow> sl_intent s \<notin> {GRID_CHARGE_TO_TARGET, EXPORT_FOR_PROFIT} \<Longrightarrow>
     intent_at (apply_to x p) now = Some s"
  using intent_rewritten [of x p now]
  by (cases "intent_at (apply_to x p) now") (auto simp: restricts_def)

end

text \<open>Two such passes, one after the other, are one again.\<close>

lemma slots_restrict_trans:
  assumes "list_all2 (slot_rewritten restricts) ss ts" and "list_all2 (slot_rewritten restricts) ts us"
  shows "list_all2 (slot_rewritten restricts) ss us"
proof (rule list_all2_trans [OF _ assms])
  show "slot_rewritten restricts a c" if "slot_rewritten restricts a b" "slot_rewritten restricts b c" for a b c
    using that by (auto simp: slot_rewritten_def restricts_def)
qed

lemma restrict_only_compose:
  assumes "restrict_only f" and "restrict_only g"
  shows "restrict_only (\<lambda>x p. g x (f x p))"
proof -
  note f = plan_overlay.overlay_slots [OF restrict_only.axioms [OF assms(1)]]
    plan_overlay.overlay_frame [OF restrict_only.axioms [OF assms(1)]]
  note g = plan_overlay.overlay_slots [OF restrict_only.axioms [OF assms(2)]]
    plan_overlay.overlay_frame [OF restrict_only.axioms [OF assms(2)]]
  show ?thesis by unfold_locales (simp_all add: slots_restrict_trans [OF f(1) g(1)] f(2) g(2))
qed

text \<open>A pass that only turns a discharge into a hold.\<close>

definition holds :: "battery_intent \<Rightarrow> battery_intent \<Rightarrow> bool" where
  "holds i j = (i = DISCHARGE_FOR_LOAD \<and> j = HOLD_RESERVE)"

locale hold_only = plan_overlay holds apply_to for apply_to :: "'a \<Rightarrow> plan \<Rightarrow> plan"
begin

lemma buying_kept:
  "intent_at p now = Some s \<Longrightarrow> sl_intent s \<noteq> DISCHARGE_FOR_LOAD \<Longrightarrow> intent_at (apply_to x p) now = Some s"
  using intent_rewritten [of x p now]
  by (cases "intent_at (apply_to x p) now") (auto simp: holds_def)

lemma holds_not_discharge:
  "intent_at (apply_to x p) now = Some s' \<Longrightarrow> sl_intent s' = DISCHARGE_FOR_LOAD \<Longrightarrow>
     intent_at p now = Some s'"
  using intent_rewritten [of x p now] by (auto simp: holds_def)

end

text \<open>A slot whose intent the pass cannot produce was in the plan already.\<close>

lemma rewritten_kept:
  assumes "list_all2 (slot_rewritten allowed) ss ts" and "t \<in> set ts" and "\<And>i. \<not> allowed i (sl_intent t)"
  shows "t \<in> set ss"
  using assms by (induction rule: list_all2_induct) (auto simp: slot_rewritten_def)

lemma slot_rewritten_refl [simp]: "slot_rewritten allowed s s"
  by (simp add: slot_rewritten_def)

lemma list_all2_rewritten_refl [simp]: "list_all2 (slot_rewritten allowed) ss ss"
  by (induction ss) auto

lemma restricted_slot [simp]:
  "sl_intent s \<in> {GRID_CHARGE_TO_TARGET, EXPORT_FOR_PROFIT} \<Longrightarrow>
     slot_rewritten restricts s (as_self_consumption s r)"
  by (simp add: slot_rewritten_def restricts_def)

end
