(* ===== verification/Horizon.thy ===== *)
theory Horizon
  imports EnergyDomain
begin

section \<open>The planning horizon (\<open>ems/planner/horizon.py\<close>)\<close>

text \<open>
  How many price slots the planners see: the window through the end of the next local day when its
  prices are complete and contiguous, the configured number of slots otherwise. A local midnight is
  built from a calendar date by the zone's wall-to-UTC map \<open>of_wall\<close> (tzdata, a parameter); the
  prices and \<open>now\<close> are aware, so the branches for naive times do not occur.
\<close>

definition DEFAULT_HORIZON_SLOTS :: nat where "DEFAULT_HORIZON_SLOTS = 96"
definition MAX_HORIZON_SLOTS :: int where "MAX_HORIZON_SLOTS = 192"
definition ABSURD_SLOT_COUNT :: nat where "ABSURD_SLOT_COUNT = 400"

definition end_of_next_local_day :: "zone \<Rightarrow> (int \<Rightarrow> instant) \<Rightarrow> instant \<Rightarrow> instant" where
  "end_of_next_local_day tz of_wall now = of_wall (us_day * (local_date tz now + 2))"

text \<open>The loop of \<open>_expected_starts\<close>, with the number of starts collected so far.\<close>

function expected_walk :: "nat \<Rightarrow> instant \<Rightarrow> instant \<Rightarrow> instant list option" where
  "expected_walk n cursor stop =
     (if stop \<le> cursor then Some []
      else if ABSURD_SLOT_COUNT < n + 1 then None
      else map_option (Cons cursor) (expected_walk (n + 1) (cursor + SLOT) stop))"
  by pat_completeness auto
termination by (relation "measure (\<lambda>(n, cursor, stop). nat (stop - cursor))") auto

declare expected_walk.simps [simp del]

definition expected_starts :: "instant \<Rightarrow> instant \<Rightarrow> instant list option" where
  "expected_starts now stop =
     (let first = (if quarter_floor now + SLOT \<le> now then quarter_floor now + SLOT else quarter_floor now)
      in if stop \<le> first then Some [] else expected_walk 0 first stop)"

definition future_prices :: "price_slot list \<Rightarrow> instant \<Rightarrow> price_slot list" where
  "future_prices prices now = filter (\<lambda>p. now < pr_start p + SLOT) prices"

text \<open>\<open>replace(microsecond=0)\<close>.\<close>

definition whole_second :: "instant \<Rightarrow> instant" where
  "whole_second t = us_second * (t div us_second)"

definition window_starts :: "price_slot list \<Rightarrow> instant \<Rightarrow> instant \<Rightarrow> instant list" where
  "window_starts prices now stop =
     filter (\<lambda>t. now < t + SLOT \<and> t < stop) (map (\<lambda>p. whole_second (pr_start p)) prices)"

definition next_local_day_prices_complete ::
  "price_slot list \<Rightarrow> instant \<Rightarrow> zone \<Rightarrow> (int \<Rightarrow> instant) \<Rightarrow> bool" where
  "next_local_day_prices_complete prices now tz of_wall =
     (let stop = end_of_next_local_day tz of_wall now
      in case expected_starts now stop of
           None \<Rightarrow> False
         | Some expected \<Rightarrow> expected \<noteq> [] \<and> window_starts prices now stop = expected)"

definition slice_price_horizon ::
  "price_slot list \<Rightarrow> instant \<Rightarrow> zone \<Rightarrow> (int \<Rightarrow> instant) \<Rightarrow> nat \<Rightarrow> price_slot list" where
  "slice_price_horizon prices now tz of_wall fallback_slots =
     (let future = future_prices prices now
      in if \<not> next_local_day_prices_complete prices now tz of_wall then take fallback_slots future
         else case expected_starts now (end_of_next_local_day tz of_wall now) of
                None \<Rightarrow> take fallback_slots future
              | Some expected \<Rightarrow>
                  if expected = [] then take fallback_slots future
                  else take (min (nat MAX_HORIZON_SLOTS) (length expected)) future)"

lemma expected_walk_starts:
  "expected_walk n cursor stop = Some xs \<Longrightarrow>
     xs = map (\<lambda>i. cursor + SLOT * int i) [0..<length xs] \<and>
     stop \<le> cursor + SLOT * int (length xs) \<and> (xs \<noteq> [] \<longrightarrow> last xs < stop)"
proof (induction n cursor stop arbitrary: xs rule: expected_walk.induct)
  case (1 n cursor stop)
  show ?case
  proof (cases "stop \<le> cursor")
    case True
    with "1.prems" show ?thesis by (simp add: expected_walk.simps)
  next
    case False
    with "1.prems" obtain ys where ys: "expected_walk (n + 1) (cursor + SLOT) stop = Some ys" "xs = cursor # ys"
      and n: "\<not> ABSURD_SLOT_COUNT < n + 1"
      by (auto simp: expected_walk.simps [of n] split: if_splits)
    note ih = "1.IH" [OF False n ys(1)]
    have "map (\<lambda>i. cursor + SLOT * int i) [0..<length xs] =
          cursor # map (\<lambda>i. cursor + SLOT * int (Suc i)) [0..<length ys]"
      unfolding ys(2) by (simp add: upt_conv_Cons map_Suc_upt [symmetric] del: upt_Suc)
    also have "map (\<lambda>i. cursor + SLOT * int (Suc i)) [0..<length ys] = ys"
      using ih by (simp add: algebra_simps)
    finally have "xs = map (\<lambda>i. cursor + SLOT * int i) [0..<length xs]" by (simp add: ys(2))
    moreover have "stop \<le> cursor + SLOT * int (length xs)" using ih by (simp add: ys(2) algebra_simps)
    moreover have "last xs < stop" using False ih by (simp add: ys(2))
    ultimately show ?thesis by blast
  qed
qed

text \<open>The number of quarter hours from an instant to another, and what the loop makes of them.\<close>

definition quarters_to :: "instant \<Rightarrow> instant \<Rightarrow> nat" where
  "quarters_to cursor stop = nat (- ((cursor - stop) div SLOT))"

lemma quarters_to_step:
  "stop \<le> cursor \<Longrightarrow> quarters_to cursor stop = 0"
  "cursor < stop \<Longrightarrow> quarters_to cursor stop = Suc (quarters_to (cursor + SLOT) stop)"
proof -
  show "stop \<le> cursor \<Longrightarrow> quarters_to cursor stop = 0"
    using pos_imp_zdiv_nonneg_iff [of SLOT "cursor - stop"] by (simp add: quarters_to_def)
  assume "cursor < stop"
  then have "(cursor - stop) div SLOT < 0" using pos_imp_zdiv_neg_iff [of SLOT "cursor - stop"] by simp
  moreover have "(cursor + SLOT - stop) div SLOT = (cursor - stop) div SLOT + 1"
    using div_add_self2 [of SLOT "cursor - stop"] by (simp add: algebra_simps)
  ultimately show "quarters_to cursor stop = Suc (quarters_to (cursor + SLOT) stop)"
    by (simp add: quarters_to_def)
qed

lemma expected_walk_eq:
  "n \<le> ABSURD_SLOT_COUNT \<Longrightarrow> expected_walk n cursor stop =
     (if n + quarters_to cursor stop \<le> ABSURD_SLOT_COUNT
      then Some (map (\<lambda>i. cursor + SLOT * int i) [0..<quarters_to cursor stop]) else None)"
proof (induction n cursor stop rule: expected_walk.induct)
  case (1 n cursor stop)
  show ?case
  proof (cases "stop \<le> cursor")
    case True
    then show ?thesis using 1(2) by (simp add: expected_walk.simps quarters_to_step(1))
  next
    case False
    have shift: "map (\<lambda>i. c + SLOT * int i) [0..<Suc k] = c # map (\<lambda>i. c + SLOT + SLOT * int i) [0..<k]" for c k
      by (simp add: upt_conv_Cons map_Suc_upt [symmetric] o_def algebra_simps del: upt_Suc)
    show ?thesis
      using 1 False quarters_to_step(2) [of cursor stop] shift [of cursor "quarters_to (cursor + SLOT) stop"]
      by (subst expected_walk.simps) (auto simp del: upt_Suc)
  qed
qed

text \<open>
  The same loop with its list of starts and a bound on its turns: \<open>None\<close> when the turns run out, otherwise
  what the function returns. It says how often the body runs.
\<close>

fun expected_turns :: "nat \<Rightarrow> instant list \<Rightarrow> instant \<Rightarrow> instant \<Rightarrow> instant list option option" where
  "expected_turns 0 starts cursor stop = (if cursor < stop then None else Some (Some starts))"
| "expected_turns (Suc k) starts cursor stop =
     (if \<not> cursor < stop then Some (Some starts)
      else let starts = starts @ [cursor]; cursor = cursor + SLOT
           in if ABSURD_SLOT_COUNT < length starts then Some None
              else expected_turns k starts cursor stop)"

lemma expected_turns_eq:
  "length starts \<le> ABSURD_SLOT_COUNT \<Longrightarrow> expected_turns k starts cursor stop =
     (if min (Suc ABSURD_SLOT_COUNT - length starts) (quarters_to cursor stop) \<le> k
      then Some (map_option ((@) starts) (expected_walk (length starts) cursor stop)) else None)"
proof (induction k arbitrary: starts cursor)
  case 0
  then show ?case
    using quarters_to_step(1) [of stop cursor] quarters_to_step(2) [of cursor stop]
    by (auto simp: expected_walk.simps)
next
  case (Suc k)
  show ?case
  proof (cases "stop \<le> cursor")
    case True
    then show ?thesis by (simp add: quarters_to_step expected_walk.simps)
  next
    case False
    then have q: "quarters_to cursor stop = Suc (quarters_to (cursor + SLOT) stop)"
      by (intro quarters_to_step) simp
    have walk: "expected_walk (length starts) cursor stop =
        (if ABSURD_SLOT_COUNT < Suc (length starts) then None
         else map_option (Cons cursor) (expected_walk (Suc (length starts)) (cursor + SLOT) stop))"
      using False by (subst expected_walk.simps) simp
    show ?thesis
    proof (cases "ABSURD_SLOT_COUNT < Suc (length starts)")
      case True
      with False Suc.prems show ?thesis by (simp add: walk)
    next
      case more_room: False
      have "(@) (starts @ [cursor]) = (\<lambda>xs. starts @ cursor # xs)" by (rule ext) simp
      with Suc.IH [of "starts @ [cursor]" "cursor + SLOT"] more_room False
      show ?thesis by (auto simp: walk q Let_def option.map_comp o_def)
    qed
  qed
qed

text \<open>
  C13. The loop that lists the quarter hours of the horizon ends for every instant, every zone and every end of
  day. It lists exactly the quarter hours from the one that contains now up to the end, and gives up exactly
  when there are more than 400 of them. Its body runs once per quarter hour and never more than 401 times:
  with that many turns it returns, with fewer it has not returned yet.
\<close>

theorem horizon_loop_ends:
  "let n = quarters_to (quarter_floor now) stop
   in expected_starts now stop =
        (if n \<le> ABSURD_SLOT_COUNT then Some (map (\<lambda>i. quarter_floor now + SLOT * int i) [0..<n]) else None) \<and>
      expected_turns k [] (quarter_floor now) stop =
        (if min 401 n \<le> k then Some (expected_starts now stop) else None)"
proof -
  have q: "\<not> quarter_floor now + SLOT \<le> now" using quarter_floor_gt [of now] by simp
  have walk: "expected_starts now stop = expected_walk 0 (quarter_floor now) stop"
    using q by (simp add: expected_starts_def Let_def expected_walk.simps [of 0])
  have "map_option ((@) []) x = x" for x :: "instant list option" by (cases x) simp_all
  then have "expected_turns k [] (quarter_floor now) stop =
      (if min (Suc ABSURD_SLOT_COUNT) (quarters_to (quarter_floor now) stop) \<le> k
       then Some (expected_starts now stop) else None)"
    unfolding walk by (subst expected_turns_eq) simp_all
  then show ?thesis
    unfolding Let_def walk using expected_walk_eq [of 0 "quarter_floor now" stop]
    by (simp add: ABSURD_SLOT_COUNT_def)
qed

lemma expected_starts_grid:
  assumes "expected_starts now stop = Some xs" and "xs \<noteq> []"
  shows "xs = map (\<lambda>i. quarter_floor now + SLOT * int i) [0..<length xs]"
    and "stop \<le> quarter_floor now + SLOT * int (length xs)" and "last xs < stop"
proof -
  have q: "\<not> quarter_floor now + SLOT \<le> now" using quarter_floor_gt [of now] by simp
  from assms q have "expected_walk 0 (quarter_floor now) stop = Some xs"
    by (auto simp: expected_starts_def Let_def split: if_splits)
  from expected_walk_starts [OF this] assms(2)
  show "xs = map (\<lambda>i. quarter_floor now + SLOT * int i) [0..<length xs]"
    and "stop \<le> quarter_floor now + SLOT * int (length xs)" and "last xs < stop" by blast+
qed

text \<open>On a chronological feed the window is a prefix of the future prices.\<close>

lemma filter_prefix:
  "sorted_wrt (\<lambda>a b. a \<le> b) (map f xs) \<Longrightarrow> filter (\<lambda>x. f x < (stop::int)) xs = takeWhile (\<lambda>x. f x < stop) xs"
proof (induction xs)
  case (Cons x xs)
  have "filter (\<lambda>y. f y < stop) xs = []" if "\<not> f x < stop"
    using that Cons.prems by (auto simp: filter_empty_conv)
  with Cons show ?case by (cases "f x < stop") auto
qed simp

lemma takeWhile_take: "takeWhile P xs = take (length (takeWhile P xs)) xs"
  by (metis append_eq_conv_conj takeWhile_dropWhile_id)

text \<open>The kept slots are a prefix of the slots that are not over.\<close>

lemma slice_prefix:
  "\<exists>k. slice_price_horizon prices now tz w n = take k (filter (\<lambda>p. now < pr_start p + SLOT) prices)"
  by (auto simp: slice_price_horizon_def future_prices_def Let_def split: option.splits)

lemma slice_subset: "set (slice_price_horizon prices now tz w n) \<subseteq> set prices"
proof -
  obtain k where "slice_price_horizon prices now tz w n = take k (filter (\<lambda>p. now < pr_start p + SLOT) prices)"
    using slice_prefix by blast
  then show ?thesis by (metis filter_is_subset order_trans set_take_subset)
qed

lemma slice_distinct:
  assumes "distinct (map pr_start prices)"
  shows "distinct (map pr_start (slice_price_horizon prices now tz w n))"
proof -
  obtain k where "slice_price_horizon prices now tz w n = take k (filter (\<lambda>p. now < pr_start p + SLOT) prices)"
    using slice_prefix by blast
  with assms show ?thesis by (simp add: take_map [symmetric] distinct_map_filter)
qed

text \<open>
  A complete horizon has no holes. On a chronological price feed with whole-second starts whose next
  local day is complete, the planners see, slot for slot, consecutive quarter hours from the one that
  contains \<open>now\<close>; there are at most 192 of them; and unless that bound cuts them short, they reach the
  end of the next local day. Otherwise they see at most the configured number of slots, and in both
  cases a prefix of the slots that are not over yet.
\<close>

theorem horizon_is_contiguous:
  assumes sorted: "sorted_wrt (\<lambda>a b. a \<le> b) (map pr_start prices)"
    and whole: "\<forall>p\<in>set prices. whole_second (pr_start p) = pr_start p"
    and hz: "hz = slice_price_horizon prices now tz of_wall fallback"
  shows "(if next_local_day_prices_complete prices now tz of_wall
          then map pr_start hz = map (\<lambda>i. quarter_floor now + SLOT * int i) [0..<length hz] \<and>
               0 < length hz \<and> length hz \<le> 192 \<and>
               (length hz < 192 \<longrightarrow>
                  end_of_next_local_day tz of_wall now \<le> quarter_floor now + SLOT * int (length hz))
          else length hz \<le> fallback) \<and>
         (\<exists>n. hz = take n (filter (\<lambda>p. now < pr_start p + SLOT) prices))"
proof (cases "next_local_day_prices_complete prices now tz of_wall")
  case False
  then show ?thesis by (auto simp: hz slice_price_horizon_def future_prices_def)
next
  case True
  let ?stop = "end_of_next_local_day tz of_wall now"
  let ?future = "future_prices prices now"
  obtain xs where xs: "expected_starts now ?stop = Some xs" "xs \<noteq> []" "window_starts prices now ?stop = xs"
    using True by (auto simp: next_local_day_prices_complete_def Let_def split: option.splits)
  have hz': "hz = take (min (nat MAX_HORIZON_SLOTS) (length xs)) ?future"
    using True xs by (simp add: hz slice_price_horizon_def)
  have st: "map (\<lambda>p. whole_second (pr_start p)) prices = map pr_start prices" using whole by simp
  have "window_starts prices now ?stop = map pr_start (filter (\<lambda>p. pr_start p < ?stop) ?future)"
    unfolding window_starts_def st by (simp add: filter_map comp_def future_prices_def conj_commute)
  also have "filter (\<lambda>p. pr_start p < ?stop) ?future = takeWhile (\<lambda>p. pr_start p < ?stop) ?future"
  proof (rule filter_prefix)
    show "sorted_wrt (\<lambda>a b. a \<le> b) (map pr_start ?future)"
      using sorted unfolding future_prices_def by (simp add: sorted_wrt_map sorted_wrt_filter)
  qed
  finally have tw: "map pr_start (takeWhile (\<lambda>p. pr_start p < ?stop) ?future) = xs" using xs(3) by simp
  then have "length (takeWhile (\<lambda>p. pr_start p < ?stop) ?future) = length xs" by (metis length_map)
  with takeWhile_take [of "\<lambda>p. pr_start p < ?stop" ?future] tw
  have pre: "map pr_start (take (length xs) ?future) = xs" by simp
  then have len: "length xs \<le> length ?future" by (metis length_map length_take min.cobounded1)
  have starts: "map pr_start hz = take (min (nat MAX_HORIZON_SLOTS) (length xs)) xs"
    unfolding hz' using pre by (metis min.cobounded2 take_map take_take min.absorb1)
  have lhz: "length hz = min (nat MAX_HORIZON_SLOTS) (length xs)" using len by (simp add: hz')
  note grid = expected_starts_grid [OF xs(1,2)]
  have "map pr_start hz = map (\<lambda>i. quarter_floor now + SLOT * int i) (take (length hz) [0..<length xs])"
    unfolding starts lhz by (subst grid(1)) (simp add: take_map)
  also have "take (length hz) [0..<length xs] = [0..<length hz]" using lhz by (simp add: take_upt)
  finally have "map pr_start hz = map (\<lambda>i. quarter_floor now + SLOT * int i) [0..<length hz]" .
  moreover have "0 < length hz" using lhz xs(2) by (simp add: MAX_HORIZON_SLOTS_def)
  moreover have "?stop \<le> quarter_floor now + SLOT * int (length hz)" if "length hz < 192"
    using grid(2) that lhz by (simp add: MAX_HORIZON_SLOTS_def)
  ultimately show ?thesis using True lhz
    by (auto simp: hz' future_prices_def MAX_HORIZON_SLOTS_def)
qed

text \<open>Half an hour before the end of a (very short) next local day, with its two slots known.\<close>

definition demo_feed :: "price_slot list" where
  "demo_feed = map (\<lambda>i. \<lparr>pr_start = SLOT * i, pr_eur = 1/10, pr_origin = ''tibber''\<rparr>) [0, 1, 2, 3]"

theorem horizon_is_contiguous_witness:
  "map pr_start (slice_price_horizon demo_feed 900000005 utc (\<lambda>_. 2700000000) 96) = [SLOT, 1800000000]"
proof -
  let ?hz = "slice_price_horizon demo_feed 900000005 utc (\<lambda>_. 2700000000) 96"
  have q: "quarter_floor 900000005 = 900000000" by (simp add: quarter_floor_def)
  have stop: "end_of_next_local_day utc (\<lambda>_. 2700000000) 900000005 = 2700000000"
    by (simp add: end_of_next_local_day_def)
  have ex: "expected_starts 900000005 (2700000000) = Some [SLOT, 1800000000]"
    unfolding expected_starts_def q by (simp add: expected_walk.simps ABSURD_SLOT_COUNT_def Let_def)
  have c: "next_local_day_prices_complete demo_feed 900000005 utc (\<lambda>_. 2700000000)"
    by (simp add: next_local_day_prices_complete_def stop ex window_starts_def demo_feed_def whole_second_def)
  have h: "length ?hz = 2"
    using c by (simp add: slice_price_horizon_def stop ex future_prices_def demo_feed_def MAX_HORIZON_SLOTS_def)
  have "map pr_start ?hz = map (\<lambda>i. quarter_floor 900000005 + SLOT * int i) [0..<length ?hz]"
    using horizon_is_contiguous [OF _ _ refl, of demo_feed 900000005 utc "\<lambda>_. 2700000000" 96] c
    by (simp add: demo_feed_def whole_second_def)
  then show ?thesis unfolding h q by (simp add: upt_rec)
qed

end
