(* ===== verification/Economics.thy ===== *)
theory Economics
  imports PlanOverlay Horizon
begin

section \<open>Energy economics\<close>

text \<open>
  \<open>ems/tariffs.py\<close> (what a raw price costs to import and earns on export), \<open>ems/economics.py\<close> (the
  cost of a delivered kWh and its inverse), \<open>ems/savings.py\<close> (the projected savings of a plan) and
  \<open>ems/planner/economics.py\<close> (break-even, buy ceiling, feed-in value, the daily savings floor). A
  price is a real number, so the finiteness checks of the code cannot fail.
\<close>

subsection \<open>Tariffs\<close>

record tariff_policy =
  tp_includes_all_fees :: bool
  tp_import_fee :: real
  tp_export_fee :: real

definition default_policy :: tariff_policy where
  "default_policy = \<lparr>tp_includes_all_fees = False, tp_import_fee = 0, tp_export_fee = 0\<rparr>"

record tariff_value =
  tv_raw :: real
  tv_import :: real
  tv_export :: real

definition normalize_price :: "tariff_policy \<Rightarrow> real \<Rightarrow> tariff_value" where
  "normalize_price p raw =
     \<lparr>tv_raw = raw,
      tv_import = (if tp_includes_all_fees p then raw else raw + tp_import_fee p),
      tv_export = raw - tp_export_fee p\<rparr>"

subsection \<open>\<open>EconomicSnapshot\<close>\<close>

record economic_snapshot =
  es_import :: real
  es_export :: real
  es_rte :: real
  es_degradation :: real
  es_risk :: real
  es_export_model :: string
  es_energy_tax :: real
  es_fixed_feed_in :: real
  es_raw :: "real option"
  es_import_fee :: real
  es_export_fee :: real

text \<open>\<open>EconomicSnapshot(import_price, export_price, \<dots>)\<close> with the other fields at their defaults.\<close>

definition snapshot0 :: "real \<Rightarrow> real \<Rightarrow> real \<Rightarrow> real \<Rightarrow> real \<Rightarrow> economic_snapshot" where
  "snapshot0 imp ex rte deg risk =
     \<lparr>es_import = imp, es_export = ex, es_rte = rte, es_degradation = deg, es_risk = risk,
      es_export_model = ''net_metering'', es_energy_tax = 13/100, es_fixed_feed_in = 1/100,
      es_raw = None, es_import_fee = 0, es_export_fee = 0\<rparr>"

definition from_tariff_policy ::
  "tariff_policy \<Rightarrow> real \<Rightarrow> real \<Rightarrow> real \<Rightarrow> real \<Rightarrow> string \<Rightarrow> real \<Rightarrow> real \<Rightarrow> economic_snapshot" where
  "from_tariff_policy p raw rte deg risk model tax feed_in =
     (let v = normalize_price p raw
      in \<lparr>es_import = tv_import v, es_export = tv_export v, es_rte = rte, es_degradation = deg,
          es_risk = risk, es_export_model = model, es_energy_tax = tax, es_fixed_feed_in = feed_in,
          es_raw = Some raw, es_import_fee = tp_import_fee p, es_export_fee = tp_export_fee p\<rparr>)"

definition efficiency_of :: "real \<Rightarrow> real" where
  "efficiency_of rte = max (1/1000000) (min 1 rte)"

lemma efficiency_bounds [simp]: "0 < efficiency_of r" "efficiency_of r \<le> 1" "efficiency_of r \<noteq> 0"
  by (simp_all add: efficiency_of_def)

definition delivered_energy_cost :: "economic_snapshot \<Rightarrow> real option \<Rightarrow> real" where
  "delivered_energy_cost e charge_price =
     opt_else charge_price (es_import e) / efficiency_of (es_rte e) + es_degradation e + es_risk e"

definition export_credit :: "economic_snapshot \<Rightarrow> real option \<Rightarrow> real" where
  "export_credit e price =
     (let p = (case price of None \<Rightarrow> es_export e | Some x \<Rightarrow> x - es_export_fee e)
      in if es_export_model e = ''spot_minus_tax'' then p - es_energy_tax e
         else if es_export_model e = ''fixed'' then es_fixed_feed_in e - es_export_fee e
         else p)"

definition net_benefit :: "economic_snapshot \<Rightarrow> real \<Rightarrow> real \<Rightarrow> real option \<Rightarrow> real" where
  "net_benefit e discharge_price energy_kwh charge_price =
     (discharge_price - delivered_energy_cost e charge_price) * energy_kwh"

definition break_even_import_price :: "economic_snapshot \<Rightarrow> real option \<Rightarrow> real" where
  "break_even_import_price e discharge_price =
     (opt_else discharge_price (export_credit e None) - es_degradation e - es_risk e)
       * efficiency_of (es_rte e)"

subsection \<open>The planners' helpers\<close>

definition breakeven :: "real \<Rightarrow> real \<Rightarrow> real \<Rightarrow> real \<Rightarrow> real" where
  "breakeven charge_price rte deg risk =
     delivered_energy_cost (snapshot0 charge_price charge_price rte deg risk) None"

definition max_buy_for_peak :: "real \<Rightarrow> real \<Rightarrow> real \<Rightarrow> real \<Rightarrow> real" where
  "max_buy_for_peak peak rte deg risk =
     break_even_import_price (snapshot0 peak peak rte deg risk) (Some peak)"

definition apply_max_buy_cap :: "real \<Rightarrow> real \<Rightarrow> real" where
  "apply_max_buy_cap auto cap = (if cap \<le> 0 then auto else min auto cap)"

definition export_value :: "real \<Rightarrow> string \<Rightarrow> real \<Rightarrow> real \<Rightarrow> real" where
  "export_value price model tax feed_in =
     export_credit \<lparr>es_import = price, es_export = price, es_rte = 9/10, es_degradation = 5/100,
       es_risk = 2/100, es_export_model = model, es_energy_tax = tax, es_fixed_feed_in = feed_in,
       es_raw = Some price, es_import_fee = 0, es_export_fee = 0\<rparr> None"

lemma breakeven_eq: "breakeven c rte deg risk = c / efficiency_of rte + deg + risk"
  by (simp add: breakeven_def delivered_energy_cost_def snapshot0_def)

lemma max_buy_eq: "max_buy_for_peak p rte deg risk = (p - deg - risk) * efficiency_of rte"
  by (simp add: max_buy_for_peak_def break_even_import_price_def snapshot0_def)

lemma breakeven_le_iff: "breakeven c rte deg risk \<le> p \<longleftrightarrow> c \<le> max_buy_for_peak p rte deg risk"
proof -
  have "breakeven c rte deg risk \<le> p \<longleftrightarrow> c / efficiency_of rte \<le> p - deg - risk"
    unfolding breakeven_eq by linarith
  also have "\<dots> \<longleftrightarrow> c \<le> (p - deg - risk) * efficiency_of rte"
    by (rule pos_divide_le_eq) simp
  finally show ?thesis unfolding max_buy_eq .
qed

lemma breakeven_mono: "a \<le> b \<Longrightarrow> breakeven a rte deg risk \<le> breakeven b rte deg risk"
  by (simp add: breakeven_eq divide_right_mono less_imp_le)

text \<open>
  The buy ceiling is exactly the break-even: a charge price is at or below the ceiling for a peak
  if and only if a kWh bought at it, after round-trip losses, wear and risk, costs no more than the
  peak; the ceiling of the break-even price of a charge is that charge price; and the resident's cap
  can only lower the ceiling, so a slot bought under the cap still pays.
\<close>

theorem buy_ceiling_is_break_even:
  "(c \<le> max_buy_for_peak peak rte deg risk \<longleftrightarrow> breakeven c rte deg risk \<le> peak) \<and>
   max_buy_for_peak (breakeven c rte deg risk) rte deg risk = c \<and>
   (c \<le> apply_max_buy_cap (max_buy_for_peak peak rte deg risk) cap \<longrightarrow> breakeven c rte deg risk \<le> peak)"
proof -
  have "max_buy_for_peak (breakeven c rte deg risk) rte deg risk = c"
    by (simp add: max_buy_eq breakeven_eq)
  then show ?thesis by (auto simp: breakeven_le_iff apply_max_buy_cap_def split: if_splits)
qed

theorem buy_ceiling_is_break_even_witness:
  "breakeven (10/100) (9/10) (5/100) (2/100) \<le> 30/100"
proof -
  have "10/100 \<le> apply_max_buy_cap (max_buy_for_peak (30/100) (9/10) (5/100) (2/100)) (15/100)"
    by (simp add: apply_max_buy_cap_def max_buy_eq efficiency_of_def)
  with buy_ceiling_is_break_even [of "10/100" "30/100" "9/10" "5/100" "2/100" "15/100"]
  show ?thesis by blast
qed

subsection \<open>Projected savings\<close>

definition price_map :: "price_slot list \<Rightarrow> (instant \<rightharpoonup> real)" where
  "price_map ps = fold (\<lambda>p m. m(pr_start p \<mapsto> pr_eur p)) ps Map.empty"

definition import_price_at :: "tariff_policy \<Rightarrow> (instant \<rightharpoonup> real) \<Rightarrow> plan_slot \<Rightarrow> real option" where
  "import_price_at policy price_by s =
     map_option (\<lambda>raw. tv_import (normalize_price policy raw)) (price_by (sl_start s))"

definition charge_prices :: "tariff_policy \<Rightarrow> (instant \<rightharpoonup> real) \<Rightarrow> plan_slot list \<Rightarrow> real list" where
  "charge_prices policy price_by ss =
     List.map_filter (\<lambda>s. if sl_intent s = GRID_CHARGE_TO_TARGET then import_price_at policy price_by s else None) ss"

fun savings_total :: "tariff_policy \<Rightarrow> (instant \<rightharpoonup> real) \<Rightarrow> real \<Rightarrow> real \<Rightarrow> plan_slot list \<Rightarrow> real" where
  "savings_total policy price_by cost energy [] = 0"
| "savings_total policy price_by cost energy (s # ss) =
     (case import_price_at policy price_by s of
        Some p \<Rightarrow> if sl_intent s = DISCHARGE_FOR_LOAD \<and> 0 < p - cost then (p - cost) * energy else 0
      | None \<Rightarrow> 0) + savings_total policy price_by cost energy ss"

definition estimate_daily_savings_eur ::
  "plan \<Rightarrow> (instant \<rightharpoonup> real) \<Rightarrow> real \<Rightarrow> real \<Rightarrow> real \<Rightarrow> real \<Rightarrow> tariff_policy \<Rightarrow> real" where
  "estimate_daily_savings_eur p price_by rte discharge_kw deg risk policy =
     (let cs = charge_prices policy price_by (pl_slots p)
      in if cs = [] then 0
         else (let cost = delivered_energy_cost (snapshot0 (Max (set cs)) (Max (set cs)) rte deg risk) None
               in py_round (savings_total policy price_by cost (discharge_kw * (1/4)) (pl_slots p)) 2))"

lemma savings_total_mono:
  "a \<le> b \<Longrightarrow> 0 \<le> e \<Longrightarrow> savings_total policy price_by b e ss \<le> savings_total policy price_by a e ss"
proof (induction ss)
  case (Cons s ss)
  have "(x - b) * e \<le> (x - a) * e" for x using Cons.prems by (intro mult_right_mono) simp_all
  moreover have "0 \<le> (x - a) * e" if "a < x" for x using that Cons.prems by simp
  ultimately show ?case using Cons by (auto split: option.split intro: add_mono add_increasing)
qed simp

lemma savings_total_nonneg: "0 \<le> e \<Longrightarrow> 0 \<le> savings_total policy price_by cost e ss"
  by (induction ss) (auto split: option.splits)

lemma py_round_error: "py_round x 2 \<le> x + 1/200"
proof -
  have "of_int (py_round0 (x * 100)) \<le> x * 100 + 1/2" using py_round0_error [of "x * 100"] by linarith
  then show ?thesis by (simp add: py_round_def)
qed

text \<open>
  The savings figure never overclaims: for every grid-charge slot of the plan with a known price, it
  is at most what the plan's discharge slots would save if all their energy had been bought in that
  one slot, plus half a cent of rounding.
\<close>

theorem savings_is_lower_bound:
  assumes "c \<in> set (charge_prices policy price_by (pl_slots p))" and "0 \<le> discharge_kw"
  shows "estimate_daily_savings_eur p price_by rte discharge_kw deg risk policy
           \<le> savings_total policy price_by (breakeven c rte deg risk) (discharge_kw * (1/4)) (pl_slots p) + 1/200"
proof -
  let ?cs = "charge_prices policy price_by (pl_slots p)"
  let ?cost = "breakeven (Max (set ?cs)) rte deg risk"
  have "c \<le> Max (set ?cs)" using assms(1) by simp
  then have "savings_total policy price_by ?cost (discharge_kw * (1/4)) (pl_slots p) \<le>
      savings_total policy price_by (breakeven c rte deg risk) (discharge_kw * (1/4)) (pl_slots p)"
    using assms(2) by (intro savings_total_mono breakeven_mono) simp_all
  moreover have "?cs \<noteq> []" using assms(1) by auto
  ultimately show ?thesis
    using py_round_error [of "savings_total policy price_by ?cost (discharge_kw * (1/4)) (pl_slots p)"]
    unfolding estimate_daily_savings_eur_def Let_def breakeven_def by simp
qed

definition demo_prices :: "price_slot list" where
  "demo_prices = [\<lparr>pr_start = 0, pr_eur = 1/10, pr_origin = ''tibber''\<rparr>,
                  \<lparr>pr_start = SLOT, pr_eur = 5/10, pr_origin = ''tibber''\<rparr>]"

definition demo_arbitrage :: plan where
  "demo_arbitrage = plan0 0 [plan_slot0 0 GRID_CHARGE_TO_TARGET [], plan_slot0 SLOT DISCHARGE_FOR_LOAD []]"

lemma demo_price_map: "price_map demo_prices = [0 \<mapsto> 1/10, SLOT \<mapsto> 5/10]"
  by (simp add: price_map_def demo_prices_def)

lemma demo_horizon: "slice_price_horizon demo_prices 0 utc (\<lambda>_. 0) 96 = demo_prices"
  by (simp add: slice_price_horizon_def next_local_day_prices_complete_def end_of_next_local_day_def
        expected_starts_def quarter_floor_def future_prices_def demo_prices_def)

theorem savings_is_lower_bound_witness:
  "estimate_daily_savings_eur demo_arbitrage (price_map demo_prices) 1 4 0 0 default_policy \<le> 4/10 + 1/200"
proof -
  have c: "1/10 \<in> set (charge_prices default_policy (price_map demo_prices) (pl_slots demo_arbitrage))"
    by (simp add: charge_prices_def map_filter_simps demo_arbitrage_def plan0_def plan_slot0_def
          import_price_at_def demo_price_map normalize_price_def default_policy_def)
  have "savings_total default_policy (price_map demo_prices) (breakeven (1/10) 1 0 0) (4 * (1/4))
          (pl_slots demo_arbitrage) = 4/10"
    by (simp add: demo_arbitrage_def plan0_def plan_slot0_def import_price_at_def demo_price_map
          normalize_price_def default_policy_def breakeven_eq efficiency_of_def)
  with savings_is_lower_bound [OF c, of 4 1 0 0] show ?thesis by simp
qed

subsection \<open>The daily savings floor\<close>

definition slot_trade_kwh :: "plan_slot \<Rightarrow> real" where
  "slot_trade_kwh s =
     (case sl_target_kwh s of
        Some k \<Rightarrow> if 0 < k then k
                  else (case sl_power_w s of Some w \<Rightarrow> if 0 < w then w * (1/4) / 1000 else 0 | None \<Rightarrow> 0)
      | None \<Rightarrow> (case sl_power_w s of Some w \<Rightarrow> if 0 < w then w * (1/4) / 1000 else 0 | None \<Rightarrow> 0))"

definition export_net_eur ::
  "plan \<Rightarrow> (instant \<rightharpoonup> real) \<Rightarrow> real \<Rightarrow> real \<Rightarrow> real \<Rightarrow> real \<Rightarrow> real option" where
  "export_net_eur p price_by rte deg risk import_fee =
     (let ex = filter (\<lambda>s. sl_intent s = EXPORT_FOR_PROFIT) (pl_slots p);
          price = (\<lambda>s. map_get price_by (sl_start s) 0)
      in if ex = [] then Some 0
         else if list_ex (\<lambda>s. price_by (sl_start s) = None) ex then None
         else
           (let ch = filter (\<lambda>s. sl_intent s = GRID_CHARGE_TO_TARGET \<and> price_by (sl_start s) \<noteq> None) (pl_slots p);
                charge_price = (if ch \<noteq> [] then Max ((\<lambda>s. price s + import_fee) ` set ch)
                                else Min ((\<lambda>s. price s + import_fee) ` set ex));
                be = breakeven charge_price rte deg risk
            in Some (sum_list (map (\<lambda>s. (price s - be) * slot_trade_kwh s) ex))))"

definition actionable :: "battery_intent \<Rightarrow> bool" where
  "actionable i = (i \<in> {GRID_CHARGE_TO_TARGET, DISCHARGE_FOR_LOAD, EXPORT_FOR_PROFIT})"

definition estimate_plan_savings ::
  "plan option \<Rightarrow> price_slot list \<Rightarrow> real \<Rightarrow> real \<Rightarrow> real \<Rightarrow> real \<Rightarrow> real option" where
  "estimate_plan_savings plan prices rte deg risk import_fee =
     (case plan of
        None \<Rightarrow> None
      | Some p \<Rightarrow>
          if pl_slots p = [] \<or> prices = [] then None
          else
            (let price_by = price_map prices
             in if list_ex (\<lambda>s. actionable (sl_intent s) \<and> price_by (sl_start s) = None) (pl_slots p) then None
                else
                  (let policy = default_policy\<lparr>tp_import_fee := max 0 import_fee\<rparr>;
                       arbitrage = estimate_daily_savings_eur p price_by rte (3/2) deg risk policy
                   in map_option (\<lambda>export_eur. py_round (arbitrage + export_eur) 2)
                        (export_net_eur p price_by rte deg risk (max 0 import_fee)))))"

definition format_savings_floor_reason :: "real \<Rightarrow> real \<Rightarrow> message" where
  "format_savings_floor_reason projected minimum =
     [Lit ''Geen laden: verwachte besparing EUR'', Fixed 2 projected, Lit '' < minimum EUR'', Fixed 2 minimum,
      Lit '' (daily_min)'']"

definition soaks :: "(instant \<rightharpoonup> real) \<Rightarrow> plan_slot \<Rightarrow> bool" where
  "soaks price_by s =
     (sl_intent s = GRID_CHARGE_TO_TARGET \<and>
      (case price_by (sl_start s) of Some x \<Rightarrow> x < 0 | None \<Rightarrow> False))"

definition floor_slot :: "(instant \<rightharpoonup> real) \<Rightarrow> message \<Rightarrow> plan_slot \<Rightarrow> plan_slot" where
  "floor_slot price_by reason s =
     (if is_must_charge_slot s \<or> sl_intent s \<noteq> GRID_CHARGE_TO_TARGET \<or> soaks price_by s then s
      else as_self_consumption s reason)"

definition apply_daily_savings_floor ::
  "plan \<Rightarrow> price_slot list \<Rightarrow> real \<Rightarrow> real \<Rightarrow> real \<Rightarrow> real \<Rightarrow> real \<Rightarrow> plan" where
  "apply_daily_savings_floor p prices minimum rte deg risk import_fee =
     (if minimum \<le> 1/1000000000000 then p
      else case estimate_plan_savings (Some p) prices rte deg risk import_fee of
             None \<Rightarrow> p
           | Some projected \<Rightarrow>
               if minimum \<le> projected + 1/1000000000 then p
               else (let ss = map (floor_slot (price_map prices) (format_savings_floor_reason projected minimum))
                                (pl_slots p)
                     in if ss = pl_slots p then p else p\<lparr>pl_slots := ss\<rparr>))"

lemma floor_slot_rewrites [simp]: "slot_rewritten restricts s (floor_slot price_by r s)"
  by (simp add: floor_slot_def)

lemma floor_slots_rewrite: "list_all2 (slot_rewritten restricts) ss (map (floor_slot price_by r) ss)"
  by (induction ss) simp_all

lemma savings_floor_rewrites:
  "list_all2 (slot_rewritten restricts) (pl_slots p)
     (pl_slots (apply_daily_savings_floor p prices minimum rte deg risk import_fee))"
  by (simp add: apply_daily_savings_floor_def Let_def floor_slots_rewrite split: option.split)

lemma savings_floor_frame:
  "pl_created_at (apply_daily_savings_floor p prices minimum rte deg risk fee) = pl_created_at p"
  "pl_strategy (apply_daily_savings_floor p prices minimum rte deg risk fee) = pl_strategy p"
  "pl_target_soc (apply_daily_savings_floor p prices minimum rte deg risk fee) = pl_target_soc p"
  "pl_deadline (apply_daily_savings_floor p prices minimum rte deg risk fee) = pl_deadline p"
  by (simp_all add: apply_daily_savings_floor_def Let_def split: option.split)

interpretation savings_floor: restrict_only
  "\<lambda>x p. apply_daily_savings_floor p (fst x) (fst (snd x)) (fst (snd (snd x))) (fst (snd (snd (snd x))))
           (fst (snd (snd (snd (snd x))))) (snd (snd (snd (snd (snd x)))))"
  by unfold_locales (simp_all add: savings_floor_rewrites savings_floor_frame)

text \<open>
  The savings floor drops paid charging and nothing else. When the projected savings of a plan are
  known and below the configured minimum, no slot of the result charges from the grid unless it is a
  must-charge slot or its price is negative; slots that do not charge, must-charge slots and
  negative-price slots are unchanged, and at every instant the plan's intent is kept or replaced by
  self-consumption. When the savings are unknown, or reach the minimum, the plan is returned as is.
\<close>

theorem savings_floor_drops_paid_charging:
  assumes q: "q = apply_daily_savings_floor p prices minimum rte deg risk fee"
    and est: "est = estimate_plan_savings (Some p) prices rte deg risk fee"
    and min: "1/1000000000000 < minimum"
  shows "(case est of
            None \<Rightarrow> q = p
          | Some x \<Rightarrow> if minimum \<le> x + 1/1000000000 then q = p
                      else (\<forall>s\<in>set (pl_slots q). sl_intent s = GRID_CHARGE_TO_TARGET \<longrightarrow>
                              is_must_charge_slot s \<or> soaks (price_map prices) s) \<and>
                           (\<forall>i<length (pl_slots p).
                              sl_intent (pl_slots p ! i) \<noteq> GRID_CHARGE_TO_TARGET \<or>
                              is_must_charge_slot (pl_slots p ! i) \<or> soaks (price_map prices) (pl_slots p ! i) \<longrightarrow>
                              pl_slots q ! i = pl_slots p ! i)) \<and>
         (intent_at q now = Some t \<longrightarrow>
            (\<exists>s. intent_at p now = Some s \<and>
                 (sl_intent t = sl_intent s \<or> sl_intent t = ALLOW_SELF_CONSUMPTION)))"
proof
  show "intent_at q now = Some t \<longrightarrow>
      (\<exists>s. intent_at p now = Some s \<and> (sl_intent t = sl_intent s \<or> sl_intent t = ALLOW_SELF_CONSUMPTION))"
    using savings_floor.never_adds [of p "(prices, minimum, rte, deg, risk, fee)" now t] by (simp add: q)
next
  have sl: "pl_slots q = map (floor_slot (price_map prices) (format_savings_floor_reason x minimum)) (pl_slots p)"
    if "est = Some x" "\<not> minimum \<le> x + 1/1000000000" for x
    using that min by (simp add: q est [symmetric] apply_daily_savings_floor_def Let_def)
  show "case est of None \<Rightarrow> q = p
          | Some x \<Rightarrow> if minimum \<le> x + 1/1000000000 then q = p
                      else (\<forall>s\<in>set (pl_slots q). sl_intent s = GRID_CHARGE_TO_TARGET \<longrightarrow>
                              is_must_charge_slot s \<or> soaks (price_map prices) s) \<and>
                           (\<forall>i<length (pl_slots p).
                              sl_intent (pl_slots p ! i) \<noteq> GRID_CHARGE_TO_TARGET \<or>
                              is_must_charge_slot (pl_slots p ! i) \<or> soaks (price_map prices) (pl_slots p ! i) \<longrightarrow>
                              pl_slots q ! i = pl_slots p ! i)"
  proof (cases est)
    case None
    then show ?thesis using est by (simp add: q apply_daily_savings_floor_def)
  next
    case (Some x)
    then show ?thesis
    proof (cases "minimum \<le> x + 1/1000000000")
      case True
      with Some est show ?thesis by (simp add: q apply_daily_savings_floor_def)
    next
      case False
      with Some show ?thesis by (auto simp: sl [OF Some False] floor_slot_def)
    qed
  qed
qed

text \<open>A plan that buys dear and cheap: under the floor it keeps only the slot it is paid for.\<close>

definition demo_soak_prices :: "price_slot list" where
  "demo_soak_prices = [\<lparr>pr_start = 0, pr_eur = 4/10, pr_origin = ''tibber''\<rparr>,
                       \<lparr>pr_start = SLOT, pr_eur = -1/10, pr_origin = ''tibber''\<rparr>]"

definition demo_soak :: plan where
  "demo_soak = plan0 0 [plan_slot0 0 GRID_CHARGE_TO_TARGET [], plan_slot0 SLOT GRID_CHARGE_TO_TARGET []]"

theorem savings_floor_drops_paid_charging_witness:
  "map sl_intent (pl_slots (apply_daily_savings_floor demo_soak demo_soak_prices (2/10) 1 0 0 0)) =
     [ALLOW_SELF_CONSUMPTION, GRID_CHARGE_TO_TARGET] \<and>
   list_all (\<lambda>s. is_must_charge_slot s \<or> soaks (price_map demo_soak_prices) s)
     (filter (\<lambda>s. sl_intent s = GRID_CHARGE_TO_TARGET)
        (pl_slots (apply_daily_savings_floor demo_soak demo_soak_prices (2/10) 1 0 0 0)))"
proof -
  have m: "price_map demo_soak_prices = [0 \<mapsto> 4/10, SLOT \<mapsto> -1/10]"
    by (simp add: price_map_def demo_soak_prices_def)
  have est: "estimate_plan_savings (Some demo_soak) demo_soak_prices 1 0 0 0 = Some 0"
    by (simp add: estimate_plan_savings_def m demo_soak_def plan0_def plan_slot0_def actionable_def
          estimate_daily_savings_eur_def import_price_at_def export_net_eur_def py_round_def Let_def)
       (simp add: demo_soak_prices_def py_round0_def)
  have i: "map sl_intent (pl_slots (apply_daily_savings_floor demo_soak demo_soak_prices (2/10) 1 0 0 0)) =
     [ALLOW_SELF_CONSUMPTION, GRID_CHARGE_TO_TARGET]"
    by (simp add: apply_daily_savings_floor_def est Let_def)
       (simp add: demo_soak_def plan0_def plan_slot0_def floor_slot_def is_must_charge_slot_def soaks_def m
          as_self_consumption_def)
  have "(1::real)/1000000000000 < 2/10" by simp
  from savings_floor_drops_paid_charging [OF refl refl this, of demo_soak demo_soak_prices 1 0 0 0 0]
  show ?thesis using i by (auto simp: est list_all_iff)
qed

end
