(* ===== verification/GridBudget.thy ===== *)
theory GridBudget
  imports PlanOverlay JsonValue
begin

section \<open>The daily grid-charge budget (\<open>ems/planner/budgets.py\<close>)\<close>

text \<open>
  The AC energy a plan buys per local day, the pass that drops buying slots beyond the daily cap, and
  the counter of what was already bought today, integrated from history samples. The SQLite reads
  are arguments: the rows a query returns, or \<open>None\<close> when it fails.
\<close>

definition BUDGET_EPS :: real where "BUDGET_EPS = 1 / 1000000"
definition SLOT_HOURS :: real where "SLOT_HOURS = 1 / 4"

definition UNKNOWN_COUNTER_REASON :: message where
  "UNKNOWN_COUNTER_REASON = [Lit ''Dagteller onbekend: niet laden van het net'']"

definition cap_reason :: "real \<Rightarrow> message" where
  "cap_reason cap_kwh =
     [Lit ''Dagplafond '',
      if \<bar>cap_kwh - of_int (py_round0 cap_kwh)\<bar> < 1/1000000000 then Count (py_int cap_kwh) else Gen cap_kwh,
      Lit '' kWh bereikt'']"

text \<open>\<open>local_day_bounds\<close>: midnights are built from the calendar date, by the zone's local-to-UTC map.\<close>

definition local_day_bounds :: "zone \<Rightarrow> (int \<Rightarrow> instant) \<Rightarrow> instant \<Rightarrow> instant \<times> instant" where
  "local_day_bounds tz of_wall now =
     (let d = local_date tz now in (of_wall (us_day * d), of_wall (us_day * (d + 1))))"

definition ac_grid_kwh_per_slot :: "real \<Rightarrow> real" where
  "ac_grid_kwh_per_slot max_charge_w = max 0 max_charge_w * SLOT_HOURS / 1000"

definition remaining_fraction :: "instant \<Rightarrow> instant \<Rightarrow> real" where
  "remaining_fraction start now =
     (if now \<le> start then 1
      else if start + SLOT \<le> now then 0
      else max 0 (min 1 (total_seconds (start + SLOT - now) / total_seconds SLOT)))"

definition slot_grid_kwh :: "plan_slot \<Rightarrow> real \<Rightarrow> instant option \<Rightarrow> real" where
  "slot_grid_kwh s per_slot_kwh now =
     (let full = (case sl_power_w s of
                    Some w \<Rightarrow> if 0 < w then w * SLOT_HOURS / 1000
                              else if 0 < per_slot_kwh then per_slot_kwh else 0
                  | None \<Rightarrow> if 0 < per_slot_kwh then per_slot_kwh else 0)
      in case now of None \<Rightarrow> full | Some t \<Rightarrow> full * remaining_fraction (sl_start s) t)"

definition plan_day :: "plan \<Rightarrow> zone \<Rightarrow> int" where
  "plan_day p tz = local_date tz (pl_created_at p)"

fun day_charge_kwh :: "zone \<Rightarrow> real \<Rightarrow> instant \<Rightarrow> int \<Rightarrow> plan_slot list \<Rightarrow> real" where
  "day_charge_kwh tz per_slot now d [] = 0"
| "day_charge_kwh tz per_slot now d (s # ss) =
     (if sl_intent s = GRID_CHARGE_TO_TARGET \<and> local_date tz (sl_start s) = d
      then slot_grid_kwh s per_slot (Some now) else 0) + day_charge_kwh tz per_slot now d ss"

definition planned_grid_charge_kwh :: "plan \<Rightarrow> real \<Rightarrow> zone \<Rightarrow> int option \<Rightarrow> real" where
  "planned_grid_charge_kwh p per_slot_kwh tz day =
     day_charge_kwh tz per_slot_kwh (pl_created_at p) (opt_else day (plan_day p tz)) (pl_slots p)"

lemma remaining_fraction_bounds: "0 \<le> remaining_fraction s t" "remaining_fraction s t \<le> 1"
  by (auto simp: remaining_fraction_def)

lemma slot_grid_kwh_nonneg: "0 \<le> slot_grid_kwh s per_slot now"
  using remaining_fraction_bounds(1)
  by (auto simp: slot_grid_kwh_def SLOT_HOURS_def Let_def split: option.split)

lemma day_charge_nonneg: "0 \<le> day_charge_kwh tz per_slot now d ss"
  by (induction ss) (auto simp: slot_grid_kwh_nonneg)

lemma day_charge_append:
  "day_charge_kwh tz per_slot now d (ss @ ts) =
     day_charge_kwh tz per_slot now d ss + day_charge_kwh tz per_slot now d ts"
  by (induction ss) auto

lemma day_charge_take_le:
  "day_charge_kwh tz per_slot now d (take n ss) \<le> day_charge_kwh tz per_slot now d ss"
  using day_charge_append [of tz per_slot now d "take n ss" "drop n ss"]
    day_charge_nonneg [of tz per_slot now d "drop n ss"] by simp

lemma day_charge_restricted:
  "list_all2 (slot_rewritten restricts) ss ts \<Longrightarrow>
     day_charge_kwh tz per_slot now d ts \<le> day_charge_kwh tz per_slot now d ss"
proof (induction rule: list_all2_induct)
  case (Cons s ss t ts)
  then have "t = s \<or> sl_intent t = ALLOW_SELF_CONSUMPTION"
    by (auto simp: slot_rewritten_def restricts_def)
  then show ?case using Cons.IH slot_grid_kwh_nonneg [of s per_slot "Some now"] by auto
qed simp

subsection \<open>The clamp\<close>

record charge_budget =
  cb_tz :: zone
  cb_today :: int
  cb_now :: instant
  cb_per_slot :: real
  cb_cap :: real
  cb_bought :: real
  cb_unknown :: bool

definition day_budget :: "charge_budget \<Rightarrow> int \<Rightarrow> real" where
  "day_budget b d = cb_cap b - (if d = cb_today b then cb_bought b else 0)"

text \<open>The loop, with the energy used per day and the days already full; and whether it blocked.\<close>

fun clamp_walk ::
  "charge_budget \<Rightarrow> (int \<Rightarrow> real) \<Rightarrow> int set \<Rightarrow> plan_slot list \<Rightarrow> plan_slot list \<times> bool" where
  "clamp_walk b used capped [] = ([], False)"
| "clamp_walk b used capped (s # ss) =
     (if sl_intent s \<noteq> GRID_CHARGE_TO_TARGET
      then (let (ss', blk) = clamp_walk b used capped ss in (s # ss', blk))
      else
        (let day = local_date (cb_tz b) (sl_start s);
             slot_reason = (if cb_unknown b \<and> day = cb_today b then UNKNOWN_COUNTER_REASON
                            else cap_reason (cb_cap b))
         in if day \<in> capped \<or> (cb_unknown b \<and> day = cb_today b)
            then (let (ss', blk) = clamp_walk b used capped ss
                  in (as_self_consumption s slot_reason # ss', True))
            else (let quantum = slot_grid_kwh s (cb_per_slot b) (Some (cb_now b))
                  in if used day + quantum \<le> day_budget b day + BUDGET_EPS
                     then (let (ss', blk) = clamp_walk b (used(day := used day + quantum)) capped ss
                           in (s # ss', blk))
                     else (let (ss', blk) = clamp_walk b used (insert day capped) ss
                           in (as_self_consumption s slot_reason # ss', True)))))"

definition charge_budget_of :: "plan \<Rightarrow> real option \<Rightarrow> real \<Rightarrow> real \<Rightarrow> zone \<Rightarrow> charge_budget" where
  "charge_budget_of p already_bought cap per_slot tz =
     \<lparr>cb_tz = tz, cb_today = plan_day p tz, cb_now = pl_created_at p, cb_per_slot = per_slot,
      cb_cap = cap, cb_bought = (case already_bought of None \<Rightarrow> cap | Some x \<Rightarrow> max 0 x),
      cb_unknown = (already_bought = None)\<rparr>"

definition clamp_grid_charge :: "plan \<Rightarrow> real option \<Rightarrow> real \<Rightarrow> real \<Rightarrow> zone \<Rightarrow> plan" where
  "clamp_grid_charge p already_bought cap per_slot tz =
     (if cap \<le> 0 \<or> pl_slots p = [] then p
      else (let (ss, blocked) = clamp_walk (charge_budget_of p already_bought cap per_slot tz)
                                  (\<lambda>_. 0) {} (pl_slots p)
            in if \<not> blocked then p
               else p\<lparr>pl_slots := ss,
                      pl_buy_pool := map_option (\<lambda>bp. if bp_state bp \<noteq> ''cap'' then bp\<lparr>bp_state := ''cap''\<rparr> else bp)
                                       (pl_buy_pool p)\<rparr>))"

text \<open>One turn of the loop: the slot is kept, with its energy booked if it buys, or dropped.\<close>

lemma clamp_walk_step:
  obtains (kept) used' where
      "fst (clamp_walk b used capped (s # ss)) = s # fst (clamp_walk b used' capped ss)"
      "snd (clamp_walk b used capped (s # ss)) = snd (clamp_walk b used' capped ss)"
      "sl_intent s \<noteq> GRID_CHARGE_TO_TARGET \<and> used' = used \<or>
       sl_intent s = GRID_CHARGE_TO_TARGET \<and> \<not> (cb_unknown b \<and> local_date (cb_tz b) (sl_start s) = cb_today b) \<and>
       used' = used(local_date (cb_tz b) (sl_start s) :=
                 used (local_date (cb_tz b) (sl_start s)) + slot_grid_kwh s (cb_per_slot b) (Some (cb_now b))) \<and>
       used (local_date (cb_tz b) (sl_start s)) + slot_grid_kwh s (cb_per_slot b) (Some (cb_now b))
         \<le> day_budget b (local_date (cb_tz b) (sl_start s)) + BUDGET_EPS"
  | (dropped) capped' r where
      "fst (clamp_walk b used capped (s # ss)) = as_self_consumption s r # fst (clamp_walk b used capped' ss)"
      "snd (clamp_walk b used capped (s # ss))" "sl_intent s = GRID_CHARGE_TO_TARGET"
proof (cases "sl_intent s = GRID_CHARGE_TO_TARGET")
  case False
  show ?thesis by (rule kept [of used]) (use False in \<open>simp_all add: split_beta\<close>)
next
  case charge: True
  let ?day = "local_date (cb_tz b) (sl_start s)"
  let ?q = "slot_grid_kwh s (cb_per_slot b) (Some (cb_now b))"
  show ?thesis
  proof (cases "?day \<in> capped \<or> (cb_unknown b \<and> ?day = cb_today b)")
    case True
    show ?thesis by (rule dropped [OF _ _ charge]) (use True charge in \<open>simp_all add: split_beta Let_def\<close>)
  next
    case out: False
    show ?thesis
    proof (cases "used ?day + ?q \<le> day_budget b ?day + BUDGET_EPS")
      case True
      show ?thesis
        by (rule kept [of "used(?day := used ?day + ?q)"])
           (use True charge out in \<open>auto simp: split_beta Let_def\<close>)
    next
      case False
      show ?thesis
        by (rule dropped [where capped' = "insert ?day capped" and r = "cap_reason (cb_cap b)"])
           (use False charge out in \<open>auto simp: split_beta Let_def\<close>)
    qed
  qed
qed

lemma clamp_walk_rewrites:
  "list_all2 (slot_rewritten restricts) ss (fst (clamp_walk b used capped ss))"
proof (induction ss arbitrary: used capped)
  case (Cons s ss)
  then show ?case by (cases rule: clamp_walk_step [of b used capped s ss]) simp_all
qed simp

lemma clamp_walk_unblocked: "\<not> snd (clamp_walk b used capped ss) \<Longrightarrow> fst (clamp_walk b used capped ss) = ss"
proof (induction ss arbitrary: used capped)
  case (Cons s ss)
  from Cons.prems Cons.IH show ?case
    by (cases rule: clamp_walk_step [of b used capped s ss]) (simp_all only: simp_thms)
qed simp

lemma clamp_walk_day:
  "day_charge_kwh (cb_tz b) (cb_per_slot b) (cb_now b) d (fst (clamp_walk b used capped ss)) + used d
     \<le> max (used d) (day_budget b d + BUDGET_EPS)"
proof (induction ss arbitrary: used capped)
  case Nil
  then show ?case by simp
next
  case (Cons s ss)
  show ?case
  proof (cases rule: clamp_walk_step [of b used capped s ss])
    case (kept used')
    let ?day = "local_date (cb_tz b) (sl_start s)"
    let ?q = "slot_grid_kwh s (cb_per_slot b) (Some (cb_now b))"
    have "sl_intent s \<noteq> GRID_CHARGE_TO_TARGET \<and> used' d = used d \<or>
          sl_intent s = GRID_CHARGE_TO_TARGET \<and> d \<noteq> ?day \<and> used' d = used d \<or>
          sl_intent s = GRID_CHARGE_TO_TARGET \<and> d = ?day \<and> used' d = used d + ?q \<and>
          used' d \<le> day_budget b d + BUDGET_EPS"
      using kept(3) by (cases "d = ?day") auto
    then show ?thesis using Cons.IH [of used' capped]
      unfolding kept(1) by (elim disjE conjE) (auto simp: max_def split: if_splits)
  next
    case (dropped capped' r)
    with Cons.IH [of used capped'] show ?thesis unfolding dropped(1) by simp
  qed
qed

lemma clamp_walk_kept:
  assumes "s \<in> set (fst (clamp_walk b used capped ss))" and "sl_intent s = GRID_CHARGE_TO_TARGET"
    and "\<forall>d. 0 \<le> used d"
  shows "0 \<le> day_budget b (local_date (cb_tz b) (sl_start s)) + BUDGET_EPS"
  using assms
proof (induction ss arbitrary: used capped)
  case Nil
  then show ?case by simp
next
  case (Cons u ss)
  show ?case
  proof (cases rule: clamp_walk_step [of b used capped u ss])
    case (kept used')
    have q: "0 \<le> slot_grid_kwh u (cb_per_slot b) (Some (cb_now b))" by (rule slot_grid_kwh_nonneg)
    show ?thesis
    proof (cases "s = u")
      case True
      have "0 \<le> used (local_date (cb_tz b) (sl_start u)) + slot_grid_kwh u (cb_per_slot b) (Some (cb_now b))"
        using Cons.prems(3) q by simp
      with kept(3) True Cons.prems(2) show ?thesis by auto
    next
      case False
      have "\<forall>d. 0 \<le> used' d" using kept(3) Cons.prems(3) q by auto
      with Cons.IH [of used' capped] False Cons.prems show ?thesis unfolding kept(1) by simp
    qed
  next
    case (dropped capped' r)
    have "s \<noteq> as_self_consumption u r" using Cons.prems(2) by (auto simp: as_self_consumption_def)
    with Cons.IH [of used capped'] Cons.prems show ?thesis unfolding dropped(1) by simp
  qed
qed

lemma clamp_walk_unknown:
  assumes "cb_unknown b"
  shows "day_charge_kwh (cb_tz b) per_slot now (cb_today b) (fst (clamp_walk b used capped ss)) = 0"
proof (induction ss arbitrary: used capped)
  case Nil
  then show ?case by simp
next
  case (Cons s ss)
  show ?case
  proof (cases rule: clamp_walk_step [of b used capped s ss])
    case (kept used')
    from kept(3) Cons.IH [of used' capped] assms show ?thesis unfolding kept(1) by auto
  next
    case (dropped capped' r)
    with Cons.IH [of used capped'] show ?thesis unfolding dropped(1) by simp
  qed
qed

lemma clamp_grid_charge_slots:
  "0 < cap \<Longrightarrow> pl_slots (clamp_grid_charge p bought cap per_slot tz) =
     fst (clamp_walk (charge_budget_of p bought cap per_slot tz) (\<lambda>_. 0) {} (pl_slots p))"
  using clamp_walk_unblocked by (auto simp: clamp_grid_charge_def split_beta Let_def)

lemma clamp_grid_charge_rewrites:
  "list_all2 (slot_rewritten restricts) (pl_slots p) (pl_slots (clamp_grid_charge p bought cap per_slot tz))"
proof (cases "0 < cap")
  case True
  then show ?thesis by (simp add: clamp_grid_charge_slots clamp_walk_rewrites)
next
  case False
  then show ?thesis by (simp add: clamp_grid_charge_def)
qed

lemma clamp_grid_charge_frame:
  "pl_created_at (clamp_grid_charge p bought cap per_slot tz) = pl_created_at p"
  "pl_strategy (clamp_grid_charge p bought cap per_slot tz) = pl_strategy p"
  "pl_target_soc (clamp_grid_charge p bought cap per_slot tz) = pl_target_soc p"
  "pl_deadline (clamp_grid_charge p bought cap per_slot tz) = pl_deadline p"
  by (simp_all add: clamp_grid_charge_def split_beta Let_def)

interpretation daily_cap: restrict_only
  "\<lambda>x p. clamp_grid_charge p (fst x) (fst (snd x)) (fst (snd (snd x))) (snd (snd (snd x)))"
  by unfold_locales (simp_all add: clamp_grid_charge_rewrites clamp_grid_charge_frame)

text \<open>
  The daily cap holds on every local day of the plan: after the clamp, the AC energy the plan
  still buys on a day is at most the cap, less what was already bought when the day is today, within
  the code's tolerance; when the counter of today is unknown the plan buys nothing more today.
\<close>

theorem daily_cap_holds:
  assumes "0 < cap"
  shows "planned_grid_charge_kwh (clamp_grid_charge p bought cap per_slot tz) per_slot tz (Some d)
           \<le> max 0 (cap - (if d = plan_day p tz then (case bought of None \<Rightarrow> cap | Some x \<Rightarrow> max 0 x) else 0)
                     + BUDGET_EPS) \<and>
         (bought = None \<longrightarrow>
            planned_grid_charge_kwh (clamp_grid_charge p bought cap per_slot tz) per_slot tz
              (Some (plan_day p tz)) = 0)"
proof -
  let ?b = "charge_budget_of p bought cap per_slot tz"
  let ?ss = "fst (clamp_walk ?b (\<lambda>_. 0) {} (pl_slots p))"
  have b: "cb_tz ?b = tz" "cb_per_slot ?b = per_slot" "cb_now ?b = pl_created_at p"
    "cb_today ?b = plan_day p tz" "cb_unknown ?b \<longleftrightarrow> bought = None"
    "day_budget ?b d = cap - (if d = plan_day p tz then (case bought of None \<Rightarrow> cap | Some x \<Rightarrow> max 0 x) else 0)"
    by (simp_all add: charge_budget_of_def day_budget_def)
  have "day_charge_kwh tz per_slot (pl_created_at p) d ?ss \<le> max 0 (day_budget ?b d + BUDGET_EPS)"
    using clamp_walk_day [of ?b d "\<lambda>_. 0" "{}" "pl_slots p"] by (simp add: b(1-3))
  moreover have "day_charge_kwh tz per_slot (pl_created_at p) (plan_day p tz) ?ss = 0" if "bought = None"
  proof -
    have "cb_unknown ?b" using that b(5) by blast
    from clamp_walk_unknown [OF this, of per_slot "pl_created_at p" "\<lambda>_. 0" "{}" "pl_slots p"]
    show ?thesis by (simp only: b(1) b(4))
  qed
  ultimately show ?thesis
    using assms by (simp add: planned_grid_charge_kwh_def clamp_grid_charge_slots clamp_grid_charge_frame(1) b(6))
qed

definition demo_charge_plan :: plan where
  "demo_charge_plan = plan0 0
     [(plan_slot0 0 GRID_CHARGE_TO_TARGET [])\<lparr>sl_power_w := Some 4000\<rparr>,
      (plan_slot0 SLOT GRID_CHARGE_TO_TARGET [])\<lparr>sl_power_w := Some 4000\<rparr>,
      plan_slot0 (2 * SLOT) DISCHARGE_FOR_LOAD []]"

theorem daily_cap_holds_witness:
  "map sl_intent (pl_slots (clamp_grid_charge demo_charge_plan (Some 0) 1.5 1 utc)) =
     [GRID_CHARGE_TO_TARGET, ALLOW_SELF_CONSUMPTION, DISCHARGE_FOR_LOAD] \<and>
   planned_grid_charge_kwh (clamp_grid_charge demo_charge_plan (Some 0) 1.5 1 utc) 1 utc (Some 0) \<le> 1.6"
proof -
  have "planned_grid_charge_kwh (clamp_grid_charge demo_charge_plan (Some 0) 1.5 1 utc) 1 utc (Some 0)
          \<le> max 0 (1.5 - (if 0 = plan_day demo_charge_plan utc then (case Some (0::real) of None \<Rightarrow> 1.5 | Some x \<Rightarrow> max 0 x) else 0)
                     + BUDGET_EPS)"
    using daily_cap_holds [of "1.5" demo_charge_plan "Some 0" 1 utc 0] by simp
  then have "planned_grid_charge_kwh (clamp_grid_charge demo_charge_plan (Some 0) 1.5 1 utc) 1 utc (Some 0) \<le> 1.6"
    by (simp add: BUDGET_EPS_def split: if_splits)
  then show ?thesis
    by (simp add: demo_charge_plan_def plan0_def plan_slot0_def clamp_grid_charge_def charge_budget_of_def
          plan_day_def local_date_def utc_def slot_grid_kwh_def remaining_fraction_def SLOT_HOURS_def
          day_budget_def BUDGET_EPS_def as_self_consumption_def)
qed

subsection \<open>What was already bought\<close>

record raw_row =
  rw_ts :: json
  rw_battery_w :: "real option"
  rw_grid_w :: "real option"

definition parse_ts :: "json \<Rightarrow> instant option" where
  "parse_ts v =
     (case json_datetime v of
        Inr (Aware t) \<Rightarrow> Some t
      | Inr (Naive t) \<Rightarrow> Some t
      | Inl _ \<Rightarrow> None)"

text \<open>
  \<open>slot_start(t, tz).astimezone(UTC)\<close>: the quarter-hour of the local clock. Zone offsets change on
  quarter-hours only, so the offset at \<open>t\<close> is the offset at its slot start.
\<close>

definition slot_bucket :: "zone \<Rightarrow> instant \<Rightarrow> instant" where
  "slot_bucket tz t = t - (t + tz t) mod SLOT"

definition window_samples ::
  "raw_row list \<Rightarrow> instant \<Rightarrow> instant \<Rightarrow> zone \<Rightarrow> (instant \<times> real \<times> real) list" where
  "window_samples rows day_start day_end tz =
     List.map_filter
       (\<lambda>r. case parse_ts (rw_ts r) of
              None \<Rightarrow> None
            | Some t \<Rightarrow> if day_start \<le> t \<and> t < day_end
                        then Some (slot_bucket tz t, opt_else (rw_battery_w r) 0, opt_else (rw_grid_w r) 0)
                        else None) rows"

definition mean_of :: "real list \<Rightarrow> real" where
  "mean_of xs = sum_list xs / real (length xs)"

text \<open>The elapsed hours of a bucket, \<open>None\<close> when it has not started.\<close>

definition bucket_hours :: "instant option \<Rightarrow> instant \<Rightarrow> real option" where
  "bucket_hours now bucket =
     (case now of
        None \<Rightarrow> Some SLOT_HOURS
      | Some n \<Rightarrow> if n \<le> bucket then None
                  else if bucket \<le> n \<and> n < bucket + SLOT then Some (total_seconds (n - bucket) / 3600)
                  else Some SLOT_HOURS)"

definition bucket_watts ::
  "(instant \<times> real \<times> real) list \<Rightarrow> (instant \<times> real) list \<Rightarrow> instant \<Rightarrow> real" where
  "bucket_watts samples planned bucket =
     (let mine = filter (\<lambda>x. fst x = bucket) samples
      in if mine \<noteq> []
         then min (max 0 (- mean_of (map (fst \<circ> snd) mine))) (max 0 (mean_of (map (snd \<circ> snd) mine)))
         else opt_else (map_of planned bucket) 0)"

definition bucket_kwh ::
  "(instant \<times> real \<times> real) list \<Rightarrow> (instant \<times> real) list \<Rightarrow> instant \<Rightarrow> instant \<Rightarrow> instant option \<Rightarrow> instant \<Rightarrow> real" where
  "bucket_kwh samples planned day_start day_end now bucket =
     (if \<not> (day_start \<le> bucket \<and> bucket < day_end) then 0
      else case bucket_hours now bucket of
             None \<Rightarrow> 0
           | Some hours \<Rightarrow> max 0 (bucket_watts samples planned bucket) * hours / 1000)"

definition grid_charge_kwh_from_samples ::
  "raw_row list option \<Rightarrow> instant \<Rightarrow> instant \<Rightarrow> zone \<Rightarrow> instant option \<Rightarrow> (instant \<times> real) list \<Rightarrow> real option" where
  "grid_charge_kwh_from_samples rows day_start day_end tz now planned =
     (case rows of
        None \<Rightarrow> None
      | Some rs \<Rightarrow>
          (let samples = window_samples rs day_start day_end tz;
               keys = remdups (map fst samples @
                        filter (\<lambda>b. day_start \<le> b \<and> b < day_end) (map fst planned))
           in Some (sum_list (map (bucket_kwh samples planned day_start day_end now) keys))))"

text \<open>
  \<open>read_already_bought_today\<close>, with the answers of the two queries: the samples of the window and the
  charge intents recorded in \<open>plan_history\<close> (whose failure only loses the gap filling).
\<close>

definition planned_buckets ::
  "(json \<times> string) list \<Rightarrow> real \<Rightarrow> instant \<Rightarrow> instant \<Rightarrow> zone \<Rightarrow> (instant \<times> real) list" where
  "planned_buckets rows w start fin tz =
     List.map_filter
       (\<lambda>(ts, intent). if intent \<notin> {''grid_charge_to_target'', ''GRID_CHARGE_TO_TARGET''} then None
          else case parse_ts ts of
                 None \<Rightarrow> None
               | Some t \<Rightarrow> if start \<le> t \<and> t < fin then Some (slot_bucket tz t, w) else None) rows"

definition read_already_bought_today ::
  "(instant \<Rightarrow> instant \<Rightarrow> raw_row list option) option \<Rightarrow> (instant \<Rightarrow> instant \<Rightarrow> (json \<times> string) list option)
     \<Rightarrow> instant \<Rightarrow> zone \<Rightarrow> (int \<Rightarrow> instant) \<Rightarrow> real option \<Rightarrow> real option" where
  "read_already_bought_today raw_samples plan_history now tz of_wall planned_charge_w =
     (case raw_samples of
        None \<Rightarrow> None
      | Some query \<Rightarrow>
          (let (start, fin) = local_day_bounds tz of_wall now
           in case query start fin of
                None \<Rightarrow> None
              | Some rows \<Rightarrow>
                  (let planned = (case planned_charge_w of
                                    Some w \<Rightarrow> if 0 < w
                                              then planned_buckets (opt_else (plan_history start fin) []) w start fin tz
                                              else []
                                  | None \<Rightarrow> [])
                   in grid_charge_kwh_from_samples (Some rows) start fin tz (Some now) planned)))"

lemma bucket_kwh_nonneg: "0 \<le> bucket_kwh samples planned a b now k"
proof -
  have "0 \<le> h" if "bucket_hours now k = Some h" for h
    using that by (auto simp: bucket_hours_def SLOT_HOURS_def total_seconds_def split: option.splits if_splits)
  then show ?thesis by (auto simp: bucket_kwh_def split: option.split)
qed

lemma counter_nonneg:
  "grid_charge_kwh_from_samples rows a b tz now planned = Some x \<Longrightarrow> 0 \<le> x"
  by (auto simp: grid_charge_kwh_from_samples_def Let_def bucket_kwh_nonneg
        intro!: sum_list_map_nonneg split: option.splits)

lemma mean_of_const: "xs \<noteq> [] \<Longrightarrow> (\<And>x. x \<in> set xs \<Longrightarrow> f x = c) \<Longrightarrow> mean_of (map f xs) = c"
proof -
  assume ne: "xs \<noteq> []" and c: "\<And>x. x \<in> set xs \<Longrightarrow> f x = c"
  from c have "map f xs = map (\<lambda>_. c) xs" by simp
  then have "sum_list (map f xs) = of_nat (length xs) * c" by (simp only: sum_list_triv)
  with ne show ?thesis by (simp add: mean_of_def)
qed

lemma remdups_replicate_pos: "0 < n \<Longrightarrow> remdups (replicate n k) = [k]"
proof (induction n)
  case (Suc n)
  then show ?case by (cases n) auto
qed simp

text \<open>
  The running quarter-hour is counted exactly once: while a charge slot is running at its planned
  power, what the history counter already attributes to it (its samples, pro rata to the elapsed time)
  and what the cap still attributes to the plan (its remaining fraction) add up to the energy of one
  full slot, at every instant of the slot.
\<close>

theorem running_slot_counted_once:
  assumes rows: "rs \<noteq> []"
    and meas: "\<forall>r\<in>set rs. \<exists>t. parse_ts (rw_ts r) = Some t \<and> a \<le> t \<and> t < b \<and> slot_bucket tz t = k \<and>
                 rw_battery_w r = Some (- w) \<and> rw_grid_w r = Some w"
    and k: "a \<le> k" "k < b" "k \<le> now" "now < k + SLOT"
    and s: "sl_start s = k" "sl_power_w s = Some w" "0 < w"
  shows "\<exists>x. grid_charge_kwh_from_samples (Some rs) a b tz (Some now) [] = Some x \<and>
             x + slot_grid_kwh s per_slot (Some now) = w * SLOT_HOURS / 1000"
proof -
  let ?S = "window_samples rs a b tz"
  have S: "?S = map (\<lambda>_. (k, - w, w)) rs"
    using meas by (induction rs) (auto simp: window_samples_def map_filter_def)
  have "remdups (map fst ?S) = [k]"
  proof -
    have "map fst ?S = replicate (length rs) k" by (simp add: S comp_def map_replicate_const)
    then show ?thesis using rows remdups_replicate_pos [of "length rs" k] by simp
  qed
  then have x: "grid_charge_kwh_from_samples (Some rs) a b tz (Some now) [] =
                  Some (bucket_kwh ?S [] a b (Some now) k)"
    by (simp add: grid_charge_kwh_from_samples_def Let_def)
  have mine: "filter (\<lambda>x. fst x = k) ?S = ?S" by (simp add: S)
  have "bucket_watts ?S [] k = w"
    using rows s(3) mean_of_const [of rs "\<lambda>_. - w"] mean_of_const [of rs "\<lambda>_. w"]
    by (simp add: bucket_watts_def mine Let_def S comp_def)
  then have bk: "bucket_kwh ?S [] a b (Some now) k =
      (if now = k then 0 else w * (total_seconds (now - k) / 3600) / 1000)"
    using k s(3) by (simp add: bucket_kwh_def bucket_hours_def)
  have "bucket_kwh ?S [] a b (Some now) k + slot_grid_kwh s per_slot (Some now) = w * SLOT_HOURS / 1000"
  proof (cases "now = k")
    case True
    then show ?thesis unfolding bk using s by (simp add: slot_grid_kwh_def remaining_fraction_def)
  next
    case False
    have f: "remaining_fraction k now = real_of_int (k + SLOT - now) / 900000000"
      using False k by (auto simp: remaining_fraction_def total_seconds_def)
    show ?thesis unfolding bk using False s
      by (simp add: slot_grid_kwh_def f SLOT_HOURS_def total_seconds_def field_simps)
  qed
  with x show ?thesis by blast
qed

theorem running_slot_counted_once_witness:
  "\<exists>x. grid_charge_kwh_from_samples
         (Some [\<lparr>rw_ts = JTime (Aware (60 * us_second)), rw_battery_w = Some (-2400), rw_grid_w = Some 2400\<rparr>])
         0 us_day utc (Some (300 * us_second)) [] = Some x \<and>
       x + slot_grid_kwh ((plan_slot0 0 GRID_CHARGE_TO_TARGET [])\<lparr>sl_power_w := Some 2400\<rparr>) 0
             (Some (300 * us_second)) = 0.6"
proof -
  have "\<exists>x. grid_charge_kwh_from_samples
         (Some [\<lparr>rw_ts = JTime (Aware (60 * us_second)), rw_battery_w = Some (-2400), rw_grid_w = Some 2400\<rparr>])
         0 us_day utc (Some (300 * us_second)) [] = Some x \<and>
       x + slot_grid_kwh ((plan_slot0 0 GRID_CHARGE_TO_TARGET [])\<lparr>sl_power_w := Some 2400\<rparr>) 0
             (Some (300 * us_second)) = 2400 * SLOT_HOURS / 1000"
    by (rule running_slot_counted_once [where k = 0])
       (simp_all add: parse_ts_def slot_bucket_def utc_def plan_slot0_def)
  then show ?thesis by (simp add: SLOT_HOURS_def)
qed

end
