(* ===== verification/CycleBudget.thy ===== *)
theory CycleBudget
  imports GridBudget
begin

section \<open>The shared cycle budget (\<open>ems/planner/budgets.py\<close>)\<close>

text \<open>
  Equivalent full cycles per local day: what the history holds, what the plan's own discharge will
  use, and the pass that drops grid-charge and export slots beyond the budget.
\<close>

definition CYCLE_EPS :: real where "CYCLE_EPS = 1 / 1000000000"

definition restricted_intent :: "battery_intent \<Rightarrow> bool" where
  "restricted_intent i = (i \<in> {GRID_CHARGE_TO_TARGET, EXPORT_FOR_PROFIT})"

definition cycle_budget_reason :: "real \<Rightarrow> message" where
  "cycle_budget_reason max_cycles =
     [Lit ''Cycle-budget op ('',
      if \<bar>max_cycles - of_int (py_round0 max_cycles)\<bar> < 1/1000000000 then Count (py_round0 max_cycles)
      else Gen max_cycles,
      Lit '' EFC)'']"

definition equivalent_full_cycles :: "real \<Rightarrow> real \<Rightarrow> real \<Rightarrow> real" where
  "equivalent_full_cycles charged discharged usable =
     (let denom = 2 * usable
      in if denom \<le> 1/1000000000000 then 0 else (max 0 charged + max 0 discharged) / denom)"

definition resolved_cycle_history :: "real option \<Rightarrow> real option \<Rightarrow> real \<times> real" where
  "resolved_cycle_history charged discharged =
     (case (charged, discharged) of
        (Some c, Some d) \<Rightarrow> (max 0 c, max 0 d)
      | _ \<Rightarrow> (0, 0))"

definition slot_cycle_kwh :: "plan_slot \<Rightarrow> instant \<Rightarrow> real \<Rightarrow> real \<Rightarrow> real \<times> real" where
  "slot_cycle_kwh s now eta fallback_w =
     (let frac = remaining_fraction (sl_start s) now;
          pos = (\<lambda>x. case x of Some v \<Rightarrow> 0 < v | None \<Rightarrow> False)
      in if frac \<le> 0 then (0, 0)
         else case sl_intent s of
           GRID_CHARGE_TO_TARGET \<Rightarrow>
             ((if pos (sl_power_w s) then the (sl_power_w s) * SLOT_HOURS / 1000 * eta
               else if pos (sl_target_kwh s) then the (sl_target_kwh s)
               else if 0 < fallback_w then fallback_w * SLOT_HOURS / 1000 * eta
               else 0) * frac, 0)
         | EXPORT_FOR_PROFIT \<Rightarrow>
             (0, (if pos (sl_power_w s) then the (sl_power_w s) * SLOT_HOURS / 1000 / eta
                  else if pos (sl_target_kwh s) then the (sl_target_kwh s) / eta else 0) * frac)
         | DISCHARGE_FOR_LOAD \<Rightarrow>
             (0, (if pos (sl_power_w s) then the (sl_power_w s) * SLOT_HOURS / 1000 / eta
                  else if pos (sl_target_kwh s) then the (sl_target_kwh s) / eta else 0) * frac)
         | _ \<Rightarrow> (0, 0))"

record cycle_budget =
  cy_tz :: zone
  cy_now :: instant
  cy_eta :: real
  cy_fallback_w :: real
  cy_usable :: real
  cy_limit :: real

definition cycle_kwh :: "cycle_budget \<Rightarrow> plan_slot \<Rightarrow> real \<times> real" where
  "cycle_kwh b s = slot_cycle_kwh s (cy_now b) (cy_eta b) (cy_fallback_w b)"

text \<open>Per local day, the energy of the slots that satisfy a test.\<close>

definition day_energy ::
  "cycle_budget \<Rightarrow> (plan_slot \<Rightarrow> bool) \<Rightarrow> (real \<times> real \<Rightarrow> real) \<Rightarrow> plan_slot list \<Rightarrow> int \<Rightarrow> real" where
  "day_energy b P part ss d =
     sum_list (map (\<lambda>s. part (cycle_kwh b s))
       (filter (\<lambda>s. P s \<and> local_date (cy_tz b) (sl_start s) = d) ss))"

fun cycle_walk ::
  "cycle_budget \<Rightarrow> (int \<Rightarrow> real) \<Rightarrow> (int \<Rightarrow> real) \<Rightarrow> plan_slot list \<Rightarrow> plan_slot list \<times> bool" where
  "cycle_walk b base_c base_d [] = ([], False)"
| "cycle_walk b base_c base_d (s # ss) =
     (if \<not> restricted_intent (sl_intent s)
      then (let (ss', blk) = cycle_walk b base_c base_d ss in (s # ss', blk))
      else
        (let day = local_date (cy_tz b) (sl_start s);
             (charged, discharged) = cycle_kwh b s
         in if equivalent_full_cycles (base_c day + charged) (base_d day + discharged) (cy_usable b)
                 \<le> cy_limit b + CYCLE_EPS
            then (let (ss', blk) = cycle_walk b (base_c(day := base_c day + charged))
                                     (base_d(day := base_d day + discharged)) ss
                  in (s # ss', blk))
            else (let (ss', blk) = cycle_walk b base_c base_d ss
                  in (as_self_consumption s (cycle_budget_reason (cy_limit b)) # ss', True))))"

text \<open>History of today and the declared energy of the slots that stay: reserved first.\<close>

definition cycle_base ::
  "cycle_budget \<Rightarrow> int \<Rightarrow> real \<Rightarrow> (real \<times> real \<Rightarrow> real) \<Rightarrow> plan_slot list \<Rightarrow> int \<Rightarrow> real" where
  "cycle_base b today hist part ss d =
     day_energy b (\<lambda>s. \<not> restricted_intent (sl_intent s)) part ss d + (if d = today then hist else 0)"

definition cycle_budget_of :: "plan \<Rightarrow> real \<Rightarrow> real \<Rightarrow> real \<Rightarrow> real \<Rightarrow> zone \<Rightarrow> cycle_budget" where
  "cycle_budget_of p max_cycles usable rte fallback_w tz =
     \<lparr>cy_tz = tz, cy_now = pl_created_at p, cy_eta = eta_of rte, cy_fallback_w = fallback_w,
      cy_usable = usable, cy_limit = max 0 max_cycles\<rparr>"

definition clamp_cycle_budget ::
  "plan \<Rightarrow> real option \<Rightarrow> real option \<Rightarrow> real \<Rightarrow> real \<Rightarrow> real \<Rightarrow> real \<Rightarrow> zone \<Rightarrow> plan" where
  "clamp_cycle_budget p charged discharged max_cycles usable rte fallback_w tz =
     (if pl_slots p = [] \<or> usable \<le> 0 then p
      else
        (let b = cycle_budget_of p max_cycles usable rte fallback_w tz;
             (hist_c, hist_d) = resolved_cycle_history charged discharged;
             today = plan_day p tz;
             (ss, blocked) = cycle_walk b (cycle_base b today hist_c fst (pl_slots p))
                               (cycle_base b today hist_d snd (pl_slots p)) (pl_slots p)
         in if \<not> blocked then p else p\<lparr>pl_slots := ss\<rparr>))"

definition plan_day_efc ::
  "plan \<Rightarrow> real \<Rightarrow> real \<Rightarrow> real \<Rightarrow> zone \<Rightarrow> real \<Rightarrow> real \<Rightarrow> int \<Rightarrow> real" where
  "plan_day_efc p usable rte fallback_w tz charged discharged d =
     (let b = cycle_budget_of p 0 usable rte fallback_w tz;
          today = plan_day p tz
      in equivalent_full_cycles
           ((if d = today then max 0 charged else 0) + day_energy b (\<lambda>_. True) fst (pl_slots p) d)
           ((if d = today then max 0 discharged else 0) + day_energy b (\<lambda>_. True) snd (pl_slots p) d)
           usable)"

subsection \<open>Lemmas\<close>

lemma day_energy_simps [simp]:
  "day_energy b P part [] d = 0"
  "day_energy b P part (s # ss) d =
     (if P s \<and> local_date (cy_tz b) (sl_start s) = d then part (cycle_kwh b s) else 0)
     + day_energy b P part ss d"
  by (simp_all add: day_energy_def)

lemma cycle_kwh_self [simp]: "cycle_kwh b (as_self_consumption s r) = (0, 0)"
  by (simp add: cycle_kwh_def slot_cycle_kwh_def Let_def)

lemma cycle_walk_step:
  obtains (kept) base_c' base_d' where
      "fst (cycle_walk b base_c base_d (s # ss)) = s # fst (cycle_walk b base_c' base_d' ss)"
      "snd (cycle_walk b base_c base_d (s # ss)) = snd (cycle_walk b base_c' base_d' ss)"
      "\<not> restricted_intent (sl_intent s) \<and> base_c' = base_c \<and> base_d' = base_d \<or>
       restricted_intent (sl_intent s) \<and>
       base_c' = base_c(local_date (cy_tz b) (sl_start s) :=
                   base_c (local_date (cy_tz b) (sl_start s)) + fst (cycle_kwh b s)) \<and>
       base_d' = base_d(local_date (cy_tz b) (sl_start s) :=
                   base_d (local_date (cy_tz b) (sl_start s)) + snd (cycle_kwh b s)) \<and>
       equivalent_full_cycles (base_c (local_date (cy_tz b) (sl_start s)) + fst (cycle_kwh b s))
         (base_d (local_date (cy_tz b) (sl_start s)) + snd (cycle_kwh b s)) (cy_usable b)
         \<le> cy_limit b + CYCLE_EPS"
  | (dropped) r where
      "fst (cycle_walk b base_c base_d (s # ss)) = as_self_consumption s r # fst (cycle_walk b base_c base_d ss)"
      "snd (cycle_walk b base_c base_d (s # ss))" "restricted_intent (sl_intent s)"
proof (cases "restricted_intent (sl_intent s)")
  case False
  show ?thesis by (rule kept [of base_c base_d]) (use False in \<open>simp_all add: split_beta\<close>)
next
  case r: True
  let ?day = "local_date (cy_tz b) (sl_start s)"
  show ?thesis
  proof (cases "equivalent_full_cycles (base_c ?day + fst (cycle_kwh b s))
                  (base_d ?day + snd (cycle_kwh b s)) (cy_usable b) \<le> cy_limit b + CYCLE_EPS")
    case True
    show ?thesis
      by (rule kept [of "base_c(?day := base_c ?day + fst (cycle_kwh b s))"
                        "base_d(?day := base_d ?day + snd (cycle_kwh b s))"])
         (use True r in \<open>auto simp: split_beta Let_def\<close>)
  next
    case False
    show ?thesis
      by (rule dropped [where r = "cycle_budget_reason (cy_limit b)"])
         (use False r in \<open>auto simp: split_beta Let_def\<close>)
  qed
qed

lemma cycle_walk_rewrites: "list_all2 (slot_rewritten restricts) ss (fst (cycle_walk b base_c base_d ss))"
proof (induction ss arbitrary: base_c base_d)
  case (Cons s ss)
  show ?case
  proof (cases rule: cycle_walk_step [of b base_c base_d s ss])
    case (kept c' d')
    show ?thesis unfolding kept(1) by (simp add: Cons.IH)
  next
    case (dropped r)
    show ?thesis unfolding dropped(1) using dropped(3) by (simp add: Cons.IH restricted_intent_def)
  qed
qed simp

lemma cycle_walk_unblocked:
  "\<not> snd (cycle_walk b base_c base_d ss) \<Longrightarrow> fst (cycle_walk b base_c base_d ss) = ss"
proof (induction ss arbitrary: base_c base_d)
  case (Cons s ss)
  from Cons.prems Cons.IH show ?case
    by (cases rule: cycle_walk_step [of b base_c base_d s ss]) (simp_all only: simp_thms)
qed simp

text \<open>
  The walk keeps the day's cycles within the limit, or adds nothing: the energies of the surviving
  restricted slots, on top of the base, give at most the limit or leave the base unchanged.
\<close>

lemma cycle_walk_day:
  fixes ss :: "plan_slot list"
  defines "R \<equiv> \<lambda>s::plan_slot. restricted_intent (sl_intent s)"
  assumes "ss' = fst (cycle_walk b base_c base_d ss)"
  shows "equivalent_full_cycles (base_c d + day_energy b R fst ss' d) (base_d d + day_energy b R snd ss' d)
           (cy_usable b) \<le> cy_limit b + CYCLE_EPS \<or>
         (day_energy b R fst ss' d = 0 \<and> day_energy b R snd ss' d = 0)"
  using assms(2)
proof (induction ss arbitrary: base_c base_d ss')
  case Nil
  then show ?case by simp
next
  case (Cons s ss)
  let ?day = "local_date (cy_tz b) (sl_start s)"
  show ?case
  proof (cases rule: cycle_walk_step [of b base_c base_d s ss])
    case (kept c' d')
    note ih = Cons.IH [OF refl, of c' d']
    have split: "\<not> R s \<and> c' d = base_c d \<and> d' d = base_d d \<or>
          R s \<and> d \<noteq> ?day \<and> c' d = base_c d \<and> d' d = base_d d \<or>
          R s \<and> d = ?day \<and> c' d = base_c d + fst (cycle_kwh b s) \<and> d' d = base_d d + snd (cycle_kwh b s) \<and>
          equivalent_full_cycles (c' d) (d' d) (cy_usable b) \<le> cy_limit b + CYCLE_EPS"
      using kept(3) unfolding R_def by (cases "d = ?day") auto
    show ?thesis unfolding Cons.prems kept(1) using split ih
      by (elim disjE conjE) (simp_all add: add.assoc)
  next
    case (dropped r)
    have nr: "\<not> R (as_self_consumption s r)" by (simp add: R_def restricted_intent_def)
    from Cons.IH [OF refl, of base_c base_d] show ?thesis
      unfolding Cons.prems dropped(1) by (simp add: nr)
  qed
qed

lemma cycle_walk_unrestricted:
  "part (0, 0) = 0 \<Longrightarrow>
   day_energy b (\<lambda>s. \<not> restricted_intent (sl_intent s)) part (fst (cycle_walk b base_c base_d ss)) d =
   day_energy b (\<lambda>s. \<not> restricted_intent (sl_intent s)) part ss d"
proof (induction ss arbitrary: base_c base_d)
  case (Cons s ss)
  show ?case
  proof (cases rule: cycle_walk_step [of b base_c base_d s ss])
    case (kept c' d')
    show ?thesis unfolding kept(1) by (simp add: Cons)
  next
    case (dropped r)
    show ?thesis unfolding dropped(1) using dropped(3) by (simp add: Cons)
  qed
qed simp

lemma day_energy_split:
  "day_energy b (\<lambda>_. True) part ss d =
     day_energy b (\<lambda>s. \<not> restricted_intent (sl_intent s)) part ss d +
     day_energy b (\<lambda>s. restricted_intent (sl_intent s)) part ss d"
  by (induction ss) auto

lemma day_energy_cong:
  "cy_tz b' = cy_tz b \<Longrightarrow> cy_now b' = cy_now b \<Longrightarrow> cy_eta b' = cy_eta b \<Longrightarrow>
     cy_fallback_w b' = cy_fallback_w b \<Longrightarrow> day_energy b' P part ss d = day_energy b P part ss d"
  by (simp add: day_energy_def cycle_kwh_def)

lemma clamp_cycle_slots:
  assumes "0 < usable"
  shows "pl_slots (clamp_cycle_budget p c d mx usable rte fb tz) =
    (let b = cycle_budget_of p mx usable rte fb tz; (h_c, h_d) = resolved_cycle_history c d
     in fst (cycle_walk b (cycle_base b (plan_day p tz) h_c fst (pl_slots p))
               (cycle_base b (plan_day p tz) h_d snd (pl_slots p)) (pl_slots p)))"
  using assms cycle_walk_unblocked
  by (auto simp: clamp_cycle_budget_def split_beta Let_def)

lemma clamp_cycle_frame:
  "pl_created_at (clamp_cycle_budget p c d mx usable rte fb tz) = pl_created_at p"
  "pl_strategy (clamp_cycle_budget p c d mx usable rte fb tz) = pl_strategy p"
  "pl_target_soc (clamp_cycle_budget p c d mx usable rte fb tz) = pl_target_soc p"
  "pl_deadline (clamp_cycle_budget p c d mx usable rte fb tz) = pl_deadline p"
  by (simp_all add: clamp_cycle_budget_def split_beta Let_def)

lemma clamp_cycle_rewrites:
  "list_all2 (slot_rewritten restricts) (pl_slots p) (pl_slots (clamp_cycle_budget p c d mx usable rte fb tz))"
proof (cases "0 < usable")
  case True
  then show ?thesis by (simp add: clamp_cycle_slots Let_def split_beta cycle_walk_rewrites)
next
  case False
  then show ?thesis by (simp add: clamp_cycle_budget_def)
qed

interpretation cycle_cap: restrict_only
  "\<lambda>x p. clamp_cycle_budget p (fst x) (fst (snd x)) (fst (snd (snd x))) (fst (snd (snd (snd x))))
           (fst (snd (snd (snd (snd x))))) (fst (snd (snd (snd (snd (snd x))))))
           (snd (snd (snd (snd (snd (snd x))))))"
  by unfold_locales (simp_all add: clamp_cycle_rewrites clamp_cycle_frame)

text \<open>Behind both clamps, a slot that still acts was there before them.\<close>

lemma budgets_kept:
  assumes "s \<in> set (pl_slots (clamp_cycle_budget (clamp_grid_charge p bought cap per_slot tz) c d mx usable rte fb tz'))"
    and "sl_intent s \<noteq> ALLOW_SELF_CONSUMPTION"
  shows "s \<in> set (pl_slots p)"
proof -
  have n: "\<not> restricts i (sl_intent s)" for i using assms(2) by (simp add: restricts_def)
  from rewritten_kept [OF clamp_cycle_rewrites assms(1) n]
  have "s \<in> set (pl_slots (clamp_grid_charge p bought cap per_slot tz))" .
  from rewritten_kept [OF clamp_grid_charge_rewrites this n] show ?thesis .
qed

text \<open>The full cycles of a day of the clamped plan, and the two ways that day can end.\<close>

abbreviation cycle_bases :: "plan \<Rightarrow> real \<Rightarrow> real \<Rightarrow> real \<Rightarrow> real \<Rightarrow> zone \<Rightarrow> real \<Rightarrow> (real \<times> real \<Rightarrow> real) \<Rightarrow> int \<Rightarrow> real" where
  "cycle_bases p mx usable rte fb tz hist part d \<equiv>
     cycle_base (cycle_budget_of p mx usable rte fb tz) (plan_day p tz) (max 0 hist) part (pl_slots p) d"

lemma clamped_day_efc:
  assumes "0 < usable" and q: "q = clamp_cycle_budget p (Some h_c) (Some h_d) mx usable rte fb tz"
  defines "R \<equiv> \<lambda>s::plan_slot. restricted_intent (sl_intent s)"
    and "b \<equiv> cycle_budget_of p mx usable rte fb tz"
  shows "plan_day_efc q usable rte fb tz h_c h_d d =
           equivalent_full_cycles (cycle_bases p mx usable rte fb tz h_c fst d + day_energy b R fst (pl_slots q) d)
             (cycle_bases p mx usable rte fb tz h_d snd d + day_energy b R snd (pl_slots q) d) usable"
    and "plan_day_efc q usable rte fb tz h_c h_d d \<le> max 0 mx + CYCLE_EPS \<or>
         day_energy b R fst (pl_slots q) d = 0 \<and> day_energy b R snd (pl_slots q) d = 0"
proof -
  let ?bc = "cycle_bases p mx usable rte fb tz h_c fst" and ?bd = "cycle_bases p mx usable rte fb tz h_d snd"
  let ?ss = "fst (cycle_walk b ?bc ?bd (pl_slots p))"
  have ss: "pl_slots q = ?ss"
    unfolding q clamp_cycle_slots [OF assms(1)] b_def by (simp add: resolved_cycle_history_def Let_def)
  have fr: "pl_created_at q = pl_created_at p" unfolding q by (simp add: clamp_cycle_frame)
  have pd: "plan_day q tz = plan_day p tz" by (simp add: plan_day_def fr)
  have b: "cy_usable b = usable" "cy_limit b = max 0 mx" by (simp_all add: b_def cycle_budget_of_def)
  have en: "day_energy (cycle_budget_of q 0 usable rte fb tz) P part xs d = day_energy b P part xs d" for P part xs
    unfolding b_def by (rule day_energy_cong) (simp_all add: cycle_budget_of_def fr)
  have u: "day_energy b (\<lambda>s. \<not> restricted_intent (sl_intent s)) part ?ss d =
      day_energy b (\<lambda>s. \<not> restricted_intent (sl_intent s)) part (pl_slots p) d" if "part (0, 0) = 0" for part
    using that by (rule cycle_walk_unrestricted)
  show efc: "plan_day_efc q usable rte fb tz h_c h_d d =
      equivalent_full_cycles (?bc d + day_energy b R fst (pl_slots q) d) (?bd d + day_energy b R snd (pl_slots q) d) usable"
    unfolding plan_day_efc_def Let_def en ss day_energy_split pd R_def b_def
    by (simp add: u [unfolded b_def] cycle_base_def add_ac)
  show "plan_day_efc q usable rte fb tz h_c h_d d \<le> max 0 mx + CYCLE_EPS \<or>
         day_energy b R fst (pl_slots q) d = 0 \<and> day_energy b R snd (pl_slots q) d = 0"
    using cycle_walk_day [of ?ss b ?bc ?bd "pl_slots p" d] unfolding efc ss b R_def by auto
qed

text \<open>Taking slots away never raises the energy of a day.\<close>

lemma cycle_kwh_nonneg:
  assumes "0 \<le> cy_eta b"
  shows "0 \<le> fst (cycle_kwh b s)" "0 \<le> snd (cycle_kwh b s)"
proof -
  have e: "0 \<le> SLOT_HOURS" by (simp add: SLOT_HOURS_def)
  show "0 \<le> fst (cycle_kwh b s)" "0 \<le> snd (cycle_kwh b s)"
    using assms e by (auto simp: cycle_kwh_def slot_cycle_kwh_def Let_def split: battery_intent.split option.split)
qed

lemma cycle_kwh_idle: "sl_intent s = ALLOW_SELF_CONSUMPTION \<Longrightarrow> cycle_kwh b s = (0, 0)"
  by (simp add: cycle_kwh_def slot_cycle_kwh_def Let_def)

lemma day_energy_restricted:
  assumes "list_all2 (slot_rewritten restricts) ss ts" and "0 \<le> cy_eta b" and part: "part \<in> {fst, snd}"
  shows "0 \<le> day_energy b P part ts d" "day_energy b P part ts d \<le> day_energy b P part ss d"
proof -
  have n: "0 \<le> part (cycle_kwh b s)" for s using cycle_kwh_nonneg [OF assms(2)] part by auto
  show "0 \<le> day_energy b P part ts d" using n by (induction ts) auto
  have z: "part (0, 0) = 0" using part by auto
  have step: "(if P t \<and> local_date (cy_tz b) (sl_start t) = d then part (cycle_kwh b t) else 0)
      \<le> (if P s \<and> local_date (cy_tz b) (sl_start s) = d then part (cycle_kwh b s) else 0)"
    if r: "slot_rewritten restricts s t" for s t
  proof (cases "t = s")
    case False
    with r have "sl_intent t = ALLOW_SELF_CONSUMPTION" by (auto simp: slot_rewritten_def restricts_def)
    then show ?thesis using n [of s] by (simp add: cycle_kwh_idle z)
  qed simp
  show "day_energy b P part ts d \<le> day_energy b P part ss d"
    using assms(1) by (induction rule: list_all2_induct) (simp_all add: add_mono step)
qed

lemma efc_mono: "c \<le> c' \<Longrightarrow> d \<le> d' \<Longrightarrow> equivalent_full_cycles c d u \<le> equivalent_full_cycles c' d' u"
  by (simp add: equivalent_full_cycles_def Let_def divide_right_mono)

lemma plan_day_efc_restricted:
  assumes "list_all2 (slot_rewritten restricts) (pl_slots p) (pl_slots q)" and "pl_created_at q = pl_created_at p"
  shows "plan_day_efc q usable rte fb tz h_c h_d d \<le> plan_day_efc p usable rte fb tz h_c h_d d"
proof -
  have b: "cycle_budget_of q mx usable rte fb tz = cycle_budget_of p mx usable rte fb tz" for mx
    by (simp add: cycle_budget_of_def assms(2))
  have eta: "0 \<le> cy_eta (cycle_budget_of p 0 usable rte fb tz)" by (simp add: cycle_budget_of_def)
  show ?thesis
    unfolding plan_day_efc_def Let_def plan_day_def assms(2) b
    by (rule efc_mono) (simp_all add: day_energy_restricted(2) [OF assms(1) eta])
qed

lemma clamp_cycle_history:
  "clamp_cycle_budget p c d mx usable rte fb tz =
     clamp_cycle_budget p (Some (fst (resolved_cycle_history c d))) (Some (snd (resolved_cycle_history c d)))
       mx usable rte fb tz"
proof -
  have "resolved_cycle_history (Some (fst (resolved_cycle_history c d))) (Some (snd (resolved_cycle_history c d))) =
      resolved_cycle_history c d"
    by (simp add: resolved_cycle_history_def split: option.split)
  then show ?thesis by (simp add: clamp_cycle_budget_def)
qed

text \<open>
  The cycle budget holds on every local day: after the clamp, the equivalent full cycles of the
  day (today's history and everything the plan still declares) are at most the configured limit,
  within the code's tolerance, or are exactly those of history and the discharge slots that the
  budget never touches.
\<close>

theorem cycle_budget_holds:
  assumes "0 < usable" and q: "q = clamp_cycle_budget p (Some h_c) (Some h_d) mx usable rte fb tz"
  shows "plan_day_efc q usable rte fb tz h_c h_d d \<le> max 0 mx + CYCLE_EPS \<or>
         plan_day_efc q usable rte fb tz h_c h_d d =
           plan_day_efc (p\<lparr>pl_slots := filter (\<lambda>s. \<not> restricted_intent (sl_intent s)) (pl_slots p)\<rparr>)
             usable rte fb tz h_c h_d d"
proof -
  let ?b = "cycle_budget_of p mx usable rte fb tz"
  let ?U = "\<lambda>s::plan_slot. \<not> restricted_intent (sl_intent s)"
  have en: "day_energy (cycle_budget_of (p\<lparr>pl_slots := filter ?U (pl_slots p)\<rparr>) 0 usable rte fb tz) P part xs d =
               day_energy ?b P part xs d" for P part xs
    by (rule day_energy_cong) (simp_all add: cycle_budget_of_def)
  have flt: "day_energy ?b (\<lambda>_. True) part (filter ?U xs) d = day_energy ?b ?U part xs d" for part xs
    by (induction xs) auto
  have base: "plan_day_efc (p\<lparr>pl_slots := filter ?U (pl_slots p)\<rparr>) usable rte fb tz h_c h_d d =
      equivalent_full_cycles (cycle_bases p mx usable rte fb tz h_c fst d)
        (cycle_bases p mx usable rte fb tz h_d snd d) usable"
    unfolding plan_day_efc_def Let_def en by (simp add: flt cycle_base_def plan_day_def add_ac)
  show ?thesis using clamped_day_efc [OF assms, of d] unfolding base by auto
qed

theorem cycle_budget_holds_witness:
  "let q = clamp_cycle_budget demo_charge_plan (Some 9) (Some 9.5) 1 10 1 0 utc
   in map sl_intent (pl_slots q) = [GRID_CHARGE_TO_TARGET, ALLOW_SELF_CONSUMPTION, DISCHARGE_FOR_LOAD] \<and>
      plan_day_efc q 10 1 0 utc 9 9.5 0 \<le> 1 + CYCLE_EPS"
proof -
  let ?q = "clamp_cycle_budget demo_charge_plan (Some 9) (Some 9.5) 1 10 1 0 utc"
  note ev = demo_charge_plan_def plan0_def plan_slot0_def plan_day_def local_date_def utc_def
    remaining_fraction_def SLOT_HOURS_def as_self_consumption_def cycle_budget_of_def
    cycle_base_def cycle_kwh_def slot_cycle_kwh_def restricted_intent_def equivalent_full_cycles_def
    resolved_cycle_history_def CYCLE_EPS_def
  have m: "map sl_intent (pl_slots ?q) = [GRID_CHARGE_TO_TARGET, ALLOW_SELF_CONSUMPTION, DISCHARGE_FOR_LOAD]"
    by (simp add: clamp_cycle_budget_def ev)
  have base: "plan_day_efc (demo_charge_plan\<lparr>pl_slots := filter (\<lambda>s. \<not> restricted_intent (sl_intent s)) (pl_slots demo_charge_plan)\<rparr>)
          10 1 0 utc 9 9.5 0 \<le> 1 + CYCLE_EPS"
    by (simp add: plan_day_efc_def ev)
  have "plan_day_efc ?q 10 1 0 utc 9 9.5 0 \<le> max 0 1 + CYCLE_EPS \<or>
        plan_day_efc ?q 10 1 0 utc 9 9.5 0 =
          plan_day_efc (demo_charge_plan\<lparr>pl_slots := filter (\<lambda>s. \<not> restricted_intent (sl_intent s)) (pl_slots demo_charge_plan)\<rparr>)
          10 1 0 utc 9 9.5 0"
    by (rule cycle_budget_holds) simp_all
  with base m show ?thesis by (auto simp: Let_def)
qed

end
