(* ===== verification/Projection.thy ===== *)
theory Projection
  imports PlanOverlay GridBudget Horizon
begin

section \<open>Forward energy projection (\<open>ems/planner/projection.py\<close>)\<close>

text \<open>
  The simulation of the battery over a plan, and the two passes that use it: discharge slots at the
  SoC floor become holds, and morning discharge is held back once it would spend the reserve of the
  evening. The clamp and the one-way efficiency are those of the prelude.
\<close>

record battery_model =
  bm_usable_kwh :: real
  bm_max_charge_w :: real
  bm_max_discharge_w :: real
  bm_round_trip_efficiency :: real
  bm_reserve_soc_pct :: real

record projected_slot =
  pj_start :: instant
  pj_intent :: battery_intent
  pj_soc_pct :: real
  pj_battery_w :: real
  pj_grid_w :: real
  pj_solar_w :: real
  pj_load_w :: real

subsection \<open>One slot\<close>

definition reserve_kwh :: "battery_model \<Rightarrow> real" where
  "reserve_kwh m = bm_reserve_soc_pct m / 100 * bm_usable_kwh m"

definition bm_eta :: "battery_model \<Rightarrow> real" where
  "bm_eta m = eta_of (bm_round_trip_efficiency m)"

definition max_charge_ac :: "battery_model \<Rightarrow> real \<Rightarrow> real \<Rightarrow> real" where
  "max_charge_ac m dh soc =
     min (bm_max_charge_w m) (max 0 (bm_usable_kwh m - soc) / bm_eta m / dh * 1000)"

definition max_discharge_ac :: "battery_model \<Rightarrow> real \<Rightarrow> real \<Rightarrow> real" where
  "max_discharge_ac m dh soc =
     min (bm_max_discharge_w m) (max 0 (soc - reserve_kwh m) * bm_eta m / dh * 1000)"

definition slot_battery_w ::
  "battery_model \<Rightarrow> real \<Rightarrow> real \<Rightarrow> battery_intent \<Rightarrow> real \<Rightarrow> real \<Rightarrow> real" where
  "slot_battery_w m dh target_kwh intent soc net =
     (case intent of
        GRID_CHARGE_TO_TARGET \<Rightarrow>
          - min (max_charge_ac m dh soc) (max 0 (target_kwh - soc) / bm_eta m / dh * 1000)
      | HOLD_RESERVE \<Rightarrow> if net < 0 then - min (- net) (max_charge_ac m dh soc) else 0
      | EXPORT_FOR_PROFIT \<Rightarrow> if 0 < net then min net (max_discharge_ac m dh soc) else 0
      | DISCHARGE_FOR_LOAD \<Rightarrow>
          if 0 < net then min net (max_discharge_ac m dh soc)
          else if net < 0 then - min (- net) (max_charge_ac m dh soc) else 0
      | ALLOW_SELF_CONSUMPTION \<Rightarrow>
          if 0 < net then min net (max_discharge_ac m dh soc)
          else if net < 0 then - min (- net) (max_charge_ac m dh soc) else 0)"

text \<open>The change of the store: charging stores less than drawn, discharging takes more than delivered.\<close>

definition soc_moved :: "battery_model \<Rightarrow> real \<Rightarrow> real \<Rightarrow> real \<Rightarrow> real" where
  "soc_moved m dh soc w =
     (if w < 0 then soc + (- w) * bm_eta m * dh / 1000
      else if 0 < w then soc - w / bm_eta m * dh / 1000 else soc)"

definition soc_after :: "battery_model \<Rightarrow> real \<Rightarrow> real \<Rightarrow> real \<Rightarrow> real" where
  "soc_after m dh soc w = clamp (soc_moved m dh soc w) 0 (bm_usable_kwh m)"

definition soc_pct_of :: "battery_model \<Rightarrow> real \<Rightarrow> real" where
  "soc_pct_of m soc = (if 0 < bm_usable_kwh m then soc / bm_usable_kwh m * 100 else 0)"

subsection \<open>The simulation\<close>

fun project_walk ::
  "battery_model \<Rightarrow> real \<Rightarrow> real \<Rightarrow> (instant \<rightharpoonup> real) \<Rightarrow> (instant \<rightharpoonup> real) \<Rightarrow> real
     \<Rightarrow> plan_slot list \<Rightarrow> projected_slot list" where
  "project_walk m dh target solar_by load_by soc [] = []"
| "project_walk m dh target solar_by load_by soc (s # ss) =
     (let solar = map_get solar_by (sl_start s) 0;
          load = map_get load_by (sl_start s) 0;
          w = slot_battery_w m dh target (sl_intent s) soc (load - solar);
          soc' = soc_after m dh soc w
      in \<lparr>pj_start = sl_start s, pj_intent = sl_intent s, pj_soc_pct = soc_pct_of m soc',
          pj_battery_w = w, pj_grid_w = load - solar - w, pj_solar_w = solar, pj_load_w = load\<rparr>
         # project_walk m dh target solar_by load_by soc' ss)"

definition start_kwh :: "battery_model \<Rightarrow> real \<Rightarrow> real" where
  "start_kwh m pct = clamp pct 0 100 / 100 * bm_usable_kwh m"

definition target_kwh_of :: "battery_model \<Rightarrow> real option \<Rightarrow> real" where
  "target_kwh_of m target =
     (case target of None \<Rightarrow> bm_usable_kwh m | Some t \<Rightarrow> clamp t 0 100 / 100 * bm_usable_kwh m)"

definition project_energy ::
  "plan_slot list \<Rightarrow> real \<Rightarrow> (instant \<rightharpoonup> real) \<Rightarrow> (instant \<rightharpoonup> real) \<Rightarrow> battery_model \<Rightarrow> real option
     \<Rightarrow> duration \<Rightarrow> int option \<Rightarrow> projected_slot list" where
  "project_energy ss start_soc_pct solar_by load_by m charge_target slot horizon_slots =
     project_walk m (total_seconds slot / 3600) (target_kwh_of m charge_target) solar_by load_by
       (start_kwh m start_soc_pct)
       (take (nat (max 0 (opt_else horizon_slots MAX_HORIZON_SLOTS))) ss)"

subsection \<open>What the simulation respects\<close>

definition model_ok :: "battery_model \<Rightarrow> bool" where
  "model_ok m = (0 < bm_usable_kwh m \<and> 0 \<le> bm_max_charge_w m \<and> 0 \<le> bm_max_discharge_w m \<and>
                 0 \<le> bm_reserve_soc_pct m \<and> bm_reserve_soc_pct m \<le> 100)"

lemma bm_eta_pos [simp]: "0 < bm_eta m" "bm_eta m \<noteq> 0"
  by (simp_all add: bm_eta_def)

lemma reserve_kwh_bounds: "model_ok m \<Longrightarrow> 0 \<le> reserve_kwh m \<and> reserve_kwh m \<le> bm_usable_kwh m"
  by (simp add: model_ok_def reserve_kwh_def mult_le_cancel_right1 field_simps)

lemma max_charge_ac_bounds:
  assumes "model_ok m" "0 < dh"
  shows "0 \<le> max_charge_ac m dh soc" "max_charge_ac m dh soc \<le> bm_max_charge_w m"
    "max_charge_ac m dh soc * bm_eta m * dh / 1000 \<le> max 0 (bm_usable_kwh m - soc)"
proof -
  have "0 \<le> max 0 (bm_usable_kwh m - soc) / bm_eta m / dh * 1000"
    using assms by (intro mult_nonneg_nonneg divide_nonneg_nonneg) (simp_all add: less_imp_le)
  then show "0 \<le> max_charge_ac m dh soc" "max_charge_ac m dh soc \<le> bm_max_charge_w m"
    using assms by (simp_all add: max_charge_ac_def model_ok_def)
  have "max_charge_ac m dh soc \<le> max 0 (bm_usable_kwh m - soc) / bm_eta m / dh * 1000"
    by (simp add: max_charge_ac_def)
  then have "max_charge_ac m dh soc * (bm_eta m * dh / 1000)
      \<le> max 0 (bm_usable_kwh m - soc) / bm_eta m / dh * 1000 * (bm_eta m * dh / 1000)"
    using assms(2) by (intro mult_right_mono) (simp_all add: less_imp_le)
  then show "max_charge_ac m dh soc * bm_eta m * dh / 1000 \<le> max 0 (bm_usable_kwh m - soc)"
    using assms(2) by (simp add: field_simps)
qed

lemma max_discharge_ac_bounds:
  assumes "model_ok m" "0 < dh"
  shows "0 \<le> max_discharge_ac m dh soc" "max_discharge_ac m dh soc \<le> bm_max_discharge_w m"
    "max_discharge_ac m dh soc / bm_eta m * dh / 1000 \<le> max 0 (soc - reserve_kwh m)"
proof -
  have "0 \<le> max 0 (soc - reserve_kwh m) * bm_eta m / dh * 1000"
    using assms by (intro mult_nonneg_nonneg divide_nonneg_nonneg) (simp_all add: less_imp_le)
  then show "0 \<le> max_discharge_ac m dh soc" "max_discharge_ac m dh soc \<le> bm_max_discharge_w m"
    using assms by (simp_all add: max_discharge_ac_def model_ok_def)
  have "max_discharge_ac m dh soc \<le> max 0 (soc - reserve_kwh m) * bm_eta m / dh * 1000"
    by (simp add: max_discharge_ac_def)
  then have "max_discharge_ac m dh soc * (dh / bm_eta m / 1000)
      \<le> max 0 (soc - reserve_kwh m) * bm_eta m / dh * 1000 * (dh / bm_eta m / 1000)"
    using assms(2) by (intro mult_right_mono) (simp_all add: less_imp_le)
  then show "max_discharge_ac m dh soc / bm_eta m * dh / 1000 \<le> max 0 (soc - reserve_kwh m)"
    using assms(2) by (simp add: field_simps)
qed

text \<open>Either a charge within the headroom (and the target), a discharge of what is above reserve, or rest.\<close>

lemma slot_battery_cases [consumes 2, case_names charging discharging]:
  assumes "model_ok m" "0 < dh"
  obtains (charging) "slot_battery_w m dh target i soc net \<le> 0"
      "- slot_battery_w m dh target i soc net \<le> max_charge_ac m dh soc"
      "i = GRID_CHARGE_TO_TARGET \<Longrightarrow>
         - slot_battery_w m dh target i soc net \<le> max 0 (target - soc) / bm_eta m / dh * 1000"
  | (discharging) "0 < slot_battery_w m dh target i soc net"
      "slot_battery_w m dh target i soc net \<le> max_discharge_ac m dh soc"
      "slot_battery_w m dh target i soc net \<le> net" "i \<noteq> GRID_CHARGE_TO_TARGET" "i \<noteq> HOLD_RESERVE"
proof -
  define C where "C = max_charge_ac m dh soc"
  define D where "D = max_discharge_ac m dh soc"
  define R where "R = max 0 (target - soc) / bm_eta m / dh * 1000"
  define w where "w = slot_battery_w m dh target i soc net"
  have nn: "0 \<le> C" "0 \<le> D" using max_charge_ac_bounds(1) [OF assms] max_discharge_ac_bounds(1) [OF assms]
    by (simp_all add: C_def D_def)
  have "0 \<le> R" unfolding R_def
    using assms by (intro mult_nonneg_nonneg divide_nonneg_nonneg) (simp_all add: less_imp_le)
  with nn have "(w \<le> 0 \<and> - w \<le> C \<and> (i = GRID_CHARGE_TO_TARGET \<longrightarrow> - w \<le> R)) \<or>
        (0 < w \<and> w \<le> D \<and> w \<le> net \<and> i \<noteq> GRID_CHARGE_TO_TARGET \<and> i \<noteq> HOLD_RESERVE)"
    unfolding w_def slot_battery_w_def C_def [symmetric] D_def [symmetric] R_def [symmetric]
    by (cases i) (auto simp: min_def)
  with charging discharging show ?thesis
    unfolding C_def D_def R_def w_def by blast
qed

lemma soc_step:
  assumes m: "model_ok m" "0 < dh" and soc: "0 \<le> soc" "soc \<le> bm_usable_kwh m"
    and w_def: "w = slot_battery_w m dh target i soc net"
  shows "soc_after m dh soc w = soc_moved m dh soc w"
    and "0 \<le> soc_moved m dh soc w" "soc_moved m dh soc w \<le> bm_usable_kwh m"
    and "min (reserve_kwh m) soc \<le> soc_moved m dh soc w"
    and "i \<in> {GRID_CHARGE_TO_TARGET, HOLD_RESERVE} \<Longrightarrow> soc \<le> soc_moved m dh soc w"
    and "i = GRID_CHARGE_TO_TARGET \<Longrightarrow> soc_moved m dh soc w \<le> max soc target"
    and "- bm_max_charge_w m \<le> w" "w \<le> bm_max_discharge_w m"
proof -
  note r = reserve_kwh_bounds [OF m(1)]
  note c = max_charge_ac_bounds [OF m, of soc] and d = max_discharge_ac_bounds [OF m, of soc]
  have dh: "0 \<le> dh" "0 < dh" using m(2) by simp_all
  have "0 \<le> soc_moved m dh soc w \<and> soc_moved m dh soc w \<le> bm_usable_kwh m \<and>
        min (reserve_kwh m) soc \<le> soc_moved m dh soc w \<and>
        (i \<in> {GRID_CHARGE_TO_TARGET, HOLD_RESERVE} \<longrightarrow> soc \<le> soc_moved m dh soc w) \<and>
        (i = GRID_CHARGE_TO_TARGET \<longrightarrow> soc_moved m dh soc w \<le> max soc target) \<and>
        - bm_max_charge_w m \<le> w \<and> w \<le> bm_max_discharge_w m"
    using m
  proof (cases rule: slot_battery_cases [where target = target and i = i and soc = soc and net = net])
    case charging
    define g where "g = - w * bm_eta m * dh / 1000"
    have mv: "soc_moved m dh soc w = soc + g"
      using charging(1) by (auto simp: soc_moved_def w_def g_def)
    have g0: "0 \<le> g" unfolding g_def w_def using charging(1) dh
      by (intro divide_nonneg_nonneg mult_nonneg_nonneg) (simp_all add: less_imp_le)
    have "- w * (bm_eta m * dh / 1000) \<le> max_charge_ac m dh soc * (bm_eta m * dh / 1000)"
      using charging(2) dh by (intro mult_right_mono) (simp_all add: w_def less_imp_le)
    then have g1: "g \<le> bm_usable_kwh m - soc" using c(3) soc by (simp add: g_def mult.assoc)
    have g2: "g \<le> max 0 (target - soc)" if "i = GRID_CHARGE_TO_TARGET"
    proof -
      have "- w * (bm_eta m * dh / 1000) \<le> max 0 (target - soc) / bm_eta m / dh * 1000 * (bm_eta m * dh / 1000)"
        using charging(3) [OF that] dh by (intro mult_right_mono) (simp_all add: w_def less_imp_le)
      then show ?thesis using dh by (simp add: g_def field_simps)
    qed
    show ?thesis unfolding mv using g0 g1 g2 soc charging(1,2) [folded w_def] c(2) m(1)
      by (auto simp: model_ok_def)
  next
    case discharging
    define g where "g = w / bm_eta m * dh / 1000"
    have mv: "soc_moved m dh soc w = soc - g"
      using discharging(1) by (auto simp: soc_moved_def w_def g_def)
    have g0: "0 \<le> g" unfolding g_def w_def using discharging(1) dh
      by (intro divide_nonneg_nonneg mult_nonneg_nonneg) (simp_all add: less_imp_le)
    have "w * (dh / bm_eta m / 1000) \<le> max_discharge_ac m dh soc * (dh / bm_eta m / 1000)"
      using discharging(2) dh by (intro mult_right_mono) (simp_all add: w_def less_imp_le)
    then have g1: "g \<le> max 0 (soc - reserve_kwh m)" using d(3) by (simp add: g_def field_simps)
    show ?thesis unfolding mv using g0 g1 r soc discharging [folded w_def] d(2) m(1)
      by (auto simp: model_ok_def max_def split: if_splits)
  qed
  then show "0 \<le> soc_moved m dh soc w" "soc_moved m dh soc w \<le> bm_usable_kwh m"
    "min (reserve_kwh m) soc \<le> soc_moved m dh soc w"
    "i \<in> {GRID_CHARGE_TO_TARGET, HOLD_RESERVE} \<Longrightarrow> soc \<le> soc_moved m dh soc w"
    "i = GRID_CHARGE_TO_TARGET \<Longrightarrow> soc_moved m dh soc w \<le> max soc target"
    "- bm_max_charge_w m \<le> w" "w \<le> bm_max_discharge_w m" by blast+
  then show "soc_after m dh soc w = soc_moved m dh soc w"
    by (simp add: soc_after_def clamp_def)
qed

lemma project_walk_length [simp]: "length (project_walk m dh t sb lb soc ss) = length ss"
  by (induction ss arbitrary: soc) (simp_all add: Let_def)

text \<open>The store before slot \<open>i\<close>: the start, then the end of the slot before.\<close>

definition kwh_before :: "battery_model \<Rightarrow> real \<Rightarrow> projected_slot list \<Rightarrow> nat \<Rightarrow> real" where
  "kwh_before m soc0 ps i = (if i = 0 then soc0 else pj_soc_pct (ps ! (i - 1)) / 100 * bm_usable_kwh m)"

lemma soc_pct_back:
  "model_ok m \<Longrightarrow> soc_pct_of m soc / 100 * bm_usable_kwh m = soc"
  "model_ok m \<Longrightarrow> soc_pct_of m soc * bm_usable_kwh m = soc * 100"
  by (simp_all add: soc_pct_of_def model_ok_def)

lemma project_walk_step:
  assumes m: "model_ok m" "0 < dh" and soc: "0 \<le> soc" "soc \<le> bm_usable_kwh m"
    and i: "i < length ss" and ps: "ps = project_walk m dh t sb lb soc ss"
  shows "0 \<le> kwh_before m soc ps i \<and> kwh_before m soc ps i \<le> bm_usable_kwh m \<and>
         min (reserve_kwh m) soc \<le> kwh_before m soc ps i \<and>
         pj_start (ps ! i) = sl_start (ss ! i) \<and>
         pj_solar_w (ps ! i) = map_get sb (sl_start (ss ! i)) 0 \<and>
         pj_load_w (ps ! i) = map_get lb (sl_start (ss ! i)) 0 \<and>
         pj_battery_w (ps ! i) = slot_battery_w m dh t (sl_intent (ss ! i)) (kwh_before m soc ps i)
                                   (pj_load_w (ps ! i) - pj_solar_w (ps ! i)) \<and>
         pj_grid_w (ps ! i) = pj_load_w (ps ! i) - pj_solar_w (ps ! i) - pj_battery_w (ps ! i) \<and>
         pj_soc_pct (ps ! i) = soc_pct_of m (soc_moved m dh (kwh_before m soc ps i) (pj_battery_w (ps ! i)))"
  using soc i unfolding ps
proof (induction ss arbitrary: soc i)
  case Nil
  then show ?case by simp
next
  case (Cons s ss)
  let ?net = "map_get lb (sl_start s) 0 - map_get sb (sl_start s) 0"
  let ?w = "slot_battery_w m dh t (sl_intent s) soc ?net"
  let ?soc = "soc_after m dh soc ?w"
  note st = soc_step [OF m Cons.prems(1,2) refl, where target = t and i = "sl_intent s" and net = ?net]
  show ?case
  proof (cases i)
    case 0
    then show ?thesis using Cons.prems st by (simp add: kwh_before_def Let_def)
  next
    case (Suc j)
    have b: "0 \<le> ?soc" "?soc \<le> bm_usable_kwh m" using st by simp_all
    have j: "j < length ss" using Cons.prems Suc by simp
    have k: "kwh_before m soc (project_walk m dh t sb lb soc (s # ss)) (Suc j) =
             kwh_before m ?soc (project_walk m dh t sb lb ?soc ss) j"
      by (cases j) (simp_all add: kwh_before_def Let_def soc_pct_back [OF m(1)])
    have mn: "min (reserve_kwh m) soc \<le> min (reserve_kwh m) ?soc"
      using st(1,4) by simp
    have n: "project_walk m dh t sb lb soc (s # ss) ! Suc j = project_walk m dh t sb lb ?soc ss ! j"
      by (simp add: Let_def)
    from Cons.IH [OF b j] mn show ?thesis unfolding Suc k n nth_Cons_Suc
      by (elim conjE) (intro conjI; (assumption | erule order_trans, assumption)?)
  qed
qed

lemma start_kwh_bounds: "model_ok m \<Longrightarrow> 0 \<le> start_kwh m pct \<and> start_kwh m pct \<le> bm_usable_kwh m"
proof -
  assume "model_ok m"
  then have u: "0 \<le> bm_usable_kwh m" by (simp add: model_ok_def)
  have c: "0 \<le> clamp pct 0 100 / 100" "clamp pct 0 100 / 100 \<le> 1" by (simp_all add: clamp_def)
  from mult_right_mono [OF c(2) u] mult_nonneg_nonneg [OF c(1) u]
  show ?thesis unfolding start_kwh_def by simp
qed

lemma total_seconds_hours_pos: "0 < slot \<Longrightarrow> 0 < total_seconds slot / 3600"
  by (simp add: total_seconds_def)

lemma pct_of_kwh:
  "model_ok m \<Longrightarrow> 0 \<le> x \<Longrightarrow> x \<le> bm_usable_kwh m \<Longrightarrow> 0 \<le> soc_pct_of m x \<and> soc_pct_of m x \<le> 100"
  by (simp add: soc_pct_of_def model_ok_def field_simps)

lemma pct_of_mono: "model_ok m \<Longrightarrow> x \<le> y \<Longrightarrow> soc_pct_of m x \<le> soc_pct_of m y"
  by (simp add: soc_pct_of_def model_ok_def divide_right_mono)

lemma pct_of_reserve: "model_ok m \<Longrightarrow> soc_pct_of m (reserve_kwh m) = bm_reserve_soc_pct m"
  by (simp add: soc_pct_of_def model_ok_def reserve_kwh_def)

lemma pct_of_start: "model_ok m \<Longrightarrow> soc_pct_of m (start_kwh m pct) = clamp pct 0 100"
  by (simp add: soc_pct_of_def model_ok_def start_kwh_def)

lemma project_energy_facts:
  assumes m: "model_ok m" and slot: "0 < slot"
    and ps: "ps = project_energy ss start_pct solar_by load_by m target slot horizon"
    and i: "i < length ps"
  shows "0 \<le> pj_soc_pct (ps ! i) \<and> pj_soc_pct (ps ! i) \<le> 100 \<and>
         min (bm_reserve_soc_pct m) (clamp start_pct 0 100) \<le> pj_soc_pct (ps ! i) \<and>
         - bm_max_charge_w m \<le> pj_battery_w (ps ! i) \<and> pj_battery_w (ps ! i) \<le> bm_max_discharge_w m \<and>
         pj_grid_w (ps ! i) = pj_load_w (ps ! i) - pj_solar_w (ps ! i) - pj_battery_w (ps ! i) \<and>
         pj_soc_pct (ps ! i) =
           soc_pct_of m (soc_moved m (total_seconds slot / 3600)
             (kwh_before m (start_kwh m start_pct) ps i) (pj_battery_w (ps ! i)))"
proof -
  let ?dh = "total_seconds slot / 3600"
  let ?ss = "take (nat (max 0 (opt_else horizon MAX_HORIZON_SLOTS))) ss"
  have dh: "0 < ?dh" using slot by (rule total_seconds_hours_pos)
  have b: "0 \<le> start_kwh m start_pct" "start_kwh m start_pct \<le> bm_usable_kwh m"
    using start_kwh_bounds [OF m] by blast+
  have p: "ps = project_walk m ?dh (target_kwh_of m target) solar_by load_by (start_kwh m start_pct) ?ss"
    by (simp add: ps project_energy_def)
  have i': "i < length ?ss" using i by (simp add: p)
  note w = project_walk_step [OF m dh b i' p]
  let ?x = "kwh_before m (start_kwh m start_pct) ps i"
  have x: "0 \<le> ?x" "?x \<le> bm_usable_kwh m" "min (reserve_kwh m) (start_kwh m start_pct) \<le> ?x"
    using w by blast+
  have bw: "pj_battery_w (ps ! i) = slot_battery_w m ?dh (target_kwh_of m target) (sl_intent (?ss ! i)) ?x
      (pj_load_w (ps ! i) - pj_solar_w (ps ! i))" using w by blast
  note st = soc_step [OF m dh x(1,2) bw]
  have sp: "pj_soc_pct (ps ! i) = soc_pct_of m (soc_moved m ?dh ?x (pj_battery_w (ps ! i)))" using w by blast
  have "min (reserve_kwh m) (start_kwh m start_pct) \<le> soc_moved m ?dh ?x (pj_battery_w (ps ! i))"
    using x(3) st(4) by simp
  from pct_of_mono [OF m this]
  have "min (bm_reserve_soc_pct m) (clamp start_pct 0 100) \<le> pj_soc_pct (ps ! i)"
    using pct_of_reserve [OF m] pct_of_start [OF m, of start_pct] by (simp add: sp min_def split: if_splits)
  moreover have "0 \<le> pj_soc_pct (ps ! i) \<and> pj_soc_pct (ps ! i) \<le> 100"
    unfolding sp by (rule pct_of_kwh [OF m st(2,3)])
  moreover have "pj_grid_w (ps ! i) = pj_load_w (ps ! i) - pj_solar_w (ps ! i) - pj_battery_w (ps ! i)"
    using w by blast
  ultimately show ?thesis using st(7,8) sp by blast
qed

text \<open>
  C24. The projection is physical, for any plan, forecast and load: every projected SoC lies in 0 to
  100 percent and never falls below the reserve, or below the starting SoC when that is already lower;
  the battery power stays within its charge and discharge limits; the AC balance of grid, load, solar
  and battery holds in every slot; and the stored energy moves from slot to slot by exactly the charge
  times the one-way efficiency, or the discharge divided by it: the clamp to the capacity never
  creates or loses energy.
\<close>

theorem projection_is_physical:
  assumes m: "model_ok m" and slot: "0 < slot"
    and ps: "ps = project_energy ss start_pct solar_by load_by m target slot horizon"
    and i: "i < length ps"
  shows "0 \<le> pj_soc_pct (ps ! i) \<and> pj_soc_pct (ps ! i) \<le> 100 \<and>
         min (bm_reserve_soc_pct m) (clamp start_pct 0 100) \<le> pj_soc_pct (ps ! i) \<and>
         - bm_max_charge_w m \<le> pj_battery_w (ps ! i) \<and> pj_battery_w (ps ! i) \<le> bm_max_discharge_w m \<and>
         pj_grid_w (ps ! i) = pj_load_w (ps ! i) - pj_solar_w (ps ! i) - pj_battery_w (ps ! i) \<and>
         pj_soc_pct (ps ! i) =
           soc_pct_of m (soc_moved m (total_seconds slot / 3600)
             (kwh_before m (start_kwh m start_pct) ps i) (pj_battery_w (ps ! i)))"
  by (rule project_energy_facts [OF m slot ps i])

text \<open>A ten kilowatt-hour battery, and one hour that charges, rests and discharges.\<close>

definition demo_model :: battery_model where
  "demo_model = \<lparr>bm_usable_kwh = 10, bm_max_charge_w = 2400, bm_max_discharge_w = 2400,
                 bm_round_trip_efficiency = 1, bm_reserve_soc_pct = 10\<rparr>"

theorem projection_is_physical_witness:
  "let ps = project_energy [plan_slot0 0 GRID_CHARGE_TO_TARGET [], plan_slot0 SLOT DISCHARGE_FOR_LOAD []]
              50 Map.empty [SLOT \<mapsto> 1000] demo_model (Some 80) SLOT None
   in pj_battery_w (ps ! 0) = -2400 \<and> pj_soc_pct (ps ! 0) = 56 \<and> pj_battery_w (ps ! 1) = 1000 \<and>
      pj_soc_pct (ps ! 1) \<le> 100"
proof -
  let ?ps = "project_energy [plan_slot0 0 GRID_CHARGE_TO_TARGET [], plan_slot0 SLOT DISCHARGE_FOR_LOAD []]
              50 Map.empty [SLOT \<mapsto> 1000] demo_model (Some 80) SLOT None"
  note sv = slot_battery_w_def max_charge_ac_def max_discharge_ac_def bm_eta_def reserve_kwh_def
    soc_after_def soc_moved_def clamp_def demo_model_def
  have step: "slot_battery_w demo_model (1/4) 8 GRID_CHARGE_TO_TARGET 5 0 = -2400"
    "soc_after demo_model (1/4) 5 (-2400) = 28/5"
    "slot_battery_w demo_model (1/4) 8 DISCHARGE_FOR_LOAD (28/5) 1000 = 1000"
    by (simp_all add: sv)
  have const: "total_seconds SLOT / 3600 = 1/4" "target_kwh_of demo_model (Some 80) = 8"
    "start_kwh demo_model 50 = 5" "soc_pct_of demo_model (28/5) = 56"
    by (simp_all add: total_seconds_def target_kwh_of_def start_kwh_def soc_pct_of_def clamp_def demo_model_def)
  have "length ?ps = 2"
    by (simp only: project_energy_def project_walk_length) (simp add: MAX_HORIZON_SLOTS_def)
  then have "pj_soc_pct (?ps ! 1) \<le> 100"
    using projection_is_physical [OF _ _ refl, of demo_model SLOT 1
      "[plan_slot0 0 GRID_CHARGE_TO_TARGET [], plan_slot0 SLOT DISCHARGE_FOR_LOAD []]" 50 Map.empty
      "[SLOT \<mapsto> 1000]" "Some 80" None]
    by (simp add: model_ok_def demo_model_def)
  moreover have "pj_battery_w (?ps ! 0) = -2400" "pj_soc_pct (?ps ! 0) = 56" "pj_battery_w (?ps ! 1) = 1000"
    by (simp_all add: project_energy_def MAX_HORIZON_SLOTS_def const step plan_slot0_def Let_def)
  ultimately show ?thesis by (simp only: Let_def simp_thms)
qed

end
