(* ===== verification/AdaptivePlanner.thy ===== *)
theory AdaptivePlanner
  imports LatePack Economics CycleBudget Projection
begin

section \<open>The adaptive planner (\<open>ems/planner/adaptive.py\<close>)\<close>

text \<open>
  Demand-aware charging: the grid only buys what the forecast deficit needs and the sun will not bring,
  before the last slot worth shaving. The steps of \<open>_plan_adaptive\<close> are one definition each, and the
  loop over the slots carries the energy it expects in the pack. The forecast of a delivery is a list
  of slots, its two curves are maps, as in the code.
\<close>

record adaptive_config =
  ad_usable_kwh :: real
  ad_reserve_soc_pct :: real
  ad_rte :: real
  ad_max_charge_w :: real
  ad_degradation :: real
  ad_risk :: real
  ad_solar_confidence :: real
  ad_horizon_slots :: nat
  ad_negative_soak :: bool
  ad_daily_cap_kwh :: real
  ad_already_bought :: "real option"
  ad_max_cycles :: real
  ad_charged_today :: "real option"
  ad_discharged_today :: "real option"
  ad_tz :: zone
  ad_of_wall :: "int \<Rightarrow> instant"
  ad_must_enabled :: bool
  ad_must_target_soc :: real
  ad_must_max_price :: real
  ad_must_buffer_pp :: real
  ad_must_capability_ready :: bool
  ad_must_device_min :: "real option"
  ad_resident_target :: "real option"
  ad_resident_deadline :: "instant option"
  ad_max_buy :: real
  ad_solar_basis :: string

subsection \<open>The solar energy a commitment may count on\<close>

definition committed_solar_w :: "real \<Rightarrow> real \<Rightarrow> real \<Rightarrow> string \<Rightarrow> bool \<Rightarrow> real" where
  "committed_solar_w p50_w p10_w confidence basis real_p10 =
     (let scaled = confidence * p50_w
      in if basis = ''auto'' \<and> real_p10 then min scaled (max 0 p10_w) else scaled)"

definition commitment_solar_basis :: "string \<Rightarrow> bool \<Rightarrow> string option" where
  "commitment_solar_basis basis real_p10 =
     (if basis = ''auto'' \<and> real_p10 then Some ''p10''
      else if basis = ''p50'' then Some ''p50'' else None)"

definition delivery_has_real_p10 :: "forecast_slot list \<Rightarrow> bool" where
  "delivery_has_real_p10 forecast = (forecast \<noteq> [] \<and> list_all fc_real_p10 forecast)"

definition p10_map :: "forecast_slot list \<Rightarrow> (instant \<rightharpoonup> real)" where
  "p10_map forecast = fold (\<lambda>f m. m(fc_start f \<mapsto> fc_p10_w f)) forecast Map.empty"

definition counted_w :: "adaptive_config \<Rightarrow> forecast_slot list \<Rightarrow> instant \<Rightarrow> real" where
  "counted_w cfg forecast t =
     committed_solar_w (map_get (p50_map forecast) t 0) (map_get (p10_map forecast) t 0)
       (max 0 (min 1 (ad_solar_confidence cfg))) (ad_solar_basis cfg) (delivery_has_real_p10 forecast)"

subsection \<open>Sizing\<close>

definition adaptive_charge_price :: "price_slot list \<Rightarrow> real" where
  "adaptive_charge_price future = sort (map pr_eur future) ! (length future div 4)"

definition adaptive_breakeven :: "adaptive_config \<Rightarrow> price_slot list \<Rightarrow> real" where
  "adaptive_breakeven cfg future =
     breakeven (adaptive_charge_price future) (ad_rte cfg) (ad_degradation cfg) (ad_risk cfg)"

definition net_w :: "(instant \<rightharpoonup> real) \<Rightarrow> (instant \<rightharpoonup> real) \<Rightarrow> instant \<Rightarrow> real" where
  "net_w load_by p50 t = map_get load_by t 0 - map_get p50 t 0"

definition ad_reserve_kwh :: "adaptive_config \<Rightarrow> real" where
  "ad_reserve_kwh cfg = ad_reserve_soc_pct cfg / 100 * ad_usable_kwh cfg"

definition ad_per_slot_kwh :: "adaptive_config \<Rightarrow> real" where
  "ad_per_slot_kwh cfg = ad_max_charge_w cfg * (1/4) / 1000 * eta_of (ad_rte cfg)"

definition coverable_kwh ::
  "adaptive_config \<Rightarrow> (instant \<rightharpoonup> real) \<Rightarrow> (instant \<rightharpoonup> real) \<Rightarrow> price_slot list \<Rightarrow> real" where
  "coverable_kwh cfg load_by p50 future =
     min (sum_list (map (\<lambda>p. max 0 (net_w load_by p50 (pr_start p)) * (1/4) / 1000) future) / eta_of (ad_rte cfg))
         (ad_usable_kwh cfg - ad_reserve_kwh cfg)"

definition solar_to_batt_kwh ::
  "adaptive_config \<Rightarrow> (instant \<rightharpoonup> real) \<Rightarrow> forecast_slot list \<Rightarrow> price_slot list \<Rightarrow> real" where
  "solar_to_batt_kwh cfg load_by forecast future =
     sum_list (map (\<lambda>p. max 0 (counted_w cfg forecast (pr_start p) - map_get load_by (pr_start p) 0)
                        * (1/4) / 1000 * eta_of (ad_rte cfg)) future)"

definition adaptive_shortfall ::
  "adaptive_config \<Rightarrow> real \<Rightarrow> (instant \<rightharpoonup> real) \<Rightarrow> forecast_slot list \<Rightarrow> price_slot list \<Rightarrow> real" where
  "adaptive_shortfall cfg soc_pct load_by forecast future =
     max 0 (coverable_kwh cfg load_by (p50_map forecast) future
            - max 0 (soc_pct / 100 * ad_usable_kwh cfg - ad_reserve_kwh cfg)
            - solar_to_batt_kwh cfg load_by forecast future)"

definition expensive_slots ::
  "adaptive_config \<Rightarrow> (instant \<rightharpoonup> real) \<Rightarrow> (instant \<rightharpoonup> real) \<Rightarrow> price_slot list \<Rightarrow> price_slot list" where
  "expensive_slots cfg load_by p50 future =
     filter (\<lambda>p. 0 < net_w load_by p50 (pr_start p) \<and> adaptive_breakeven cfg future < pr_eur p) future"

record adaptive_sizing =
  as_charge_set :: "instant set"
  as_peaks :: "instant set"
  as_last_need :: "instant option"
  as_target_soc :: real
  as_buy_pool :: buy_pool_info

definition adaptive_auto_max_buy :: "adaptive_config \<Rightarrow> price_slot list \<Rightarrow> instant set \<Rightarrow> real" where
  "adaptive_auto_max_buy cfg future peaks =
     (if peaks = {} then adaptive_breakeven cfg future
      else max_buy_for_peak (Min (pr_eur ` set (filter (\<lambda>p. pr_start p \<in> peaks) future)))
             (ad_rte cfg) (ad_degradation cfg) (ad_risk cfg))"

definition adaptive_sizing_of ::
  "adaptive_config \<Rightarrow> real \<Rightarrow> (instant \<rightharpoonup> real) \<Rightarrow> forecast_slot list \<Rightarrow> price_slot list \<Rightarrow> adaptive_sizing" where
  "adaptive_sizing_of cfg soc_pct load_by forecast future =
     (let p50 = p50_map forecast;
          shortfall = adaptive_shortfall cfg soc_pct load_by forecast future;
          peaks = starts_of (expensive_slots cfg load_by p50 future);
          n = charge_slot_count shortfall (ad_per_slot_kwh cfg);
          auto = adaptive_auto_max_buy cfg future peaks;
          max_buy = apply_max_buy_cap auto (ad_max_buy cfg);
          pre_peak = (if peaks = {} then future else filter (\<lambda>p. pr_start p < Max peaks) future);
          pool = filter (\<lambda>p. pr_eur p \<le> max_buy) pre_peak;
          pool_max = (if pool = [] then 0 else Max (pr_eur ` set pool))
      in \<lparr>as_charge_set = late_pack_charge_starts pool n pr_eur pool_max,
          as_peaks = peaks,
          as_last_need = (if peaks = {} then None else Some (Max peaks)),
          as_target_soc = (if 0 < ad_usable_kwh cfg
                           then min 100 ((ad_reserve_kwh cfg + coverable_kwh cfg load_by p50 future)
                                          / ad_usable_kwh cfg * 100)
                           else 0),
          as_buy_pool = build_buy_pool_info pre_peak pool n shortfall max_buy pr_eur (Some auto) (ad_max_buy cfg)\<rparr>)"

subsection \<open>The slots, with the energy expected in the pack\<close>

definition adaptive_floor :: "adaptive_config \<Rightarrow> real" where
  "adaptive_floor cfg = max 0 (min 100 (ad_reserve_soc_pct cfg))"

definition slot_deficit_kwh :: "adaptive_config \<Rightarrow> (instant \<rightharpoonup> real) \<Rightarrow> (instant \<rightharpoonup> real) \<Rightarrow> instant \<Rightarrow> real" where
  "slot_deficit_kwh cfg load_by p50 t = max 0 (net_w load_by p50 t) * (1/4) / 1000 / eta_of (ad_rte cfg)"

definition adaptive_step ::
  "adaptive_config \<Rightarrow> (instant \<rightharpoonup> real) \<Rightarrow> (instant \<rightharpoonup> real) \<Rightarrow> adaptive_sizing \<Rightarrow> real \<Rightarrow> price_slot
     \<Rightarrow> plan_slot \<times> real" where
  "adaptive_step cfg load_by p50 sz planned p =
     (let t = pr_start p;
          solar = map_get p50 t 0; load = map_get load_by t 0;
          deficit = slot_deficit_kwh cfg load_by p50 t;
          reserve = ad_reserve_kwh cfg;
          slot = (\<lambda>i r. (plan_slot0 t i r)\<lparr>sl_target_soc := Some (as_target_soc sz),
                     sl_floor_soc := Some (adaptive_floor cfg), sl_deadline := as_last_need sz\<rparr>)
      in if t \<in> as_charge_set sz
         then ((slot GRID_CHARGE_TO_TARGET
                 [Lit ''charge: cheap EUR'', Fixed 2 (pr_eur p), Lit ''/kWh to cover the coming peak + night''])
               \<lparr>sl_target_kwh := Some (py_round (ad_per_slot_kwh cfg) 3), sl_power_w := Some (ad_max_charge_w cfg)\<rparr>,
               min (min (ad_usable_kwh cfg) (as_target_soc sz / 100 * ad_usable_kwh cfg))
                   (planned + ad_per_slot_kwh cfg))
         else if 0 < max 0 (net_w load_by p50 t) \<and> planned - deficit < reserve - 1/1000000000
         then (slot HOLD_RESERVE [Lit ''hold reserve: serving this slot would cross the reserve floor''], planned)
         else if t \<in> as_peaks sz
         then ((slot DISCHARGE_FOR_LOAD
                 [Lit ''shave the EUR'', Fixed 2 (pr_eur p), Lit ''/kWh peak from the battery''])
               \<lparr>sl_target_soc := None, sl_power_w := Some (py_round (max 0 (net_w load_by p50 t)) 1)\<rparr>,
               max reserve (planned - deficit))
         else if load < solar
         then (slot ALLOW_SELF_CONSUMPTION
                 [Lit ''solar-first: charging from your panels ('', Fixed 0 solar, Lit '' W)''],
               min (ad_usable_kwh cfg) (planned + (solar - load) * (1/4) / 1000 * eta_of (ad_rte cfg)))
         else (slot ALLOW_SELF_CONSUMPTION [Lit ''running the house on the battery''],
               max reserve (planned - deficit)))"

fun adaptive_walk ::
  "adaptive_config \<Rightarrow> (instant \<rightharpoonup> real) \<Rightarrow> (instant \<rightharpoonup> real) \<Rightarrow> adaptive_sizing \<Rightarrow> real \<Rightarrow> price_slot list
     \<Rightarrow> plan_slot list" where
  "adaptive_walk cfg load_by p50 sz planned [] = []"
| "adaptive_walk cfg load_by p50 sz planned (p # ps) =
     (let (s, planned') = adaptive_step cfg load_by p50 sz planned p
      in s # adaptive_walk cfg load_by p50 sz planned' ps)"

definition plan_adaptive_base ::
  "price_slot list \<Rightarrow> forecast_slot list \<Rightarrow> instant \<Rightarrow> real \<Rightarrow> (instant \<rightharpoonup> real) \<Rightarrow> adaptive_config \<Rightarrow> plan" where
  "plan_adaptive_base prices forecast now soc_pct load_by cfg =
     (let future = slice_price_horizon prices now (ad_tz cfg) (ad_of_wall cfg) (ad_horizon_slots cfg);
          sz = adaptive_sizing_of cfg soc_pct load_by forecast future
      in if future = [] then plan0 now []
         else (plan0 now (adaptive_walk cfg load_by (p50_map forecast) sz
                            (max 0 (min 100 soc_pct) / 100 * ad_usable_kwh cfg) future))
              \<lparr>pl_target_soc := Some (as_target_soc sz), pl_deadline := as_last_need sz,
               pl_buy_pool := Some (as_buy_pool sz),
               pl_solar_basis := commitment_solar_basis (ad_solar_basis cfg) (delivery_has_real_p10 forecast)\<rparr>)"

definition adaptive_soak_slot :: "adaptive_config \<Rightarrow> (instant \<rightharpoonup> real) \<Rightarrow> plan_slot \<Rightarrow> plan_slot" where
  "adaptive_soak_slot cfg price_by s =
     (if map_get price_by (sl_start s) 0 < 0
      then (plan_slot0 (sl_start s) GRID_CHARGE_TO_TARGET
              [Lit ''charge: price EUR'', Fixed 2 (map_get price_by (sl_start s) 0),
               Lit ''/kWh below EUR0 -- you are paid to charge''])
           \<lparr>sl_target_soc := Some 100, sl_target_kwh := Some (py_round (ad_per_slot_kwh cfg) 3),
            sl_power_w := Some (ad_max_charge_w cfg), sl_floor_soc := Some (adaptive_floor cfg),
            sl_deadline := sl_deadline s\<rparr>
      else s)"

definition adaptive_soak :: "plan \<Rightarrow> price_slot list \<Rightarrow> adaptive_config \<Rightarrow> plan" where
  "adaptive_soak p prices cfg =
     (plan0 (pl_created_at p) (map (adaptive_soak_slot cfg (price_map prices)) (pl_slots p)))
       \<lparr>pl_strategy := pl_strategy p, pl_target_soc := pl_target_soc p, pl_deadline := pl_deadline p,
        pl_buy_pool := pl_buy_pool p, pl_solar_basis := pl_solar_basis p\<rparr>"

definition adaptive_budgets :: "adaptive_config \<Rightarrow> plan \<Rightarrow> plan" where
  "adaptive_budgets cfg p =
     clamp_cycle_budget
       (clamp_grid_charge p (ad_already_bought cfg) (ad_daily_cap_kwh cfg)
          (ac_grid_kwh_per_slot (ad_max_charge_w cfg)) (ad_tz cfg))
       (ad_charged_today cfg) (ad_discharged_today cfg) (ad_max_cycles cfg) (ad_usable_kwh cfg)
       (ad_rte cfg) (ad_max_charge_w cfg) (ad_tz cfg)"

definition plan_adaptive ::
  "price_slot list \<Rightarrow> forecast_slot list \<Rightarrow> instant \<Rightarrow> real \<Rightarrow> (instant \<rightharpoonup> real) \<Rightarrow> adaptive_config \<Rightarrow> plan" where
  "plan_adaptive prices forecast now soc_pct load_by cfg =
     (let p = plan_adaptive_base prices forecast now soc_pct load_by cfg
      in adaptive_budgets cfg (if ad_negative_soak cfg then adaptive_soak p prices cfg else p))"

subsection \<open>What the planner buys\<close>

lemma adaptive_step_start: "sl_start (fst (adaptive_step cfg load_by p50 sz planned p)) = pr_start p"
  by (simp add: adaptive_step_def plan_slot0_def Let_def)

lemma adaptive_step_charge:
  "sl_intent (fst (adaptive_step cfg load_by p50 sz planned p)) = GRID_CHARGE_TO_TARGET \<longleftrightarrow>
     pr_start p \<in> as_charge_set sz"
  by (simp add: adaptive_step_def plan_slot0_def Let_def)

lemma adaptive_step_discharge:
  "sl_intent (fst (adaptive_step cfg load_by p50 sz planned p)) = DISCHARGE_FOR_LOAD \<Longrightarrow>
     pr_start p \<in> as_peaks sz"
  by (auto simp: adaptive_step_def plan_slot0_def Let_def split: if_splits)

lemma adaptive_walk_mem:
  assumes "s \<in> set (adaptive_walk cfg load_by p50 sz planned ps)"
  obtains p l where "p \<in> set ps" "s = fst (adaptive_step cfg load_by p50 sz l p)"
  using assms
proof (induction ps arbitrary: planned thesis)
  case (Cons q ps)
  then show ?case by (auto simp: split_beta)
qed simp

lemma adaptive_soak_kept:
  "s \<in> set (pl_slots (adaptive_soak p prices cfg)) \<Longrightarrow>
     s \<in> set (pl_slots p) \<or> sl_intent s = GRID_CHARGE_TO_TARGET \<and> map_get (price_map prices) (sl_start s) 0 < 0"
  by (auto simp: adaptive_soak_def plan0_def adaptive_soak_slot_def plan_slot0_def split: if_splits)

text \<open>A chosen start: a slot at or below the ceiling, before the last peak.\<close>

lemma adaptive_charge_set:
  assumes "t \<in> as_charge_set (adaptive_sizing_of cfg soc_pct load_by forecast future)"
    and peaks: "peaks = as_peaks (adaptive_sizing_of cfg soc_pct load_by forecast future)"
  obtains p where "p \<in> set future" "pr_start p = t" "peaks \<noteq> {} \<longrightarrow> t < Max peaks"
    "pr_eur p \<le> adaptive_auto_max_buy cfg future peaks"
proof -
  let ?auto = "adaptive_auto_max_buy cfg future peaks"
  let ?max_buy = "apply_max_buy_cap ?auto (ad_max_buy cfg)"
  let ?pool = "filter (\<lambda>p. pr_eur p \<le> ?max_buy) (if peaks = {} then future else filter (\<lambda>p. pr_start p < Max peaks) future)"
  have pk: "peaks = starts_of (expensive_slots cfg load_by (p50_map forecast) future)"
    by (simp add: peaks adaptive_sizing_of_def Let_def)
  obtain n m where "t \<in> late_pack_charge_starts ?pool n pr_eur m"
    using assms(1) unfolding pk by (simp add: adaptive_sizing_of_def Let_def)
  from late_pack_buyable [OF this] obtain p where p: "p \<in> set ?pool" "pr_start p = t" by blast
  then have "pr_eur p \<le> ?max_buy" by simp
  then have "pr_eur p \<le> ?auto" by (auto simp: apply_max_buy_cap_def split: if_splits)
  with p that show thesis by (auto split: if_splits)
qed

lemma adaptive_peaks_mem:
  assumes "t \<in> as_peaks (adaptive_sizing_of cfg soc_pct load_by forecast future)"
  obtains p where "p \<in> set future" "pr_start p = t"
  using assms by (auto simp: adaptive_sizing_of_def Let_def starts_of_def expensive_slots_def)

lemma adaptive_card:
  assumes "0 < ad_max_charge_w cfg"
  shows "real (card (as_charge_set (adaptive_sizing_of cfg soc_pct load_by forecast future))) * ad_per_slot_kwh cfg
           < adaptive_shortfall cfg soc_pct load_by forecast future + ad_per_slot_kwh cfg"
    "finite (as_charge_set (adaptive_sizing_of cfg soc_pct load_by forecast future))"
proof -
  let ?S = "as_charge_set (adaptive_sizing_of cfg soc_pct load_by forecast future)"
  let ?sh = "adaptive_shortfall cfg soc_pct load_by forecast future"
  let ?n = "charge_slot_count ?sh (ad_per_slot_kwh cfg)"
  have pos: "0 < ad_per_slot_kwh cfg" using assms by (simp add: ad_per_slot_kwh_def)
  have sh: "0 \<le> ?sh" by (simp add: adaptive_shortfall_def)
  obtain ps m where S: "?S = late_pack_charge_starts ps ?n pr_eur m"
    by (simp add: adaptive_sizing_of_def Let_def)
  show "finite ?S" unfolding S using late_pack_card by blast
  have "int (card ?S) \<le> ?n"
    using late_pack_card [of ps ?n pr_eur m] charge_slot_count_covers(1) [OF pos sh] unfolding S by linarith
  then have "real (card ?S) \<le> of_int ?n" by linarith
  then have "real (card ?S) * ad_per_slot_kwh cfg \<le> of_int ?n * ad_per_slot_kwh cfg"
    using pos by (intro mult_right_mono) simp_all
  with charge_slot_count_covers(2) [OF pos sh]
  show "real (card ?S) * ad_per_slot_kwh cfg < ?sh + ad_per_slot_kwh cfg" by linarith
qed

text \<open>Every acting slot of the final plan: soaked at a negative price, or made by the loop.\<close>

lemma plan_adaptive_slots:
  assumes "p = plan_adaptive prices forecast now soc_pct load_by cfg"
    and "future = slice_price_horizon prices now (ad_tz cfg) (ad_of_wall cfg) (ad_horizon_slots cfg)"
    and "s \<in> set (pl_slots p)" "sl_intent s \<noteq> ALLOW_SELF_CONSUMPTION"
  obtains (soak) "ad_negative_soak cfg" "sl_intent s = GRID_CHARGE_TO_TARGET"
      "map_get (price_map prices) (sl_start s) 0 < 0"
  | (loop) x l where "x \<in> set future"
      "s = fst (adaptive_step cfg load_by (p50_map forecast)
                  (adaptive_sizing_of cfg soc_pct load_by forecast future) l x)"
proof -
  let ?base = "plan_adaptive_base prices forecast now soc_pct load_by cfg"
  have "s \<in> set (pl_slots (if ad_negative_soak cfg then adaptive_soak ?base prices cfg else ?base))"
    using assms(3,4) unfolding assms(1) plan_adaptive_def Let_def adaptive_budgets_def by (rule budgets_kept)
  then consider "ad_negative_soak cfg" "sl_intent s = GRID_CHARGE_TO_TARGET"
      "map_get (price_map prices) (sl_start s) 0 < 0" | "s \<in> set (pl_slots ?base)"
    using adaptive_soak_kept [of s ?base prices cfg] by (auto split: if_splits)
  then show thesis
  proof cases
    case 1
    then show ?thesis by (rule soak)
  next
    case 2
    then have "s \<in> set (adaptive_walk cfg load_by (p50_map forecast)
        (adaptive_sizing_of cfg soc_pct load_by forecast future)
        (max 0 (min 100 soc_pct) / 100 * ad_usable_kwh cfg) future)"
      by (auto simp: plan_adaptive_base_def Let_def assms(2) plan0_def split: if_splits)
    then show ?thesis by (elim adaptive_walk_mem) (rule loop)
  qed
qed

lemma adaptive_bought_planned:
  assumes p: "p = plan_adaptive prices forecast now soc_pct load_by cfg"
    and future: "future = slice_price_horizon prices now (ad_tz cfg) (ad_of_wall cfg) (ad_horizon_slots cfg)"
    and s: "s \<in> set (pl_slots p)" "sl_intent s = GRID_CHARGE_TO_TARGET"
      "\<not> map_get (price_map prices) (sl_start s) 0 < 0"
  shows "sl_start s \<in> as_charge_set (adaptive_sizing_of cfg soc_pct load_by forecast future)"
proof -
  have "sl_intent s \<noteq> ALLOW_SELF_CONSUMPTION" using s(2) by simp
  with p future s(1) show ?thesis
  proof (cases rule: plan_adaptive_slots)
    case soak
    with s(3) show ?thesis by blast
  next
    case (loop x l)
    with s(2) show ?thesis
      using adaptive_step_charge [of cfg load_by "p50_map forecast" _ l x] by (simp add: adaptive_step_start)
  qed
qed

lemma adaptive_discharge_planned:
  assumes p: "p = plan_adaptive prices forecast now soc_pct load_by cfg"
    and future: "future = slice_price_horizon prices now (ad_tz cfg) (ad_of_wall cfg) (ad_horizon_slots cfg)"
    and d: "d \<in> set (pl_slots p)" "sl_intent d = DISCHARGE_FOR_LOAD"
  shows "sl_start d \<in> as_peaks (adaptive_sizing_of cfg soc_pct load_by forecast future)"
proof -
  have "sl_intent d \<noteq> ALLOW_SELF_CONSUMPTION" using d(2) by simp
  with p future d(1) show ?thesis
  proof (cases rule: plan_adaptive_slots)
    case soak
    with d(2) show ?thesis by simp
  next
    case (loop x l)
    with d(2) show ?thesis
      using adaptive_step_discharge [of cfg load_by "p50_map forecast" _ l x] by (simp add: adaptive_step_start)
  qed
qed

lemma adaptive_count:
  assumes w: "0 < ad_max_charge_w cfg"
    and sub: "B \<subseteq> as_charge_set (adaptive_sizing_of cfg soc_pct load_by forecast future)"
  shows "real (card B) * ad_per_slot_kwh cfg
           < adaptive_shortfall cfg soc_pct load_by forecast future + ad_per_slot_kwh cfg"
proof -
  let ?S = "as_charge_set (adaptive_sizing_of cfg soc_pct load_by forecast future)"
  have "card B \<le> card ?S" using sub adaptive_card(2) [OF w] by (intro card_mono) simp_all
  moreover have "0 \<le> ad_per_slot_kwh cfg" using w by (simp add: ad_per_slot_kwh_def)
  ultimately have "real (card B) * ad_per_slot_kwh cfg \<le> real (card ?S) * ad_per_slot_kwh cfg"
    by (intro mult_right_mono) simp_all
  from le_less_trans [OF this adaptive_card(1) [OF w]] show ?thesis .
qed

text \<open>What a slot of the charge set costs, and the peak it is bought for.\<close>

lemma adaptive_purchase_pays:
  assumes peaks: "peaks = as_peaks (adaptive_sizing_of cfg soc_pct load_by forecast future)"
    and t: "t \<in> as_charge_set (adaptive_sizing_of cfg soc_pct load_by forecast future)"
  obtains x where "x \<in> set future" "pr_start x = t"
    "\<And>y. \<lbrakk>y \<in> set future; pr_start y \<in> peaks\<rbrakk> \<Longrightarrow>
       breakeven (pr_eur x) (ad_rte cfg) (ad_degradation cfg) (ad_risk cfg) \<le> pr_eur y"
    "peaks \<noteq> {} \<Longrightarrow> \<exists>e\<in>set future. t < pr_start e \<and> 0 < net_w load_by (p50_map forecast) (pr_start e)"
proof -
  obtain x where x: "x \<in> set future" "pr_start x = t" "peaks \<noteq> {} \<longrightarrow> t < Max peaks"
    "pr_eur x \<le> adaptive_auto_max_buy cfg future peaks"
    using t peaks by (rule adaptive_charge_set)
  have pk: "peaks = starts_of (expensive_slots cfg load_by (p50_map forecast) future)"
    by (simp add: peaks adaptive_sizing_of_def Let_def)
  show ?thesis
  proof
    show "breakeven (pr_eur x) (ad_rte cfg) (ad_degradation cfg) (ad_risk cfg) \<le> pr_eur y"
      if "y \<in> set future" "pr_start y \<in> peaks" for y
    proof -
      have "breakeven (pr_eur x) (ad_rte cfg) (ad_degradation cfg) (ad_risk cfg)
          \<le> Min (pr_eur ` set (filter (\<lambda>p. pr_start p \<in> peaks) future))"
        using x(4) that unfolding breakeven_le_iff by (auto simp: adaptive_auto_max_buy_def split: if_splits)
      also have "\<dots> \<le> pr_eur y" using that by (intro Min_le) auto
      finally show ?thesis .
    qed
    show "\<exists>e\<in>set future. t < pr_start e \<and> 0 < net_w load_by (p50_map forecast) (pr_start e)" if "peaks \<noteq> {}"
    proof -
      have "Max peaks \<in> peaks" using that unfolding pk by (intro Max_in) simp_all
      then obtain y where "y \<in> set future" "pr_start y = Max peaks"
        "0 < net_w load_by (p50_map forecast) (pr_start y)"
        unfolding pk by (auto simp: starts_of_def expensive_slots_def)
      with x(3) that show ?thesis by (intro bexI [of _ y]) simp_all
    qed
  qed (fact x)+
qed

text \<open>
  C27. The adaptive planner buys only what it is short of, and only where that pays. In the plan it
  returns, after soak, daily cap and cycle budget, the slots that charge at a non-negative price store
  less than the forecast shortfall plus one slot; and the price of each of them, grossed up for
  round-trip losses, wear and risk margin, is at most the price of every slot the plan discharges in;
  and when the plan discharges at all, some later slot of the horizon still has a house load above the
  solar forecast (it need not be a slot the plan discharges in).
\<close>

theorem adaptive_buys_only_the_shortfall:
  assumes p: "p = plan_adaptive prices forecast now soc_pct load_by cfg"
    and future: "future = slice_price_horizon prices now (ad_tz cfg) (ad_of_wall cfg) (ad_horizon_slots cfg)"
    and w: "0 < ad_max_charge_w cfg"
    and bought: "bought = {sl_start s |s. s \<in> set (pl_slots p) \<and> sl_intent s = GRID_CHARGE_TO_TARGET \<and>
                   \<not> map_get (price_map prices) (sl_start s) 0 < 0}"
  shows "real (card bought) * ad_per_slot_kwh cfg
           < adaptive_shortfall cfg soc_pct load_by forecast future + ad_per_slot_kwh cfg \<and>
         (\<forall>t\<in>bought. \<exists>x\<in>set future. pr_start x = t \<and>
            (\<forall>d\<in>set (pl_slots p). sl_intent d = DISCHARGE_FOR_LOAD \<longrightarrow>
               (\<exists>y\<in>set future. pr_start y = sl_start d) \<and>
               (\<forall>y\<in>set future. pr_start y = sl_start d \<longrightarrow>
                  breakeven (pr_eur x) (ad_rte cfg) (ad_degradation cfg) (ad_risk cfg) \<le> pr_eur y) \<and>
               (\<exists>e\<in>set future. t < pr_start e \<and> 0 < net_w load_by (p50_map forecast) (pr_start e))))"
proof (intro conjI ballI)
  let ?sz = "adaptive_sizing_of cfg soc_pct load_by forecast future"
  have sub: "bought \<subseteq> as_charge_set ?sz"
    unfolding bought by (auto intro: adaptive_bought_planned [OF p future])
  show "real (card bought) * ad_per_slot_kwh cfg
           < adaptive_shortfall cfg soc_pct load_by forecast future + ad_per_slot_kwh cfg"
    using w sub by (rule adaptive_count)
  fix t
  assume "t \<in> bought"
  with sub have "t \<in> as_charge_set ?sz" by blast
  then obtain x where x: "x \<in> set future" "pr_start x = t"
    and pays: "\<And>y. \<lbrakk>y \<in> set future; pr_start y \<in> as_peaks ?sz\<rbrakk> \<Longrightarrow>
       breakeven (pr_eur x) (ad_rte cfg) (ad_degradation cfg) (ad_risk cfg) \<le> pr_eur y"
    and later: "as_peaks ?sz \<noteq> {} \<Longrightarrow>
       \<exists>e\<in>set future. t < pr_start e \<and> 0 < net_w load_by (p50_map forecast) (pr_start e)"
    by (rule adaptive_purchase_pays [OF refl]) blast
  have peak: "sl_start d \<in> as_peaks ?sz" "\<exists>y\<in>set future. pr_start y = sl_start d"
    if "d \<in> set (pl_slots p)" "sl_intent d = DISCHARGE_FOR_LOAD" for d
    using adaptive_discharge_planned [OF p future that]
    by (auto simp: adaptive_sizing_of_def Let_def starts_of_def expensive_slots_def)
  show "\<exists>x\<in>set future. pr_start x = t \<and>
            (\<forall>d\<in>set (pl_slots p). sl_intent d = DISCHARGE_FOR_LOAD \<longrightarrow>
               (\<exists>y\<in>set future. pr_start y = sl_start d) \<and>
               (\<forall>y\<in>set future. pr_start y = sl_start d \<longrightarrow>
                  breakeven (pr_eur x) (ad_rte cfg) (ad_degradation cfg) (ad_risk cfg) \<le> pr_eur y) \<and>
               (\<exists>e\<in>set future. t < pr_start e \<and> 0 < net_w load_by (p50_map forecast) (pr_start e)))"
  proof (rule bexI [OF _ x(1)], intro conjI x(2) ballI impI)
    fix d
    assume d: "d \<in> set (pl_slots p)" "sl_intent d = DISCHARGE_FOR_LOAD"
    show "\<exists>y\<in>set future. pr_start y = sl_start d" using d by (rule peak(2))
    show "\<exists>e\<in>set future. t < pr_start e \<and> 0 < net_w load_by (p50_map forecast) (pr_start e)"
      using peak(1) [OF d] by (intro later) blast
    fix y
    assume "y \<in> set future" "pr_start y = sl_start d"
    with peak(1) [OF d]
    show "breakeven (pr_eur x) (ad_rte cfg) (ad_degradation cfg) (ad_risk cfg) \<le> pr_eur y" by (intro pays) simp_all
  qed
qed

text \<open>A cheap quarter hour, then a dear one with a house to run: the energy for it is bought first.\<close>

definition demo_adaptive :: adaptive_config where
  "demo_adaptive =
     \<lparr>ad_usable_kwh = 10, ad_reserve_soc_pct = 10, ad_rte = 1, ad_max_charge_w = 4000, ad_degradation = 0,
      ad_risk = 0, ad_solar_confidence = 8/10, ad_horizon_slots = 96, ad_negative_soak = False,
      ad_daily_cap_kwh = 12, ad_already_bought = Some 0, ad_max_cycles = 3/2, ad_charged_today = Some 0,
      ad_discharged_today = Some 0, ad_tz = utc, ad_of_wall = (\<lambda>_. 0), ad_must_enabled = False,
      ad_must_target_soc = 30, ad_must_max_price = 4/10, ad_must_buffer_pp = 10,
      ad_must_capability_ready = False, ad_must_device_min = None, ad_resident_target = None,
      ad_resident_deadline = None, ad_max_buy = 0, ad_solar_basis = ''auto''\<rparr>"

definition demo_load :: "instant \<rightharpoonup> real" where "demo_load = [SLOT \<mapsto> 4000]"

lemma demo_adaptive_sizing:
  "let sz = adaptive_sizing_of demo_adaptive 10 demo_load [] demo_prices
   in as_charge_set sz = {0} \<and> as_peaks sz = {SLOT} \<and> as_target_soc sz = 20 \<and> as_last_need sz = Some SLOT"
proof -
  obtain a b where dp: "demo_prices = [a, b]" and a: "pr_start a = 0" "pr_eur a = 1/10"
    and b: "pr_start b = SLOT" "pr_eur b = 5/10"
    by (simp add: demo_prices_def)
  have eta: "eta_of 1 = 1" by (simp add: eta_of_def)
  have u: "ad_usable_kwh demo_adaptive = 10" "ad_reserve_kwh demo_adaptive = 1" "ad_rte demo_adaptive = 1"
    "ad_degradation demo_adaptive = 0" "ad_risk demo_adaptive = 0" "ad_per_slot_kwh demo_adaptive = 1"
    "ad_max_buy demo_adaptive = 0"
    by (simp_all add: demo_adaptive_def ad_reserve_kwh_def ad_per_slot_kwh_def eta)
  have m: "p50_map [] = Map.empty" "p10_map [] = Map.empty" by (simp_all add: p50_map_def p10_map_def)
  have net: "net_w demo_load Map.empty 0 = 0" "net_w demo_load Map.empty SLOT = 4000"
    by (simp_all add: net_w_def demo_load_def)
  have be: "adaptive_breakeven demo_adaptive [a, b] = 1/10"
    by (simp add: adaptive_breakeven_def adaptive_charge_price_def a b breakeven_eq u efficiency_of_def)
  have ex: "starts_of (expensive_slots demo_adaptive demo_load Map.empty [a, b]) = {SLOT}"
    by (simp add: expensive_slots_def be a b net starts_of_def)
  have cov: "coverable_kwh demo_adaptive demo_load Map.empty [a, b] = 1"
    by (simp add: coverable_kwh_def a b net u eta)
  have sun: "solar_to_batt_kwh demo_adaptive demo_load [] [a, b] = 0"
    by (simp add: solar_to_batt_kwh_def counted_w_def committed_solar_w_def delivery_has_real_p10_def m a b demo_load_def)
  have sh: "adaptive_shortfall demo_adaptive 10 demo_load [] [a, b] = 1"
    by (simp add: adaptive_shortfall_def cov sun u m)
  have auto: "apply_max_buy_cap (adaptive_auto_max_buy demo_adaptive [a, b] {SLOT}) 0 = 5/10"
    by (simp add: adaptive_auto_max_buy_def a b max_buy_eq u efficiency_of_def apply_max_buy_cap_def)
  have n: "charge_slot_count 1 1 = 1" by (simp add: charge_slot_count_def)
  have pack: "late_pack_charge_starts [a] 1 pr_eur (1/10) = {0}"
    by (simp add: late_pack_charge_starts_def windows_def best_of_def pack_step_def buyable_window_def
          starts_of_def a)
  show ?thesis
    by (simp add: dp adaptive_sizing_of_def Let_def sh ex auto u n m cov a b pack)
qed

theorem adaptive_buys_only_the_shortfall_witness:
  "let p = plan_adaptive demo_prices [] 0 10 demo_load demo_adaptive
   in map sl_intent (pl_slots p) = [GRID_CHARGE_TO_TARGET, DISCHARGE_FOR_LOAD] \<and>
      real (card {sl_start s |s. s \<in> set (pl_slots p) \<and> sl_intent s = GRID_CHARGE_TO_TARGET \<and>
                   \<not> map_get (price_map demo_prices) (sl_start s) 0 < 0}) < 2"
proof -
  define sz where "sz = adaptive_sizing_of demo_adaptive 10 demo_load [] demo_prices"
  have sz: "as_charge_set sz = {0}" "as_peaks sz = {SLOT}" "as_target_soc sz = 20" "as_last_need sz = Some SLOT"
    using demo_adaptive_sizing by (simp_all add: sz_def Let_def)
  have eta: "eta_of 1 = 1" by (simp add: eta_of_def)
  have cfg: "ad_per_slot_kwh demo_adaptive = 1" "ad_reserve_kwh demo_adaptive = 1" "ad_usable_kwh demo_adaptive = 10"
    "ad_rte demo_adaptive = 1" "ad_max_charge_w demo_adaptive = 4000"
    by (simp_all add: demo_adaptive_def ad_reserve_kwh_def ad_per_slot_kwh_def eta)
  obtain s1 s2 where ss: "adaptive_walk demo_adaptive demo_load (p50_map []) sz 1 demo_prices = [s1, s2]"
    and s1: "sl_start s1 = 0" "sl_intent s1 = GRID_CHARGE_TO_TARGET" "sl_power_w s1 = Some 4000"
    and s2: "sl_start s2 = SLOT" "sl_intent s2 = DISCHARGE_FOR_LOAD" "sl_power_w s2 = Some 4000"
    by (simp add: demo_prices_def adaptive_step_def Let_def sz cfg plan_slot0_def slot_deficit_kwh_def net_w_def
          demo_load_def p50_map_def eta py_round_def py_round0_def)
  let ?base = "plan_adaptive_base demo_prices [] 0 10 demo_load demo_adaptive"
  have hz: "slice_price_horizon demo_prices 0 (ad_tz demo_adaptive) (ad_of_wall demo_adaptive)
      (ad_horizon_slots demo_adaptive) = demo_prices" by (simp add: demo_adaptive_def demo_horizon)
  have slots: "pl_slots ?base = [s1, s2]" "pl_created_at ?base = 0"
    unfolding plan_adaptive_base_def hz sz_def [symmetric] Let_def
    using ss by (simp_all add: plan0_def cfg demo_prices_def)
  have day: "local_date utc 0 = 0" by (simp add: local_date_def utc_def)
  have g: "clamp_grid_charge ?base (Some 0) 12 (ac_grid_kwh_per_slot 4000) utc = ?base"
    by (simp add: clamp_grid_charge_def slots charge_budget_of_def s1 s2 day plan_day_def day_budget_def
          BUDGET_EPS_def slot_grid_kwh_def remaining_fraction_def SLOT_HOURS_def)
  have c: "clamp_cycle_budget ?base (Some 0) (Some 0) (3/2) 10 1 4000 utc = ?base"
    by (simp add: clamp_cycle_budget_def slots resolved_cycle_history_def cycle_budget_of_def restricted_intent_def
          s1 s2 cycle_base_def cycle_kwh_def slot_cycle_kwh_def remaining_fraction_def SLOT_HOURS_def eta day
          plan_day_def equivalent_full_cycles_def CYCLE_EPS_def local_date_def utc_def)
  have plan: "plan_adaptive demo_prices [] 0 10 demo_load demo_adaptive = ?base"
    using g c by (simp add: plan_adaptive_def adaptive_budgets_def Let_def) (simp add: demo_adaptive_def)
  let ?B = "{sl_start s |s. s \<in> set (pl_slots (plan_adaptive demo_prices [] 0 10 demo_load demo_adaptive)) \<and>
      sl_intent s = GRID_CHARGE_TO_TARGET \<and> \<not> map_get (price_map demo_prices) (sl_start s) 0 < 0}"
  have "real (card ?B) * ad_per_slot_kwh demo_adaptive
      < adaptive_shortfall demo_adaptive 10 demo_load [] demo_prices + ad_per_slot_kwh demo_adaptive"
    by (rule conjunct1 [OF adaptive_buys_only_the_shortfall [OF refl hz [symmetric] _ refl]]) (simp add: cfg)
  moreover have "adaptive_shortfall demo_adaptive 10 demo_load [] demo_prices \<le> 1"
  proof -
    have "coverable_kwh demo_adaptive demo_load (p50_map []) demo_prices = 1"
      by (simp add: coverable_kwh_def demo_prices_def net_w_def demo_load_def p50_map_def cfg eta)
    moreover have "0 \<le> solar_to_batt_kwh demo_adaptive demo_load [] demo_prices"
      unfolding solar_to_batt_kwh_def cfg eta by (intro sum_list_nonneg) auto
    ultimately show ?thesis by (simp add: adaptive_shortfall_def)
  qed
  ultimately have "real (card ?B) < 2" by (simp add: cfg)
  then show ?thesis unfolding Let_def by (simp add: plan slots s1 s2)
qed

end
