(* ===== verification/SummerPlanner.thy ===== *)
theory SummerPlanner
  imports LatePack Economics GridBudget
begin

section \<open>The solar-first planner (\<open>ems/planner/summer.py\<close>)\<close>

text \<open>
  Fill the battery from the sun of the next daylight period and buy only what is still missing for the
  night, in the cheapest slots before the deadline. The search for the daylight period is a recursion
  over the price slots that remembers the last daylight slot it kept.
\<close>

definition DAYLIGHT_W :: real where "DAYLIGHT_W = 20"

record summer_config =
  su_usable_kwh :: real
  su_target_soc_pct :: real
  su_rte :: real
  su_max_charge_w :: real
  su_expected_load_w :: real
  su_solar_confidence :: real
  su_allow_topup :: bool
  su_max_topup_price :: real
  su_degradation :: real
  su_risk :: real
  su_horizon_slots :: nat
  su_negative_soak :: bool
  su_daily_cap_kwh :: real
  su_already_bought :: "real option"
  su_tz :: zone
  su_of_wall :: "int \<Rightarrow> instant"

subsection \<open>The next daylight period\<close>

fun sunset_walk :: "instant \<Rightarrow> instant option \<Rightarrow> forecast_slot list \<Rightarrow> instant option" where
  "sunset_walk now run [] = run"
| "sunset_walk now run (f # fs) =
     (if fc_start f + SLOT \<le> now then sunset_walk now run fs
      else if DAYLIGHT_W < fc_p50_w f
      then (case run of
              Some t \<Rightarrow> if SLOT < fc_start f - t then run else sunset_walk now (Some (fc_start f)) fs
            | None \<Rightarrow> sunset_walk now (Some (fc_start f)) fs)
      else if run \<noteq> None then run
      else sunset_walk now run fs)"

definition sunset_after :: "forecast_slot list \<Rightarrow> instant \<Rightarrow> instant option" where
  "sunset_after forecast now = sunset_walk now None forecast"

fun daylight_run :: "(instant \<rightharpoonup> real) \<Rightarrow> instant option \<Rightarrow> price_slot list \<Rightarrow> price_slot list" where
  "daylight_run p50 prev [] = []"
| "daylight_run p50 prev (p # ps) =
     (if DAYLIGHT_W < map_get p50 (pr_start p) 0
      then (case prev of
              Some t \<Rightarrow> if SLOT < pr_start p - t then [] else p # daylight_run p50 (Some (pr_start p)) ps
            | None \<Rightarrow> p # daylight_run p50 (Some (pr_start p)) ps)
      else if prev \<noteq> None then []
      else daylight_run p50 prev ps)"

record solar_day =
  sd_window :: "price_slot list"
  sd_deadline :: "instant option"

definition solar_day_of :: "(instant \<rightharpoonup> real) \<Rightarrow> instant \<Rightarrow> price_slot list \<Rightarrow> solar_day" where
  "solar_day_of p50 now future =
     (let daytime = daylight_run p50 None future
      in if daytime = [] then \<lparr>sd_window = [], sd_deadline = None\<rparr>
         else if pr_start (hd daytime) \<le> now + SLOT
         then \<lparr>sd_window = daytime, sd_deadline = Some (pr_start (last daytime))\<rparr>
         else \<lparr>sd_window = [], sd_deadline = Some (pr_start (hd daytime) - SLOT)\<rparr>)"

subsection \<open>What to buy\<close>

definition su_per_slot_kwh :: "summer_config \<Rightarrow> real" where
  "su_per_slot_kwh cfg = su_max_charge_w cfg * (1/4) / 1000 * eta_of (su_rte cfg)"

definition su_current_kwh :: "summer_config \<Rightarrow> real \<Rightarrow> real" where
  "su_current_kwh cfg soc_pct = max 0 (min 100 soc_pct) / 100 * su_usable_kwh cfg"

definition su_target_kwh :: "summer_config \<Rightarrow> real" where
  "su_target_kwh cfg = min (su_usable_kwh cfg) (max 0 (su_target_soc_pct cfg) / 100 * su_usable_kwh cfg)"

definition solar_charge_kwh :: "summer_config \<Rightarrow> (instant \<rightharpoonup> real) \<Rightarrow> price_slot list \<Rightarrow> real" where
  "solar_charge_kwh cfg p50 window =
     sum_list (map (\<lambda>p. max 0 (max 0 (min 1 (su_solar_confidence cfg)) * map_get p50 (pr_start p) 0
                               - su_expected_load_w cfg) * (1/4) / 1000 * eta_of (su_rte cfg)) window)"

definition summer_shortfall :: "summer_config \<Rightarrow> (instant \<rightharpoonup> real) \<Rightarrow> instant \<Rightarrow> price_slot list \<Rightarrow> real \<Rightarrow> real" where
  "summer_shortfall cfg p50 now future soc_pct =
     max 0 (su_target_kwh cfg - su_current_kwh cfg soc_pct
            - solar_charge_kwh cfg p50 (sd_window (solar_day_of p50 now future)))"

definition topup_price_limit :: "summer_config \<Rightarrow> price_slot list \<Rightarrow> instant option \<Rightarrow> real" where
  "topup_price_limit cfg future deadline =
     (case deadline of
        None \<Rightarrow> su_max_topup_price cfg
      | Some d \<Rightarrow>
          (let overnight = map pr_eur (filter (\<lambda>p. d < pr_start p) future)
           in if overnight = [] then su_max_topup_price cfg
              else min (su_max_topup_price cfg)
                     (max_buy_for_peak (Max (set overnight)) (su_rte cfg) (su_degradation cfg) (su_risk cfg))))"

definition topup_eligible :: "summer_config \<Rightarrow> real \<Rightarrow> instant option \<Rightarrow> price_slot \<Rightarrow> bool" where
  "topup_eligible cfg limit deadline p =
     (if (case deadline of Some d \<Rightarrow> d < pr_start p | None \<Rightarrow> False) then False
      else if su_allow_topup cfg \<and> pr_eur p \<le> limit then True
      else su_negative_soak cfg \<and> pr_eur p < 0)"

definition summer_grid_set ::
  "summer_config \<Rightarrow> (instant \<rightharpoonup> real) \<Rightarrow> instant \<Rightarrow> price_slot list \<Rightarrow> real \<Rightarrow> instant set" where
  "summer_grid_set cfg p50 now future soc_pct =
     (let deadline = sd_deadline (solar_day_of p50 now future);
          shortfall = summer_shortfall cfg p50 now future soc_pct;
          needed = charge_slot_count shortfall (su_per_slot_kwh cfg);
          affordable = filter (topup_eligible cfg (topup_price_limit cfg future deadline) deadline) future;
          negative = (if su_negative_soak cfg
                      then take (nat needed) (sort_key (\<lambda>p. (pr_eur p, pr_start p))
                                                (filter (\<lambda>p. pr_eur p < 0) affordable))
                      else []);
          paid = starts_of negative
      in if (su_allow_topup cfg \<or> su_negative_soak cfg) \<and> 1/1000000000 < shortfall
         then late_pack_charge_starts (filter (\<lambda>p. pr_start p \<notin> paid) affordable) (needed - int (card paid)) pr_eur
                (if affordable = [] then 0 else Max (pr_eur ` set affordable)) \<union> paid
         else {})"

subsection \<open>The plan\<close>

definition summer_target :: "summer_config \<Rightarrow> real" where
  "summer_target cfg = max 0 (min 100 (su_target_soc_pct cfg))"

definition summer_slot ::
  "summer_config \<Rightarrow> (instant \<rightharpoonup> real) \<Rightarrow> instant set \<Rightarrow> instant option \<Rightarrow> price_slot \<Rightarrow> plan_slot" where
  "summer_slot cfg p50 grid_set deadline p =
     (let solar_w = map_get p50 (pr_start p) 0;
          slot = (\<lambda>i r. (plan_slot0 (pr_start p) i r)
                     \<lparr>sl_target_soc := Some (summer_target cfg), sl_deadline := deadline\<rparr>)
      in if pr_start p \<in> grid_set
         then (slot GRID_CHARGE_TO_TARGET
                 (if su_negative_soak cfg \<and> pr_eur p < 0
                  then [Lit ''grid top-up: price EUR'', Fixed 2 (pr_eur p),
                        Lit ''/kWh below EUR0 -- you are paid to charge'']
                  else [Lit ''grid top-up: cheap EUR'', Fixed 2 (pr_eur p),
                        Lit ''/kWh to reach the night target the sun won't cover'']))
              \<lparr>sl_target_kwh := Some (py_round (su_per_slot_kwh cfg) 3), sl_power_w := Some (su_max_charge_w cfg)\<rparr>
         else if DAYLIGHT_W < solar_w
         then slot ALLOW_SELF_CONSUMPTION
                [Lit ''solar-first: charging from your panels ('', Fixed 0 solar_w, Lit '' W) / self-consumption'']
         else slot ALLOW_SELF_CONSUMPTION [Lit ''overnight: running the house on the battery''])"

definition plan_summer ::
  "price_slot list \<Rightarrow> forecast_slot list \<Rightarrow> instant \<Rightarrow> real \<Rightarrow> summer_config \<Rightarrow> plan" where
  "plan_summer prices forecast now soc_pct cfg =
     (let future = slice_price_horizon prices now (su_tz cfg) (su_of_wall cfg) (su_horizon_slots cfg);
          p50 = p50_map forecast;
          deadline = sd_deadline (solar_day_of p50 now future);
          p = (plan0 now (map (summer_slot cfg p50 (summer_grid_set cfg p50 now future soc_pct) deadline) future))
                \<lparr>pl_strategy := Some ''summer'', pl_target_soc := Some (summer_target cfg), pl_deadline := deadline\<rparr>
      in if future = [] then plan0 now []
         else clamp_grid_charge p (su_already_bought cfg) (su_daily_cap_kwh cfg)
                (ac_grid_kwh_per_slot (su_max_charge_w cfg)) (su_tz cfg))"

subsection \<open>What it buys\<close>

lemma starts_of_mem: "t \<in> starts_of ps \<longleftrightarrow> (\<exists>p\<in>set ps. pr_start p = t)"
  by (auto simp: starts_of_def)

lemma summer_grid_set_mem:
  assumes "t \<in> summer_grid_set cfg p50 now future soc_pct"
    and d: "deadline = sd_deadline (solar_day_of p50 now future)"
  obtains x where "x \<in> set future" "pr_start x = t"
    "topup_eligible cfg (topup_price_limit cfg future deadline) deadline x"
proof -
  let ?A = "filter (topup_eligible cfg (topup_price_limit cfg future deadline) deadline) future"
  define neg where "neg n = (if su_negative_soak cfg
      then take n (sort_key (\<lambda>p. (pr_eur p, pr_start p)) (filter (\<lambda>p. pr_eur p < 0) ?A)) else [])" for n
  have neg: "set (neg n) \<subseteq> set ?A" for n by (auto simp: neg_def dest: in_set_takeD)
  obtain n k m where "t \<in> late_pack_charge_starts (filter (\<lambda>p. pr_start p \<notin> starts_of (neg n)) ?A) k pr_eur m
      \<or> t \<in> starts_of (neg n)"
    using assms(1) unfolding summer_grid_set_def Let_def d [symmetric] neg_def [symmetric]
    by (simp split: if_splits)
  then have "\<exists>x\<in>set ?A. pr_start x = t"
  proof
    assume "t \<in> late_pack_charge_starts (filter (\<lambda>p. pr_start p \<notin> starts_of (neg n)) ?A) k pr_eur m"
    from late_pack_buyable [OF this] show ?thesis by auto
  next
    assume "t \<in> starts_of (neg n)"
    with neg show ?thesis by (fastforce simp: starts_of_mem)
  qed
  with that show thesis by auto
qed

lemma summer_grid_set_card:
  assumes "0 < su_max_charge_w cfg"
  shows "finite (summer_grid_set cfg p50 now future soc_pct)"
    "real (card (summer_grid_set cfg p50 now future soc_pct)) * su_per_slot_kwh cfg
       < summer_shortfall cfg p50 now future soc_pct + su_per_slot_kwh cfg"
proof -
  let ?sh = "summer_shortfall cfg p50 now future soc_pct"
  let ?n = "charge_slot_count ?sh (su_per_slot_kwh cfg)"
  let ?S = "summer_grid_set cfg p50 now future soc_pct"
  have pos: "0 < su_per_slot_kwh cfg" using assms by (simp add: su_per_slot_kwh_def)
  have sh: "0 \<le> ?sh" by (simp add: summer_shortfall_def)
  note n = charge_slot_count_covers [OF pos sh]
  have "finite ?S \<and> int (card ?S) \<le> ?n"
  proof (cases "?S = {}")
    case True
    with n(1) show ?thesis by simp
  next
    case False
    then obtain ps m qs where S: "?S = late_pack_charge_starts ps (?n - int (card (starts_of qs))) pr_eur m \<union> starts_of qs"
      and qs: "length qs \<le> nat ?n"
      unfolding summer_grid_set_def Let_def by (auto split: if_splits)
    let ?L = "late_pack_charge_starts ps (?n - int (card (starts_of qs))) pr_eur m"
    have "card (starts_of qs) \<le> nat ?n" using starts_of_card [of qs] qs by linarith
    with n(1) have "int (card (starts_of qs)) \<le> ?n" by linarith
    moreover have "finite ?L" "int (card ?L) \<le> max 0 (?n - int (card (starts_of qs)))"
      using late_pack_card by blast+
    moreover have "card ?S \<le> card ?L + card (starts_of qs)" unfolding S by (rule card_Un_le)
    ultimately show ?thesis unfolding S by auto
  qed
  then show "finite ?S" "real (card ?S) * su_per_slot_kwh cfg < ?sh + su_per_slot_kwh cfg"
  proof -
    assume a: "finite ?S \<and> int (card ?S) \<le> ?n"
    then show "finite ?S" by blast
    from a have "real (card ?S) \<le> of_int ?n" by linarith
    then have "real (card ?S) * su_per_slot_kwh cfg \<le> of_int ?n * su_per_slot_kwh cfg"
      using pos by (intro mult_right_mono) simp_all
    with n(2) show "real (card ?S) * su_per_slot_kwh cfg < ?sh + su_per_slot_kwh cfg" by linarith
  qed
qed

lemma topup_eligible_pays:
  assumes "topup_eligible cfg (topup_price_limit cfg future deadline) deadline x"
  shows "(\<forall>d. deadline = Some d \<longrightarrow> pr_start x \<le> d) \<and>
         (su_negative_soak cfg \<and> pr_eur x < 0 \<or>
          su_allow_topup cfg \<and> pr_eur x \<le> su_max_topup_price cfg \<and>
          (\<forall>d. deadline = Some d \<and> (\<exists>y\<in>set future. d < pr_start y) \<longrightarrow>
             (\<exists>y\<in>set future. d < pr_start y \<and>
                breakeven (pr_eur x) (su_rte cfg) (su_degradation cfg) (su_risk cfg) \<le> pr_eur y)))"
proof -
  have dear: "\<exists>y\<in>set future. d < pr_start y \<and>
      breakeven (pr_eur x) (su_rte cfg) (su_degradation cfg) (su_risk cfg) \<le> pr_eur y"
    if d: "deadline = Some d" "y \<in> set future" "d < pr_start y" "pr_eur x \<le> topup_price_limit cfg future deadline" for d y
  proof -
    let ?night = "map pr_eur (filter (\<lambda>p. d < pr_start p) future)"
    have ne: "?night \<noteq> []" using d(2,3) by (auto simp: filter_empty_conv)
    then have "pr_eur x \<le> max_buy_for_peak (Max (set ?night)) (su_rte cfg) (su_degradation cfg) (su_risk cfg)"
      using d(4) unfolding topup_price_limit_def d(1) option.case Let_def by simp
    then have "breakeven (pr_eur x) (su_rte cfg) (su_degradation cfg) (su_risk cfg) \<le> Max (set ?night)"
      unfolding breakeven_le_iff .
    moreover have "Max (set ?night) \<in> set ?night" by (rule Max_in) (use ne in \<open>auto simp: filter_empty_conv\<close>)
    ultimately show ?thesis by auto
  qed
  have "pr_eur x \<le> su_max_topup_price cfg" if "pr_eur x \<le> topup_price_limit cfg future deadline"
    using that by (auto simp: topup_price_limit_def Let_def split: option.splits if_splits)
  with assms dear show ?thesis by (auto simp: topup_eligible_def split: if_splits option.splits)
qed

lemma summer_slot_charge:
  "sl_start (summer_slot cfg p50 S deadline x) = pr_start x"
  "sl_intent (summer_slot cfg p50 S deadline x) = GRID_CHARGE_TO_TARGET \<longleftrightarrow> pr_start x \<in> S"
  "sl_target_soc (summer_slot cfg p50 S deadline x) = Some (summer_target cfg)"
  by (simp_all add: summer_slot_def plan_slot0_def Let_def)

lemma summer_bought_slot:
  assumes p: "p = plan_summer prices forecast now soc_pct cfg"
    and future: "future = slice_price_horizon prices now (su_tz cfg) (su_of_wall cfg) (su_horizon_slots cfg)"
    and deadline: "deadline = sd_deadline (solar_day_of (p50_map forecast) now future)"
    and S: "S = summer_grid_set cfg (p50_map forecast) now future soc_pct"
    and c: "c \<in> set (pl_slots p)" "sl_intent c = GRID_CHARGE_TO_TARGET"
  obtains x where "x \<in> set future" "c = summer_slot cfg (p50_map forecast) S deadline x" "pr_start x \<in> S"
proof -
  let ?q = "(plan0 now (map (summer_slot cfg (p50_map forecast) S deadline) future))
              \<lparr>pl_strategy := Some ''summer'', pl_target_soc := Some (summer_target cfg), pl_deadline := deadline\<rparr>"
  have "p = (if future = [] then plan0 now []
      else clamp_grid_charge ?q (su_already_bought cfg) (su_daily_cap_kwh cfg)
             (ac_grid_kwh_per_slot (su_max_charge_w cfg)) (su_tz cfg))"
    by (simp add: p plan_summer_def Let_def future deadline S)
  with c(1) have m: "c \<in> set (pl_slots (clamp_grid_charge ?q (su_already_bought cfg) (su_daily_cap_kwh cfg)
             (ac_grid_kwh_per_slot (su_max_charge_w cfg)) (su_tz cfg)))"
    by (auto simp: plan0_def split: if_splits)
  have "c \<in> set (pl_slots ?q)"
    by (rule rewritten_kept [OF clamp_grid_charge_rewrites m]) (simp add: restricts_def c(2))
  then obtain x where x: "x \<in> set future" "c = summer_slot cfg (p50_map forecast) S deadline x"
    by (auto simp: plan0_def)
  moreover have "pr_start x \<in> S" using c(2) unfolding x(2) summer_slot_charge(2) .
  ultimately show ?thesis by (rule that)
qed

lemma summer_count:
  assumes w: "0 < su_max_charge_w cfg" and sub: "B \<subseteq> summer_grid_set cfg p50 now future soc_pct"
  shows "real (card B) * su_per_slot_kwh cfg < summer_shortfall cfg p50 now future soc_pct + su_per_slot_kwh cfg"
proof -
  have "card B \<le> card (summer_grid_set cfg p50 now future soc_pct)"
    using summer_grid_set_card(1) [OF w] sub by (intro card_mono) simp_all
  moreover have "0 \<le> su_per_slot_kwh cfg" using w by (simp add: su_per_slot_kwh_def)
  ultimately have "real (card B) * su_per_slot_kwh cfg
      \<le> real (card (summer_grid_set cfg p50 now future soc_pct)) * su_per_slot_kwh cfg"
    by (intro mult_right_mono) simp_all
  from le_less_trans [OF this summer_grid_set_card(2) [OF w]] show ?thesis .
qed

text \<open>
  C28. The solar-first planner tops up from the grid only for what the sun leaves open. In the plan it
  returns the charging slots store less than the shortfall to the night target plus one slot; each of
  them aims at the night target and not at a full battery, starts no later than the deadline, and
  either has a negative price with the opt-in soak on, or costs at most the configured limit and, when
  there are slots after the deadline, no more than pays for itself in the dearest of them.
\<close>

theorem summer_topup_is_bounded:
  assumes p: "p = plan_summer prices forecast now soc_pct cfg"
    and future: "future = slice_price_horizon prices now (su_tz cfg) (su_of_wall cfg) (su_horizon_slots cfg)"
    and deadline: "deadline = sd_deadline (solar_day_of (p50_map forecast) now future)"
    and w: "0 < su_max_charge_w cfg"
    and bought: "bought = {s \<in> set (pl_slots p). sl_intent s = GRID_CHARGE_TO_TARGET}"
  shows "real (card (sl_start ` bought)) * su_per_slot_kwh cfg
           < summer_shortfall cfg (p50_map forecast) now future soc_pct + su_per_slot_kwh cfg \<and>
         (\<forall>c\<in>bought. sl_target_soc c = Some (summer_target cfg) \<and>
            (\<forall>d. deadline = Some d \<longrightarrow> sl_start c \<le> d) \<and>
            (\<exists>x\<in>set future. pr_start x = sl_start c \<and>
               (su_negative_soak cfg \<and> pr_eur x < 0 \<or>
                su_allow_topup cfg \<and> pr_eur x \<le> su_max_topup_price cfg \<and>
                (\<forall>d. deadline = Some d \<and> (\<exists>y\<in>set future. d < pr_start y) \<longrightarrow>
                   (\<exists>y\<in>set future. d < pr_start y \<and>
                      breakeven (pr_eur x) (su_rte cfg) (su_degradation cfg) (su_risk cfg) \<le> pr_eur y)))))"
proof -
  define S where S: "S = summer_grid_set cfg (p50_map forecast) now future soc_pct"
  have made: "\<exists>x\<in>set future. c = summer_slot cfg (p50_map forecast) S deadline x \<and> pr_start x \<in> S"
    if "c \<in> bought" for c
    using summer_bought_slot [OF p future deadline S] that unfolding bought by blast
  then have "sl_start ` bought \<subseteq> S" by (fastforce simp: summer_slot_charge)
  from summer_count [OF w this [unfolded S]]
  have count: "real (card (sl_start ` bought)) * su_per_slot_kwh cfg
           < summer_shortfall cfg (p50_map forecast) now future soc_pct + su_per_slot_kwh cfg" .
  show ?thesis
  proof (intro conjI ballI count)
    fix c
    assume "c \<in> bought"
    from made [OF this] obtain x where x: "x \<in> set future"
      "c = summer_slot cfg (p50_map forecast) S deadline x" "pr_start x \<in> S" by blast
    from x(3) [unfolded S] deadline obtain z where z: "z \<in> set future" "pr_start z = pr_start x"
      "topup_eligible cfg (topup_price_limit cfg future deadline) deadline z"
      by (rule summer_grid_set_mem)
    note pays = topup_eligible_pays [OF z(3)]
    show "sl_target_soc c = Some (summer_target cfg)" by (simp add: x(2) summer_slot_charge)
    show "\<forall>d. deadline = Some d \<longrightarrow> sl_start c \<le> d"
      using pays z(2) by (simp add: x(2) summer_slot_charge)
    show "\<exists>x\<in>set future. pr_start x = sl_start c \<and>
               (su_negative_soak cfg \<and> pr_eur x < 0 \<or>
                su_allow_topup cfg \<and> pr_eur x \<le> su_max_topup_price cfg \<and>
                (\<forall>d. deadline = Some d \<and> (\<exists>y\<in>set future. d < pr_start y) \<longrightarrow>
                   (\<exists>y\<in>set future. d < pr_start y \<and>
                      breakeven (pr_eur x) (su_rte cfg) (su_degradation cfg) (su_risk cfg) \<le> pr_eur y)))"
      by (rule bexI [OF _ z(1)]) (use pays z(2) in \<open>simp add: x(2) summer_slot_charge\<close>)
  qed
qed

text \<open>A morning with the sun an hour away: the cheap quarter hour before it is bought, the dear one is not.\<close>

definition demo_summer :: summer_config where
  "demo_summer =
     \<lparr>su_usable_kwh = 10, su_target_soc_pct = 20, su_rte = 1, su_max_charge_w = 4000, su_expected_load_w = 600,
      su_solar_confidence = 8/10, su_allow_topup = True, su_max_topup_price = 3/10, su_degradation = 0,
      su_risk = 0, su_horizon_slots = 96, su_negative_soak = False, su_daily_cap_kwh = 12,
      su_already_bought = Some 0, su_tz = utc, su_of_wall = (\<lambda>_. 0)\<rparr>"

lemma demo_summer_plan:
  obtains s1 s2 where "pl_slots (plan_summer demo_prices [] 0 10 demo_summer) = [s1, s2]"
    "sl_start s1 = 0" "sl_intent s1 = GRID_CHARGE_TO_TARGET" "sl_power_w s1 = Some 4000"
    "sl_start s2 = SLOT" "sl_intent s2 = ALLOW_SELF_CONSUMPTION"
    "pl_created_at (plan_summer demo_prices [] 0 10 demo_summer) = 0"
proof -
  obtain a b where dp: "demo_prices = [a, b]" and a: "pr_start a = 0" "pr_eur a = 1/10"
    and b: "pr_start b = SLOT" "pr_eur b = 5/10"
    by (simp add: demo_prices_def)
  have eta: "eta_of 1 = 1" by (simp add: eta_of_def)
  have cfg: "su_tz demo_summer = utc" "su_of_wall demo_summer = (\<lambda>_. 0)" "su_horizon_slots demo_summer = 96"
    "su_per_slot_kwh demo_summer = 1" "su_target_kwh demo_summer = 2" "su_current_kwh demo_summer 10 = 1"
    "su_already_bought demo_summer = Some 0" "su_daily_cap_kwh demo_summer = 12" "su_max_charge_w demo_summer = 4000"
    "su_allow_topup demo_summer" "\<not> su_negative_soak demo_summer"
    by (simp_all add: demo_summer_def su_per_slot_kwh_def eta su_target_kwh_def su_current_kwh_def)
  have m: "p50_map [] = Map.empty" by (simp add: p50_map_def)
  have day: "solar_day_of Map.empty 0 [a, b] = \<lparr>sd_window = [], sd_deadline = None\<rparr>"
    by (simp add: solar_day_of_def DAYLIGHT_W_def)
  have sh: "summer_shortfall demo_summer Map.empty 0 [a, b] 10 = 1"
    by (simp add: summer_shortfall_def day solar_charge_kwh_def cfg)
  have el: "topup_eligible demo_summer (topup_price_limit demo_summer [a, b] None) None a"
    "\<not> topup_eligible demo_summer (topup_price_limit demo_summer [a, b] None) None b"
    by (simp_all add: topup_eligible_def topup_price_limit_def a b demo_summer_def)
  have n: "charge_slot_count 1 1 = 1" by (simp add: charge_slot_count_def)
  have set0: "starts_of [] = {}" by (simp add: starts_of_def)
  have S: "summer_grid_set demo_summer Map.empty 0 [a, b] 10 = {0}"
    by (simp add: summer_grid_set_def day sh cfg n el set0 Let_def a)
       (simp add: late_pack_charge_starts_def windows_def best_of_def pack_step_def buyable_window_def
          starts_of_def a)
  obtain s1 s2 where ss: "map (summer_slot demo_summer Map.empty {0} None) [a, b] = [s1, s2]"
    and s1: "sl_start s1 = 0" "sl_intent s1 = GRID_CHARGE_TO_TARGET" "sl_power_w s1 = Some 4000"
    and s2: "sl_start s2 = SLOT" "sl_intent s2 = ALLOW_SELF_CONSUMPTION"
    by (simp add: summer_slot_def Let_def a b plan_slot0_def cfg DAYLIGHT_W_def)
  have "local_date utc 0 = 0" by (simp add: local_date_def utc_def)
  then have "pl_slots (plan_summer demo_prices [] 0 10 demo_summer) = [s1, s2]"
    by (simp add: plan_summer_def cfg demo_horizon m)
       (simp add: dp day S ss [simplified] Let_def cfg clamp_grid_charge_def charge_budget_of_def plan0_def s1 s2
          plan_day_def day_budget_def BUDGET_EPS_def slot_grid_kwh_def remaining_fraction_def SLOT_HOURS_def)
  moreover have "pl_created_at (plan_summer demo_prices [] 0 10 demo_summer) = 0"
    by (simp add: plan_summer_def Let_def clamp_grid_charge_frame plan0_def)
  ultimately show ?thesis using s1 s2 that by blast
qed

theorem summer_topup_is_bounded_witness:
  "let p = plan_summer demo_prices [] 0 10 demo_summer;
       bought = {s \<in> set (pl_slots p). sl_intent s = GRID_CHARGE_TO_TARGET}
   in sl_start ` bought = {0} \<and> (\<exists>x\<in>set demo_prices. pr_start x = 0 \<and> pr_eur x \<le> 3/10)"
proof -
  let ?p = "plan_summer demo_prices [] 0 10 demo_summer"
  let ?B = "{s \<in> set (pl_slots ?p). sl_intent s = GRID_CHARGE_TO_TARGET}"
  have hz: "demo_prices = slice_price_horizon demo_prices 0 (su_tz demo_summer) (su_of_wall demo_summer)
      (su_horizon_slots demo_summer)" by (simp add: demo_summer_def demo_horizon)
  obtain s1 s2 where ss: "pl_slots ?p = [s1, s2]" "sl_start s1 = 0" "sl_intent s1 = GRID_CHARGE_TO_TARGET"
    "sl_intent s2 = ALLOW_SELF_CONSUMPTION"
    by (rule demo_summer_plan)
  have w: "0 < su_max_charge_w demo_summer" by (simp add: demo_summer_def)
  have "s1 \<in> ?B" by (simp add: ss)
  with conjunct2 [OF summer_topup_is_bounded [OF refl hz refl w refl, of "[]" 10]]
  have "\<exists>x\<in>set demo_prices. pr_start x = sl_start s1 \<and>
      (su_negative_soak demo_summer \<and> pr_eur x < 0 \<or> pr_eur x \<le> su_max_topup_price demo_summer)" by blast
  moreover have "\<not> su_negative_soak demo_summer" "su_max_topup_price demo_summer = 3/10"
    by (simp_all add: demo_summer_def)
  moreover have "?B = {s1}" by (auto simp: ss)
  ultimately show ?thesis unfolding Let_def using ss(2) by auto
qed

end
