(* ===== verification/TradingPlanner.thy ===== *)
theory TradingPlanner
  imports LatePack Economics CycleBudget
begin

section \<open>The trading planner (\<open>ems/planner/trading.py\<close>)\<close>

text \<open>
  Path T (buy, store, export) against path Z (the seasonal plan). \<open>_build_path_t\<close> is cut at its
  stages: the market, the export slots within the budgets, the trims, the purchase, the slots. A stage
  that gives up returns the reason; \<open>min\<close> of an empty list raises. The time zone the code reads off the
  first price is an argument, with its wall-to-UTC map, absent when no price has one. Reading the
  settings store (\<open>trading_config_from_settings\<close>) is not modelled.
\<close>

record trading_config =
  tr_enabled :: bool
  tr_min_extra :: real
  tr_max_export_kwh :: real
  tr_min_export_kwh :: real
  tr_export_mode :: string
  tr_max_cycles :: real
  tr_charged_today :: "real option"
  tr_discharged_today :: "real option"
  tr_daily_min :: real
  tr_export_model :: string
  tr_energy_tax :: real
  tr_fixed_feed_in :: real
  tr_rte :: real
  tr_degradation :: real
  tr_risk :: real
  tr_charge_slots :: nat
  tr_discharge_slots :: nat
  tr_horizon_slots :: nat
  tr_max_charge_w :: real
  tr_max_discharge_w :: real
  tr_usable_kwh :: real
  tr_reserve_soc_pct :: real
  tr_import_fee :: real
  tr_includes_all_fees :: bool
  tr_assumed_load_w :: real

type_synonym price_zone = "(zone \<times> (int \<Rightarrow> instant)) option"

definition tr_import_price :: "trading_config \<Rightarrow> price_slot \<Rightarrow> real" where
  "tr_import_price cfg p = (if tr_includes_all_fees cfg then pr_eur p else pr_eur p + tr_import_fee cfg)"

definition tr_credit :: "trading_config \<Rightarrow> real \<Rightarrow> real" where
  "tr_credit cfg spot = export_value spot (tr_export_model cfg) (tr_energy_tax cfg) (tr_fixed_feed_in cfg)"

definition slot_export_ac :: "trading_config \<Rightarrow> real" where
  "slot_export_ac cfg = max 0 (tr_max_discharge_w cfg) * (1/4) / 1000"

definition slot_charge_dc :: "trading_config \<Rightarrow> real" where
  "slot_charge_dc cfg = stored_kwh_per_slot (tr_max_charge_w cfg) (tr_rte cfg)"

definition house_kwh_at :: "trading_config \<Rightarrow> (instant \<rightharpoonup> real) option \<Rightarrow> instant \<Rightarrow> real" where
  "house_kwh_at cfg load_by t =
     (case load_by of
        Some m \<Rightarrow> (case m t of Some w \<Rightarrow> max 0 w * (1/4) / 1000 | None \<Rightarrow> 0)
      | None \<Rightarrow> max 0 (tr_assumed_load_w cfg) * (1/4) / 1000)"

subsection \<open>What path Z is worth\<close>

fun serve_house ::
  "trading_config \<Rightarrow> (instant \<rightharpoonup> real) option \<Rightarrow> real \<Rightarrow> price_slot list \<Rightarrow> real" where
  "serve_house cfg load_by remaining [] = 0"
| "serve_house cfg load_by remaining (p # ps) =
     (if remaining \<le> 1/1000000000 then 0
      else
        (let house = house_kwh_at cfg load_by (pr_start p);
             served = min (min remaining house) (slot_export_ac cfg)
         in if house \<le> 1/1000000000 \<or> served \<le> 1/1000000000 then serve_house cfg load_by remaining ps
            else (tr_import_price cfg p - tr_degradation cfg) * served
                 + serve_house cfg load_by (remaining - served) ps))"

definition score_z_house_opportunity ::
  "price_slot list \<Rightarrow> trading_config \<Rightarrow> real \<Rightarrow> (instant \<rightharpoonup> real) option \<Rightarrow> instant set \<Rightarrow> real" where
  "score_z_house_opportunity prices cfg existing_ac load_by excluded =
     (if existing_ac \<le> 1/1000000000 then 0
      else serve_house cfg load_by existing_ac
             (sort_key (\<lambda>p. (- tr_import_price cfg p, pr_start p)) (filter (\<lambda>p. pr_start p \<notin> excluded) prices)))"

definition import_map :: "trading_config \<Rightarrow> price_slot list \<Rightarrow> (instant \<rightharpoonup> real)" where
  "import_map cfg ps = fold (\<lambda>p m. m(pr_start p \<mapsto> tr_import_price cfg p)) ps Map.empty"

definition map_min :: "(instant \<rightharpoonup> real) \<Rightarrow> price_slot list \<Rightarrow> real" where
  "map_min m ps = (if ps = [] then 0 else Min ((\<lambda>t. map_get m t 0) ` set (map pr_start ps)))"

definition score_z_plan ::
  "plan \<Rightarrow> price_slot list \<Rightarrow> trading_config \<Rightarrow> real \<Rightarrow> (instant \<rightharpoonup> real) option \<Rightarrow> real" where
  "score_z_plan z prices cfg existing_ac load_by =
     (let price_by = import_map cfg prices;
          ch = filter (\<lambda>s. sl_intent s = GRID_CHARGE_TO_TARGET) (pl_slots z);
          dis = filter (\<lambda>s. sl_intent s = DISCHARGE_FOR_LOAD) (pl_slots z);
          charge_price = (if ch \<noteq> [] then Max ((\<lambda>s. map_get price_by (sl_start s) 0) ` set ch)
                          else map_min price_by prices);
          be = breakeven charge_price (tr_rte cfg) (tr_degradation cfg) (tr_risk cfg);
          arb = sum_list (map (\<lambda>s. (let benefit = map_get price_by (sl_start s) 0 - be
                                    in if 0 < benefit then benefit * opt_else (sl_target_kwh s) (slot_export_ac cfg)
                                       else 0)) dis)
      in max (if dis = [] then 0 else arb) (score_z_house_opportunity prices cfg existing_ac load_by {}))"

subsection \<open>What path T is worth\<close>

definition score_t_plan ::
  "instant set \<Rightarrow> instant set \<Rightarrow> price_slot list \<Rightarrow> trading_config \<Rightarrow> real \<Rightarrow> real \<Rightarrow> real" where
  "score_t_plan charge_starts export_starts horizon cfg export_ac charge_dc =
     (let import_by = import_map cfg horizon;
          avg_charge = (if charge_starts \<noteq> {}
                        then (\<Sum>t\<in>charge_starts. map_get import_by t 0) / real (card charge_starts)
                        else map_min import_by horizon);
          be = breakeven avg_charge (tr_rte cfg) (tr_degradation cfg) (tr_risk cfg);
          per_slot = export_ac / real (card export_starts);
          revenue = (\<Sum>t\<in>export_starts. tr_credit cfg (map_get (price_map horizon) t 0) * per_slot);
          bought_ac = min export_ac (charge_dc * eta_of (tr_rte cfg));
          from_store_ac = max 0 (export_ac - bought_ac)
      in if export_starts = {} \<or> export_ac \<le> 1/1000000000 then 0
         else revenue - (be * bought_ac + tr_degradation cfg * from_store_ac))"

subsection \<open>The market\<close>

definition tr_horizon :: "price_slot list \<Rightarrow> instant \<Rightarrow> trading_config \<Rightarrow> price_zone \<Rightarrow> price_slot list" where
  "tr_horizon prices now cfg pz =
     (case pz of
        None \<Rightarrow> take (tr_horizon_slots cfg) (filter (\<lambda>p. now < pr_start p + SLOT) prices)
      | Some (tz, of_wall) \<Rightarrow> slice_price_horizon prices now tz of_wall (tr_horizon_slots cfg))"

definition all_auto_plan :: "price_slot list \<Rightarrow> instant \<Rightarrow> trading_config \<Rightarrow> price_zone \<Rightarrow> message \<Rightarrow> plan" where
  "all_auto_plan prices now cfg pz reason =
     (plan0 now (map (\<lambda>p. (plan_slot0 (pr_start p) ALLOW_SELF_CONSUMPTION
                            (reason @ [Lit '' (EUR'', Fixed 2 (pr_eur p), Lit ''/kWh)'']))
                          \<lparr>sl_floor_soc := Some (tr_reserve_soc_pct cfg)\<rparr>) (tr_horizon prices now cfg pz)))
       \<lparr>pl_strategy := Some ''auto''\<rparr>"

definition tr_charge_pool :: "trading_config \<Rightarrow> price_slot list \<Rightarrow> price_slot list" where
  "tr_charge_pool cfg horizon =
     take (tr_charge_slots cfg)
       (sort_key (\<lambda>p. (map_get (import_map cfg horizon) (pr_start p) 0, pr_start p)) horizon)"

definition tr_breakeven :: "trading_config \<Rightarrow> price_slot list \<Rightarrow> real" where
  "tr_breakeven cfg horizon =
     (let pool = tr_charge_pool cfg horizon;
          price = (if pool = [] then 0
                   else Max ((\<lambda>p. map_get (import_map cfg horizon) (pr_start p) 0) ` set pool))
      in breakeven price (tr_rte cfg) (tr_degradation cfg) (tr_risk cfg))"

definition export_net :: "trading_config \<Rightarrow> price_slot list \<Rightarrow> price_slot \<Rightarrow> real" where
  "export_net cfg horizon p = tr_credit cfg (pr_eur p) - tr_breakeven cfg horizon"

definition profitable_slots :: "trading_config \<Rightarrow> price_slot list \<Rightarrow> price_slot list" where
  "profitable_slots cfg horizon =
     filter (\<lambda>p. 1/1000000000 < export_net cfg horizon p \<and> 0 < tr_credit cfg (pr_eur p))
       (sort_key (\<lambda>p. (- export_net cfg horizon p, pr_start p)) horizon)"

definition export_candidates :: "trading_config \<Rightarrow> price_slot list \<Rightarrow> price_slot list" where
  "export_candidates cfg horizon =
     (if tr_export_mode cfg = ''full_dump'' then profitable_slots cfg horizon
      else take (tr_discharge_slots cfg) (profitable_slots cfg horizon))"

subsection \<open>The budgets of a trade\<close>

definition tr_reserve_kwh :: "trading_config \<Rightarrow> real" where
  "tr_reserve_kwh cfg = tr_reserve_soc_pct cfg / 100 * tr_usable_kwh cfg"

definition tr_avail :: "trading_config \<Rightarrow> real \<Rightarrow> real" where
  "tr_avail cfg soc_pct = max 0 (soc_pct / 100 * tr_usable_kwh cfg - tr_reserve_kwh cfg)"

definition tr_headroom :: "trading_config \<Rightarrow> real \<Rightarrow> real" where
  "tr_headroom cfg soc_pct = max 0 (tr_usable_kwh cfg - tr_reserve_kwh cfg - tr_avail cfg soc_pct)"

definition tr_history :: "trading_config \<Rightarrow> real \<times> real" where
  "tr_history cfg = resolved_cycle_history (tr_charged_today cfg) (tr_discharged_today cfg)"

definition used_efc :: "trading_config \<Rightarrow> real" where
  "used_efc cfg = equivalent_full_cycles (fst (tr_history cfg)) (snd (tr_history cfg)) (tr_usable_kwh cfg)"

definition max_export_from_cycles :: "trading_config \<Rightarrow> real" where
  "max_export_from_cycles cfg = max 0 (tr_max_cycles cfg - used_efc cfg) * 2 * tr_usable_kwh cfg / 2"

text \<open>May \<open>export_ac\<close> grow to \<open>e\<close>?\<close>

definition export_fits :: "trading_config \<Rightarrow> real \<Rightarrow> real \<Rightarrow> bool" where
  "export_fits cfg soc_pct e =
     (\<not> (0 < tr_max_export_kwh cfg \<and> tr_max_export_kwh cfg + 1/1000000000 < e) \<and>
      \<not> max_export_from_cycles cfg + 1/1000000000 < e \<and>
      \<not> tr_avail cfg soc_pct + tr_headroom cfg soc_pct + 1/1000000000 < e / eta_of (tr_rte cfg))"

fun pick_exports :: "trading_config \<Rightarrow> real \<Rightarrow> real \<Rightarrow> price_slot list \<Rightarrow> instant list" where
  "pick_exports cfg soc_pct export_ac [] = []"
| "pick_exports cfg soc_pct export_ac (p # ps) =
     (if export_fits cfg soc_pct (export_ac + slot_export_ac cfg)
      then pr_start p # pick_exports cfg soc_pct (export_ac + slot_export_ac cfg) ps
      else [])"

text \<open>\<open>while starts and \<dots>: starts.pop()\<close>, the test depending on the number of starts.\<close>

fun trim_rev :: "(nat \<Rightarrow> bool) \<Rightarrow> 'a list \<Rightarrow> 'a list" where
  "trim_rev bad [] = []"
| "trim_rev bad (x # xs) = (if bad (Suc (length xs)) then trim_rev bad xs else x # xs)"

definition trim_while :: "(nat \<Rightarrow> bool) \<Rightarrow> 'a list \<Rightarrow> 'a list" where
  "trim_while bad xs = rev (trim_rev bad (rev xs))"

definition buy_dc :: "trading_config \<Rightarrow> real \<Rightarrow> real \<Rightarrow> real" where
  "buy_dc cfg soc_pct export_ac =
     max 0 (min (export_ac / eta_of (tr_rte cfg) - tr_avail cfg soc_pct) (tr_headroom cfg soc_pct))"

definition trade_charge_count :: "trading_config \<Rightarrow> real \<Rightarrow> int" where
  "trade_charge_count cfg buy =
     (if 1/1000000000 < slot_charge_dc cfg \<and> 1/1000000000 < buy then \<lceil>buy / slot_charge_dc cfg\<rceil> else 0)"

definition trade_charge_starts :: "trading_config \<Rightarrow> price_slot list \<Rightarrow> real \<Rightarrow> instant set" where
  "trade_charge_starts cfg pool_pre buy = starts_of (take (nat (trade_charge_count cfg buy)) pool_pre)"

definition trade_stored_dc :: "trading_config \<Rightarrow> price_slot list \<Rightarrow> real \<Rightarrow> real" where
  "trade_stored_dc cfg pool_pre buy =
     (if trade_charge_starts cfg pool_pre buy \<noteq> {}
      then min buy (real (card (trade_charge_starts cfg pool_pre buy)) * slot_charge_dc cfg) else 0)"

definition cycles_exceeded :: "trading_config \<Rightarrow> real \<Rightarrow> real \<Rightarrow> bool" where
  "cycles_exceeded cfg stored export_ac =
     (0 < tr_usable_kwh cfg \<and>
      tr_max_cycles cfg + 1/1000000000 <
        equivalent_full_cycles (fst (tr_history cfg) + stored)
          (snd (tr_history cfg) + export_ac / eta_of (tr_rte cfg)) (tr_usable_kwh cfg))"

subsection \<open>Sizing a trade\<close>

record trade =
  td_exports :: "instant list"
  td_charge :: "instant set"
  td_stored_dc :: real
  td_first_export :: instant

definition skip_small :: "trading_config \<Rightarrow> real \<Rightarrow> message" where
  "skip_small cfg e = [Lit ''Geen handel: exportbare surplus '', Fixed 1 e, Lit '' kWh < drempel '',
                       Fixed 1 (tr_min_export_kwh cfg), Lit '' kWh.'']"

definition size_trade :: "trading_config \<Rightarrow> real \<Rightarrow> price_slot list \<Rightarrow> py_error + (message + trade)" where
  "size_trade cfg soc_pct horizon =
     (let slot = slot_export_ac cfg; eta = eta_of (tr_rte cfg);
          picked = pick_exports cfg soc_pct 0 (export_candidates cfg horizon);
          ac = (\<lambda>xs::instant list. real (length xs) * slot);
          first_export = Min (set picked);
          pool_pre = filter (\<lambda>p. pr_start p < first_export) (tr_charge_pool cfg horizon);
          stored = trade_stored_dc cfg pool_pre (buy_dc cfg soc_pct (ac picked));
          deliverable = (tr_avail cfg soc_pct + stored) * eta;
          delivered = trim_while (\<lambda>n. deliverable + 1/1000000000 < real n * slot) picked;
          cycled = trim_while (\<lambda>n. cycles_exceeded cfg stored (real n * slot)) delivered;
          buy = buy_dc cfg soc_pct (ac cycled)
      in if ac picked < tr_min_export_kwh cfg - 1/1000000000 then Inr (Inl (skip_small cfg (ac picked)))
         else if picked = [] then Inl ValueError
         else if deliverable < tr_min_export_kwh cfg - 1/1000000000
         then Inr (Inl [Lit ''Geen handel: onvoldoende energie boven reserve (~'', Fixed 1 deliverable,
                        Lit '' kWh leverbaar).''])
         else if delivered = [] then Inr (Inl [Lit ''Geen handel: geen exportslots na energiebudget.''])
         else if cycled = [] \<or> ac cycled < tr_min_export_kwh cfg - 1/1000000000
         then Inr (Inl [Lit ''Geen handel: cycle-budget op (>'', Fixed 1 (tr_max_cycles cfg),
                        Lit '' EFC) na trim onder min export.''])
         else Inr (Inr \<lparr>td_exports = cycled, td_charge = trade_charge_starts cfg pool_pre buy,
                        td_stored_dc = trade_stored_dc cfg pool_pre buy, td_first_export = first_export\<rparr>))"

definition trade_export_ac :: "trading_config \<Rightarrow> trade \<Rightarrow> real" where
  "trade_export_ac cfg t = real (length (td_exports t)) * slot_export_ac cfg"

subsection \<open>Path T\<close>

record path_t =
  pt_plan :: "plan option"
  pt_eur :: real
  pt_existing_ac :: real
  pt_skip :: message

definition no_trade :: "message \<Rightarrow> path_t" where
  "no_trade reason = \<lparr>pt_plan = None, pt_eur = 0, pt_existing_ac = 0, pt_skip = reason\<rparr>"

definition daily_min_skip :: "trading_config \<Rightarrow> real \<Rightarrow> message" where
  "daily_min_skip cfg eur =
     [Lit ''Geen handel: geprojecteerde besparing EUR'', Fixed 2 eur, Lit '' < daily_min EUR'',
      Fixed 2 (tr_daily_min cfg), Lit '' -- hele dag no-trade.'']"

definition trade_slot ::
  "trading_config \<Rightarrow> price_slot list \<Rightarrow> trade \<Rightarrow> real option \<Rightarrow> price_slot \<Rightarrow> plan_slot" where
  "trade_slot cfg horizon t target_soc p =
     (let x = pr_start p; exports = set (td_exports t);
          slot = (\<lambda>i r. (plan_slot0 x i r)\<lparr>sl_floor_soc := Some (tr_reserve_soc_pct cfg)\<rparr>);
          eur = [Fixed 2 (pr_eur p), Lit ''/kWh'']
      in if x \<in> td_charge t
         then (slot GRID_CHARGE_TO_TARGET ([Lit ''handelen: laden goedkoop EUR''] @ eur @ [Lit '' (buy-to-sell)'']))
              \<lparr>sl_target_soc := target_soc, sl_target_kwh := Some (py_round (slot_charge_dc cfg) 3),
               sl_power_w := Some (tr_max_charge_w cfg), sl_deadline := Some (td_first_export t)\<rparr>
         else if x \<in> exports
         then (slot EXPORT_FOR_PROFIT
                 [Lit ''handelen: exporteren feed-in EUR'', Fixed 2 (tr_credit cfg (pr_eur p)),
                  Lit ''/kWh > break-even EUR'', Fixed 2 (tr_breakeven cfg horizon),
                  Lit '' (model: '', Lit (tr_export_model cfg), Lit '')''])
              \<lparr>sl_target_kwh := Some (py_round (slot_export_ac cfg) 3), sl_power_w := Some (tr_max_discharge_w cfg)\<rparr>
         else if (\<exists>c\<in>td_charge t. c < x) \<and> (\<exists>e\<in>exports. x < e)
         then slot HOLD_RESERVE ([Lit ''handelen: vasthouden voor exportpiek (nu EUR''] @ eur @ [Lit '')''])
         else slot ALLOW_SELF_CONSUMPTION ([Lit ''zelfconsumptie (EUR''] @ eur @ [Lit '')'']))"

definition trade_target :: "trading_config \<Rightarrow> real \<Rightarrow> trade \<Rightarrow> real option" where
  "trade_target cfg soc_pct t =
     (if 0 < tr_usable_kwh cfg
      then Some (min 100 ((tr_reserve_kwh cfg + tr_avail cfg soc_pct + td_stored_dc t) / tr_usable_kwh cfg * 100))
      else None)"

definition trade_eur :: "trading_config \<Rightarrow> price_slot list \<Rightarrow> trade \<Rightarrow> real" where
  "trade_eur cfg horizon t =
     score_t_plan (td_charge t) (set (td_exports t)) horizon cfg (trade_export_ac cfg t) (td_stored_dc t)"

definition trade_plan :: "trading_config \<Rightarrow> instant \<Rightarrow> real \<Rightarrow> price_slot list \<Rightarrow> trade \<Rightarrow> plan" where
  "trade_plan cfg now soc_pct horizon t =
     (plan0 now (map (trade_slot cfg horizon t (trade_target cfg soc_pct t)) horizon))
       \<lparr>pl_strategy := Some ''trading'', pl_target_soc := trade_target cfg soc_pct t,
        pl_deadline := Some (td_first_export t)\<rparr>"

definition score_trade ::
  "trading_config \<Rightarrow> instant \<Rightarrow> real \<Rightarrow> price_slot list \<Rightarrow> message + trade \<Rightarrow> path_t" where
  "score_trade cfg now soc_pct horizon r =
     (case r of
        Inl reason \<Rightarrow> no_trade reason
      | Inr t \<Rightarrow>
          (let eur = trade_eur cfg horizon t;
               existing = min (trade_export_ac cfg t) (tr_avail cfg soc_pct * eta_of (tr_rte cfg))
           in if eur < tr_daily_min cfg - 1/1000000000
              then \<lparr>pt_plan = None, pt_eur = eur, pt_existing_ac = existing, pt_skip = daily_min_skip cfg eur\<rparr>
              else \<lparr>pt_plan = Some (trade_plan cfg now soc_pct horizon t), pt_eur = eur,
                    pt_existing_ac = existing, pt_skip = []\<rparr>))"

definition build_path_t ::
  "price_slot list \<Rightarrow> instant \<Rightarrow> trading_config \<Rightarrow> price_zone \<Rightarrow> real \<Rightarrow> py_error + path_t" where
  "build_path_t prices now cfg pz soc_pct =
     (let horizon = tr_horizon prices now cfg pz;
          (hist_c, hist_d) = tr_history cfg
      in if horizon = [] then Inr (no_trade [Lit ''Geen handel: geen prijsvensters over.''])
         else if slot_export_ac cfg \<le> 1/1000000000 \<or> tr_max_discharge_w cfg \<le> 0
         then Inr (no_trade [Lit ''Geen handel: geen ontlaadvermogen (probe).''])
         else if profitable_slots cfg horizon = []
         then Inr (no_trade [Lit ''Geen handel: feed-in na model ('', Lit (tr_export_model cfg),
                             Lit '') <= break-even EUR'', Fixed 2 (tr_breakeven cfg horizon), Lit ''/kWh.''])
         else if (0 < hist_c \<or> 0 < hist_d) \<and> tr_max_cycles cfg - 1/1000000000 \<le> used_efc cfg
         then Inr (no_trade ([Lit ''Geen handel: ''] @ cycle_budget_reason (tr_max_cycles cfg)))
         else bind_res (size_trade cfg soc_pct horizon) (\<lambda>r. Inr (score_trade cfg now soc_pct horizon r)))"

subsection \<open>T against Z\<close>

definition shared_savings_block :: "plan \<Rightarrow> price_slot list \<Rightarrow> trading_config \<Rightarrow> message option" where
  "shared_savings_block p prices cfg =
     (if tr_daily_min cfg \<le> 1/1000000000000 then None
      else case estimate_plan_savings (Some p) prices (tr_rte cfg) (tr_degradation cfg) (tr_risk cfg)
                  (tr_import_fee cfg) of
             None \<Rightarrow> None
           | Some shared \<Rightarrow> if tr_daily_min cfg \<le> shared + 1/1000000000 then None
                            else Some (daily_min_skip cfg shared))"

definition WHOLE_DAY :: string where "WHOLE_DAY = ''hele dag no-trade''"

definition winning_plan :: "trading_config \<Rightarrow> real \<Rightarrow> real \<Rightarrow> plan \<Rightarrow> plan" where
  "winning_plan cfg t_eur z_eur t =
     (case pl_slots t of
        [] \<Rightarrow> t
      | s # ss \<Rightarrow>
          (let win = [Lit ''Handelen: pad T levert EUR'', Fixed 2 (t_eur - z_eur), Lit '' meer op dan pad Z (T EUR'',
                      Fixed 2 t_eur, Lit '' - Z EUR'', Fixed 2 z_eur, Lit '' >= drempel EUR'',
                      Fixed 2 (tr_min_extra cfg), Lit ''). ''] @ sl_reason s
           in (plan0 (pl_created_at t) (s\<lparr>sl_reason := win\<rparr> # ss))
                \<lparr>pl_strategy := Some ''trading'', pl_target_soc := pl_target_soc t, pl_deadline := pl_deadline t,
                 pl_id := pl_id t, pl_version := pl_version t, pl_input_snapshot := pl_input_snapshot t,
                 pl_planner_mode := pl_planner_mode t\<rparr>))"

definition maybe_apply_trading ::
  "plan \<Rightarrow> price_slot list \<Rightarrow> instant \<Rightarrow> trading_config option \<Rightarrow> price_zone \<Rightarrow> real
     \<Rightarrow> (instant \<rightharpoonup> real) option \<Rightarrow> py_error + plan" where
  "maybe_apply_trading z prices now requested pz soc_pct load_by =
     (case requested of
        None \<Rightarrow> Inr z
      | Some cfg \<Rightarrow>
          if \<not> tr_enabled cfg then Inr z
          else bind_res (build_path_t prices now cfg pz soc_pct) (\<lambda>r.
            case pt_plan r of
              None \<Rightarrow> if text_has WHOLE_DAY (pt_skip r) then Inr (all_auto_plan prices now cfg pz (pt_skip r)) else Inr z
            | Some t \<Rightarrow>
                (case shared_savings_block t prices cfg of
                   Some block \<Rightarrow> Inr (all_auto_plan prices now cfg pz block)
                 | None \<Rightarrow>
                     (let z_eur = score_z_plan z prices cfg (pt_existing_ac r) load_by
                      in if pt_eur r - z_eur < tr_min_extra cfg - 1/1000000000 then Inr z
                         else Inr (winning_plan cfg (pt_eur r) z_eur t)))))"

subsection \<open>Trims and picks\<close>

lemma trim_rev_drop: "\<exists>k. trim_rev bad xs = drop k xs"
proof (induction xs)
  case (Cons x xs)
  then obtain k where "trim_rev bad xs = drop k xs" by blast
  then have "trim_rev bad (x # xs) = drop (if bad (Suc (length xs)) then Suc k else 0) (x # xs)" by simp
  then show ?case by blast
qed simp

lemma trim_while_take: "\<exists>k. trim_while bad xs = take k xs"
proof -
  obtain k where k: "trim_rev bad (rev xs) = drop k (rev xs)" using trim_rev_drop by blast
  then have "trim_while bad xs = take (length xs - k) xs" by (simp add: trim_while_def rev_drop)
  then show ?thesis by blast
qed

lemma trim_while_length: "length (trim_while bad xs) \<le> length xs"
  using trim_while_take [of bad xs] by (elim exE) simp

lemma trim_while_ok: "trim_while bad xs \<noteq> [] \<Longrightarrow> \<not> bad (length (trim_while bad xs))"
proof -
  have "trim_rev bad ys \<noteq> [] \<Longrightarrow> \<not> bad (length (trim_rev bad ys))" for ys :: "'b list"
    by (induction ys) (auto split: if_splits)
  then show "trim_while bad xs \<noteq> [] \<Longrightarrow> \<not> bad (length (trim_while bad xs))" by (simp add: trim_while_def)
qed

lemma pick_exports_take: "\<exists>k. pick_exports cfg soc_pct e ps = map pr_start (take k ps)"
proof (induction ps arbitrary: e)
  case (Cons p ps)
  obtain k where "pick_exports cfg soc_pct (e + slot_export_ac cfg) ps = map pr_start (take k ps)"
    using Cons.IH by blast
  then have "pick_exports cfg soc_pct e (p # ps) =
      map pr_start (take (if export_fits cfg soc_pct (e + slot_export_ac cfg) then Suc k else 0) (p # ps))" by simp
  then show ?case by blast
qed simp

lemma pick_exports_fits:
  "pick_exports cfg soc_pct e ps \<noteq> [] \<Longrightarrow>
     export_fits cfg soc_pct (e + real (length (pick_exports cfg soc_pct e ps)) * slot_export_ac cfg)"
proof (induction ps arbitrary: e)
  case (Cons p ps)
  let ?s = "slot_export_ac cfg"
  from Cons.prems have fits: "export_fits cfg soc_pct (e + ?s)" by (simp split: if_splits)
  show ?case
  proof (cases "pick_exports cfg soc_pct (e + ?s) ps = []")
    case True
    with fits show ?thesis by simp
  next
    case False
    from Cons.IH [OF this] fits show ?thesis by (simp add: algebra_simps)
  qed
qed simp

lemma slot_export_nonneg [simp]: "0 \<le> slot_export_ac cfg"
  by (simp add: slot_export_ac_def)

lemma slot_charge_nonneg: "0 < slot_charge_dc cfg \<or> trade_charge_count cfg b = 0"
  by (auto simp: trade_charge_count_def)

lemma export_fits_mono: "export_fits cfg soc_pct y \<Longrightarrow> x \<le> y \<Longrightarrow> export_fits cfg soc_pct x"
proof -
  assume f: "export_fits cfg soc_pct y" and le: "x \<le> y"
  have "x / eta_of (tr_rte cfg) \<le> y / eta_of (tr_rte cfg)" using le by (simp add: divide_right_mono)
  with f le show ?thesis by (auto simp: export_fits_def)
qed

subsection \<open>The purchase covers what is exported\<close>

lemma buy_dc_mono: "x \<le> y \<Longrightarrow> buy_dc cfg soc_pct x \<le> buy_dc cfg soc_pct y"
proof -
  assume "x \<le> y"
  then have "x / eta_of (tr_rte cfg) \<le> y / eta_of (tr_rte cfg)" by (simp add: divide_right_mono)
  then show ?thesis by (auto simp: buy_dc_def)
qed

lemma charge_starts_card:
  assumes "distinct (map pr_start pre)"
  shows "card (trade_charge_starts cfg pre b) = min (length pre) (nat (trade_charge_count cfg b))"
proof -
  have "distinct (map pr_start (take (nat (trade_charge_count cfg b)) pre))"
    using assms by (simp add: take_map [symmetric])
  from distinct_card [OF this] show ?thesis by (simp add: trade_charge_starts_def starts_of_def)
qed

lemma trade_stored_eq:
  assumes "distinct (map pr_start pre)" and "1/1000000000 < slot_charge_dc cfg" and "1/1000000000 < b"
  shows "trade_stored_dc cfg pre b = min b (real (length pre) * slot_charge_dc cfg)"
proof -
  let ?s = "slot_charge_dc cfg"
  have n: "trade_charge_count cfg b = \<lceil>b / ?s\<rceil>" using assms by (simp add: trade_charge_count_def)
  have pos: "0 < b / ?s" using assms by simp
  then have ge1: "1 \<le> \<lceil>b / ?s\<rceil>" by linarith
  have cover: "b \<le> real_of_int \<lceil>b / ?s\<rceil> * ?s"
  proof -
    have "0 < ?s" using assms(2) by linarith
    from iffD1 [OF pos_divide_le_eq [OF this], of b "real_of_int \<lceil>b / ?s\<rceil>"] show ?thesis by linarith
  qed
  have fin: "finite (trade_charge_starts cfg pre b)" by (simp add: trade_charge_starts_def)
  note card = charge_starts_card [OF assms(1), of cfg b, unfolded n]
  show ?thesis
  proof (cases "pre = []")
    case True
    then show ?thesis using assms(3) by (simp add: trade_stored_dc_def trade_charge_starts_def starts_of_def)
  next
    case False
    then have "0 < card (trade_charge_starts cfg pre b)" using card ge1 by simp
    then have ne: "trade_charge_starts cfg pre b \<noteq> {}" by auto
    show ?thesis
    proof (cases "nat \<lceil>b / ?s\<rceil> \<le> length pre")
      case True
      then have "real (card (trade_charge_starts cfg pre b)) = real_of_int \<lceil>b / ?s\<rceil>"
        using card ge1 by simp
      moreover have "real_of_int \<lceil>b / ?s\<rceil> * ?s \<le> real (length pre) * ?s"
        using True ge1 assms(2) by (intro mult_right_mono) linarith+
      ultimately show ?thesis using cover ne by (simp add: trade_stored_dc_def)
    next
      case False
      then have "card (trade_charge_starts cfg pre b) = length pre" using card by linarith
      then show ?thesis using ne by (simp add: trade_stored_dc_def)
    qed
  qed
qed

lemma resized_purchase_covers:
  assumes dist: "distinct (map pr_start pre)" and fits: "export_fits cfg soc_pct y" and le: "x \<le> y"
    and enough: "x \<le> (tr_avail cfg soc_pct + trade_stored_dc cfg pre (buy_dc cfg soc_pct y)) * eta_of (tr_rte cfg)
                   + 1/1000000000"
  shows "x \<le> (tr_avail cfg soc_pct + trade_stored_dc cfg pre (buy_dc cfg soc_pct x)) * eta_of (tr_rte cfg)
           + 2/1000000000"
proof -
  let ?eta = "eta_of (tr_rte cfg)" and ?av = "tr_avail cfg soc_pct" and ?hd = "tr_headroom cfg soc_pct"
  define b where "b = buy_dc cfg soc_pct x"
  define B where "B = buy_dc cfg soc_pct y"
  have bB: "b \<le> B" unfolding b_def B_def by (rule buy_dc_mono [OF le])
  have room: "x / ?eta \<le> ?av + ?hd + 1/1000000000"
    using export_fits_mono [OF fits le] by (simp add: export_fits_def)
  have undo: "x \<le> (c + k) * ?eta + 2/1000000000" if "x / ?eta \<le> c + k + 2/1000000000" for c k
  proof -
    have "x \<le> (c + k + 2/1000000000) * ?eta" using that by (simp add: pos_divide_le_eq)
    also have "\<dots> = (c + k) * ?eta + 2/1000000000 * ?eta" by (simp add: algebra_simps)
    also have "\<dots> \<le> (c + k) * ?eta + 2/1000000000"
      using eta_of_le_1 [of "tr_rte cfg"] by (intro add_left_mono) simp
    finally show ?thesis .
  qed
  have reach: "x / ?eta \<le> ?av + b + 1/1000000000"
    using room by (auto simp: b_def buy_dc_def)
  consider (slow) "slot_charge_dc cfg \<le> 1/1000000000" | (none) "b \<le> 1/1000000000"
    | (some) "1/1000000000 < slot_charge_dc cfg" "1/1000000000 < b" by linarith
  then show ?thesis unfolding b_def [symmetric]
  proof cases
    case slow
    then have "trade_stored_dc cfg pre b = 0" "trade_stored_dc cfg pre B = 0"
      by (simp_all add: trade_stored_dc_def trade_charge_starts_def trade_charge_count_def starts_of_def)
    with enough show "x \<le> (?av + trade_stored_dc cfg pre b) * ?eta + 2/1000000000" by (simp add: B_def)
  next
    case none
    then have "trade_stored_dc cfg pre b = 0"
      by (simp add: trade_stored_dc_def trade_charge_starts_def trade_charge_count_def starts_of_def)
    moreover have "x / ?eta \<le> ?av + 0 + 2/1000000000" using reach none by linarith
    from undo [OF this] have "x \<le> ?av * ?eta + 2/1000000000" by simp
    ultimately show "x \<le> (?av + trade_stored_dc cfg pre b) * ?eta + 2/1000000000" by simp
  next
    case some
    then have B: "1/1000000000 < B" using bB by linarith
    note sb = trade_stored_eq [OF dist some] and sB = trade_stored_eq [OF dist some(1) B]
    show "x \<le> (?av + trade_stored_dc cfg pre b) * ?eta + 2/1000000000"
    proof (cases "b \<le> real (length pre) * slot_charge_dc cfg")
      case True
      with sb have "trade_stored_dc cfg pre b = b" by simp
      moreover have "x / ?eta \<le> ?av + b + 2/1000000000" using reach by linarith
      ultimately show ?thesis using undo by simp
    next
      case False
      with sb sB bB have "trade_stored_dc cfg pre b = trade_stored_dc cfg pre B" by simp
      with enough show ?thesis by (simp add: B_def)
    qed
  qed
qed

subsection \<open>A trade that is emitted\<close>

lemma import_map_cong: "distinct (map pr_start ps) \<Longrightarrow> distinct (map pr_start (tr_charge_pool cfg ps))"
proof -
  assume "distinct (map pr_start ps)"
  then have "distinct (map pr_start (sort_key (\<lambda>p. (map_get (import_map cfg ps) (pr_start p) 0, pr_start p)) ps))"
    by (auto simp: distinct_map)
  then show ?thesis by (simp add: tr_charge_pool_def take_map [symmetric])
qed

lemma tr_horizon_distinct:
  "distinct (map pr_start prices) \<Longrightarrow> distinct (map pr_start (tr_horizon prices now cfg pz))"
  by (auto simp: tr_horizon_def slice_distinct take_map [symmetric] distinct_map_filter split: option.split)

lemma tr_horizon_subset: "set (tr_horizon prices now cfg pz) \<subseteq> set prices"
  using slice_subset by (fastforce simp: tr_horizon_def dest: in_set_takeD split: option.splits)

lemma candidates_distinct:
  "distinct (map pr_start horizon) \<Longrightarrow> distinct (map pr_start (export_candidates cfg horizon))"
proof -
  assume "distinct (map pr_start horizon)"
  then have "distinct (map pr_start (profitable_slots cfg horizon))"
    by (auto simp: profitable_slots_def distinct_map inj_on_def)
  then show ?thesis by (simp add: export_candidates_def take_map [symmetric])
qed

lemma candidates_profit:
  "p \<in> set (export_candidates cfg horizon) \<Longrightarrow>
     p \<in> set horizon \<and> tr_breakeven cfg horizon < tr_credit cfg (pr_eur p) \<and> 0 < tr_credit cfg (pr_eur p)"
  by (auto simp: export_candidates_def profitable_slots_def export_net_def dest: in_set_takeD split: if_splits)

text \<open>What \<open>size_trade\<close> guarantees of the trade it returns.\<close>

lemma size_trade_sound:
  assumes t: "size_trade cfg soc_pct horizon = Inr (Inr t)" and dist: "distinct (map pr_start horizon)"
  shows "trade_export_ac cfg t
           \<le> (tr_avail cfg soc_pct + td_stored_dc t) * eta_of (tr_rte cfg) + 2/1000000000"
    and "td_stored_dc t \<le> real (card (td_charge t)) * slot_charge_dc cfg"
    and "0 < tr_max_export_kwh cfg \<longrightarrow> trade_export_ac cfg t \<le> tr_max_export_kwh cfg + 1/1000000000"
    and "\<not> cycles_exceeded cfg (td_stored_dc t) (trade_export_ac cfg t)"
    and "\<forall>c\<in>td_charge t. \<forall>x\<in>set (td_exports t). c < x"
    and "td_exports t \<noteq> [] \<and> distinct (td_exports t)"
    and "\<forall>x\<in>set (td_exports t). \<exists>p\<in>set horizon. pr_start p = x \<and>
           tr_breakeven cfg horizon < tr_credit cfg (pr_eur p)"
    and "td_charge t \<subseteq> pr_start ` set horizon"
    and "tr_min_export_kwh cfg - 1/1000000000 \<le> trade_export_ac cfg t"
proof -
  let ?slot = "slot_export_ac cfg" and ?eta = "eta_of (tr_rte cfg)"
  let ?ac = "\<lambda>xs::instant list. real (length xs) * ?slot"
  define picked where "picked = pick_exports cfg soc_pct 0 (export_candidates cfg horizon)"
  define pre where "pre = filter (\<lambda>p. pr_start p < Min (set picked)) (tr_charge_pool cfg horizon)"
  define stored where "stored = trade_stored_dc cfg pre (buy_dc cfg soc_pct (?ac picked))"
  define delivered where "delivered = trim_while
      (\<lambda>n. (tr_avail cfg soc_pct + stored) * ?eta + 1/1000000000 < real n * ?slot) picked"
  define cycled where "cycled = trim_while (\<lambda>n. cycles_exceeded cfg stored (real n * ?slot)) delivered"
  define buy where "buy = buy_dc cfg soc_pct (?ac cycled)"
  from t have ne: "cycled \<noteq> []" "delivered \<noteq> []" "picked \<noteq> []"
    and min: "tr_min_export_kwh cfg - 1/1000000000 \<le> ?ac cycled"
    and t_eq: "t = \<lparr>td_exports = cycled, td_charge = trade_charge_starts cfg pre buy,
                    td_stored_dc = trade_stored_dc cfg pre buy, td_first_export = Min (set picked)\<rparr>"
    unfolding size_trade_def Let_def picked_def [symmetric] pre_def [symmetric] stored_def [symmetric]
      delivered_def [symmetric] cycled_def [symmetric] buy_def [symmetric]
    by (auto split: if_splits)
  have E: "trade_export_ac cfg t = ?ac cycled" by (simp add: trade_export_ac_def t_eq)
  have S: "td_stored_dc t = trade_stored_dc cfg pre buy" by (simp add: t_eq)
  have len: "length cycled \<le> length delivered" "length delivered \<le> length picked"
    by (simp_all add: cycled_def delivered_def trim_while_length)
  have le_d: "?ac cycled \<le> ?ac delivered" and le_p: "?ac cycled \<le> ?ac picked"
    using len by (auto intro: mult_right_mono)
  have fits: "export_fits cfg soc_pct (?ac picked)"
    using pick_exports_fits [of cfg soc_pct 0 "export_candidates cfg horizon"] ne(3) by (simp add: picked_def)
  have dp: "distinct (map pr_start pre)"
    unfolding pre_def by (rule distinct_map_filter [OF import_map_cong [OF dist]])
  have "?ac delivered \<le> (tr_avail cfg soc_pct + stored) * ?eta + 1/1000000000"
    using trim_while_ok [OF ne(2) [unfolded delivered_def]] by (simp add: delivered_def)
  with le_d have enough: "?ac cycled \<le> (tr_avail cfg soc_pct + stored) * ?eta + 1/1000000000" by linarith
  show "trade_export_ac cfg t \<le> (tr_avail cfg soc_pct + td_stored_dc t) * ?eta + 2/1000000000"
    using resized_purchase_covers [OF dp fits le_p enough [unfolded stored_def]]
    unfolding E by (simp add: t_eq buy_def)
  show "td_stored_dc t \<le> real (card (td_charge t)) * slot_charge_dc cfg"
    by (simp add: t_eq trade_stored_dc_def)
  show "0 < tr_max_export_kwh cfg \<longrightarrow> trade_export_ac cfg t \<le> tr_max_export_kwh cfg + 1/1000000000"
    using export_fits_mono [OF fits le_p] by (auto simp: E export_fits_def)
  show "\<not> cycles_exceeded cfg (td_stored_dc t) (trade_export_ac cfg t)"
  proof
    assume bad: "cycles_exceeded cfg (td_stored_dc t) (trade_export_ac cfg t)"
    have "trade_stored_dc cfg pre buy \<le> stored"
    proof (cases "1/1000000000 < slot_charge_dc cfg \<and> 1/1000000000 < buy")
      case True
      have "buy \<le> buy_dc cfg soc_pct (?ac picked)" unfolding buy_def by (rule buy_dc_mono [OF le_p])
      with True trade_stored_eq [OF dp] show ?thesis by (simp add: stored_def)
    next
      case False
      then have "trade_stored_dc cfg pre buy = 0"
        by (auto simp: trade_stored_dc_def trade_charge_starts_def trade_charge_count_def starts_of_def)
      moreover have "0 \<le> stored"
        using slot_charge_nonneg [of cfg "buy_dc cfg soc_pct (?ac picked)"]
        by (auto simp: stored_def trade_stored_dc_def trade_charge_starts_def starts_of_def buy_dc_def)
      ultimately show ?thesis by simp
    qed
    then have "equivalent_full_cycles (fst (tr_history cfg) + trade_stored_dc cfg pre buy) d u
        \<le> equivalent_full_cycles (fst (tr_history cfg) + stored) d u" for d u
      by (auto simp: equivalent_full_cycles_def Let_def intro!: divide_right_mono)
    with bad have "cycles_exceeded cfg stored (?ac cycled)"
      unfolding cycles_exceeded_def E S by (meson less_le_trans)
    with trim_while_ok [OF ne(1) [unfolded cycled_def]] show False by (simp add: cycled_def)
  qed
  obtain k where k: "picked = map pr_start (take k (export_candidates cfg horizon))"
    unfolding picked_def using pick_exports_take by blast
  obtain j l where "delivered = take j picked" "cycled = take l delivered"
    unfolding delivered_def cycled_def using trim_while_take by blast
  then have sub: "set cycled \<subseteq> set picked" and pfx: "cycled = take (min l j) picked"
    by (auto dest!: in_set_takeD)
  have "distinct picked" unfolding k using candidates_distinct [OF dist] by (simp add: take_map [symmetric])
  then show "td_exports t \<noteq> [] \<and> distinct (td_exports t)" using ne(1) by (simp add: t_eq pfx)
  have pre_mem: "trade_charge_starts cfg pre buy \<subseteq> pr_start ` set pre"
    by (auto simp: trade_charge_starts_def starts_of_def dest: in_set_takeD)
  show "\<forall>c\<in>td_charge t. \<forall>x\<in>set (td_exports t). c < x"
  proof (intro ballI)
    fix c x
    assume "c \<in> td_charge t" and "x \<in> set (td_exports t)"
    then have c: "c \<in> pr_start ` set pre" and x: "x \<in> set picked" using pre_mem sub by (auto simp: t_eq)
    from c have "c < Min (set picked)" by (auto simp: pre_def simp del: Min_gr_iff)
    also have "\<dots> \<le> x" using x by simp
    finally show "c < x" .
  qed
  show "\<forall>x\<in>set (td_exports t). \<exists>p\<in>set horizon. pr_start p = x \<and>
           tr_breakeven cfg horizon < tr_credit cfg (pr_eur p)"
  proof
    fix x
    assume "x \<in> set (td_exports t)"
    then have "x \<in> set picked" using sub by (auto simp: t_eq)
    then obtain p where "p \<in> set (export_candidates cfg horizon)" "pr_start p = x"
      unfolding k by (auto dest: in_set_takeD)
    with candidates_profit [of p cfg horizon]
    show "\<exists>p\<in>set horizon. pr_start p = x \<and> tr_breakeven cfg horizon < tr_credit cfg (pr_eur p)" by blast
  qed
  show "td_charge t \<subseteq> pr_start ` set horizon"
    using pre_mem by (auto simp: t_eq pre_def tr_charge_pool_def dest!: in_set_takeD)
  show "tr_min_export_kwh cfg - 1/1000000000 \<le> trade_export_ac cfg t" using min by (simp add: E)
qed

lemma trade_slot_intent:
  "sl_start (trade_slot cfg horizon t ts p) = pr_start p"
  "sl_intent (trade_slot cfg horizon t ts p) = GRID_CHARGE_TO_TARGET \<longleftrightarrow> pr_start p \<in> td_charge t"
  "sl_intent (trade_slot cfg horizon t ts p) = EXPORT_FOR_PROFIT \<longleftrightarrow>
     pr_start p \<notin> td_charge t \<and> pr_start p \<in> set (td_exports t)"
  by (auto simp: trade_slot_def plan_slot0_def Let_def)

lemma winning_plan_slots:
  "map (\<lambda>s. (sl_start s, sl_intent s)) (pl_slots (winning_plan cfg a b t)) =
     map (\<lambda>s. (sl_start s, sl_intent s)) (pl_slots t)"
  by (cases "pl_slots t") (simp_all add: winning_plan_def plan0_def Let_def)

definition starts_with :: "battery_intent \<Rightarrow> plan \<Rightarrow> instant set" where
  "starts_with i p = {sl_start s |s. s \<in> set (pl_slots p) \<and> sl_intent s = i}"

lemma starts_with_cong:
  assumes "map (\<lambda>s. (sl_start s, sl_intent s)) (pl_slots p) = map (\<lambda>s. (sl_start s, sl_intent s)) (pl_slots q)"
  shows "starts_with i p = starts_with i q"
proof -
  have "starts_with i p = {t. (t, i) \<in> set (map (\<lambda>s. (sl_start s, sl_intent s)) (pl_slots p))}" for p
    by (auto simp: starts_with_def)
  with assms show ?thesis by metis
qed

lemma build_path_t_trade:
  assumes "build_path_t prices now cfg pz soc_pct = Inr r" and "pt_plan r = Some p"
  obtains t where "size_trade cfg soc_pct (tr_horizon prices now cfg pz) = Inr (Inr t)"
    "p = trade_plan cfg now soc_pct (tr_horizon prices now cfg pz) t"
    "tr_daily_min cfg - 1/1000000000 \<le> pt_eur r"
proof -
  let ?h = "tr_horizon prices now cfg pz"
  have no: "pt_plan (no_trade m) = None" for m by (simp add: no_trade_def)
  from assms obtain a where a: "size_trade cfg soc_pct ?h = Inr a" "r = score_trade cfg now soc_pct ?h a"
    by (auto simp: build_path_t_def Let_def no bind_res_Inr_iff split: if_splits prod.splits)
  show thesis
  proof (cases a)
    case (Inl m)
    with a(2) assms(2) show ?thesis by (simp add: score_trade_def no)
  next
    case (Inr t)
    with a assms(2) that [of t] show ?thesis by (auto simp: score_trade_def Let_def split: if_splits)
  qed
qed

lemma trading_emits:
  assumes "maybe_apply_trading z prices now (Some cfg) pz soc_pct load_by = Inr q"
    and "pl_strategy q = Some ''trading''" and "pl_strategy z \<noteq> Some ''trading''"
  obtains r p where "build_path_t prices now cfg pz soc_pct = Inr r" "pt_plan r = Some p"
    "q = winning_plan cfg (pt_eur r) (score_z_plan z prices cfg (pt_existing_ac r) load_by) p"
    "tr_min_extra cfg - 1/1000000000 \<le> pt_eur r - score_z_plan z prices cfg (pt_existing_ac r) load_by"
proof -
  have auto: "pl_strategy (all_auto_plan prices now cfg pz m) \<noteq> Some ''trading''" for m
    by (simp add: all_auto_plan_def)
  from assms that show thesis
    by (auto simp: maybe_apply_trading_def auto Let_def bind_res_Inr_iff split: if_splits option.splits)
qed

text \<open>
  C22. A trade that is emitted is covered. When the trading overlay replaces the seasonal plan, every
  purchase comes before every sale; the energy the sale slots export at full power is no more than what
  the battery delivers from above its reserve plus what the purchase slots store; it is within the
  daily export limit, and history, purchase and sale together are within the cycle budget; every sale
  earns more than the break-even price; and the projected profit of the trade beats the seasonal plan
  by the configured margin and reaches the daily minimum (all up to the code's tolerances).
\<close>

theorem emitted_trade_is_covered:
  assumes run: "maybe_apply_trading z prices now (Some cfg) pz soc_pct load_by = Inr q"
    and strat: "pl_strategy q = Some ''trading''" "pl_strategy z \<noteq> Some ''trading''"
    and dist: "distinct (map pr_start prices)"
    and C: "C = starts_with GRID_CHARGE_TO_TARGET q" and X: "X = starts_with EXPORT_FOR_PROFIT q"
    and E: "E = real (card X) * slot_export_ac cfg"
  shows "(\<exists>stored. stored \<le> real (card C) * slot_charge_dc cfg \<and>
            E \<le> (tr_avail cfg soc_pct + stored) * eta_of (tr_rte cfg) + 2/1000000000 \<and>
            \<not> cycles_exceeded cfg stored E) \<and>
         (0 < tr_max_export_kwh cfg \<longrightarrow> E \<le> tr_max_export_kwh cfg + 1/1000000000) \<and>
         X \<noteq> {} \<and> (\<forall>c\<in>C. \<forall>x\<in>X. c < x) \<and>
         (\<forall>x\<in>X. \<exists>p\<in>set prices. pr_start p = x \<and>
            tr_breakeven cfg (tr_horizon prices now cfg pz) < tr_credit cfg (pr_eur p)) \<and>
         (\<exists>r. build_path_t prices now cfg pz soc_pct = Inr r \<and> tr_daily_min cfg - 1/1000000000 \<le> pt_eur r \<and>
            tr_min_extra cfg - 1/1000000000 \<le> pt_eur r - score_z_plan z prices cfg (pt_existing_ac r) load_by)"
proof -
  let ?h = "tr_horizon prices now cfg pz"
  from run strat obtain r p where r: "build_path_t prices now cfg pz soc_pct = Inr r" "pt_plan r = Some p"
    and q: "q = winning_plan cfg (pt_eur r) (score_z_plan z prices cfg (pt_existing_ac r) load_by) p"
    and extra: "tr_min_extra cfg - 1/1000000000 \<le> pt_eur r - score_z_plan z prices cfg (pt_existing_ac r) load_by"
    by (rule trading_emits)
  from r obtain t where t: "size_trade cfg soc_pct ?h = Inr (Inr t)" and p: "p = trade_plan cfg now soc_pct ?h t"
    and min: "tr_daily_min cfg - 1/1000000000 \<le> pt_eur r" by (rule build_path_t_trade)
  note sound = size_trade_sound [OF t tr_horizon_distinct [OF dist]]
  have sw: "starts_with i q = starts_with i p" for i
    unfolding q by (rule starts_with_cong [OF winning_plan_slots])
  have Xh: "set (td_exports t) \<subseteq> pr_start ` set ?h"
  proof
    fix x
    assume "x \<in> set (td_exports t)"
    with sound(7) obtain y where "y \<in> set ?h" "pr_start y = x" by blast
    then show "x \<in> pr_start ` set ?h" by (auto intro: rev_image_eqI)
  qed
  have dis: "x \<notin> td_charge t" if "x \<in> set (td_exports t)" for x using sound(5) that by blast
  have slots: "pl_slots p = map (trade_slot cfg ?h t (trade_target cfg soc_pct t)) ?h"
    by (simp add: p trade_plan_def plan0_def)
  have starts: "starts_with i p = pr_start ` {x \<in> set ?h. sl_intent (trade_slot cfg ?h t (trade_target cfg soc_pct t) x) = i}" for i
    unfolding starts_with_def slots set_map by (auto simp: trade_slot_intent(1)) (metis imageI trade_slot_intent(1))
  have C': "C = td_charge t"
    using sound(8) unfolding C sw starts by (auto simp: trade_slot_intent)
  have X': "X = set (td_exports t)"
    using Xh dis unfolding X sw starts by (auto simp: trade_slot_intent)
  have "card X = length (td_exports t)" using sound(6) by (simp add: X' distinct_card)
  then have E': "E = trade_export_ac cfg t" by (simp add: E trade_export_ac_def)
  have covered: "\<exists>stored. stored \<le> real (card C) * slot_charge_dc cfg \<and>
            E \<le> (tr_avail cfg soc_pct + stored) * eta_of (tr_rte cfg) + 2/1000000000 \<and>
            \<not> cycles_exceeded cfg stored E"
    using sound(1,2,4) unfolding C' E' by blast
  have earns: "\<forall>x\<in>X. \<exists>p\<in>set prices. pr_start p = x \<and> tr_breakeven cfg ?h < tr_credit cfg (pr_eur p)"
    using sound(7) tr_horizon_subset unfolding X' by blast
  have "X \<noteq> {}" using sound(6) by (simp add: X')
  with covered earns sound(3,5) r(1) min extra show ?thesis unfolding C' X' E' by blast
qed

subsection \<open>When it raises\<close>

text \<open>
  The trading planner raises in one situation only: the minimum export is configured as zero, and
  not even one export slot fits in the day's export limit, the cycle budget and the battery. The code
  then takes the minimum of an empty list of starts.
\<close>

lemma trading_error:
  assumes "maybe_apply_trading z prices now requested pz soc_pct load_by = Inl e"
  shows "\<exists>cfg. requested = Some cfg \<and> e = ValueError \<and> tr_enabled cfg \<and> tr_min_export_kwh cfg \<le> 1/1000000000 \<and>
         (export_candidates cfg (tr_horizon prices now cfg pz) = [] \<or>
          \<not> export_fits cfg soc_pct (slot_export_ac cfg))"
proof -
  obtain cfg where cfg: "requested = Some cfg" "tr_enabled cfg" and b: "build_path_t prices now cfg pz soc_pct = Inl e"
    using assms by (auto simp: maybe_apply_trading_def Let_def bind_res_def split: if_splits option.splits sum.splits)
  let ?h = "tr_horizon prices now cfg pz"
  have sz: "size_trade cfg soc_pct ?h = Inl e"
    using b by (auto simp: build_path_t_def Let_def bind_res_def split: if_splits sum.splits prod.splits)
  then have "e = ValueError \<and> tr_min_export_kwh cfg \<le> 1/1000000000 \<and>
      pick_exports cfg soc_pct 0 (export_candidates cfg ?h) = []"
    by (auto simp: size_trade_def Let_def split: if_splits)
  with cfg show ?thesis by (cases "export_candidates cfg ?h") (auto split: if_splits)
qed

text \<open>Buy a quarter hour at 10 ct, sell the next at 50 ct; with a day limit below one slot it raises.\<close>

definition demo_trading :: trading_config where
  "demo_trading =
     \<lparr>tr_enabled = True, tr_min_extra = 2/10, tr_max_export_kwh = 0, tr_min_export_kwh = 5/10,
      tr_export_mode = ''peak_slice'', tr_max_cycles = 3/2, tr_charged_today = Some 0, tr_discharged_today = Some 0,
      tr_daily_min = 2/10, tr_export_model = ''net_metering'', tr_energy_tax = 13/100, tr_fixed_feed_in = 1/100,
      tr_rte = 1, tr_degradation = 0, tr_risk = 0, tr_charge_slots = 1, tr_discharge_slots = 1, tr_horizon_slots = 96,
      tr_max_charge_w = 4000, tr_max_discharge_w = 4000, tr_usable_kwh = 10, tr_reserve_soc_pct = 10,
      tr_import_fee = 0, tr_includes_all_fees = False, tr_assumed_load_w = 800\<rparr>"

lemma demo_trading_market:
  assumes "cfg = demo_trading\<lparr>tr_max_export_kwh := x, tr_min_export_kwh := y\<rparr>"
  shows "tr_horizon demo_prices 0 cfg (Some (utc, \<lambda>_. 0)) = demo_prices"
    and "tr_charge_pool cfg demo_prices = [demo_prices ! 0]"
    and "export_candidates cfg demo_prices = [demo_prices ! 1]"
    and "profitable_slots cfg demo_prices = [demo_prices ! 1]"
    and "tr_breakeven cfg demo_prices = 1/10"
proof -
  obtain a b where dp: "demo_prices = [a, b]" and a: "pr_start a = 0" "pr_eur a = 1/10"
    and b: "pr_start b = SLOT" "pr_eur b = 5/10"
    by (simp add: demo_prices_def)
  have f: "tr_horizon_slots cfg = 96" "tr_charge_slots cfg = 1" "tr_discharge_slots cfg = 1" "tr_rte cfg = 1"
    "tr_degradation cfg = 0" "tr_risk cfg = 0" "tr_export_mode cfg = ''peak_slice''"
    "tr_import_price cfg = pr_eur" "tr_credit cfg = (\<lambda>x. x)"
    by (simp_all add: assms demo_trading_def tr_import_price_def tr_credit_def export_value_def export_credit_def
          fun_eq_iff)
  show "tr_horizon demo_prices 0 cfg (Some (utc, \<lambda>_. 0)) = demo_prices"
    by (simp add: tr_horizon_def f demo_horizon)
  have m: "import_map cfg [a, b] = [0 \<mapsto> 1/10, SLOT \<mapsto> 5/10]"
    by (simp add: import_map_def f a b)
  have pool: "tr_charge_pool cfg [a, b] = [a]" by (simp add: tr_charge_pool_def m a b f)
  then show "tr_charge_pool cfg demo_prices = [demo_prices ! 0]" by (simp add: dp)
  have be: "tr_breakeven cfg [a, b] = 1/10"
    by (simp add: tr_breakeven_def pool m a f breakeven_eq efficiency_of_def)
  then show "tr_breakeven cfg demo_prices = 1/10" by (simp add: dp)
  have pr: "profitable_slots cfg [a, b] = [b]"
    by (simp add: profitable_slots_def export_net_def be f a b)
  then show "profitable_slots cfg demo_prices = [demo_prices ! 1]" by (simp add: dp)
  show "export_candidates cfg demo_prices = [demo_prices ! 1]"
    by (simp add: export_candidates_def f dp pr)
qed

lemma demo_trading_raises:
  "maybe_apply_trading z demo_prices 0 (Some (demo_trading\<lparr>tr_max_export_kwh := 5/10, tr_min_export_kwh := 0\<rparr>))
     (Some (utc, \<lambda>_. 0)) 10 None = Inl ValueError"
proof -
  define cfg where "cfg = demo_trading\<lparr>tr_max_export_kwh := 5/10, tr_min_export_kwh := 0\<rparr>"
  note mk = demo_trading_market [OF cfg_def]
  have f: "tr_enabled cfg" "tr_max_export_kwh cfg = 5/10" "tr_min_export_kwh cfg = 0" "slot_export_ac cfg = 1"
    "tr_max_discharge_w cfg = 4000" "tr_history cfg = (0, 0)"
    by (simp_all add: cfg_def demo_trading_def slot_export_ac_def tr_history_def resolved_cycle_history_def)
  have "\<not> export_fits cfg 10 1" by (simp add: export_fits_def f)
  then have "size_trade cfg 10 demo_prices = Inl ValueError"
    by (simp add: size_trade_def mk f Let_def)
  moreover have "demo_prices \<noteq> []" by (simp add: demo_prices_def)
  ultimately show ?thesis
    unfolding cfg_def [symmetric] by (simp add: maybe_apply_trading_def build_path_t_def mk f)
qed

theorem emitted_trade_is_covered_witness:
  "\<exists>q. maybe_apply_trading (plan0 0 []) demo_prices 0 (Some demo_trading) (Some (utc, \<lambda>_. 0)) 10 None = Inr q \<and>
       pl_strategy q = Some ''trading'' \<and> starts_with EXPORT_FOR_PROFIT q \<noteq> {}"
proof -
  have same: "demo_trading = demo_trading\<lparr>tr_max_export_kwh := 0, tr_min_export_kwh := 5/10\<rparr>"
    by (simp add: demo_trading_def)
  note mk = demo_trading_market [OF same]
  obtain a b where dp: "demo_prices = [a, b]" and a: "pr_start a = 0" "pr_eur a = 1/10"
    and b: "pr_start b = SLOT" "pr_eur b = 5/10"
    by (simp add: demo_prices_def)
  define cfg where "cfg = demo_trading"
  note mk' = mk [folded cfg_def, unfolded dp, simplified]
  have f: "tr_enabled cfg" "tr_max_export_kwh cfg = 0" "tr_min_export_kwh cfg = 5/10" "slot_export_ac cfg = 1"
    "tr_max_discharge_w cfg = 4000" "tr_history cfg = (0, 0)" "slot_charge_dc cfg = 1" "tr_rte cfg = 1"
    "tr_avail cfg 10 = 0" "tr_headroom cfg 10 = 9" "tr_usable_kwh cfg = 10" "tr_max_cycles cfg = 3/2"
    "tr_daily_min cfg = 2/10" "tr_min_extra cfg = 2/10" "tr_degradation cfg = 0" "tr_risk cfg = 0" "tr_import_fee cfg = 0"
    by (simp_all add: cfg_def demo_trading_def slot_export_ac_def tr_history_def resolved_cycle_history_def
          slot_charge_dc_def stored_kwh_per_slot_def tr_avail_def tr_headroom_def tr_reserve_kwh_def)
  have cr: "tr_credit cfg = (\<lambda>x. x)" "tr_import_price cfg = pr_eur"
    by (simp_all add: cfg_def demo_trading_def tr_credit_def export_value_def export_credit_def tr_import_price_def
          fun_eq_iff)
  have fit: "export_fits cfg 10 1"
    by (simp add: export_fits_def f max_export_from_cycles_def used_efc_def equivalent_full_cycles_def)
  have buy: "buy_dc cfg 10 1 = 1" by (simp add: buy_dc_def f)
  have ch: "trade_charge_starts cfg [a] 1 = {0}"
    by (simp add: trade_charge_starts_def trade_charge_count_def f starts_of_def a)
  have st: "trade_stored_dc cfg [a] 1 = 1" by (simp add: trade_stored_dc_def ch f)
  have cy: "\<not> cycles_exceeded cfg 1 1" by (simp add: cycles_exceeded_def f equivalent_full_cycles_def)
  have size: "size_trade cfg 10 [a, b] =
      Inr (Inr \<lparr>td_exports = [SLOT], td_charge = {0}, td_stored_dc = 1, td_first_export = SLOT\<rparr>)"
    by (simp add: size_trade_def mk' fit f a b buy st ch cy trim_while_def Let_def)
  have pm: "price_map [a, b] = [0 \<mapsto> 1/10, SLOT \<mapsto> 5/10]" by (simp add: price_map_def a b)
  have im: "import_map cfg [a, b] = [0 \<mapsto> 1/10, SLOT \<mapsto> 5/10]" by (simp add: import_map_def cr a b)
  define t where "t = \<lparr>td_exports = [SLOT], td_charge = {0}, td_stored_dc = 1, td_first_export = SLOT\<rparr>"
  have tf: "td_exports t = [SLOT]" "td_charge t = {0}" "td_stored_dc t = 1" by (simp_all add: t_def)
  have eur: "trade_eur cfg [a, b] t = 4/10"
    by (simp add: trade_eur_def trade_export_ac_def tf f score_t_plan_def im pm cr breakeven_eq efficiency_of_def)
  define p where "p = trade_plan cfg 0 10 [a, b] t"
  obtain s1 s2 where ss: "pl_slots p = [s1, s2]"
    and s1: "sl_start s1 = 0" "sl_intent s1 = GRID_CHARGE_TO_TARGET"
    and s2: "sl_start s2 = SLOT" "sl_intent s2 = EXPORT_FOR_PROFIT" "sl_target_kwh s2 = Some 1"
    by (simp add: p_def trade_plan_def plan0_def trade_slot_def Let_def tf a b plan_slot0_def f py_round_def)
       (simp add: py_round0_def)
  have path: "build_path_t [a, b] 0 cfg (Some (utc, \<lambda>_. 0)) 10 =
      Inr \<lparr>pt_plan = Some p, pt_eur = 4/10, pt_existing_ac = 0, pt_skip = []\<rparr>"
    using mk'(1) by (simp add: build_path_t_def mk' f size [folded t_def] eur p_def trade_export_ac_def tf Let_def score_trade_def)
  obtain m where m: "price_map [a, b] = m" "m 0 = Some (1/10)" "m SLOT = Some (5/10)"
    using pm by simp
  have est: "estimate_plan_savings (Some p) [a, b] 1 0 0 0 = Some (4/10)"
    by (simp add: estimate_plan_savings_def m map_get_def ss s1 s2 actionable_def estimate_daily_savings_eur_def
          charge_prices_def map_filter_simps import_price_at_def export_net_eur_def breakeven_eq efficiency_of_def
          slot_trade_kwh_def normalize_price_def default_policy_def Let_def)
       (simp add: py_round_def py_round0_def, rule exI [of _ "1/10"], simp)
  have block: "shared_savings_block p [a, b] cfg = None"
    by (simp add: shared_savings_block_def f est)
  have z: "score_z_plan (plan0 0 []) [a, b] cfg 0 None = 0"
    by (simp add: score_z_plan_def plan0_def score_z_house_opportunity_def)
  have run: "maybe_apply_trading (plan0 0 []) demo_prices 0 (Some cfg) (Some (utc, \<lambda>_. 0)) 10 None =
      Inr (winning_plan cfg (4/10) 0 p)"
    by (simp add: maybe_apply_trading_def f dp path block z)
  have strat: "pl_strategy (winning_plan cfg (4/10) 0 p) = Some ''trading''"
    by (simp add: winning_plan_def ss Let_def)
  have "distinct (map pr_start demo_prices)" by (simp add: demo_prices_def)
  then have "starts_with EXPORT_FOR_PROFIT (winning_plan cfg (4/10) 0 p) \<noteq> {}"
    using emitted_trade_is_covered [OF run strat _ _ refl refl refl] by (simp add: plan0_def)
  with run strat show ?thesis unfolding cfg_def by blast
qed

end
