(* ===== verification/ReservePasses.thy ===== *)
theory ReservePasses
  imports Projection
begin

section \<open>Floor marking and evening reserve (\<open>ems/planner/projection.py\<close>)\<close>

text \<open>
  Two passes over a built plan: a discharge slot that the projection shows to be empty at the SoC
  floor becomes a hold, and a morning discharge that would spend what the evening cluster needs is
  held back. Both are interpretations of the hold-only overlay contract.
\<close>

subsection \<open>Floor marking\<close>

definition floor_reason :: "real \<Rightarrow> message" where
  "floor_reason f = [Lit ''Op de batterijvloer ('', Fixed 0 f, Lit ''%) -- huis op net'']"

definition slot_start_soc :: "real option \<Rightarrow> projected_slot list \<Rightarrow> nat \<Rightarrow> real option" where
  "slot_start_soc start_soc_pct projected i =
     (case start_soc_pct of
        None \<Rightarrow> None
      | Some x \<Rightarrow> Some (if i = 0 then x else pj_soc_pct (projected ! (i - 1))))"

definition floor_hold :: "real \<Rightarrow> plan_slot \<Rightarrow> plan_slot" where
  "floor_hold f s =
     s\<lparr>sl_intent := HOLD_RESERVE, sl_reason := floor_reason f,
       sl_floor_soc := Some (opt_else (sl_floor_soc s) f)\<rparr>"

definition mark_slot :: "real \<Rightarrow> real option \<Rightarrow> projected_slot list \<Rightarrow> nat \<Rightarrow> plan_slot \<Rightarrow> plan_slot" where
  "mark_slot f start_soc projected i s =
     (if sl_intent s = DISCHARGE_FOR_LOAD \<and> pj_battery_w (projected ! i) = 0 \<and>
         (case slot_start_soc start_soc projected i of None \<Rightarrow> False | Some x \<Rightarrow> x \<le> f)
      then floor_hold f s else s)"

definition mark_floor_holds ::
  "plan \<Rightarrow> projected_slot list option \<Rightarrow> real \<Rightarrow> real option \<Rightarrow> plan" where
  "mark_floor_holds p projected floor_soc start_soc_pct =
     (case projected of
        None \<Rightarrow> p
      | Some ps \<Rightarrow>
          if pl_slots p = [] \<or> length ps \<noteq> length (pl_slots p) then p
          else (let out = map (\<lambda>(i, s). mark_slot floor_soc start_soc_pct ps i s)
                            (enumerate 0 (pl_slots p))
                in if out = pl_slots p then p else p\<lparr>pl_slots := out\<rparr>))"

lemma mark_slot_rewrites: "slot_rewritten holds s (mark_slot f st ps i s)"
  by (auto simp: mark_slot_def slot_rewritten_def floor_hold_def holds_def)

lemma marked_rewrites:
  "list_all2 (slot_rewritten holds) ss (map (\<lambda>(i, s). mark_slot f st ps i s) (enumerate k ss))"
  by (induction ss arbitrary: k) (simp_all add: mark_slot_rewrites)

lemma mark_floor_holds_rewrites:
  "list_all2 (slot_rewritten holds) (pl_slots p) (pl_slots (mark_floor_holds p ps f st))"
  by (cases ps) (simp_all add: mark_floor_holds_def Let_def marked_rewrites)

lemma mark_floor_holds_frame:
  "pl_created_at (mark_floor_holds p ps f st) = pl_created_at p"
  "pl_strategy (mark_floor_holds p ps f st) = pl_strategy p"
  "pl_target_soc (mark_floor_holds p ps f st) = pl_target_soc p"
  "pl_deadline (mark_floor_holds p ps f st) = pl_deadline p"
  by (cases ps; simp add: mark_floor_holds_def Let_def)+

interpretation floor_marks: hold_only "\<lambda>x p. mark_floor_holds p (fst x) (fst (snd x)) (snd (snd x))"
  by unfold_locales (simp_all add: mark_floor_holds_rewrites mark_floor_holds_frame)

text \<open>Marking changes nothing in the projection it was based on: a hold with a deficit is at rest too.\<close>

lemma mark_keeps_power:
  assumes "mark_slot f st ps i s \<noteq> s" and "w = slot_battery_w m dh t (sl_intent s) soc net"
    and "w = 0" and "0 \<le> net"
  shows "slot_battery_w m dh t (sl_intent (mark_slot f st ps i s)) soc net = 0"
  using assms by (auto simp: mark_slot_def floor_hold_def slot_battery_w_def split: if_splits)

subsection \<open>The evening cluster\<close>

fun evening_clusters :: "plan_slot list \<Rightarrow> plan_slot list \<Rightarrow> plan_slot list list" where
  "evening_clusters cur [] = (if cur = [] then [] else [cur])"
| "evening_clusters cur (s # ss) =
     (if sl_intent s = DISCHARGE_FOR_LOAD
      then (if cur \<noteq> [] \<and> sl_start s \<noteq> sl_start (last cur) + SLOT
            then cur # evening_clusters [s] ss
            else evening_clusters (cur @ [s]) ss)
      else (if cur \<noteq> [] then cur # evening_clusters [] ss else evening_clusters [] ss))"

definition evening_discharge_slots :: "plan_slot list \<Rightarrow> zone \<Rightarrow> plan_slot list \<times> instant option" where
  "evening_discharge_slots ss tz =
     (let evening = concat (filter (\<lambda>g. 15 \<le> local_hour tz (sl_start (hd g))) (evening_clusters [] ss))
      in case evening of [] \<Rightarrow> ([], None) | s # _ \<Rightarrow> (evening, Some (sl_start s)))"

definition deficit_dc_kwh :: "real \<Rightarrow> real \<Rightarrow> real \<Rightarrow> real \<Rightarrow> real \<Rightarrow> real" where
  "deficit_dc_kwh load_w solar_w eta max_discharge_w dh =
     (let net = load_w - solar_w
      in if net \<le> 0 \<or> eta \<le> 0 \<or> dh \<le> 0 \<or> max_discharge_w \<le> 0 then 0
         else min net max_discharge_w * dh / 1000 / eta)"

definition evening_reserve_kwh ::
  "plan_slot list \<Rightarrow> (instant \<rightharpoonup> real) \<Rightarrow> real \<Rightarrow> real \<Rightarrow> real \<Rightarrow> real \<Rightarrow> zone \<Rightarrow> (instant \<rightharpoonup> real)
     \<Rightarrow> real \<times> instant option" where
  "evening_reserve_kwh ss load_by usable_kwh reserve_soc_pct max_discharge_w rte tz solar_by =
     (let (evening, start) = evening_discharge_slots ss tz
      in if evening = [] \<or> usable_kwh \<le> 0 then (0, None)
         else (let total = sum_list (map (\<lambda>s. deficit_dc_kwh (map_get load_by (sl_start s) 0)
                             (map_get solar_by (sl_start s) 0) (eta_of rte) max_discharge_w SLOT_HOURS) evening)
               in (min total (max 0 (usable_kwh - reserve_soc_pct / 100 * usable_kwh)), start)))"

lemma deficit_nonneg: "0 \<le> deficit_dc_kwh l s e d h"
  by (auto simp: deficit_dc_kwh_def Let_def)

lemma clusters_concat:
  "concat (evening_clusters cur ss) = cur @ filter (\<lambda>s. sl_intent s = DISCHARGE_FOR_LOAD) ss"
  by (induction cur ss rule: evening_clusters.induct) auto

lemma evening_need_bounds:
  "evening_reserve_kwh ss lb u r d rte tz sb = (need, Some t) \<Longrightarrow>
     0 \<le> need \<and> need \<le> max 0 (u - r / 100 * u)"
  by (auto simp: evening_reserve_kwh_def Let_def split_beta deficit_nonneg
        intro!: sum_list_map_nonneg split: if_splits)

subsection \<open>Holding the morning back\<close>

record evening_params =
  ev_model :: battery_model
  ev_target_kwh :: real
  ev_need :: real
  ev_start :: instant

definition morning_hold :: "evening_params \<Rightarrow> real \<Rightarrow> plan_slot \<Rightarrow> real \<Rightarrow> bool" where
  "morning_hold e soc s net =
     (sl_intent s = DISCHARGE_FOR_LOAD \<and> sl_start s < ev_start e \<and> 0 < net \<and>
      soc - min net (max_discharge_ac (ev_model e) SLOT_HOURS soc) / bm_eta (ev_model e) * SLOT_HOURS / 1000
        < reserve_kwh (ev_model e) + ev_need e)"

definition EVENING_RESERVE_HOLD_REASON :: message where
  "EVENING_RESERVE_HOLD_REASON = [Lit ''Ochtend ingehouden voor avondpiek'']"

definition morning_held :: "plan_slot \<Rightarrow> plan_slot" where
  "morning_held s = s\<lparr>sl_intent := HOLD_RESERVE, sl_reason := EVENING_RESERVE_HOLD_REASON\<rparr>"

text \<open>The loop: its own simulation of the store, with the held slots at rest.\<close>

fun evening_walk ::
  "evening_params \<Rightarrow> (instant \<rightharpoonup> real) \<Rightarrow> (instant \<rightharpoonup> real) \<Rightarrow> real \<Rightarrow> plan_slot list \<Rightarrow> plan_slot list" where
  "evening_walk e solar_by load_by soc [] = []"
| "evening_walk e solar_by load_by soc (s # ss) =
     (let net = map_get load_by (sl_start s) 0 - map_get solar_by (sl_start s) 0;
          held = morning_hold e soc s net;
          w = (if held then 0
               else slot_battery_w (ev_model e) SLOT_HOURS (ev_target_kwh e) (sl_intent s) soc net);
          soc' = soc_after (ev_model e) SLOT_HOURS soc w
      in (if held then morning_held s else s) # evening_walk e solar_by load_by soc' ss)"

definition apply_evening_reserve ::
  "plan \<Rightarrow> real \<Rightarrow> (instant \<rightharpoonup> real) option \<Rightarrow> battery_model \<Rightarrow> zone \<Rightarrow> (instant \<rightharpoonup> real) \<Rightarrow> plan" where
  "apply_evening_reserve p start_soc_pct load_by m tz solar_by =
     (case load_by of
        None \<Rightarrow> p
      | Some lb \<Rightarrow>
          if pl_slots p = [] then p
          else (case evening_reserve_kwh (pl_slots p) lb (bm_usable_kwh m) (bm_reserve_soc_pct m)
                       (bm_max_discharge_w m) (bm_round_trip_efficiency m) tz solar_by of
                  (_, None) \<Rightarrow> p
                | (need, Some t) \<Rightarrow>
                    if need \<le> 1/1000000000000 \<or> bm_usable_kwh m \<le> 0 then p
                    else (let e = \<lparr>ev_model = m, ev_target_kwh = target_kwh_of m (pl_target_soc p),
                                   ev_need = need, ev_start = t\<rparr>;
                              out = evening_walk e solar_by lb (start_kwh m start_soc_pct) (pl_slots p)
                          in if out = pl_slots p then p else p\<lparr>pl_slots := out\<rparr>)))"

lemma evening_walk_rewrites: "list_all2 (slot_rewritten holds) ss (evening_walk e sb lb soc ss)"
  by (induction ss arbitrary: soc)
     (auto simp: Let_def slot_rewritten_def morning_held_def morning_hold_def holds_def)

lemma apply_evening_reserve_rewrites:
  "list_all2 (slot_rewritten holds) (pl_slots p) (pl_slots (apply_evening_reserve p st lb m tz sb))"
  by (auto simp: apply_evening_reserve_def Let_def evening_walk_rewrites split: option.split prod.split)

lemma apply_evening_reserve_frame:
  "pl_created_at (apply_evening_reserve p st lb m tz sb) = pl_created_at p"
  "pl_strategy (apply_evening_reserve p st lb m tz sb) = pl_strategy p"
  "pl_target_soc (apply_evening_reserve p st lb m tz sb) = pl_target_soc p"
  "pl_deadline (apply_evening_reserve p st lb m tz sb) = pl_deadline p"
  by (auto simp: apply_evening_reserve_def Let_def split: option.split prod.split)

interpretation evening_hold: hold_only
  "\<lambda>x p. apply_evening_reserve p (fst x) (fst (snd x)) (fst (snd (snd x))) (fst (snd (snd (snd x))))
           (snd (snd (snd (snd x))))"
  by unfold_locales (simp_all add: apply_evening_reserve_rewrites apply_evening_reserve_frame)

lemma slot_rewritten_start: "sl_start (if b then morning_held s else s) = sl_start s"
  by (simp add: morning_held_def)

text \<open>
  The pass simulates what \<open>project_energy\<close> projects for the plan it returns, and in that projection a
  morning discharge that is left never takes the store below the floor plus the evening's need.
\<close>

lemma evening_walk_projection:
  assumes m: "model_ok (ev_model e)" and soc: "0 \<le> soc" "soc \<le> bm_usable_kwh (ev_model e)"
    and i: "i < length ss"
    and s: "s = evening_walk e sb lb soc ss ! i" "sl_intent s = DISCHARGE_FOR_LOAD"
      "sl_start s < ev_start e" "map_get sb (sl_start s) 0 < map_get lb (sl_start s) 0"
  shows "soc_pct_of (ev_model e) (reserve_kwh (ev_model e) + ev_need e)
           \<le> pj_soc_pct (project_walk (ev_model e) SLOT_HOURS (ev_target_kwh e) sb lb soc
                            (evening_walk e sb lb soc ss) ! i)"
  using soc i s
proof (induction ss arbitrary: soc i)
  case Nil
  then show ?case by simp
next
  case (Cons u ss)
  let ?m = "ev_model e"
  let ?net = "map_get lb (sl_start u) 0 - map_get sb (sl_start u) 0"
  let ?held = "morning_hold e soc u ?net"
  let ?w = "if ?held then 0 else slot_battery_w ?m SLOT_HOURS (ev_target_kwh e) (sl_intent u) soc ?net"
  let ?u = "if ?held then morning_held u else u"
  let ?soc = "soc_after ?m SLOT_HOURS soc ?w"
  have h: "0 < SLOT_HOURS" by (simp add: SLOT_HOURS_def)
  have w: "slot_battery_w ?m SLOT_HOURS (ev_target_kwh e) (sl_intent ?u) soc ?net = ?w"
    by (auto simp: morning_held_def morning_hold_def slot_battery_w_def)
  note st = soc_step [OF m h Cons.prems(1,2) w [symmetric]]
  have walk: "evening_walk e sb lb soc (u # ss) = ?u # evening_walk e sb lb ?soc ss"
    by (simp add: Let_def)
  have proj: "project_walk ?m SLOT_HOURS (ev_target_kwh e) sb lb soc (?u # evening_walk e sb lb ?soc ss) ! Suc j =
              project_walk ?m SLOT_HOURS (ev_target_kwh e) sb lb ?soc (evening_walk e sb lb ?soc ss) ! j" for j
    using w by (simp add: Let_def slot_rewritten_start)
  show ?case
  proof (cases i)
    case (Suc j)
    have "0 \<le> ?soc" "?soc \<le> bm_usable_kwh ?m" using st(1-3) by simp_all
    moreover have "j < length ss" using Cons.prems Suc by simp
    moreover have "s = evening_walk e sb lb ?soc ss ! j" using Cons.prems(4) Suc unfolding walk by simp
    ultimately have "soc_pct_of ?m (reserve_kwh ?m + ev_need e) \<le>
        pj_soc_pct (project_walk ?m SLOT_HOURS (ev_target_kwh e) sb lb ?soc (evening_walk e sb lb ?soc ss) ! j)"
      using Cons.IH Cons.prems(5-7) by blast
    then show ?thesis unfolding walk Suc proj .
  next
    case 0
    have su: "s = ?u" using Cons.prems(4) 0 unfolding walk by simp
    with Cons.prems(5) have nh: "\<not> ?held" by (auto simp: morning_held_def)
    with su have "s = u" by simp
    with Cons.prems nh have "reserve_kwh ?m + ev_need e \<le>
        soc - min ?net (max_discharge_ac ?m SLOT_HOURS soc) / bm_eta ?m * SLOT_HOURS / 1000"
      and n: "0 < ?net" and int: "sl_intent u = DISCHARGE_FOR_LOAD"
      by (auto simp: morning_hold_def)
    moreover have "?w = min ?net (max_discharge_ac ?m SLOT_HOURS soc)"
      using nh n int by (simp add: slot_battery_w_def)
    moreover have "0 \<le> min ?net (max_discharge_ac ?m SLOT_HOURS soc)"
      using n max_discharge_ac_bounds(1) [OF m h, of soc] by simp
    ultimately have "reserve_kwh ?m + ev_need e \<le> ?soc"
      unfolding st(1) by (auto simp: soc_moved_def)
    from pct_of_mono [OF m this] show ?thesis
      unfolding walk 0 using w by (simp add: Let_def slot_rewritten_start)
  qed
qed

text \<open>
  C25. The evening peak keeps its energy: in the plan the pass returns, projected forward by
  \<open>project_energy\<close> from the same state, every discharge slot before the evening cluster in which the
  house has a deficit ends with a SoC of at least the reserve floor plus the energy the evening
  needs. (Slots that would have gone below are held.) The need itself is never negative and never
  more than the room above the floor. A need of nothing (up to the code's tolerance of 1e-12 kWh)
  leaves the plan as it was, and then nothing is promised: the battery may already be below its floor.
\<close>

theorem evening_energy_is_kept:
  assumes m: "model_ok m"
    and need: "evening_reserve_kwh (pl_slots p) lb (bm_usable_kwh m) (bm_reserve_soc_pct m)
                 (bm_max_discharge_w m) (bm_round_trip_efficiency m) tz sb = (need, Some t)"
    and q: "q = apply_evening_reserve p start_pct (Some lb) m tz sb"
    and ps: "ps = project_energy (pl_slots q) start_pct sb lb m (pl_target_soc p) SLOT
                    (Some (int (length (pl_slots q))))"
  shows "0 \<le> need \<and> need \<le> (1 - bm_reserve_soc_pct m / 100) * bm_usable_kwh m \<and>
         (if need \<le> 1/1000000000000 then q = p
          else \<forall>i<length (pl_slots q).
            sl_intent (pl_slots q ! i) = DISCHARGE_FOR_LOAD \<and> sl_start (pl_slots q ! i) < t \<and>
            map_get sb (sl_start (pl_slots q ! i)) 0 < map_get lb (sl_start (pl_slots q ! i)) 0 \<longrightarrow>
              bm_reserve_soc_pct m + need / bm_usable_kwh m * 100 \<le> pj_soc_pct (ps ! i))"
proof -
  let ?e = "\<lparr>ev_model = m, ev_target_kwh = target_kwh_of m (pl_target_soc p), ev_need = need, ev_start = t\<rparr>"
  have u: "0 < bm_usable_kwh m" using m by (simp add: model_ok_def)
  have ne: "pl_slots p \<noteq> []" using need by (auto simp: evening_reserve_kwh_def evening_discharge_slots_def)
  have small: "q = p" if "need \<le> 1/1000000000000"
    using need that ne by (simp add: q apply_evening_reserve_def)
  have q': "pl_slots q = evening_walk ?e sb lb (start_kwh m start_pct) (pl_slots p)"
    if "1/1000000000000 < need"
    using need that u ne by (simp add: q apply_evening_reserve_def Let_def)
  have b: "0 \<le> start_kwh m start_pct" "start_kwh m start_pct \<le> bm_usable_kwh m"
    using start_kwh_bounds [OF m] by blast+
  have len: "length (pl_slots q) = length (pl_slots p)"
    unfolding q using list_all2_lengthD [OF apply_evening_reserve_rewrites] by metis
  have hours: "total_seconds SLOT / 3600 = SLOT_HOURS" by (simp add: total_seconds_def SLOT_HOURS_def)
  have pj: "ps = project_walk m SLOT_HOURS (target_kwh_of m (pl_target_soc p)) sb lb (start_kwh m start_pct)
               (pl_slots q)"
    unfolding ps project_energy_def hours by simp
  have "soc_pct_of m (reserve_kwh m + need) \<le> pj_soc_pct (ps ! i)"
    if "1/1000000000000 < need" "i < length (pl_slots q)" "sl_intent (pl_slots q ! i) = DISCHARGE_FOR_LOAD"
      "sl_start (pl_slots q ! i) < t"
      "map_get sb (sl_start (pl_slots q ! i)) 0 < map_get lb (sl_start (pl_slots q ! i)) 0" for i
    using evening_walk_projection [of ?e "start_kwh m start_pct" i "pl_slots p" "pl_slots q ! i" sb lb]
      m b that len by (simp add: pj q' [OF that(1)])
  moreover have "soc_pct_of m (reserve_kwh m + need) = bm_reserve_soc_pct m + need / bm_usable_kwh m * 100"
    using u by (simp add: soc_pct_of_def reserve_kwh_def add_divide_distrib distrib_right)
  moreover have "need \<le> (1 - bm_reserve_soc_pct m / 100) * bm_usable_kwh m"
  proof -
    have "0 \<le> (1 - bm_reserve_soc_pct m / 100) * bm_usable_kwh m"
      using m by (intro mult_nonneg_nonneg) (simp_all add: model_ok_def)
    with evening_need_bounds [OF need] show ?thesis by (simp add: left_diff_distrib)
  qed
  moreover have "0 \<le> need" using evening_need_bounds [OF need] by blast
  ultimately show ?thesis using small by simp
qed

definition demo_two_peaks :: plan where
  "demo_two_peaks = plan0 0 [plan_slot0 (6 * us_hour) DISCHARGE_FOR_LOAD [],
                             plan_slot0 (18 * us_hour) DISCHARGE_FOR_LOAD []]"

theorem evening_energy_is_kept_witness:
  "let lb = [6 * us_hour \<mapsto> 1000, 18 * us_hour \<mapsto> 4000];
       q = apply_evening_reserve demo_two_peaks 30 (Some lb) demo_model utc Map.empty;
       ps = project_energy (pl_slots q) 30 Map.empty lb demo_model None SLOT (Some 2)
   in sl_intent (pl_slots q ! 0) = DISCHARGE_FOR_LOAD \<and> 16 \<le> pj_soc_pct (ps ! 0)"
proof -
  let ?lb = "[6 * us_hour \<mapsto> 1000, 18 * us_hour \<mapsto> 4000] :: instant \<rightharpoonup> real"
  let ?q = "apply_evening_reserve demo_two_peaks 30 (Some ?lb) demo_model utc Map.empty"
  have need: "evening_reserve_kwh (pl_slots demo_two_peaks) ?lb (bm_usable_kwh demo_model)
      (bm_reserve_soc_pct demo_model) (bm_max_discharge_w demo_model)
      (bm_round_trip_efficiency demo_model) utc Map.empty = (3/5, Some (18 * us_hour))"
    by (simp add: evening_reserve_kwh_def evening_discharge_slots_def demo_two_peaks_def plan0_def
          plan_slot0_def local_hour_def utc_def deficit_dc_kwh_def SLOT_HOURS_def demo_model_def map_get_def)
  have kept: "\<not> morning_hold \<lparr>ev_model = demo_model, ev_target_kwh = target_kwh_of demo_model None, ev_need = 3/5,
        ev_start = 18 * us_hour\<rparr> 3 (plan_slot0 (6 * us_hour) DISCHARGE_FOR_LOAD []) 1000"
    by (simp add: morning_hold_def max_discharge_ac_def bm_eta_def reserve_kwh_def SLOT_HOURS_def
          demo_model_def plan_slot0_def)
  have st: "start_kwh demo_model 30 = 3" by (simp add: start_kwh_def clamp_def demo_model_def)
  have q: "pl_slots ?q ! 0 = plan_slot0 (6 * us_hour) DISCHARGE_FOR_LOAD [] \<and> length (pl_slots ?q) = 2"
    using need kept
    by (simp add: apply_evening_reserve_def st demo_two_peaks_def plan0_def map_get_def Let_def)
       (simp add: demo_model_def plan_slot0_def)
  have len: "int (length (pl_slots ?q)) = 2" using q by simp
  have tgt: "pl_target_soc demo_two_peaks = None" by (simp add: demo_two_peaks_def plan0_def)
  have "bm_reserve_soc_pct demo_model + (3/5) / bm_usable_kwh demo_model * 100
          \<le> pj_soc_pct (project_energy (pl_slots ?q) 30 Map.empty ?lb demo_model
               (pl_target_soc demo_two_peaks) SLOT (Some (int (length (pl_slots ?q)))) ! 0)"
    using evening_energy_is_kept [where start_pct = 30, OF _ need refl refl] q
    by (simp add: model_ok_def demo_model_def plan_slot0_def map_get_def)
  then have "16 \<le> pj_soc_pct (project_energy (pl_slots ?q) 30 Map.empty ?lb demo_model None SLOT (Some 2) ! 0)"
    unfolding len tgt by (simp add: demo_model_def)
  moreover have "sl_intent (pl_slots ?q ! 0) = DISCHARGE_FOR_LOAD" using q by (simp add: plan_slot0_def)
  ultimately show ?thesis by (simp only: Let_def simp_thms)
qed

end
