(* ===== verification/WinterPlanner.thy ===== *)
theory WinterPlanner
  imports LatePack Economics CycleBudget ReservePasses
begin

section \<open>The winter planner (\<open>ems/planner/rule_based.py\<close>)\<close>

text \<open>
  Buy in the cheapest window before the peaks, discharge in the peaks, and only when that pays. The
  steps of \<open>_plan_winter\<close> are one definition each; a set of starts is a set; dividing by a zero
  capacity raises. The warning about an under-charge is a log line and is not modelled. The zone comes
  with its wall-to-UTC map.
\<close>

record winter_config =
  wc_rte :: real
  wc_degradation :: real
  wc_risk :: real
  wc_charge_slots :: nat
  wc_discharge_slots :: nat
  wc_horizon_slots :: nat
  wc_negative_soak :: bool
  wc_import_fee :: real
  wc_includes_all_fees :: bool
  wc_daily_cap_kwh :: real
  wc_already_bought :: "real option"
  wc_max_cycles :: real
  wc_charged_today :: "real option"
  wc_discharged_today :: "real option"
  wc_daily_min_savings :: real
  wc_max_buy :: real
  wc_tz :: zone
  wc_of_wall :: "int \<Rightarrow> instant"

definition winter_defaults :: "zone \<Rightarrow> (int \<Rightarrow> instant) \<Rightarrow> winter_config" where
  "winter_defaults tz of_wall =
     \<lparr>wc_rte = 9/10, wc_degradation = 5/100, wc_risk = 2/100, wc_charge_slots = 12, wc_discharge_slots = 24,
      wc_horizon_slots = 96, wc_negative_soak = False, wc_import_fee = 0, wc_includes_all_fees = False,
      wc_daily_cap_kwh = 12, wc_already_bought = Some 0, wc_max_cycles = 3/2, wc_charged_today = Some 0,
      wc_discharged_today = Some 0, wc_daily_min_savings = 0, wc_max_buy = 0, wc_tz = tz,
      wc_of_wall = of_wall\<rparr>"

definition effective_import_price :: "winter_config \<Rightarrow> price_slot \<Rightarrow> real" where
  "effective_import_price cfg p = (if wc_includes_all_fees cfg then pr_eur p else pr_eur p + wc_import_fee cfg)"

definition winter_plan :: "instant \<Rightarrow> plan_slot list \<Rightarrow> plan" where
  "winter_plan now ss = (plan0 now ss)\<lparr>pl_strategy := Some ''winter''\<rparr>"

definition all_auto :: "price_slot list \<Rightarrow> instant \<Rightarrow> string \<Rightarrow> plan" where
  "all_auto prices now note =
     winter_plan now (map (\<lambda>p. plan_slot0 (pr_start p) ALLOW_SELF_CONSUMPTION
       [Lit note, Lit '' (EUR'', Fixed 2 (pr_eur p), Lit ''/kWh)'']) prices)"

text \<open>The candidates to buy, the price they set, and the peaks that beat it.\<close>

definition charge_candidates :: "winter_config \<Rightarrow> price_slot list \<Rightarrow> price_slot list" where
  "charge_candidates cfg horizon =
     take (wc_charge_slots cfg) (sort_key (effective_import_price cfg) horizon)"

definition candidate_price :: "winter_config \<Rightarrow> price_slot list \<Rightarrow> real" where
  "candidate_price cfg horizon =
     (let cs = charge_candidates cfg horizon
      in if cs = [] then 0 else Max (effective_import_price cfg ` set cs))"

definition winter_breakeven :: "winter_config \<Rightarrow> price_slot list \<Rightarrow> real" where
  "winter_breakeven cfg horizon =
     breakeven (candidate_price cfg horizon) (wc_rte cfg) (wc_degradation cfg) (wc_risk cfg)"

definition discharge_slots :: "winter_config \<Rightarrow> price_slot list \<Rightarrow> price_slot list" where
  "discharge_slots cfg horizon =
     filter (\<lambda>p. winter_breakeven cfg horizon < effective_import_price cfg p)
       (take (wc_discharge_slots cfg) (sort_key (\<lambda>p. - effective_import_price cfg p) horizon))"

definition discharge_set :: "winter_config \<Rightarrow> price_slot list \<Rightarrow> instant set" where
  "discharge_set cfg horizon = starts_of (discharge_slots cfg horizon)"

subsection \<open>Sizing to the demand of the peaks\<close>

record battery_input =
  bi_soc_pct :: real
  bi_load_by :: "(instant \<rightharpoonup> real) option"
  bi_usable_kwh :: real
  bi_reserve_soc_pct :: real
  bi_max_charge_w :: real
  bi_max_discharge_w :: real
  bi_expected_ev_kwh :: real

definition ev_kwh_of :: "battery_input \<Rightarrow> real" where
  "ev_kwh_of b = (case bi_load_by b of None \<Rightarrow> 0 | Some _ \<Rightarrow> max 0 (bi_expected_ev_kwh b))"

definition format_ev_load_reason :: "real \<Rightarrow> message" where
  "format_ev_load_reason kwh = [Lit ''EV load expected ~'', Fixed 0 kwh, Lit '' kWh'']"

definition ev_suffix :: "battery_input \<Rightarrow> message" where
  "ev_suffix b = (if 1/1000000000 < ev_kwh_of b then [Lit ''; ''] @ format_ev_load_reason (ev_kwh_of b) else [])"

definition peak_load_kwh :: "(instant \<rightharpoonup> real) \<Rightarrow> instant set \<Rightarrow> real" where
  "peak_load_kwh load_by peaks = (\<Sum>d\<in>peaks. map_get load_by d 0) * (1/4) / 1000"

definition avail_now_kwh :: "battery_input \<Rightarrow> real" where
  "avail_now_kwh b =
     max 0 (bi_soc_pct b / 100 * bi_usable_kwh b - bi_reserve_soc_pct b / 100 * bi_usable_kwh b)"

definition shortfall_dc :: "winter_config \<Rightarrow> battery_input \<Rightarrow> real \<Rightarrow> real" where
  "shortfall_dc cfg b peak_kwh = max 0 ((peak_kwh + ev_kwh_of b) / eta_of (wc_rte cfg) - avail_now_kwh b)"

record winter_sizing =
  sz_charge_set :: "instant set"
  sz_target_soc :: "real option"
  sz_buy_pool :: "buy_pool_info option"

definition winter_max_buy :: "winter_config \<Rightarrow> price_slot list \<Rightarrow> real" where
  "winter_max_buy cfg horizon =
     max_buy_for_peak
       (Min (effective_import_price cfg ` set (filter (\<lambda>p. pr_start p \<in> discharge_set cfg horizon) horizon)))
       (wc_rte cfg) (wc_degradation cfg) (wc_risk cfg)"

definition winter_demand ::
  "winter_config \<Rightarrow> price_slot list \<Rightarrow> battery_input \<Rightarrow> real \<Rightarrow> py_error + winter_sizing" where
  "winter_demand cfg horizon b peak_kwh =
     (let slot_kwh = stored_kwh_per_slot (bi_max_charge_w b) (wc_rte cfg);
          shortfall = shortfall_dc cfg b peak_kwh;
          n = charge_slot_count shortfall slot_kwh;
          auto = winter_max_buy cfg horizon;
          max_buy = apply_max_buy_cap auto (wc_max_buy cfg);
          pre_peak = filter (\<lambda>p. pr_start p < Max (discharge_set cfg horizon)) horizon;
          pool = filter (\<lambda>p. effective_import_price cfg p \<le> max_buy) pre_peak;
          chosen = late_pack_charge_starts pre_peak n (effective_import_price cfg) max_buy;
          stored = min shortfall (real (card chosen) * slot_kwh)
      in if bi_usable_kwh b = 0 then Inl ZeroDivisionError
         else Inr \<lparr>sz_charge_set = chosen,
                   sz_target_soc = Some (min 100 ((bi_reserve_soc_pct b / 100 * bi_usable_kwh b
                      + avail_now_kwh b + stored) / bi_usable_kwh b * 100)),
                   sz_buy_pool = Some (build_buy_pool_info pre_peak pool n shortfall max_buy
                      (effective_import_price cfg) (Some auto) (wc_max_buy cfg))\<rparr>)"

subsection \<open>The slots\<close>

definition winter_slot ::
  "winter_config \<Rightarrow> battery_input \<Rightarrow> instant set \<Rightarrow> winter_sizing \<Rightarrow> real \<Rightarrow> price_slot \<Rightarrow> plan_slot" where
  "winter_slot cfg b peaks sz be p =
     (let t = pr_start p; sized = (bi_load_by b \<noteq> None);
          later = Set.filter (\<lambda>d. t < d) peaks;
          floor_soc = (if sized then Some (bi_reserve_soc_pct b) else None);
          eur = [Fixed 2 (pr_eur p), Lit ''/kWh'']
      in if t \<in> sz_charge_set sz \<and> later \<noteq> {}
         then (plan_slot0 t GRID_CHARGE_TO_TARGET
                 ([Lit ''charge: cheap window EUR''] @ eur @ ev_suffix b))
              \<lparr>sl_target_soc := sz_target_soc sz,
               sl_target_kwh := (if sized then Some (py_round (stored_kwh_per_slot (bi_max_charge_w b) (wc_rte cfg)) 3)
                                 else None),
               sl_power_w := (if sized then Some (bi_max_charge_w b) else None),
               sl_floor_soc := floor_soc, sl_deadline := Some (Min later)\<rparr>
         else if t \<in> sz_charge_set sz
         then (plan_slot0 t ALLOW_SELF_CONSUMPTION
                 ([Lit ''self-consumption: cheap but no peak ahead (EUR''] @ eur @ [Lit '')'']))
              \<lparr>sl_floor_soc := floor_soc\<rparr>
         else if t \<in> peaks
         then (plan_slot0 t DISCHARGE_FOR_LOAD
                 ([Lit ''self-consumption: EUR''] @ eur @ [Lit '' > break-even EUR'', Fixed 2 be] @ ev_suffix b))
              \<lparr>sl_floor_soc := floor_soc\<rparr>
         else if later \<noteq> {} \<and> (\<exists>c\<in>sz_charge_set sz. c < t)
         then (plan_slot0 t HOLD_RESERVE
                 ([Lit ''hold cheap energy for the coming peak (now EUR''] @ eur @ [Lit '')''] @ ev_suffix b))
              \<lparr>sl_floor_soc := floor_soc\<rparr>
         else (plan_slot0 t ALLOW_SELF_CONSUMPTION ([Lit ''self-consumption (EUR''] @ eur @ [Lit '')'']))
              \<lparr>sl_floor_soc := floor_soc\<rparr>)"

definition winter_model :: "winter_config \<Rightarrow> battery_input \<Rightarrow> battery_model" where
  "winter_model cfg b =
     \<lparr>bm_usable_kwh = bi_usable_kwh b, bm_max_charge_w = bi_max_charge_w b,
      bm_max_discharge_w = bi_max_discharge_w b, bm_round_trip_efficiency = wc_rte cfg,
      bm_reserve_soc_pct = bi_reserve_soc_pct b\<rparr>"

definition winter_from_sizing ::
  "winter_config \<Rightarrow> instant \<Rightarrow> battery_input \<Rightarrow> price_slot list \<Rightarrow> winter_sizing \<Rightarrow> plan" where
  "winter_from_sizing cfg now b horizon sz =
     (winter_plan now (map (winter_slot cfg b (discharge_set cfg horizon) sz (winter_breakeven cfg horizon)) horizon))
       \<lparr>pl_target_soc := sz_target_soc sz, pl_deadline := Some (Min (discharge_set cfg horizon)),
        pl_buy_pool := sz_buy_pool sz\<rparr>"

definition winter_trade ::
  "winter_config \<Rightarrow> instant \<Rightarrow> battery_input \<Rightarrow> price_slot list \<Rightarrow> winter_sizing \<Rightarrow> plan" where
  "winter_trade cfg now b horizon sz =
     apply_evening_reserve (winter_from_sizing cfg now b horizon sz) (bi_soc_pct b) (bi_load_by b)
       (winter_model cfg b) (wc_tz cfg) Map.empty"

definition fixed_sizing :: "winter_config \<Rightarrow> price_slot list \<Rightarrow> winter_sizing" where
  "fixed_sizing cfg horizon =
     \<lparr>sz_charge_set = starts_of (charge_candidates cfg horizon), sz_target_soc = None, sz_buy_pool = None\<rparr>"

definition plan_winter :: "price_slot list \<Rightarrow> instant \<Rightarrow> winter_config \<Rightarrow> battery_input \<Rightarrow> py_error + plan" where
  "plan_winter prices now cfg b =
     (let horizon = slice_price_horizon prices now (wc_tz cfg) (wc_of_wall cfg) (wc_horizon_slots cfg);
          peaks = discharge_set cfg horizon
      in if horizon = [] then Inr (winter_plan now [])
         else if peaks = {} then Inr (all_auto horizon now ''no-trade: spread below break-even'')
         else case bi_load_by b of
                None \<Rightarrow> Inr (winter_trade cfg now b horizon (fixed_sizing cfg horizon))
              | Some load_by \<Rightarrow>
                  if peak_load_kwh load_by peaks \<le> 1/1000000000
                  then Inr (all_auto horizon now ''no-trade: no house load in the expensive window'')
                  else bind_res (winter_demand cfg horizon b (peak_load_kwh load_by peaks)) (\<lambda>sz.
                         Inr (winter_trade cfg now b horizon sz)))"

definition soak_slot :: "winter_config \<Rightarrow> real \<Rightarrow> (instant \<rightharpoonup> real) \<Rightarrow> plan_slot \<Rightarrow> plan_slot" where
  "soak_slot cfg max_charge_w price_by s =
     (if map_get price_by (sl_start s) 0 < 0
      then (plan_slot0 (sl_start s) GRID_CHARGE_TO_TARGET
              [Lit ''charge: price EUR'', Fixed 2 (map_get price_by (sl_start s) 0),
               Lit ''/kWh below EUR0 -- you are paid to charge''])
           \<lparr>sl_target_soc := Some 100,
            sl_target_kwh := Some (py_round (stored_kwh_per_slot max_charge_w (wc_rte cfg)) 3),
            sl_power_w := Some max_charge_w, sl_floor_soc := sl_floor_soc s, sl_deadline := sl_deadline s\<rparr>
      else s)"

definition soak_negative :: "plan \<Rightarrow> price_slot list \<Rightarrow> winter_config \<Rightarrow> real \<Rightarrow> plan" where
  "soak_negative p prices cfg max_charge_w =
     (plan0 (pl_created_at p) (map (soak_slot cfg max_charge_w (price_map prices)) (pl_slots p)))
       \<lparr>pl_strategy := pl_strategy p, pl_target_soc := pl_target_soc p, pl_deadline := pl_deadline p,
        pl_buy_pool := pl_buy_pool p\<rparr>"

definition winter_budgets :: "winter_config \<Rightarrow> battery_input \<Rightarrow> plan \<Rightarrow> plan" where
  "winter_budgets cfg b p =
     clamp_cycle_budget
       (clamp_grid_charge p (wc_already_bought cfg) (wc_daily_cap_kwh cfg)
          (ac_grid_kwh_per_slot (bi_max_charge_w b)) (wc_tz cfg))
       (wc_charged_today cfg) (wc_discharged_today cfg) (wc_max_cycles cfg) (bi_usable_kwh b)
       (wc_rte cfg) (bi_max_charge_w b) (wc_tz cfg)"

definition plan_rule_based :: "price_slot list \<Rightarrow> instant \<Rightarrow> winter_config \<Rightarrow> battery_input \<Rightarrow> py_error + plan" where
  "plan_rule_based prices now cfg b =
     bind_res (plan_winter prices now cfg b) (\<lambda>p.
       Inr (winter_budgets cfg b
              (if wc_negative_soak cfg then soak_negative p prices cfg (bi_max_charge_w b) else p)))"

end
