(* ===== verification/PlanValidator.thy ===== *)
theory PlanValidator
  imports Overrides ReservePasses GridBudget
begin

section \<open>The plan validator (\<open>ems/planner/validator.py\<close>)\<close>

text \<open>
  The gate every plan passes before it may be applied: the power clamp that runs before it, its checks
  in the order of the code (each at most one or two findings), and the verdict. The keyword arguments
  are one record.
\<close>

definition charge_intent :: "battery_intent \<Rightarrow> bool" where
  "charge_intent i = (i = GRID_CHARGE_TO_TARGET)"

definition discharge_power_intent :: "battery_intent \<Rightarrow> bool" where
  "discharge_power_intent i = (i = DISCHARGE_FOR_LOAD \<or> i = EXPORT_FOR_PROFIT)"

definition VAL_EPS :: real where "VAL_EPS = 1 / 1000000"

subsection \<open>Clamping power before validation\<close>

definition effective_power_limit_w :: "real option \<Rightarrow> real option \<Rightarrow> real option" where
  "effective_power_limit_w capability_w settings_w =
     (case (capability_w, settings_w) of
        (None, None) \<Rightarrow> None
      | (None, Some s) \<Rightarrow> Some s
      | (Some c, None) \<Rightarrow> Some c
      | (Some c, Some s) \<Rightarrow> Some (min c s))"

definition unknown_clamped :: "plan_slot \<Rightarrow> plan_slot" where
  "unknown_clamped s =
     (if \<not> charge_intent (sl_intent s) \<and> \<not> discharge_power_intent (sl_intent s) then s
      else if (case sl_power_w s of Some w \<Rightarrow> w \<le> ONE_UNIT_POWER_W + VAL_EPS | None \<Rightarrow> False) then s
      else s\<lparr>sl_power_w := Some ONE_UNIT_POWER_W\<rparr>)"

text \<open>Whether the settings advertise more than the probe, per direction.\<close>

definition underreported :: "real option \<Rightarrow> real \<Rightarrow> bool" where
  "underreported settings_w cap_w = (case settings_w of Some s \<Rightarrow> cap_w + VAL_EPS < s | None \<Rightarrow> False)"

definition known_clamp :: "capability_report \<Rightarrow> real option \<Rightarrow> real option \<Rightarrow> plan_slot \<Rightarrow> real option" where
  "known_clamp c set_ch set_dis s =
     (case sl_power_w s of
        None \<Rightarrow> None
      | Some w \<Rightarrow>
          (let limit = (if charge_intent (sl_intent s) then effective_power_limit_w (Some (cap_max_charge_w c)) set_ch
                        else effective_power_limit_w (Some (cap_max_discharge_w c)) set_dis);
               under = (if charge_intent (sl_intent s) then underreported set_ch (cap_max_charge_w c)
                        else underreported set_dis (cap_max_discharge_w c))
           in case limit of
                None \<Rightarrow> None
              | Some l \<Rightarrow>
                  if w \<le> l + VAL_EPS then None
                  else if \<not> charge_intent (sl_intent s) \<and> \<not> discharge_power_intent (sl_intent s) then None
                  else if \<not> under then None
                  else Some l))"

definition known_clamped :: "capability_report \<Rightarrow> real option \<Rightarrow> real option \<Rightarrow> plan_slot \<Rightarrow> plan_slot" where
  "known_clamped c set_ch set_dis s =
     (case known_clamp c set_ch set_dis s of None \<Rightarrow> s | Some l \<Rightarrow> s\<lparr>sl_power_w := Some l\<rparr>)"

definition mismatch_message :: "string \<Rightarrow> real \<Rightarrow> real \<Rightarrow> real option \<Rightarrow> message" where
  "mismatch_message what set_w cap_w limit =
     [Lit ''Settings '', Lit what, Lit ''='', Fixed 0 set_w, Lit '' W diverges from capability '',
      Fixed 0 cap_w, Lit '' W -- clamping plan power to '', Fixed 0 (opt_else limit 0),
      Lit '' W (the lower figure).'']"

definition mismatch_findings :: "capability_report \<Rightarrow> real option \<Rightarrow> real option \<Rightarrow> finding list" where
  "mismatch_findings c set_ch set_dis =
     (if (case set_ch of Some s \<Rightarrow> VAL_EPS < \<bar>s - cap_max_charge_w c\<bar> | None \<Rightarrow> False)
      then [finding WARN ''settings_capability_power_mismatch''
              (mismatch_message ''max_charge_w'' (the set_ch) (cap_max_charge_w c)
                 (effective_power_limit_w (Some (cap_max_charge_w c)) set_ch))]
      else if (case set_dis of Some s \<Rightarrow> VAL_EPS < \<bar>s - cap_max_discharge_w c\<bar> | None \<Rightarrow> False)
      then [finding WARN ''settings_capability_power_mismatch''
              (mismatch_message ''max_discharge_w'' (the set_dis) (cap_max_discharge_w c)
                 (effective_power_limit_w (Some (cap_max_discharge_w c)) set_dis))]
      else [])"

definition clamped_findings :: "capability_report \<Rightarrow> real option \<Rightarrow> real option \<Rightarrow> plan_slot list \<Rightarrow> finding list" where
  "clamped_findings c set_ch set_dis ss =
     (case find (\<lambda>s. known_clamp c set_ch set_dis s \<noteq> None) ss of
        None \<Rightarrow> []
      | Some s \<Rightarrow>
          [finding WARN ''power_clamped_to_capability''
             [Lit ''A slot requested '', Fixed 0 (opt_else (sl_power_w s) 0), Lit '' W; clamped to '',
              Fixed 0 (opt_else (known_clamp c set_ch set_dis s) 0),
              Lit '' W (min of settings and capability) before validate.'']])"

definition clamp_plan_power ::
  "plan \<Rightarrow> capability_report option \<Rightarrow> real option \<Rightarrow> real option \<Rightarrow> plan \<times> finding list" where
  "clamp_plan_power p capability set_ch set_dis =
     (case capability of
        None \<Rightarrow>
          (let ss = map unknown_clamped (pl_slots p)
           in if ss = pl_slots p then (p, [])
              else (p\<lparr>pl_slots := ss\<rparr>,
                    [finding WARN ''capability_unknown_conservative''
                       [Lit ''Battery capability unknown -- proceeding cautiously at '', Fixed 0 ONE_UNIT_POWER_W,
                        Lit '' W (one unit).'']]))
      | Some c \<Rightarrow>
          (let ss = map (known_clamped c set_ch set_dis) (pl_slots p);
               fs = mismatch_findings c set_ch set_dis @ clamped_findings c set_ch set_dis (pl_slots p)
           in if ss = pl_slots p then (p, fs) else (p\<lparr>pl_slots := ss\<rparr>, fs)))"

subsection \<open>The inputs\<close>

record validate_inputs =
  vi_soc_pct :: "real option"
  vi_data_quality :: string
  vi_min_reserve_soc :: real
  vi_capability :: "capability_report option"
  vi_projection :: "projected_slot list option"
  vi_max_switches :: int
  vi_min_dwell :: duration
  vi_slot_horizon :: nat
  vi_validate_projection :: bool
  vi_target_margin_pp :: real
  vi_grid_limit_w :: "real option"
  vi_expected_load_w :: "real option"
  vi_load_by :: "(instant \<rightharpoonup> real) option"
  vi_settings_max_charge_w :: "real option"
  vi_settings_max_discharge_w :: "real option"
  vi_max_export_kwh :: "real option"
  vi_allow_export :: bool
  vi_daily_cap_kwh :: "real option"
  vi_already_bought :: "real option"
  vi_per_slot_kwh :: real
  vi_tz :: zone
  vi_usable_kwh :: "real option"
  vi_round_trip_efficiency :: real
  vi_solar_by :: "instant \<rightharpoonup> real"
  vi_max_discharge_w :: "real option"

subsection \<open>Checks 1 to 4: inputs, targets, power, switching\<close>

definition check_inputs :: "validate_inputs \<Rightarrow> finding list" where
  "check_inputs v =
     (if vi_data_quality v = ''unsafe'' \<or> vi_soc_pct v = None
      then [finding UNSAFE ''stale_inputs'' [Lit ''Critical sensor data is stale or missing -- holding self-use.'']]
      else [])"

definition charge_slots :: "plan_slot list \<Rightarrow> plan_slot list" where
  "charge_slots ss = filter (\<lambda>s. charge_intent (sl_intent s)) ss"

definition check_unsized :: "plan_slot list \<Rightarrow> finding list" where
  "check_unsized ss =
     (if list_ex (\<lambda>s. sl_target_soc s = None) (charge_slots ss)
      then [finding WARN ''charge_target_unsized''
              [Lit ''A grid-charge slot has no target SoC yet -- it won't execute until sized (the driver refuses a target-less charge).'']]
      else [])"

definition target_finding :: "validate_inputs \<Rightarrow> plan_slot \<Rightarrow> finding option" where
  "target_finding v s =
     (case sl_target_soc s of
        None \<Rightarrow> None
      | Some t \<Rightarrow>
          if \<not> (0 \<le> t \<and> t \<le> 100)
          then Some (finding UNSAFE ''target_out_of_range''
                       [Lit ''Charge target '', Fixed 0 t, Lit ''% is outside 0-100%.''])
          else if (case vi_capability v of
                     Some c \<Rightarrow> 0 < cap_min_target_soc c \<and> t < cap_min_target_soc c - VAL_EPS
                   | None \<Rightarrow> False)
          then Some (finding UNSAFE ''target_below_capability_min''
                       [Lit ''Charge target '', Fixed 1 t, Lit ''% is below the battery's minimum '',
                        Fixed 1 (cap_min_target_soc (the (vi_capability v))),
                        Lit ''% -- device would reject the write.''])
          else if t < opt_else (sl_floor_soc s) (vi_min_reserve_soc v)
          then Some (finding UNSAFE ''target_below_reserve''
                       [Lit ''Charge target '', Fixed 0 t, Lit ''% is below the reserve floor '',
                        Fixed 0 (opt_else (sl_floor_soc s) (vi_min_reserve_soc v)),
                        Lit ''% -- impossible/contradictory.''])
          else None)"

text \<open>A loop that reports the first slot with a finding and stops.\<close>

fun first_finding :: "('a \<Rightarrow> finding option) \<Rightarrow> 'a list \<Rightarrow> finding list" where
  "first_finding f [] = []"
| "first_finding f (s # ss) = (case f s of Some x \<Rightarrow> [x] | None \<Rightarrow> first_finding f ss)"

lemma first_finding_Nil_iff: "first_finding f ss = [] \<longleftrightarrow> (\<forall>s\<in>set ss. f s = None)"
  by (induction ss) (auto split: option.splits)

lemma first_finding_mem: "x \<in> set (first_finding f ss) \<Longrightarrow> \<exists>s\<in>set ss. f s = Some x"
  by (induction ss) (auto split: option.splits)

definition slot_power_limit :: "validate_inputs \<Rightarrow> capability_report \<Rightarrow> plan_slot \<Rightarrow> real option" where
  "slot_power_limit v c s =
     (if charge_intent (sl_intent s)
      then effective_power_limit_w (Some (cap_max_charge_w c)) (vi_settings_max_charge_w v)
      else effective_power_limit_w (Some (cap_max_discharge_w c)) (vi_settings_max_discharge_w v))"

definition power_finding :: "validate_inputs \<Rightarrow> plan_slot \<Rightarrow> finding option" where
  "power_finding v s =
     (case vi_capability v of
        None \<Rightarrow> None
      | Some c \<Rightarrow>
          (case (sl_power_w s, slot_power_limit v c s) of
             (Some w, Some limit) \<Rightarrow>
               if limit + VAL_EPS < w
               then (let cap_limit = (if charge_intent (sl_intent s) then cap_max_charge_w c else cap_max_discharge_w c);
                         set_w = (if charge_intent (sl_intent s) then vi_settings_max_charge_w v
                                  else vi_settings_max_discharge_w v)
                     in Some (finding UNSAFE ''power_exceeds_capability''
                          ([Lit ''A slot requests '', Fixed 0 w, Lit '' W, above the battery's '', Fixed 0 limit,
                            Lit '' W rated power.'']
                           @ (case set_w of
                                Some x \<Rightarrow> if VAL_EPS < \<bar>x - cap_limit\<bar>
                                          then [Lit '' Settings advertise '', Fixed 0 x, Lit '' W vs capability '',
                                                Fixed 0 cap_limit, Lit '' W.'']
                                          else []
                              | None \<Rightarrow> []))))
               else None
           | _ \<Rightarrow> None))"

fun transitions :: "plan_slot list \<Rightarrow> (plan_slot \<times> plan_slot) list" where
  "transitions (a # b # ss) =
     (if sl_intent b \<noteq> sl_intent a then [(a, b)] else []) @ transitions (b # ss)"
| "transitions _ = []"

definition check_switches :: "validate_inputs \<Rightarrow> plan_slot list \<Rightarrow> finding list" where
  "check_switches v ss =
     (let ts = transitions ss
      in (if vi_max_switches v < int (length ts)
          then [finding WARN ''excessive_switches''
                  [Lit ''The plan switches mode '', Count (int (length ts)), Lit ''x -- above the '',
                   Count (vi_max_switches v), Lit ''/day budget.'']]
          else []) @
         (if list_ex (\<lambda>(a, b). sl_start b - sl_start a < vi_min_dwell v) ts
          then [finding WARN ''dwell_churn'' [Lit ''The plan changes mode faster than the minimum dwell time.'']]
          else []))"

subsection \<open>Checks 5 and 6: the projection\<close>

definition check_projection :: "validate_inputs \<Rightarrow> finding list" where
  "check_projection v =
     (case (vi_projection v, vi_soc_pct v) of
        (Some ps, Some soc) \<Rightarrow>
          if ps = [] then []
          else
            (let floor_pct = min (vi_min_reserve_soc v) soc
             in (if list_ex (\<lambda>p. pj_soc_pct p < floor_pct - VAL_EPS) ps
                 then [finding UNSAFE ''projection_below_reserve''
                         [Lit ''The plan is projected to discharge below the reserve floor.'']] else []) @
                (if list_ex (\<lambda>p. 100 + VAL_EPS < pj_soc_pct p) ps
                 then [finding WARN ''projection_overfill'' [Lit ''The plan is projected to overfill the battery.'']]
                 else []))
      | _ \<Rightarrow> [])"

text \<open>
  The committed charge windows: pairs of deadline and target, by deadline. (Pairs with one deadline
  come from a Python set, in an order the language leaves open; here it is the order of the slots.)
\<close>

definition commitments :: "plan \<Rightarrow> instant \<Rightarrow> real \<Rightarrow> plan_slot list \<Rightarrow> (instant \<times> real) list" where
  "commitments p deadline target ss =
     sort_key fst (remdups (map (\<lambda>s. (opt_else (sl_deadline s) deadline, opt_else (sl_target_soc s) target))
                              (charge_slots ss)))"

definition reach_finding :: "validate_inputs \<Rightarrow> projected_slot list \<Rightarrow> instant \<times> real \<Rightarrow> finding option" where
  "reach_finding v ps dt =
     (let reached = filter (\<lambda>p. pj_start p + SLOT \<le> fst dt) ps
      in if reached = [] then None
         else if snd dt - vi_target_margin_pp v \<le> pj_soc_pct (last reached) then None
         else Some (finding WARN ''projection_short_of_target''
                [Lit ''Plan targets '', Fixed 0 (snd dt), Lit ''% by '', Clock (fst dt),
                 Lit '' but projects only '', Fixed 0 (pj_soc_pct (last reached)),
                 Lit ''% -- charging best-effort toward what's reachable (honest partial; not holding AUTO).'']))"

definition check_reachable :: "validate_inputs \<Rightarrow> plan \<Rightarrow> plan_slot list \<Rightarrow> finding list" where
  "check_reachable v p ss =
     (case (vi_projection v, pl_target_soc p, pl_deadline p) of
        (Some ps, Some target, Some deadline) \<Rightarrow>
          if vi_validate_projection v \<and> ps \<noteq> [] \<and> vi_data_quality v = ''complete''
             \<and> pl_strategy p = Some ''winter'' \<and> charge_slots ss \<noteq> []
          then first_finding (reach_finding v ps) (commitments p deadline target ss)
          else []
      | _ \<Rightarrow> [])"

subsection \<open>Check 7: the grid fuse\<close>

definition charge_power :: "validate_inputs \<Rightarrow> plan_slot \<Rightarrow> real option" where
  "charge_power v s =
     (case sl_power_w s of
        Some w \<Rightarrow> Some w
      | None \<Rightarrow> (case vi_capability v of
                   Some c \<Rightarrow> effective_power_limit_w (Some (cap_max_charge_w c)) (vi_settings_max_charge_w v)
                 | None \<Rightarrow> None))"

definition slot_load :: "validate_inputs \<Rightarrow> plan_slot \<Rightarrow> real option" where
  "slot_load v s =
     (case vi_load_by v of
        Some m \<Rightarrow> (case m (sl_start s) of Some x \<Rightarrow> Some x | None \<Rightarrow> vi_expected_load_w v)
      | None \<Rightarrow> vi_expected_load_w v)"

definition grid_finding :: "validate_inputs \<Rightarrow> real \<Rightarrow> plan_slot \<Rightarrow> finding option" where
  "grid_finding v limit s =
     (case (charge_power v s, slot_load v s) of
        (Some c, Some l) \<Rightarrow>
          if limit + VAL_EPS < c + max 0 l
          then Some (finding UNSAFE ''grid_limit_exceeded''
                 [Lit ''Grid-charge '', Fixed 0 c, Lit '' W + house load '', Fixed 0 l, Lit '' W = '',
                  Fixed 0 (c + max 0 l), Lit '' W exceeds the grid fuse limit '', Fixed 0 limit,
                  Lit '' W -- holding self-use.''])
          else None
      | _ \<Rightarrow> None)"

definition check_grid :: "validate_inputs \<Rightarrow> plan_slot list \<Rightarrow> finding list" where
  "check_grid v ss =
     (case vi_grid_limit_w v of
        Some limit \<Rightarrow> if 0 < limit then first_finding (grid_finding v limit) (charge_slots ss) else []
      | None \<Rightarrow> [])"

subsection \<open>Check 8: export\<close>

definition export_slots :: "plan_slot list \<Rightarrow> plan_slot list" where
  "export_slots ss = filter (\<lambda>s. sl_intent s = EXPORT_FOR_PROFIT) ss"

definition check_export_capability :: "validate_inputs \<Rightarrow> finding list" where
  "check_export_capability v =
     (case vi_capability v of
        None \<Rightarrow> [finding UNSAFE ''export_capability_missing''
                   [Lit ''Export-for-profit needs a probed discharge service -- holding self-use.'']]
      | Some c \<Rightarrow>
          if ''discharge'' \<notin> set (cap_services c)
          then [finding UNSAFE ''export_capability_missing''
                  [Lit ''Export-for-profit needs a probed discharge service -- holding self-use.'']]
          else if cap_max_discharge_w c \<le> 0
          then [finding UNSAFE ''export_no_discharge_power''
                  [Lit ''Export-for-profit needs max_discharge_w > 0 from the capability probe.'']]
          else if \<not> cap_p1_paired c
          then [finding WARN ''export_p1_unpaired''
                  [Lit ''P1 is not paired on the battery probe -- export behaviour is less certain.'']]
          else [])"

definition export_floor_finding :: "validate_inputs \<Rightarrow> plan_slot \<Rightarrow> finding option" where
  "export_floor_finding v s =
     (let floor_pct = opt_else (sl_floor_soc s) (vi_min_reserve_soc v)
      in if floor_pct < vi_min_reserve_soc v - VAL_EPS
         then Some (finding UNSAFE ''export_floor_below_reserve''
                [Lit ''Export floor '', Fixed 0 floor_pct, Lit ''% is below reserve '',
                 Fixed 0 (vi_min_reserve_soc v), Lit ''% -- impossible/contradictory.''])
         else None)"

definition slot_export_kwh :: "plan_slot \<Rightarrow> real" where
  "slot_export_kwh s =
     (case sl_target_kwh s of
        Some k \<Rightarrow> k
      | None \<Rightarrow> (case sl_power_w s of Some w \<Rightarrow> w * (1/4) / 1000 | None \<Rightarrow> 0))"

definition check_export_cap :: "validate_inputs \<Rightarrow> plan_slot list \<Rightarrow> finding list" where
  "check_export_cap v ex =
     (case vi_max_export_kwh v of
        None \<Rightarrow> []
      | Some cap \<Rightarrow>
          (let planned = sum_list (map slot_export_kwh ex)
           in if 0 < cap \<and> cap + VAL_EPS < planned
              then [finding UNSAFE ''export_day_cap_exceeded''
                      [Lit ''Planned export ~'', Fixed 1 planned, Lit '' kWh exceeds the day cap '',
                       Fixed 1 cap, Lit '' kWh.'']]
              else []))"

text \<open>The loop over \<open>starts\<close>: the last intent seen at each start.\<close>

definition clashes :: "battery_intent \<Rightarrow> battery_intent \<Rightarrow> bool" where
  "clashes a b = (charge_intent a \<and> b = EXPORT_FOR_PROFIT \<or> a = EXPORT_FOR_PROFIT \<and> charge_intent b)"

fun overlaps :: "(instant \<rightharpoonup> battery_intent) \<Rightarrow> plan_slot list \<Rightarrow> bool" where
  "overlaps starts [] = False"
| "overlaps starts (s # ss) =
     ((case starts (sl_start s) of Some i \<Rightarrow> clashes i (sl_intent s) | None \<Rightarrow> False) \<or>
      overlaps (starts(sl_start s \<mapsto> sl_intent s)) ss)"

definition check_overlap :: "plan_slot list \<Rightarrow> finding list" where
  "check_overlap ss =
     (if overlaps Map.empty ss
      then [finding UNSAFE ''export_charge_overlap''
              [Lit ''Export and grid-charge overlap in the same slot -- holding self-use.'']]
      else [])"

definition check_export :: "validate_inputs \<Rightarrow> plan_slot list \<Rightarrow> finding list" where
  "check_export v ss =
     (if export_slots ss = [] then []
      else (if \<not> vi_allow_export v
            then [finding WARN ''export_not_armed''
                    [Lit ''Plan includes EXPORT_FOR_PROFIT but allow_export_discharge is off -- forced DISCHARGE writes will not run (dry-run / watch-only safe).'']]
            else []) @
           check_export_capability v @
           first_finding (export_floor_finding v) (export_slots ss) @
           check_export_cap v (export_slots ss) @
           check_overlap ss)"

subsection \<open>The daily grid-charge cap\<close>

text \<open>The keys of \<open>by_day\<close>: the local days with a buying slot, in the order they first occur.\<close>

definition charge_days :: "zone \<Rightarrow> plan_slot list \<Rightarrow> int list" where
  "charge_days tz ss = rev (remdups (rev (map (\<lambda>s. local_date tz (sl_start s)) (charge_slots ss))))"

definition cap_message :: "bool \<Rightarrow> bool \<Rightarrow> real \<Rightarrow> real \<Rightarrow> real \<Rightarrow> message" where
  "cap_message unknown today planned bought cap =
     (if unknown \<and> today then UNKNOWN_COUNTER_REASON @ [Lit ''. Holding self-use.'']
      else [Lit ''Planned grid charge '', Fixed 1 planned, Lit '' kWh''] @
           (if today \<and> VAL_EPS < bought then [Lit '' plus '', Fixed 1 bought, Lit '' kWh already bought''] else []) @
           [Lit '' exceeds the daily cap -- ''] @ cap_reason cap @ [Lit ''. Holding self-use.''])"

definition day_finding :: "validate_inputs \<Rightarrow> plan \<Rightarrow> plan_slot list \<Rightarrow> real \<Rightarrow> int \<Rightarrow> finding option" where
  "day_finding v p ss cap day =
     (let unknown = (vi_already_bought v = None);
          today = (day = plan_day p (vi_tz v));
          bought = (case vi_already_bought v of None \<Rightarrow> cap | Some x \<Rightarrow> max 0 x);
          planned = day_charge_kwh (vi_tz v) (vi_per_slot_kwh v) (pl_created_at p) day ss;
          allowance = cap - (if today then bought else 0)
      in if allowance + VAL_EPS < planned
         then Some (finding UNSAFE ''daily_grid_charge_cap'' (cap_message unknown today planned bought cap))
         else None)"

definition check_daily_cap :: "validate_inputs \<Rightarrow> plan \<Rightarrow> plan_slot list \<Rightarrow> finding list" where
  "check_daily_cap v p ss =
     (case vi_daily_cap_kwh v of
        Some cap \<Rightarrow> if 0 < cap then first_finding (day_finding v p ss cap) (charge_days (vi_tz v) ss) else []
      | None \<Rightarrow> [])"

subsection \<open>Must-charge slots\<close>

definition must_charge_finding :: "plan_slot \<Rightarrow> finding option" where
  "must_charge_finding s =
     (if \<not> is_must_charge_slot s then None
      else case (sl_target_soc s, sl_deadline s) of
             (Some t, Some d) \<Rightarrow>
               if d < sl_start s
               then Some (finding UNSAFE ''must_charge_after_deadline''
                      [Lit ''Voorzorgslading na de piek-deadline -- geen net-laden.''])
               else None
           | _ \<Rightarrow> Some (finding UNSAFE ''must_charge_unsized''
                    [Lit ''Voorzorgslading mist doel-laadniveau of deadline -- geen net-laden.'']))"

subsection \<open>Check 9: the evening reserve\<close>

fun soc_entering :: "plan_slot list \<Rightarrow> projected_slot list \<Rightarrow> instant \<Rightarrow> real \<Rightarrow> real option" where
  "soc_entering [] ps t soc = None"
| "soc_entering (s # ss) ps t soc =
     (if sl_start s = t then Some soc
      else (case ps of [] \<Rightarrow> None | p # ps' \<Rightarrow> soc_entering ss ps' t (pj_soc_pct p)))"

definition evening_finding :: "validate_inputs \<Rightarrow> plan_slot list \<Rightarrow> finding list" where
  "evening_finding v ss =
     (case (vi_usable_kwh v, vi_projection v, vi_soc_pct v, vi_load_by v) of
        (Some usable, Some ps, Some soc, Some load_by) \<Rightarrow>
          (case (case vi_max_discharge_w v of
                   Some w \<Rightarrow> Some w | None \<Rightarrow> map_option cap_max_discharge_w (vi_capability v)) of
             None \<Rightarrow> []
           | Some discharge_w \<Rightarrow>
               if usable \<le> 0 \<or> ss = [] then []
               else (case evening_reserve_kwh ss load_by usable (vi_min_reserve_soc v) discharge_w
                            (vi_round_trip_efficiency v) (vi_tz v) (vi_solar_by v) of
                       (need, Some start) \<Rightarrow>
                         if need \<le> 1/1000000000000 then []
                         else (case soc_entering ss ps start soc of
                                 None \<Rightarrow> []
                               | Some soc_at \<Rightarrow>
                                   (let need_pp = need / usable * 100;
                                        limit = vi_min_reserve_soc v + need_pp - 1
                                    in if \<not> soc_at < limit then []
                                       else [finding WARN ''evening_reserve''
                                               [Lit ''Projected SoC '', Fixed 1 soc_at, Lit ''% at '', Clock start,
                                                Lit '' is below the evening reserve: floor '',
                                                Fixed 1 (vi_min_reserve_soc v), Lit ''% + '', Fixed 2 need,
                                                Lit '' kWh ('', Fixed 1 need_pp, Lit '' pp) - 1 pp = '',
                                                Fixed 1 limit, Lit ''%.'']]))
                     | (_, None) \<Rightarrow> []))
      | _ \<Rightarrow> [])"

subsection \<open>The verdict\<close>

definition plan_findings :: "validate_inputs \<Rightarrow> plan \<Rightarrow> finding list" where
  "plan_findings v p =
     (let ss = take (vi_slot_horizon v) (pl_slots p)
      in check_inputs v @
         check_unsized ss @ first_finding (target_finding v) (charge_slots ss) @
         first_finding (power_finding v) ss @
         check_switches v ss @
         check_projection v @
         check_reachable v p ss @
         check_grid v ss @
         check_export v ss @
         check_daily_cap v p ss @
         first_finding must_charge_finding ss @
         evening_finding v ss)"

definition status_of :: "finding list \<Rightarrow> plan_status" where
  "status_of fs =
     (if list_ex (\<lambda>f. fd_severity f = UNSAFE) fs then REJECTED else if fs \<noteq> [] then WARNING else VALID)"

definition validate_plan :: "validate_inputs \<Rightarrow> plan \<Rightarrow> plan_validation" where
  "validate_plan v p =
     (let fs = plan_findings v p in \<lparr>pv_status = status_of fs, pv_findings = fs\<rparr>)"

end
