(* ===== verification/PlanSafety.thy ===== *)
theory PlanSafety
  imports PlanValidator
begin

section \<open>What an accepted plan guarantees\<close>

text \<open>
  The contract of \<open>validate_plan\<close>: a plan it does not reject meets the limits, slot by slot; and the
  passes that run before it establish what it checks.
\<close>

subsection \<open>The verdict as the worst finding\<close>

fun severity_status :: "severity \<Rightarrow> plan_status" where
  "severity_status WARN = WARNING"
| "severity_status UNSAFE = REJECTED"

definition worst :: "finding list \<Rightarrow> plan_status" where
  "worst fs = Max (insert VALID ((\<lambda>f. severity_status (fd_severity f)) ` set fs))"

lemma status_bounds: "VALID \<le> x" "x \<le> REJECTED"
  by (cases x; simp add: less_eq_plan_status_def)+

lemma status_of_worst: "status_of fs = worst fs"
proof (induction fs)
  case Nil
  then show ?case by (simp add: status_of_def worst_def)
next
  case (Cons f fs)
  have fin: "finite (insert VALID ((\<lambda>f. severity_status (fd_severity f)) ` set fs))" by simp
  have "worst (f # fs) = max (severity_status (fd_severity f)) (worst fs)"
    unfolding worst_def list.set image_insert insert_commute [of VALID]
    by (rule Max_insert [OF fin]) simp
  moreover have "status_of (f # fs) = max (severity_status (fd_severity f)) (status_of fs)"
    by (cases "fd_severity f")
       (auto simp: status_of_def max_def less_eq_plan_status_def)
  ultimately show ?case using Cons.IH by simp
qed

lemma pv_ok_iff: "pv_ok (validate_plan v p) \<longleftrightarrow> (\<forall>f\<in>set (plan_findings v p). fd_severity f = WARN)"
proof -
  have "fd_severity f \<noteq> UNSAFE \<longleftrightarrow> fd_severity f = WARN" for f :: finding by (cases "fd_severity f") auto
  then show ?thesis by (auto simp: pv_ok_def validate_plan_def Let_def status_of_def list_ex_iff)
qed

text \<open>An accepted plan passed every blocking check.\<close>

lemma warn_no_unsafe: "\<forall>f\<in>set fs. fd_severity f = WARN \<Longrightarrow> finding UNSAFE c m \<notin> set fs"
  by (metis finding_simps(1) severity.distinct(1))

lemma first_finding_unsafe:
  assumes "\<forall>x\<in>set (first_finding f ss). fd_severity x = WARN"
    and "\<And>s x. f s = Some x \<Longrightarrow> fd_severity x = UNSAFE"
  shows "\<forall>s\<in>set ss. f s = None"
proof -
  have "first_finding f ss = []"
  proof (rule ccontr)
    assume "first_finding f ss \<noteq> []"
    then obtain x where x: "x \<in> set (first_finding f ss)" by (cases "first_finding f ss") auto
    with first_finding_mem [OF x] assms show False by (metis severity.distinct(1))
  qed
  then show ?thesis by (simp add: first_finding_Nil_iff)
qed

lemma target_finding_unsafe: "target_finding v s = Some x \<Longrightarrow> fd_severity x = UNSAFE"
  by (auto simp: target_finding_def split: option.splits if_splits)

lemma power_finding_unsafe: "power_finding v s = Some x \<Longrightarrow> fd_severity x = UNSAFE"
  by (auto simp: power_finding_def Let_def split: option.splits if_splits)

lemma grid_finding_unsafe: "grid_finding v l s = Some x \<Longrightarrow> fd_severity x = UNSAFE"
  by (auto simp: grid_finding_def split: option.splits if_splits)

lemma export_floor_unsafe: "export_floor_finding v s = Some x \<Longrightarrow> fd_severity x = UNSAFE"
  by (auto simp: export_floor_finding_def Let_def split: if_splits)

lemma day_finding_unsafe: "day_finding v p ss cap d = Some x \<Longrightarrow> fd_severity x = UNSAFE"
  by (auto simp: day_finding_def Let_def split: if_splits)

lemma must_charge_unsafe: "must_charge_finding s = Some x \<Longrightarrow> fd_severity x = UNSAFE"
  by (auto simp: must_charge_finding_def split: if_splits option.splits)

lemma accepted_checks:
  assumes "pv_ok (validate_plan v p)" and ss: "ss = take (vi_slot_horizon v) (pl_slots p)"
  shows "check_inputs v = []"
    and "\<forall>s\<in>set (charge_slots ss). target_finding v s = None"
    and "\<forall>s\<in>set ss. power_finding v s = None"
    and "\<forall>f\<in>set (check_projection v). fd_severity f = WARN"
    and "\<forall>f\<in>set (check_grid v ss). fd_severity f = WARN"
    and "\<forall>f\<in>set (check_export v ss). fd_severity f = WARN"
    and "\<forall>f\<in>set (check_daily_cap v p ss). fd_severity f = WARN"
    and "\<forall>s\<in>set ss. must_charge_finding s = None"
proof -
  have w: "\<forall>f\<in>set (plan_findings v p). fd_severity f = WARN" using assms(1) by (simp add: pv_ok_iff)
  note parts = w [unfolded plan_findings_def Let_def ss [symmetric] set_append ball_Un]
  show "check_inputs v = []" using parts by (auto simp: check_inputs_def split: if_splits)
  show "\<forall>s\<in>set (charge_slots ss). target_finding v s = None"
    using parts by (intro first_finding_unsafe target_finding_unsafe) auto
  show "\<forall>s\<in>set ss. power_finding v s = None"
    using parts by (intro first_finding_unsafe power_finding_unsafe) auto
  show "\<forall>s\<in>set ss. must_charge_finding s = None"
    using parts by (intro first_finding_unsafe must_charge_unsafe) auto
  show "\<forall>f\<in>set (check_projection v). fd_severity f = WARN"
    "\<forall>f\<in>set (check_grid v ss). fd_severity f = WARN"
    "\<forall>f\<in>set (check_export v ss). fd_severity f = WARN"
    "\<forall>f\<in>set (check_daily_cap v p ss). fd_severity f = WARN"
    using parts by simp_all
qed

text \<open>A plan that buys in one slot and exports in the next, and inputs that accept it.\<close>

definition demo_capability :: capability_report where
  "demo_capability =
     \<lparr>cap_services = [''charge'', ''discharge''], cap_energy_mode_options = [], cap_has_standby = True,
      cap_has_grid_charge_switch = True, cap_p1_paired = True, cap_max_charge_w = 2400,
      cap_max_discharge_w = 2400, cap_supports_discharge_control = True, cap_supports_grid_charge = True,
      cap_supports_standby = True, cap_min_power_w = 0, cap_min_target_soc = 5\<rparr>"

definition demo_validate :: validate_inputs where
  "demo_validate =
     \<lparr>vi_soc_pct = Some 50, vi_data_quality = ''complete'', vi_min_reserve_soc = 10,
      vi_capability = Some demo_capability, vi_projection = None, vi_max_switches = 10, vi_min_dwell = 0,
      vi_slot_horizon = 192, vi_validate_projection = True, vi_target_margin_pp = 5,
      vi_grid_limit_w = Some 5000, vi_expected_load_w = Some 1000, vi_load_by = None,
      vi_settings_max_charge_w = Some 4800, vi_settings_max_discharge_w = None, vi_max_export_kwh = Some 2,
      vi_allow_export = True, vi_daily_cap_kwh = Some 10, vi_already_bought = Some 1, vi_per_slot_kwh = 1,
      vi_tz = utc, vi_usable_kwh = None, vi_round_trip_efficiency = 9/10, vi_solar_by = Map.empty,
      vi_max_discharge_w = None\<rparr>"

definition demo_buy :: plan_slot where
  "demo_buy = (plan_slot0 0 GRID_CHARGE_TO_TARGET [])\<lparr>sl_power_w := Some 2400, sl_target_soc := Some 80\<rparr>"

definition demo_export :: plan_slot where
  "demo_export = (plan_slot0 SLOT EXPORT_FOR_PROFIT [])\<lparr>sl_power_w := Some 2000\<rparr>"

definition demo_trade :: plan where "demo_trade = plan0 0 [demo_buy, demo_export]"

lemma demo_trade_slots: "take (vi_slot_horizon demo_validate) (pl_slots demo_trade) = [demo_buy, demo_export]"
  by (simp add: demo_validate_def demo_trade_def plan0_def)

lemma demo_must: "\<not> is_must_charge_slot demo_buy" "\<not> is_must_charge_slot demo_export"
  by (simp_all add: demo_buy_def demo_export_def plan_slot0_def is_must_charge_slot_def)

lemma demo_trade_ok: "pv_ok (validate_plan demo_validate demo_trade)"
proof -
  have "plan_findings demo_validate demo_trade = []"
    unfolding plan_findings_def demo_trade_slots Let_def
    by (simp add: demo_must must_charge_finding_def)
       (simp add: check_inputs_def check_unsized_def check_switches_def check_projection_def check_reachable_def
          check_grid_def check_export_def check_daily_cap_def evening_finding_def demo_validate_def
          demo_buy_def demo_export_def demo_trade_def plan0_def plan_slot0_def charge_slots_def charge_intent_def
          target_finding_def power_finding_def slot_power_limit_def effective_power_limit_w_def
          demo_capability_def VAL_EPS_def grid_finding_def charge_power_def slot_load_def export_slots_def
          check_export_capability_def export_floor_finding_def check_export_cap_def slot_export_kwh_def
          check_overlap_def clashes_def charge_days_def day_finding_def plan_day_def slot_grid_kwh_def
          remaining_fraction_def SLOT_HOURS_def local_date_def utc_def)
  then show ?thesis by (simp add: pv_ok_iff)
qed

subsection \<open>Targets, power and inputs\<close>

lemma clamp_plan_power_slots:
  "pl_slots (fst (clamp_plan_power p cap sc sd)) =
     map (case cap of None \<Rightarrow> unknown_clamped | Some c \<Rightarrow> known_clamped c sc sd) (pl_slots p)"
  by (cases cap) (auto simp: clamp_plan_power_def Let_def)

lemma unknown_clamped_one_unit:
  assumes "sl_intent (unknown_clamped s) \<in> {GRID_CHARGE_TO_TARGET, DISCHARGE_FOR_LOAD, EXPORT_FOR_PROFIT}"
  shows "\<exists>w. sl_power_w (unknown_clamped s) = Some w \<and> w \<le> ONE_UNIT_POWER_W + VAL_EPS"
  using assms
  by (auto simp: unknown_clamped_def charge_intent_def discharge_power_intent_def VAL_EPS_def
        split: option.splits if_splits)

text \<open>
  C4. What an accepted plan guarantees of every slot within the validator's horizon (the first
  \<open>slot_horizon\<close> slots; it does not look at later ones). The inputs were fresh and the SoC known; a sized
  charge target lies in 0..100 percent, at or above the slot's floor (the reserve when it has none) and,
  up to the tolerance, at or above the device's minimum; a must-charge slot has a target and starts no
  later than its deadline. With a known capability a commanded power is at most the device's rating in
  its direction and the configured limit. With an unknown capability the validator checks no power at
  all; the bound then comes from the clamp that runs before it: in a plan that went through
  \<open>clamp_plan_power\<close>, every charge, discharge and export slot has a setpoint, of one unit at most.
\<close>

theorem accepted_plan_is_executable:
  assumes "pv_ok (validate_plan v p)" and "s \<in> set (take (vi_slot_horizon v) (pl_slots p))"
  shows "vi_data_quality v \<noteq> ''unsafe'' \<and> vi_soc_pct v \<noteq> None \<and>
         (sl_intent s = GRID_CHARGE_TO_TARGET \<and> sl_target_soc s = Some t \<longrightarrow>
            0 \<le> t \<and> t \<le> 100 \<and> opt_else (sl_floor_soc s) (vi_min_reserve_soc v) \<le> t \<and>
            (\<forall>c. vi_capability v = Some c \<longrightarrow> cap_min_target_soc c \<le> max 0 (t + VAL_EPS))) \<and>
         (vi_capability v = Some c \<and> sl_power_w s = Some w \<longrightarrow>
            (if sl_intent s = GRID_CHARGE_TO_TARGET
             then w \<le> cap_max_charge_w c + VAL_EPS \<and>
                  (\<forall>x. vi_settings_max_charge_w v = Some x \<longrightarrow> w \<le> x + VAL_EPS)
             else w \<le> cap_max_discharge_w c + VAL_EPS \<and>
                  (\<forall>x. vi_settings_max_discharge_w v = Some x \<longrightarrow> w \<le> x + VAL_EPS))) \<and>
         (is_must_charge_slot s \<longrightarrow>
            sl_target_soc s \<noteq> None \<and> (\<exists>d. sl_deadline s = Some d \<and> sl_start s \<le> d)) \<and>
         (vi_capability v = None \<and> p = fst (clamp_plan_power p0 None sc sd) \<and>
          sl_intent s \<in> {GRID_CHARGE_TO_TARGET, DISCHARGE_FOR_LOAD, EXPORT_FOR_PROFIT} \<longrightarrow>
            (\<exists>w. sl_power_w s = Some w \<and> w \<le> ONE_UNIT_POWER_W + VAL_EPS))"
proof -
  note a = accepted_checks [OF assms(1) refl]
  have inp: "vi_data_quality v \<noteq> ''unsafe'' \<and> vi_soc_pct v \<noteq> None"
    using a(1) by (auto simp: check_inputs_def split: if_splits)
  have tgt: "0 \<le> t \<and> t \<le> 100 \<and> opt_else (sl_floor_soc s) (vi_min_reserve_soc v) \<le> t \<and>
      (\<forall>c. vi_capability v = Some c \<longrightarrow> cap_min_target_soc c \<le> max 0 (t + VAL_EPS))"
    if "sl_intent s = GRID_CHARGE_TO_TARGET" "sl_target_soc s = Some t"
  proof -
    have "target_finding v s = None"
      using a(2) assms(2) that(1) by (simp add: charge_slots_def charge_intent_def)
    with that(2) show ?thesis by (auto simp: target_finding_def split: if_splits option.splits)
  qed
  have "power_finding v s = None" using a(3) assms(2) by blast
  then have pow: "if sl_intent s = GRID_CHARGE_TO_TARGET
             then w \<le> cap_max_charge_w c + VAL_EPS \<and>
                  (\<forall>x. vi_settings_max_charge_w v = Some x \<longrightarrow> w \<le> x + VAL_EPS)
             else w \<le> cap_max_discharge_w c + VAL_EPS \<and>
                  (\<forall>x. vi_settings_max_discharge_w v = Some x \<longrightarrow> w \<le> x + VAL_EPS)"
    if "vi_capability v = Some c" "sl_power_w s = Some w"
    using that
    by (auto simp: power_finding_def slot_power_limit_def effective_power_limit_w_def charge_intent_def Let_def
          split: if_splits option.splits)
  have "must_charge_finding s = None" using a(8) assms(2) by blast
  then have "is_must_charge_slot s \<longrightarrow>
      sl_target_soc s \<noteq> None \<and> (\<exists>d. sl_deadline s = Some d \<and> sl_start s \<le> d)"
    by (auto simp: must_charge_finding_def split: if_splits option.splits)
  moreover have "\<exists>w. sl_power_w s = Some w \<and> w \<le> ONE_UNIT_POWER_W + VAL_EPS"
    if "p = fst (clamp_plan_power p0 None sc sd)"
      and "sl_intent s \<in> {GRID_CHARGE_TO_TARGET, DISCHARGE_FOR_LOAD, EXPORT_FOR_PROFIT}"
  proof -
    from that(1) in_set_takeD [OF assms(2)] obtain u where "s = unknown_clamped u"
      by (auto simp: clamp_plan_power_slots)
    with that(2) show ?thesis by (auto simp: unknown_clamped_one_unit)
  qed
  ultimately show ?thesis using inp tgt pow by blast
qed

theorem accepted_plan_is_executable_witness:
  "sl_target_soc demo_buy = Some 80 \<and> sl_power_w demo_buy = Some 2400 \<and>
   (2400::real) \<le> cap_max_charge_w demo_capability + VAL_EPS"
proof -
  have "demo_buy \<in> set (take (vi_slot_horizon demo_validate) (pl_slots demo_trade))"
    by (simp add: demo_trade_slots)
  from accepted_plan_is_executable [OF demo_trade_ok this, of 80 demo_capability 2400 demo_trade None None]
  show ?thesis by (simp add: demo_buy_def plan_slot0_def demo_validate_def)
qed

subsection \<open>The fuse\<close>

text \<open>
  An accepted plan never overloads the main fuse: with a fuse limit configured, the charge power of
  every buying slot plus the house load expected in it stays within the limit (up to the tolerance),
  with no credit for solar; the charge power of a slot without a setpoint is the lower of the device's
  rating and the configured limit.
\<close>

theorem accepted_plan_respects_fuse:
  assumes "pv_ok (validate_plan v p)" and "s \<in> set (take (vi_slot_horizon v) (pl_slots p))"
    and "sl_intent s = GRID_CHARGE_TO_TARGET"
    and "vi_grid_limit_w v = Some limit" and "0 < limit"
    and "charge_power v s = Some w" and "slot_load v s = Some load"
  shows "w + max 0 load \<le> limit + VAL_EPS"
proof -
  have "\<forall>x\<in>set (first_finding (grid_finding v limit) (charge_slots (take (vi_slot_horizon v) (pl_slots p)))).
          fd_severity x = WARN"
    using accepted_checks(5) [OF assms(1) refl] assms(4,5) by (simp add: check_grid_def)
  from first_finding_unsafe [OF this grid_finding_unsafe]
  have "grid_finding v limit s = None"
    using assms(2,3) by (simp add: charge_slots_def charge_intent_def)
  with assms(6,7) show ?thesis by (auto simp: grid_finding_def split: if_splits)
qed

theorem accepted_plan_respects_fuse_witness: "2400 + max 0 1000 \<le> 5000 + VAL_EPS"
  by (rule accepted_plan_respects_fuse [OF demo_trade_ok, of demo_buy])
     (simp_all add: demo_trade_slots, simp_all add: demo_validate_def demo_buy_def plan_slot0_def
        charge_power_def slot_load_def)

subsection \<open>Export\<close>

text \<open>Neighbours in the plan with the same start never mix buying and exporting.\<close>

lemma overlaps_neighbours:
  assumes "\<not> overlaps m (xs @ a # b # ys)" and "sl_start a = sl_start b"
  shows "\<not> clashes (sl_intent a) (sl_intent b)"
  using assms by (induction xs arbitrary: m) (auto split: option.splits)

text \<open>
  Export is only accepted when it is backed: a plan with an export slot that is not rejected has a
  probed capability with the discharge service and positive discharge power, an export floor at or
  above the reserve (up to the tolerance) in every export slot, a planned export within the day's cap
  when one is set, and no export slot next to a buying slot with the same start.
\<close>

theorem accepted_export_is_backed:
  assumes ok: "pv_ok (validate_plan v p)" and ss: "ss = take (vi_slot_horizon v) (pl_slots p)"
    and s: "s \<in> set ss" "sl_intent s = EXPORT_FOR_PROFIT"
  shows "(\<exists>c. vi_capability v = Some c \<and> ''discharge'' \<in> set (cap_services c) \<and> 0 < cap_max_discharge_w c) \<and>
         vi_min_reserve_soc v - VAL_EPS \<le> opt_else (sl_floor_soc s) (vi_min_reserve_soc v) \<and>
         (\<forall>cap. vi_max_export_kwh v = Some cap \<and> 0 < cap \<longrightarrow>
            sum_list (map slot_export_kwh (filter (\<lambda>s. sl_intent s = EXPORT_FOR_PROFIT) ss)) \<le> cap + VAL_EPS) \<and>
         (\<forall>xs ys u. ss = xs @ s # u # ys \<and> sl_start u = sl_start s \<longrightarrow> sl_intent u \<noteq> GRID_CHARGE_TO_TARGET) \<and>
         (\<forall>xs ys u. ss = xs @ u # s # ys \<and> sl_start u = sl_start s \<longrightarrow> sl_intent u \<noteq> GRID_CHARGE_TO_TARGET)"
proof -
  have ne: "export_slots ss \<noteq> []" using s by (auto simp: export_slots_def filter_empty_conv)
  have w: "\<forall>f\<in>set (check_export v ss). fd_severity f = WARN" using accepted_checks(6) [OF ok ss] .
  note parts = w [unfolded check_export_def if_not_P [OF ne] set_append ball_Un]
  have cap: "\<exists>c. vi_capability v = Some c \<and> ''discharge'' \<in> set (cap_services c) \<and> 0 < cap_max_discharge_w c"
    using parts by (auto simp: check_export_capability_def split: option.splits if_splits)
  have "\<forall>s\<in>set (export_slots ss). export_floor_finding v s = None"
    using parts by (intro first_finding_unsafe export_floor_unsafe) auto
  then have fl: "vi_min_reserve_soc v - VAL_EPS \<le> opt_else (sl_floor_soc s) (vi_min_reserve_soc v)"
    using s by (auto simp: export_slots_def export_floor_finding_def Let_def split: if_splits)
  have kwh: "sum_list (map slot_export_kwh (filter (\<lambda>s. sl_intent s = EXPORT_FOR_PROFIT) ss)) \<le> c + VAL_EPS"
    if "vi_max_export_kwh v = Some c \<and> 0 < c" for c
    using parts that by (auto simp: check_export_cap_def export_slots_def Let_def split: if_splits)
  have no: "\<not> overlaps Map.empty ss" using parts by (auto simp: check_overlap_def split: if_splits)
  have nb: "\<not> clashes (sl_intent a) (sl_intent b)" if "ss = xs @ a # b # ys" "sl_start a = sl_start b" for xs ys a b
    using overlaps_neighbours no that by blast
  have "sl_intent u \<noteq> GRID_CHARGE_TO_TARGET" if "ss = xs @ s # u # ys" "sl_start u = sl_start s" for xs ys u
    using nb [OF that(1) that(2) [symmetric]] s(2) by (auto simp: clashes_def charge_intent_def)
  moreover have "sl_intent u \<noteq> GRID_CHARGE_TO_TARGET" if "ss = xs @ u # s # ys" "sl_start u = sl_start s" for xs ys u
    using nb [OF that] s(2) by (auto simp: clashes_def charge_intent_def)
  ultimately show ?thesis using cap fl kwh by blast
qed

theorem accepted_export_is_backed_witness:
  "''discharge'' \<in> set (cap_services demo_capability) \<and> 0 < cap_max_discharge_w demo_capability"
  using accepted_export_is_backed [OF demo_trade_ok demo_trade_slots [symmetric], of demo_export]
  by (simp add: demo_export_def plan_slot0_def demo_validate_def)

subsection \<open>The daily cap and the clamp\<close>

lemma charge_days_iff:
  "d \<in> set (charge_days tz ss) \<longleftrightarrow>
     (\<exists>s\<in>set ss. sl_intent s = GRID_CHARGE_TO_TARGET \<and> local_date tz (sl_start s) = d)"
  by (auto simp: charge_days_def charge_slots_def charge_intent_def)

lemma no_charge_no_kwh: "d \<notin> set (charge_days tz ss) \<Longrightarrow> day_charge_kwh tz per_slot now d ss = 0"
  by (induction ss) (auto simp: charge_days_iff)

text \<open>After the clamp, and any pass that only takes buying away, no day of the plan is over the cap.\<close>

lemma clamped_passes_cap_check:
  assumes cap: "vi_daily_cap_kwh v = Some cap" "0 < cap"
    and q: "q = clamp_grid_charge p (vi_already_bought v) cap (vi_per_slot_kwh v) (vi_tz v)"
    and r: "list_all2 (slot_rewritten restricts) (pl_slots q) (pl_slots r)" "pl_created_at r = pl_created_at p"
  shows "check_daily_cap v r (take n (pl_slots r)) = []"
proof -
  let ?b = "charge_budget_of p (vi_already_bought v) cap (vi_per_slot_kwh v) (vi_tz v)"
  have walk: "pl_slots q = fst (clamp_walk ?b (\<lambda>_. 0) {} (pl_slots p))"
    using cap(2) by (simp add: q clamp_grid_charge_slots)
  have "day_finding v r (take n (pl_slots r)) cap d = None"
    if d: "d \<in> set (charge_days (vi_tz v) (take n (pl_slots r)))" for d
  proof -
    let ?day = "day_charge_kwh (vi_tz v) (vi_per_slot_kwh v) (pl_created_at p) d"
    have "?day (take n (pl_slots r)) \<le> ?day (pl_slots r)" by (rule day_charge_take_le)
    also have "\<dots> \<le> ?day (pl_slots q)" by (rule day_charge_restricted [OF r(1)])
    also have "\<dots> \<le> max 0 (day_budget ?b d + BUDGET_EPS)"
      using clamp_walk_day [of ?b d "\<lambda>_. 0" "{}" "pl_slots p"] by (simp add: walk charge_budget_of_def)
    finally have le: "?day (take n (pl_slots r)) \<le> max 0 (day_budget ?b d + BUDGET_EPS)" .
    have "0 \<le> day_budget ?b d + BUDGET_EPS"
    proof -
      obtain s where s: "s \<in> set (pl_slots r)" "sl_intent s = GRID_CHARGE_TO_TARGET"
        "local_date (vi_tz v) (sl_start s) = d"
        using d unfolding charge_days_iff by (blast dest: in_set_takeD)
      have "s \<in> set (pl_slots q)"
        by (rule rewritten_kept [OF r(1) s(1)]) (simp add: s(2) restricts_def)
      from clamp_walk_kept [OF this [unfolded walk] s(2)] s(3) show ?thesis
        by (simp add: charge_budget_of_def)
    qed
    with le have "?day (take n (pl_slots r)) \<le> day_budget ?b d + BUDGET_EPS" by simp
    moreover have "plan_day r (vi_tz v) = plan_day p (vi_tz v)" by (simp add: plan_day_def r(2))
    ultimately show ?thesis using r(2)
      by (auto simp: day_finding_def day_budget_def charge_budget_of_def VAL_EPS_def BUDGET_EPS_def Let_def
            split: option.splits if_splits)
  qed
  then show ?thesis using cap by (simp add: check_daily_cap_def first_finding_Nil_iff)
qed

text \<open>A pass that adds no purchase keeps a plan within the cap.\<close>

definition buys_no_more :: "plan_slot \<Rightarrow> plan_slot \<Rightarrow> bool" where
  "buys_no_more s t \<longleftrightarrow>
     sl_start t = sl_start s \<and>
     (sl_intent t = GRID_CHARGE_TO_TARGET \<longrightarrow> sl_intent s = GRID_CHARGE_TO_TARGET \<and> sl_power_w t = sl_power_w s)"

lemma buys_no_more_rewritten:
  assumes "list_all2 (slot_rewritten allowed) ss ts" and "\<And>i. \<not> allowed i GRID_CHARGE_TO_TARGET"
  shows "list_all2 buys_no_more ss ts"
  using assms by (auto simp: list_all2_conv_all_nth slot_rewritten_def buys_no_more_def)

lemma buys_no_more_charge:
  assumes "list_all2 buys_no_more ss ts"
  shows "day_charge_kwh tz per_slot now d ts \<le> day_charge_kwh tz per_slot now d ss" (is ?kwh)
    and "set (charge_days tz ts) \<subseteq> set (charge_days tz ss)" (is ?days)
proof -
  show ?kwh
    using assms
  proof (induction rule: list_all2_induct)
    case (Cons s ss t ts)
    then have "sl_intent t = GRID_CHARGE_TO_TARGET \<Longrightarrow> slot_grid_kwh t per_slot (Some now) = slot_grid_kwh s per_slot (Some now)"
      by (simp add: buys_no_more_def slot_grid_kwh_def)
    with Cons show ?case using slot_grid_kwh_nonneg [of s per_slot "Some now"] by (auto simp: buys_no_more_def)
  qed simp
  show ?days
  proof
    fix d assume "d \<in> set (charge_days tz ts)"
    then obtain t where "t \<in> set ts" "sl_intent t = GRID_CHARGE_TO_TARGET" "local_date tz (sl_start t) = d"
      unfolding charge_days_iff by blast
    moreover from assms \<open>t \<in> set ts\<close> obtain s where "s \<in> set ss" "buys_no_more s t"
      by (metis list_all2_conv_all_nth in_set_conv_nth)
    ultimately have "s \<in> set ss" "sl_intent s = GRID_CHARGE_TO_TARGET" "local_date tz (sl_start s) = d"
      by (simp_all add: buys_no_more_def)
    then show "d \<in> set (charge_days tz ss)" unfolding charge_days_iff by blast
  qed
qed

lemma buys_no_more_cap_check:
  assumes "check_daily_cap v p (take n (pl_slots p)) = []"
    and slots: "list_all2 buys_no_more (pl_slots p) (pl_slots q)" and at: "pl_created_at q = pl_created_at p"
  shows "check_daily_cap v q (take n (pl_slots q)) = []"
proof -
  have "list_all2 buys_no_more (take n (pl_slots p)) (take n (pl_slots q))" using slots by (rule list_all2_takeI)
  note less = buys_no_more_charge [OF this]
  have "day_finding v q (take n (pl_slots q)) cap d = None" if "day_finding v p (take n (pl_slots p)) cap d = None" for cap d
    using that less(1) [of "vi_tz v" "vi_per_slot_kwh v" "pl_created_at p" d]
    by (auto simp: day_finding_def Let_def plan_day_def at split: if_splits)
  moreover have "d \<in> set (charge_days (vi_tz v) (take n (pl_slots p)))"
    if "d \<in> set (charge_days (vi_tz v) (take n (pl_slots q)))" for d
    using less(2) that by (rule subsetD)
  ultimately show ?thesis
    using assms(1) by (simp add: check_daily_cap_def first_finding_Nil_iff split: option.splits if_splits)
qed

text \<open>
  C11. The daily cap is enforced twice, and the two agree. A plan the validator accepts, with a cap set,
  plans on every local day, over the slots the validator looks at (its horizon),
  no more AC energy from the grid than the cap, less what was bought already
  when the day is today (nothing at all today when that is unknown), up to the tolerance. And a plan
  that went through \<open>clamp_grid_charge\<close> with the same cap and counter never trips this check.
\<close>

theorem accepted_plan_within_daily_cap:
  assumes cap: "vi_daily_cap_kwh v = Some cap" "0 < cap"
    and kwh: "kwh = (\<lambda>q d. day_charge_kwh (vi_tz v) (vi_per_slot_kwh v) (pl_created_at q) d
                      (take (vi_slot_horizon v) (pl_slots q)))"
    and q: "q = clamp_grid_charge p (vi_already_bought v) cap (vi_per_slot_kwh v) (vi_tz v)"
  shows "(pv_ok (validate_plan v p) \<longrightarrow>
            kwh p d \<le> max 0 (cap - (if d = plan_day p (vi_tz v)
                                    then (case vi_already_bought v of None \<Rightarrow> cap | Some x \<Rightarrow> max 0 x)
                                    else 0) + VAL_EPS)) \<and>
         check_daily_cap v q (take (vi_slot_horizon v) (pl_slots q)) = []"
proof
  let ?ss = "take (vi_slot_horizon v) (pl_slots p)"
  show "pv_ok (validate_plan v p) \<longrightarrow>
          kwh p d \<le> max 0 (cap - (if d = plan_day p (vi_tz v)
             then (case vi_already_bought v of None \<Rightarrow> cap | Some x \<Rightarrow> max 0 x) else 0) + VAL_EPS)"
  proof
    assume ok: "pv_ok (validate_plan v p)"
    show "kwh p d \<le> max 0 (cap - (if d = plan_day p (vi_tz v)
             then (case vi_already_bought v of None \<Rightarrow> cap | Some x \<Rightarrow> max 0 x) else 0) + VAL_EPS)"
    proof (cases "d \<in> set (charge_days (vi_tz v) ?ss)")
      case True
      have "\<forall>x\<in>set (first_finding (day_finding v p ?ss cap) (charge_days (vi_tz v) ?ss)). fd_severity x = WARN"
        using accepted_checks(7) [OF ok refl] cap by (simp add: check_daily_cap_def)
      then have "\<forall>d\<in>set (charge_days (vi_tz v) ?ss). day_finding v p ?ss cap d = None"
        by (rule first_finding_unsafe) (rule day_finding_unsafe)
      with True have "day_finding v p ?ss cap d = None" by blast
      then show ?thesis by (auto simp: day_finding_def kwh Let_def split: if_splits)
    next
      case False
      then show ?thesis by (simp add: kwh no_charge_no_kwh)
    qed
  qed
next
  show "check_daily_cap v q (take (vi_slot_horizon v) (pl_slots q)) = []"
    by (rule clamped_passes_cap_check [OF cap q]) (simp_all add: q clamp_grid_charge_frame)
qed

theorem accepted_plan_within_daily_cap_witness:
  "day_charge_kwh utc 1 0 0 [demo_buy, demo_export] \<le> 9 + VAL_EPS"
  using accepted_plan_within_daily_cap [of demo_validate 10 _ _ demo_trade 0, OF _ _ refl refl] demo_trade_ok
  unfolding demo_trade_slots
  by (simp add: demo_validate_def demo_trade_def plan0_def plan_day_def local_date_def utc_def VAL_EPS_def
        split: if_splits)

subsection \<open>The clamp before validation\<close>

text \<open>
  The power clamp fixes an under-reported capability and nothing else. With an unknown capability
  every charge, discharge and export slot of the returned plan commands at most one unit (up to the
  tolerance), none is left without a setpoint. With a known one, a slot whose direction the settings
  advertise above the probe passes the validator's power check; in a direction where they do not, the
  slot is returned as it was, so that an over-ask still blocks the plan; and the clamp never changes
  anything but the setpoint of a slot.
\<close>

theorem clamp_before_validate:
  assumes q: "q = fst (clamp_plan_power p (vi_capability v) (vi_settings_max_charge_w v)
                        (vi_settings_max_discharge_w v))"
    and i: "i < length (pl_slots p)" and s: "s = pl_slots p ! i" and t: "t = pl_slots q ! i"
    and int: "sl_intent s \<in> {GRID_CHARGE_TO_TARGET, DISCHARGE_FOR_LOAD, EXPORT_FOR_PROFIT}"
  shows "(\<exists>w. t = s\<lparr>sl_power_w := w\<rparr>) \<and>
         (vi_capability v = None \<longrightarrow> (\<exists>w. sl_power_w t = Some w \<and> w \<le> ONE_UNIT_POWER_W + VAL_EPS)) \<and>
         (\<forall>c. vi_capability v = Some c \<longrightarrow>
            (if (if sl_intent s = GRID_CHARGE_TO_TARGET
                 then underreported (vi_settings_max_charge_w v) (cap_max_charge_w c)
                 else underreported (vi_settings_max_discharge_w v) (cap_max_discharge_w c))
             then power_finding v t = None else t = s))"
proof -
  have t': "t = (case vi_capability v of None \<Rightarrow> unknown_clamped
              | Some c \<Rightarrow> known_clamped c (vi_settings_max_charge_w v) (vi_settings_max_discharge_w v)) s"
    using i by (simp add: t q s clamp_plan_power_slots)
  have ci: "charge_intent (sl_intent s) \<longleftrightarrow> sl_intent s = GRID_CHARGE_TO_TARGET"
    "\<not> charge_intent (sl_intent s) \<Longrightarrow> discharge_power_intent (sl_intent s)"
    using int by (auto simp: charge_intent_def discharge_power_intent_def)
  have upd: "\<exists>w. s = s\<lparr>sl_power_w := w\<rparr>" by (rule exI [of _ "sl_power_w s"]) simp
  show ?thesis
  proof (cases "vi_capability v")
    case None
    then have t0: "t = unknown_clamped s" by (simp add: t')
    have "\<exists>w. sl_power_w t = Some w \<and> w \<le> ONE_UNIT_POWER_W + VAL_EPS"
      using ci by (auto simp: t0 unknown_clamped_def VAL_EPS_def split: option.splits if_splits)
    moreover have "\<exists>w. t = s\<lparr>sl_power_w := w\<rparr>" using upd by (auto simp: t0 unknown_clamped_def)
    ultimately show ?thesis using None by simp
  next
    case (Some c)
    let ?k = "known_clamp c (vi_settings_max_charge_w v) (vi_settings_max_discharge_w v) s"
    have t1: "t = (case ?k of None \<Rightarrow> s | Some l \<Rightarrow> s\<lparr>sl_power_w := Some l\<rparr>)"
      using Some by (simp add: t' known_clamped_def)
    have "\<exists>w. t = s\<lparr>sl_power_w := w\<rparr>" using upd by (auto simp: t1 split: option.splits)
    moreover have "if (if sl_intent s = GRID_CHARGE_TO_TARGET
                 then underreported (vi_settings_max_charge_w v) (cap_max_charge_w c)
                 else underreported (vi_settings_max_discharge_w v) (cap_max_discharge_w c))
             then power_finding v t = None else t = s"
    proof (cases "sl_power_w s")
      case None
      then show ?thesis by (simp add: t1 known_clamp_def power_finding_def Some)
    next
      case w: (Some w)
      show ?thesis
      proof (cases "sl_intent s = GRID_CHARGE_TO_TARGET")
        case True
        then show ?thesis unfolding t1
          by (cases "vi_settings_max_charge_w v")
             (simp_all add: w Some known_clamp_def power_finding_def slot_power_limit_def Let_def
                effective_power_limit_w_def underreported_def charge_intent_def VAL_EPS_def)
      next
        case False
        then show ?thesis unfolding t1 using ci(2)
          by (cases "vi_settings_max_discharge_w v")
             (simp_all add: w Some known_clamp_def power_finding_def slot_power_limit_def Let_def
                effective_power_limit_w_def underreported_def charge_intent_def VAL_EPS_def)
      qed
    qed
    ultimately show ?thesis using Some by simp
  qed
qed

theorem clamp_before_validate_witness:
  "power_finding demo_validate
     (pl_slots (fst (clamp_plan_power (plan0 0 [demo_buy\<lparr>sl_power_w := Some 4800\<rparr>]) (Some demo_capability)
                       (Some 4800) None)) ! 0) = None \<and>
   power_finding demo_validate (demo_buy\<lparr>sl_power_w := Some 4800\<rparr>) \<noteq> None"
proof -
  let ?p = "plan0 0 [demo_buy\<lparr>sl_power_w := Some 4800\<rparr>]"
  have v: "vi_capability demo_validate = Some demo_capability"
    "vi_settings_max_charge_w demo_validate = Some 4800" "vi_settings_max_discharge_w demo_validate = None"
    by (simp_all add: demo_validate_def)
  have i: "0 < length (pl_slots ?p)" and s: "demo_buy\<lparr>sl_power_w := Some 4800\<rparr> = pl_slots ?p ! 0"
    by (simp_all add: plan0_def)
  have int: "sl_intent (demo_buy\<lparr>sl_power_w := Some 4800\<rparr>)
      \<in> {GRID_CHARGE_TO_TARGET, DISCHARGE_FOR_LOAD, EXPORT_FOR_PROFIT}"
    "sl_intent demo_buy = GRID_CHARGE_TO_TARGET"
    by (simp_all add: demo_buy_def plan_slot0_def)
  have u: "underreported (Some 4800) (cap_max_charge_w demo_capability)"
    by (simp add: underreported_def demo_capability_def VAL_EPS_def)
  have "power_finding demo_validate (demo_buy\<lparr>sl_power_w := Some 4800\<rparr>) \<noteq> None"
    by (simp add: power_finding_def v slot_power_limit_def charge_intent_def int effective_power_limit_w_def
          demo_capability_def VAL_EPS_def Let_def)
  with clamp_before_validate [OF refl i s refl int(1), of demo_validate] u int(2)
  show ?thesis by (simp add: v)
qed

subsection \<open>The projection and its check\<close>

text \<open>
  The reserve check never fires on the planner's own projection: when the projection handed to the
  validator is \<open>project_energy\<close> of any plan from the validator's SoC, with the validator's reserve, no
  finding about the reserve or an overfilled battery is raised. What makes such a plan unsafe is then
  never the projection itself.
\<close>

theorem own_projection_never_blocks:
  assumes m: "model_ok m" and "bm_reserve_soc_pct m = vi_min_reserve_soc v"
    and soc: "vi_soc_pct v = Some soc"
    and ps: "vi_projection v = Some (project_energy ss soc sb lb m target SLOT horizon)"
  shows "check_projection v = []"
proof -
  let ?ps = "project_energy ss soc sb lb m target SLOT horizon"
  have "min (vi_min_reserve_soc v) soc - VAL_EPS \<le> pj_soc_pct x \<and> pj_soc_pct x \<le> 100 + VAL_EPS"
    if "x \<in> set ?ps" for x
  proof -
    from that obtain i where i: "i < length ?ps" "x = ?ps ! i" by (auto simp: in_set_conv_nth)
    have slot: "0 < SLOT" by simp
    note f = project_energy_facts [OF m slot refl i(1), folded i(2)]
    have "0 \<le> VAL_EPS" by (simp add: VAL_EPS_def)
    moreover have "min (vi_min_reserve_soc v) soc \<le> min (bm_reserve_soc_pct m) (clamp soc 0 100)"
      using m assms(2) by (auto simp: model_ok_def clamp_def)
    ultimately show ?thesis using f by linarith
  qed
  then show ?thesis
    using soc ps by (fastforce simp: check_projection_def Let_def list_ex_iff not_less)
qed

theorem own_projection_never_blocks_witness:
  "check_projection (demo_validate\<lparr>vi_projection :=
     Some (project_energy [demo_buy, demo_export] 50 Map.empty [0 \<mapsto> 1000] demo_model (Some 80) SLOT None)\<rparr>) = []"
  by (rule own_projection_never_blocks [of demo_model _ 50])
     (simp_all add: demo_validate_def demo_model_def model_ok_def)

end
