(* ===== verification/WinterSafety.thy ===== *)
theory WinterSafety
  imports WinterPlanner PlanSafety
begin

section \<open>The winter plan pays for itself\<close>

text \<open>
  The arbitrage property of the winter planner, through every pass that follows the sizing: what it
  buys is cheaper, after losses, wear and risk, than every slot it discharges in; and its budgets hold.
\<close>

subsection \<open>The slots before the passes\<close>

lemma peaks_iff:
  "t \<in> discharge_set cfg horizon \<longleftrightarrow> (\<exists>p\<in>set (discharge_slots cfg horizon). pr_start p = t)"
  by (auto simp: discharge_set_def starts_of_def)

lemma peaks_finite [simp]: "finite (discharge_set cfg horizon)"
  by (simp add: discharge_set_def starts_of_def)

lemma discharge_slots_mem:
  "p \<in> set (discharge_slots cfg horizon) \<Longrightarrow>
     p \<in> set horizon \<and> winter_breakeven cfg horizon < effective_import_price cfg p"
  by (auto simp: discharge_slots_def dest: in_set_takeD)

lemma winter_slot_start [simp]: "sl_start (winter_slot cfg b peaks sz be p) = pr_start p"
  by (simp add: winter_slot_def plan_slot0_def Let_def)

lemma winter_slot_charge:
  assumes "sl_intent (winter_slot cfg b peaks sz be p) = GRID_CHARGE_TO_TARGET" and "finite peaks"
  shows "pr_start p \<in> sz_charge_set sz \<and>
         (\<exists>d\<in>peaks. pr_start p < d \<and> sl_deadline (winter_slot cfg b peaks sz be p) = Some d)"
proof -
  let ?later = "Set.filter (\<lambda>d. pr_start p < d) peaks"
  from assms(1) have t: "pr_start p \<in> sz_charge_set sz" "?later \<noteq> {}"
    by (auto simp: winter_slot_def plan_slot0_def Let_def split: if_splits)
  have "finite ?later" using assms(2) by simp
  from Min_in [OF this t(2)] have "Min ?later \<in> peaks \<and> pr_start p < Min ?later" by simp
  moreover have "sl_deadline (winter_slot cfg b peaks sz be p) = Some (Min ?later)"
    using t unfolding winter_slot_def Let_def by simp
  ultimately show ?thesis using t by blast
qed

lemma winter_slot_discharge:
  "sl_intent (winter_slot cfg b peaks sz be p) \<in> {DISCHARGE_FOR_LOAD, EXPORT_FOR_PROFIT} \<Longrightarrow> pr_start p \<in> peaks"
  by (auto simp: winter_slot_def plan_slot0_def Let_def split: if_splits)

subsection \<open>What the planner buys undercuts what it displaces\<close>

lemma candidate_price_ge:
  "p \<in> set (charge_candidates cfg horizon) \<Longrightarrow> effective_import_price cfg p \<le> candidate_price cfg horizon"
  by (auto simp: candidate_price_def Let_def)

lemma distinct_start_eq:
  "distinct (map pr_start ps) \<Longrightarrow> p \<in> set ps \<Longrightarrow> q \<in> set ps \<Longrightarrow> pr_start p = pr_start q \<Longrightarrow> p = q"
  by (metis distinct_map inj_on_eq_iff)

text \<open>A sizing is sound when every chosen start is a slot that undercuts every peak.\<close>

definition sound_sizing :: "winter_config \<Rightarrow> price_slot list \<Rightarrow> winter_sizing \<Rightarrow> bool" where
  "sound_sizing cfg horizon sz =
     (\<forall>t\<in>sz_charge_set sz. \<exists>p\<in>set horizon. pr_start p = t \<and>
        (\<forall>d\<in>set horizon. pr_start d \<in> discharge_set cfg horizon \<longrightarrow>
           breakeven (effective_import_price cfg p) (wc_rte cfg) (wc_degradation cfg) (wc_risk cfg)
             \<le> effective_import_price cfg d))"

lemma fixed_sizing_sound:
  assumes "distinct (map pr_start horizon)"
  shows "sound_sizing cfg horizon (fixed_sizing cfg horizon)"
  unfolding sound_sizing_def
proof
  fix t
  assume "t \<in> sz_charge_set (fixed_sizing cfg horizon)"
  then obtain p where p: "p \<in> set (charge_candidates cfg horizon)" "pr_start p = t"
    by (auto simp: fixed_sizing_def starts_of_def)
  have "breakeven (effective_import_price cfg p) (wc_rte cfg) (wc_degradation cfg) (wc_risk cfg)
          \<le> effective_import_price cfg d"
    if d: "d \<in> set horizon" "pr_start d \<in> discharge_set cfg horizon" for d
  proof -
    obtain e where e: "e \<in> set (discharge_slots cfg horizon)" "pr_start e = pr_start d"
      using d(2) by (auto simp: peaks_iff)
    with discharge_slots_mem [OF e(1)] distinct_start_eq [OF assms _ d(1)] have "e = d" by blast
    with discharge_slots_mem [OF e(1)] have "winter_breakeven cfg horizon < effective_import_price cfg d" by blast
    moreover have "breakeven (effective_import_price cfg p) (wc_rte cfg) (wc_degradation cfg) (wc_risk cfg)
        \<le> winter_breakeven cfg horizon"
      unfolding winter_breakeven_def using candidate_price_ge [OF p(1)] by (rule breakeven_mono)
    ultimately show ?thesis by linarith
  qed
  moreover have "p \<in> set horizon" using p(1) by (auto simp: charge_candidates_def dest: in_set_takeD)
  ultimately show "\<exists>p\<in>set horizon. pr_start p = t \<and>
      (\<forall>d\<in>set horizon. pr_start d \<in> discharge_set cfg horizon \<longrightarrow>
         breakeven (effective_import_price cfg p) (wc_rte cfg) (wc_degradation cfg) (wc_risk cfg)
           \<le> effective_import_price cfg d)" using p(2) by blast
qed

lemma demand_sizing_sound:
  assumes "winter_demand cfg horizon b peak_kwh = Inr sz"
  shows "sound_sizing cfg horizon sz"
  unfolding sound_sizing_def
proof
  fix t
  assume t: "t \<in> sz_charge_set sz"
  let ?eff = "effective_import_price cfg"
  let ?peaks = "filter (\<lambda>p. pr_start p \<in> discharge_set cfg horizon) horizon"
  obtain ps n where "t \<in> late_pack_charge_starts ps n ?eff
      (apply_max_buy_cap (winter_max_buy cfg horizon) (wc_max_buy cfg))" "set ps \<subseteq> set horizon"
    using assms t by (auto simp: winter_demand_def Let_def split: if_splits)
  from late_pack_buyable [OF this(1)] this(2) obtain p where p: "p \<in> set horizon" "pr_start p = t"
    "?eff p \<le> apply_max_buy_cap (winter_max_buy cfg horizon) (wc_max_buy cfg)" by blast
  have le: "?eff p \<le> winter_max_buy cfg horizon"
    using p(3) by (auto simp: apply_max_buy_cap_def split: if_splits)
  have "breakeven (?eff p) (wc_rte cfg) (wc_degradation cfg) (wc_risk cfg) \<le> ?eff d"
    if d: "d \<in> set horizon" "pr_start d \<in> discharge_set cfg horizon" for d
  proof -
    have "breakeven (?eff p) (wc_rte cfg) (wc_degradation cfg) (wc_risk cfg) \<le> Min (?eff ` set ?peaks)"
      using le unfolding winter_max_buy_def breakeven_le_iff .
    also have "\<dots> \<le> ?eff d" using d by (intro Min_le) auto
    finally show ?thesis .
  qed
  with p(1,2) show "\<exists>p\<in>set horizon. pr_start p = t \<and>
      (\<forall>d\<in>set horizon. pr_start d \<in> discharge_set cfg horizon \<longrightarrow>
         breakeven (?eff p) (wc_rte cfg) (wc_degradation cfg) (wc_risk cfg) \<le> ?eff d)" by blast
qed

text \<open>What a returned plan is: nothing to trade, or the trade of a sound sizing.\<close>

lemma plan_winter_cases:
  assumes "plan_winter prices now cfg b = Inr p" and "distinct (map pr_start prices)"
  obtains (idle) "\<forall>s\<in>set (pl_slots p). sl_intent s = ALLOW_SELF_CONSUMPTION"
  | (trade) horizon sz where "set horizon \<subseteq> set prices" "sound_sizing cfg horizon sz"
      "p = winter_trade cfg now b horizon sz"
proof -
  let ?h = "slice_price_horizon prices now (wc_tz cfg) (wc_of_wall cfg) (wc_horizon_slots cfg)"
  have sub: "set ?h \<subseteq> set prices" by (rule slice_subset)
  have "distinct (map pr_start ?h)" using assms(2) by (rule slice_distinct)
  then have fixed: "sound_sizing cfg ?h (fixed_sizing cfg ?h)" by (rule fixed_sizing_sound)
  from assms(1) consider "p = winter_plan now []" | r where "p = all_auto ?h now r"
    | "p = winter_trade cfg now b ?h (fixed_sizing cfg ?h)"
    | k sz where "winter_demand cfg ?h b k = Inr sz" "p = winter_trade cfg now b ?h sz"
    by (auto simp: plan_winter_def Let_def bind_res_Inr_iff split: if_splits option.splits)
  then show thesis
  proof cases
    case 1
    then show ?thesis by (intro idle) (simp add: winter_plan_def plan0_def)
  next
    case 2
    then show ?thesis by (intro idle) (auto simp: all_auto_def winter_plan_def plan0_def plan_slot0_def)
  next
    case 3
    then show ?thesis by (intro trade [OF sub fixed])
  next
    case (4 k sz)
    then show ?thesis by (intro trade [OF sub demand_sizing_sound])
  qed
qed

subsection \<open>Through the passes\<close>

lemma winter_trade_kept:
  assumes "s \<in> set (pl_slots (winter_trade cfg now b horizon sz))" and "sl_intent s \<noteq> HOLD_RESERVE"
  shows "s \<in> set (pl_slots (winter_from_sizing cfg now b horizon sz))"
  unfolding winter_trade_def
  by (rule rewritten_kept [OF apply_evening_reserve_rewrites assms(1) [unfolded winter_trade_def]])
     (use assms(2) in \<open>simp add: holds_def\<close>)

lemma winter_budgets_kept:
  "s \<in> set (pl_slots (winter_budgets cfg b p)) \<Longrightarrow> sl_intent s \<noteq> ALLOW_SELF_CONSUMPTION \<Longrightarrow> s \<in> set (pl_slots p)"
  unfolding winter_budgets_def by (rule budgets_kept)

lemma trade_charge:
  assumes s: "s \<in> set (pl_slots (winter_trade cfg now b horizon sz))"
    and i: "sl_intent s = GRID_CHARGE_TO_TARGET"
  obtains p d where "p \<in> set horizon" "sl_start s = pr_start p" "pr_start p \<in> sz_charge_set sz"
    "d \<in> discharge_set cfg horizon" "sl_start s < d" "sl_deadline s = Some d"
proof -
  from winter_trade_kept [OF s] i obtain p where p: "p \<in> set horizon"
    "s = winter_slot cfg b (discharge_set cfg horizon) sz (winter_breakeven cfg horizon) p"
    by (auto simp: winter_from_sizing_def winter_plan_def plan0_def)
  from winter_slot_charge [OF i [unfolded p(2)]] p obtain d where
    "pr_start p \<in> sz_charge_set sz" "d \<in> discharge_set cfg horizon" "sl_start s < d" "sl_deadline s = Some d"
    by auto
  with p that show ?thesis by auto
qed

lemma trade_discharge:
  assumes s: "s \<in> set (pl_slots (winter_trade cfg now b horizon sz))"
    and i: "sl_intent s = DISCHARGE_FOR_LOAD"
  obtains p where "p \<in> set horizon" "sl_start s = pr_start p" "pr_start p \<in> discharge_set cfg horizon"
proof -
  from winter_trade_kept [OF s] i obtain p where p: "p \<in> set horizon"
    "s = winter_slot cfg b (discharge_set cfg horizon) sz (winter_breakeven cfg horizon) p"
    by (auto simp: winter_from_sizing_def winter_plan_def plan0_def)
  from winter_slot_discharge [of cfg b "discharge_set cfg horizon" sz "winter_breakeven cfg horizon" p] i p that
  show ?thesis by auto
qed

lemma soak_kept:
  assumes "s \<in> set (pl_slots (soak_negative p prices cfg w))"
  shows "s \<in> set (pl_slots p) \<or> sl_intent s = GRID_CHARGE_TO_TARGET \<and> map_get (price_map prices) (sl_start s) 0 < 0"
  using assms by (auto simp: soak_negative_def plan0_def soak_slot_def plan_slot0_def split: if_splits)

text \<open>
  C10. The winter planner never trades at a loss. In every plan it returns, for any battery, load, price
  feed (without duplicate slots) and configuration, a slot that charges from the grid either has a
  negative price, with the opt-in soak on, or: it has a deadline later than itself, and the price paid
  in it, grossed up for round-trip losses, wear and risk margin, is at most the price of every slot the
  plan discharges in. This holds after the evening reserve, the daily cap and the cycle budget.
\<close>

theorem winter_plan_never_loses:
  assumes plan: "plan_rule_based prices now cfg b = Inr p" and dist: "distinct (map pr_start prices)"
    and c: "c \<in> set (pl_slots p)" "sl_intent c = GRID_CHARGE_TO_TARGET"
  shows "(wc_negative_soak cfg \<and> map_get (price_map prices) (sl_start c) 0 < 0) \<or>
         (\<exists>t. sl_deadline c = Some t \<and> sl_start c < t) \<and>
         (\<exists>x\<in>set prices. pr_start x = sl_start c \<and>
            (\<forall>d\<in>set (pl_slots p). sl_intent d = DISCHARGE_FOR_LOAD \<longrightarrow>
               (\<exists>y\<in>set prices. pr_start y = sl_start d \<and>
                  breakeven (effective_import_price cfg x) (wc_rte cfg) (wc_degradation cfg) (wc_risk cfg)
                    \<le> effective_import_price cfg y)))"
proof -
  obtain q where q: "plan_winter prices now cfg b = Inr q"
    and p: "p = winter_budgets cfg b (if wc_negative_soak cfg then soak_negative q prices cfg (bi_max_charge_w b) else q)"
    using plan by (auto simp: plan_rule_based_def bind_res_Inr_iff)
  have kept: "s \<in> set (pl_slots q) \<or> sl_intent s = GRID_CHARGE_TO_TARGET \<and> wc_negative_soak cfg \<and>
        map_get (price_map prices) (sl_start s) 0 < 0"
    if "s \<in> set (pl_slots p)" "sl_intent s \<noteq> ALLOW_SELF_CONSUMPTION" for s
    using winter_budgets_kept [OF that(1) [unfolded p] that(2)] soak_kept by (auto split: if_splits)
  from kept [OF c(1)] c(2) consider (soak) "wc_negative_soak cfg" "map_get (price_map prices) (sl_start c) 0 < 0"
    | (base) "c \<in> set (pl_slots q)" by auto
  then show ?thesis
  proof cases
    case soak
    then show ?thesis by blast
  next
    case base
    from q dist show ?thesis
    proof (cases rule: plan_winter_cases)
      case idle
      with base c(2) show ?thesis by auto
    next
      case (trade horizon sz)
      from base c(2) obtain x t where x: "x \<in> set horizon" "sl_start c = pr_start x"
        "pr_start x \<in> sz_charge_set sz" and t: "sl_start c < t" "sl_deadline c = Some t"
        unfolding trade(3) by (elim trade_charge)
      from trade(2) x(3) obtain u where u: "u \<in> set horizon" "pr_start u = pr_start x"
        and pay: "\<forall>d\<in>set horizon. pr_start d \<in> discharge_set cfg horizon \<longrightarrow>
           breakeven (effective_import_price cfg u) (wc_rte cfg) (wc_degradation cfg) (wc_risk cfg)
             \<le> effective_import_price cfg d"
        unfolding sound_sizing_def by blast
      have "\<exists>y\<in>set prices. pr_start y = sl_start d \<and>
          breakeven (effective_import_price cfg u) (wc_rte cfg) (wc_degradation cfg) (wc_risk cfg)
            \<le> effective_import_price cfg y"
        if d: "d \<in> set (pl_slots p)" "sl_intent d = DISCHARGE_FOR_LOAD" for d
      proof -
        from kept [OF d(1)] d(2) have "d \<in> set (pl_slots (winter_trade cfg now b horizon sz))"
          unfolding trade(3) by auto
        from trade_discharge [OF this d(2)] obtain y where
          "y \<in> set horizon" "sl_start d = pr_start y" "pr_start y \<in> discharge_set cfg horizon" .
        with pay trade(1) show ?thesis by (metis subsetD)
      qed
      with u x(2) t trade(1) show ?thesis by (metis subsetD)
    qed
  qed
qed

text \<open>
  Planner and validator agree on the daily cap: whatever the winter planner returns, checked by the
  validator against the same cap, counter of today, charge power and zone, has no day over the cap; no
  winter plan is ever rejected for buying too much, for any number of slots the validator looks at.
\<close>

theorem winter_plan_passes_cap_check:
  assumes plan: "plan_rule_based prices now cfg b = Inr p"
    and v: "vi_daily_cap_kwh v = Some (wc_daily_cap_kwh cfg)" "vi_already_bought v = wc_already_bought cfg"
      "vi_per_slot_kwh v = ac_grid_kwh_per_slot (bi_max_charge_w b)" "vi_tz v = wc_tz cfg"
  shows "check_daily_cap v p (take n (pl_slots p)) = []"
proof (cases "0 < wc_daily_cap_kwh cfg")
  case False
  then show ?thesis by (simp add: check_daily_cap_def v(1))
next
  case True
  obtain r where p: "p = winter_budgets cfg b r"
    using plan by (auto simp: plan_rule_based_def bind_res_Inr_iff)
  let ?q = "clamp_grid_charge r (vi_already_bought v) (wc_daily_cap_kwh cfg) (vi_per_slot_kwh v) (vi_tz v)"
  show ?thesis
    by (rule clamped_passes_cap_check [OF v(1) True refl, where p = r])
       (simp_all add: p winter_budgets_def v clamp_cycle_rewrites clamp_cycle_frame clamp_grid_charge_frame)
qed

subsection \<open>A cheap night and one dear slot\<close>

definition demo_winter :: winter_config where
  "demo_winter = (winter_defaults utc (\<lambda>_. 0))\<lparr>wc_charge_slots := 1, wc_discharge_slots := 1\<rparr>"

definition demo_battery :: battery_input where
  "demo_battery = \<lparr>bi_soc_pct = 50, bi_load_by = None, bi_usable_kwh = 10, bi_reserve_soc_pct = 10,
                   bi_max_charge_w = 4000, bi_max_discharge_w = 4000, bi_expected_ev_kwh = 0\<rparr>"

lemma demo_winter_peaks:
  "charge_candidates demo_winter demo_prices = [demo_prices ! 0]"
  "discharge_set demo_winter demo_prices = {SLOT}"
proof -
  have cfg: "wc_charge_slots demo_winter = 1" "wc_discharge_slots demo_winter = 1" "wc_rte demo_winter = 9/10"
    "wc_degradation demo_winter = 5/100" "wc_risk demo_winter = 2/100"
    "effective_import_price demo_winter = (\<lambda>p. pr_eur p)"
    by (simp_all add: demo_winter_def winter_defaults_def effective_import_price_def fun_eq_iff)
  show c: "charge_candidates demo_winter demo_prices = [demo_prices ! 0]"
    by (simp add: charge_candidates_def cfg demo_prices_def)
  define be where "be = winter_breakeven demo_winter demo_prices"
  have "be < 1/2"
    by (simp add: be_def winter_breakeven_def candidate_price_def c breakeven_eq efficiency_of_def cfg)
       (simp add: demo_prices_def)
  then have "discharge_slots demo_winter demo_prices = [demo_prices ! 1]"
    unfolding discharge_slots_def be_def [symmetric] cfg by (simp add: demo_prices_def)
  then show "discharge_set demo_winter demo_prices = {SLOT}"
    by (simp add: discharge_set_def starts_of_def demo_prices_def)
qed

lemma demo_winter_plan:
  "\<exists>p. plan_rule_based demo_prices 0 demo_winter demo_battery = Inr p \<and>
       map sl_intent (pl_slots p) = [GRID_CHARGE_TO_TARGET, DISCHARGE_FOR_LOAD]"
proof -
  let ?p = "winter_from_sizing demo_winter 0 demo_battery demo_prices (fixed_sizing demo_winter demo_prices)"
  have cfg: "wc_tz demo_winter = utc" "wc_of_wall demo_winter = (\<lambda>_. 0)" "wc_horizon_slots demo_winter = 96"
    "wc_negative_soak demo_winter = False" "wc_daily_cap_kwh demo_winter = 12" "wc_already_bought demo_winter = Some 0"
    "wc_charged_today demo_winter = Some 0" "wc_discharged_today demo_winter = Some 0" "wc_max_cycles demo_winter = 3/2"
    by (simp_all add: demo_winter_def winter_defaults_def)
  have bi: "bi_load_by demo_battery = None" "bi_max_charge_w demo_battery = 4000" "bi_usable_kwh demo_battery = 10"
    by (simp_all add: demo_battery_def)
  have "demo_prices \<noteq> []" by (simp add: demo_prices_def)
  then have w: "plan_winter demo_prices 0 demo_winter demo_battery = Inr ?p"
    by (simp add: plan_winter_def cfg demo_horizon demo_winter_peaks Let_def winter_trade_def bi
          apply_evening_reserve_def)
  have set0: "starts_of [demo_prices ! 0] = {0}" by (simp add: starts_of_def demo_prices_def)
  have later: "Set.filter (\<lambda>d. (0::instant) < d) {SLOT} = {SLOT}" "Set.filter (\<lambda>d. SLOT < d) {SLOT} = {}" by auto
  obtain s1 s2 where ss: "pl_slots ?p = [s1, s2]"
    and s1: "sl_start s1 = 0" "sl_intent s1 = GRID_CHARGE_TO_TARGET" "sl_power_w s1 = None" "sl_target_kwh s1 = None"
    and s2: "sl_start s2 = SLOT" "sl_intent s2 = DISCHARGE_FOR_LOAD" "sl_power_w s2 = None" "sl_target_kwh s2 = None"
    by (simp add: winter_from_sizing_def demo_winter_peaks fixed_sizing_def set0 winter_plan_def plan0_def)
       (simp add: demo_prices_def winter_slot_def Let_def plan_slot0_def bi later)
  have at: "pl_created_at ?p = 0" by (simp add: winter_from_sizing_def winter_plan_def plan0_def)
  have grid: "slot_grid_kwh s1 1 (Some 0) = 1" by (simp add: slot_grid_kwh_def s1 remaining_fraction_def)
  have day: "local_date utc 0 = 0" by (simp add: local_date_def utc_def)
  have g: "clamp_grid_charge ?p (Some 0) 12 (ac_grid_kwh_per_slot 4000) utc = ?p"
    by (simp add: clamp_grid_charge_def ss charge_budget_of_def at s1 s2 ac_grid_kwh_per_slot_def SLOT_HOURS_def
          grid day plan_day_def day_budget_def BUDGET_EPS_def)
  have c: "clamp_cycle_budget ?p (Some 0) (Some 0) (3/2) 10 rte 4000 utc = ?p" for rte
  proof -
    define b where "b = cycle_budget_of ?p (3/2) 10 rte 4000 utc"
    have bf: "cy_tz b = utc" "cy_usable b = 10" "cy_limit b = 3/2" by (simp_all add: b_def cycle_budget_of_def)
    have k: "cycle_kwh b s1 = (eta_of rte, 0)" "cycle_kwh b s2 = (0, 0)"
      by (simp_all add: cycle_kwh_def b_def cycle_budget_of_def at slot_cycle_kwh_def s1 s2 remaining_fraction_def
            SLOT_HOURS_def)
    have base: "cycle_base b 0 0 part [s1, s2] 0 = 0" if "part (0, 0) = 0" for part :: "real \<times> real \<Rightarrow> real"
      using that by (simp add: cycle_base_def restricted_intent_def s1 s2 k)
    have fits: "equivalent_full_cycles (eta_of rte) 0 10 \<le> 3/2 + CYCLE_EPS"
    proof -
      have "0 \<le> CYCLE_EPS" by (simp add: CYCLE_EPS_def)
      with eta_of_le_1 [of rte] have "eta_of rte / 20 \<le> 3/2 + CYCLE_EPS" by linarith
      then show ?thesis by (simp add: equivalent_full_cycles_def)
    qed
    have walk: "cycle_walk b bc bd [s1, s2] = ([s1, s2], False)" if "bc 0 = 0" "bd 0 = 0" for bc bd
      using fits that by (simp add: restricted_intent_def s1 s2 bf day k Let_def)
    show ?thesis
      unfolding clamp_cycle_budget_def b_def [symmetric] ss
      by (simp add: resolved_cycle_history_def plan_day_def at day walk base Let_def del: cycle_walk.simps)
  qed
  have "plan_rule_based demo_prices 0 demo_winter demo_battery = Inr ?p"
    using w by (simp add: plan_rule_based_def cfg winter_budgets_def g c bi)
  then show ?thesis by (simp add: ss s1 s2)
qed

theorem winter_plan_never_loses_witness:
  "\<exists>p c. plan_rule_based demo_prices 0 demo_winter demo_battery = Inr p \<and> c \<in> set (pl_slots p) \<and>
         sl_intent c = GRID_CHARGE_TO_TARGET \<and> (\<exists>t. sl_deadline c = Some t \<and> sl_start c < t)"
proof -
  obtain p where p: "plan_rule_based demo_prices 0 demo_winter demo_battery = Inr p"
    "map sl_intent (pl_slots p) = [GRID_CHARGE_TO_TARGET, DISCHARGE_FOR_LOAD]"
    using demo_winter_plan by (elim exE conjE)
  from p(2) have ne: "pl_slots p \<noteq> []" by (metis list.map_disc_iff list.discI)
  define c where "c = hd (pl_slots p)"
  have c: "c \<in> set (pl_slots p)" using ne by (simp add: c_def)
  have i: "sl_intent c = GRID_CHARGE_TO_TARGET" using p(2) ne by (metis c_def list.map_sel(1) list.sel(1))
  have "\<not> wc_negative_soak demo_winter" by (simp add: demo_winter_def winter_defaults_def)
  moreover have "distinct (map pr_start demo_prices)" by (simp add: demo_prices_def)
  ultimately have "\<exists>t. sl_deadline c = Some t \<and> sl_start c < t"
    using winter_plan_never_loses [OF p(1) _ c i] by blast
  with p(1) c i show ?thesis by blast
qed

theorem winter_plan_passes_cap_check_witness:
  "\<exists>p. plan_rule_based demo_prices 0 demo_winter demo_battery = Inr p \<and>
       check_daily_cap (demo_validate\<lparr>vi_daily_cap_kwh := Some 12, vi_already_bought := Some 0\<rparr>) p (pl_slots p) = []"
proof -
  obtain p where p: "plan_rule_based demo_prices 0 demo_winter demo_battery = Inr p"
    "map sl_intent (pl_slots p) = [GRID_CHARGE_TO_TARGET, DISCHARGE_FOR_LOAD]"
    using demo_winter_plan by (elim exE conjE)
  have "check_daily_cap (demo_validate\<lparr>vi_daily_cap_kwh := Some 12, vi_already_bought := Some 0\<rparr>) p
          (take (length (pl_slots p)) (pl_slots p)) = []"
  proof (rule winter_plan_passes_cap_check [OF p(1)])
    show "vi_per_slot_kwh (demo_validate\<lparr>vi_daily_cap_kwh := Some 12, vi_already_bought := Some 0\<rparr>) =
        ac_grid_kwh_per_slot (bi_max_charge_w demo_battery)"
      by (simp add: demo_validate_def demo_battery_def ac_grid_kwh_per_slot_def SLOT_HOURS_def)
  qed (simp_all add: demo_validate_def demo_winter_def winter_defaults_def)
  then show ?thesis using p(1) by (simp only: take_all order_refl) blast
qed

end
