(* ===== verification/MustCharge.thy ===== *)
theory MustCharge
  imports LatePack Economics PlanSafety
begin

section \<open>Must-charge before the evening peak (\<open>ems/planner/must_charge.py\<close>)\<close>

text \<open>
  Two overlays that add grid charging to a plan: the automatic one, when the battery is low, a peak is
  near and the plan has no affordable slot, and the resident's ("charge to this level before this
  time"). The trigger is \<open>detect_must_charge_signals\<close> of \<open>ems/planner/adaptive.py\<close>.
\<close>

subsection \<open>The trigger\<close>

record must_charge_signals =
  ms_shortfall_kwh :: real
  ms_peak_deadline :: instant

definition detect_must_charge_signals ::
  "plan \<Rightarrow> real \<Rightarrow> real \<Rightarrow> real \<Rightarrow> instant \<Rightarrow> duration \<Rightarrow> zone \<Rightarrow> must_charge_signals option" where
  "detect_must_charge_signals p soc_pct floor_pct buffer_pp now horizon tz =
     (case pl_buy_pool p of
        None \<Rightarrow> None
      | Some pool \<Rightarrow>
          if bp_shortfall_kwh pool \<le> 1/1000000000 then None
          else
            (let arbitrage = filter (\<lambda>s. sl_intent s = GRID_CHARGE_TO_TARGET \<and> \<not> is_must_charge_slot s) (pl_slots p);
                 insufficient = (bp_state pool = ''empty'' \<or>
                                 (1/1000000000 < bp_shortfall_kwh pool \<and> arbitrage = []) \<or>
                                 (0 < bp_pool_size pool \<and> arbitrage = [] \<and> bp_state pool \<noteq> ''not_needed''));
                 peaks = filter (\<lambda>s. sl_intent s = DISCHARGE_FOR_LOAD \<and> now < sl_start s \<and>
                                     sl_start s \<le> now + horizon \<and>
                                     17 \<le> local_hour tz (sl_start s) \<and> local_hour tz (sl_start s) < 22) (pl_slots p)
             in if \<not> insufficient then None
                else if floor_pct + max 0 buffer_pp - 1/1000000 \<le> soc_pct then None
                else if peaks = [] then None
                else Some \<lparr>ms_shortfall_kwh = bp_shortfall_kwh pool,
                           ms_peak_deadline = Min (set (map sl_start peaks))\<rparr>))"

subsection \<open>Configuration, targets, known prices\<close>

record must_charge_config =
  mu_enabled :: bool
  mu_target_soc_pct :: real
  mu_max_price :: real
  mu_buffer_pp :: real
  mu_usable_kwh :: real
  mu_floor_soc_pct :: real
  mu_max_charge_w :: real
  mu_rte :: real
  mu_capability_ready :: bool
  mu_device_min_pct :: "real option"
  mu_tz :: zone

definition clamp_must_charge_target_soc :: "real \<Rightarrow> real \<Rightarrow> real option \<Rightarrow> real option" where
  "clamp_must_charge_target_soc target_pct floor_pct device_min_pct =
     (case device_min_pct of
        None \<Rightarrow> None
      | Some m \<Rightarrow>
          (let f = max floor_pct m
           in if target_pct < f - 1/1000000 then None else Some (max f (min 100 target_pct))))"

function span_incomplete :: "(instant \<rightharpoonup> real) \<Rightarrow> instant \<Rightarrow> instant \<Rightarrow> bool" where
  "span_incomplete price_by cursor stop =
     (if stop \<le> cursor then False
      else if price_by cursor = None then True
      else span_incomplete price_by (cursor + SLOT) stop)"
  by pat_completeness auto
termination by (relation "measure (\<lambda>(m, cursor, stop). nat (stop - cursor))") auto

declare span_incomplete.simps [simp del]

lemma span_complete_iff:
  "\<not> span_incomplete price_by a b \<longleftrightarrow> (\<forall>k. a + SLOT * int k < b \<longrightarrow> price_by (a + SLOT * int k) \<noteq> None)"
proof (induction price_by a b rule: span_incomplete.induct)
  case (1 price_by cursor stop)
  have split: "(\<forall>k. P k) \<longleftrightarrow> P 0 \<and> (\<forall>k. P (Suc k))" for P :: "nat \<Rightarrow> bool" by (metis nat.exhaust)
  show ?case
  proof (cases "stop \<le> cursor \<or> price_by cursor = None")
    case True
    then show ?thesis
    proof
      assume "stop \<le> cursor"
      then show ?thesis by (auto simp: span_incomplete.simps)
    next
      assume none: "price_by cursor = None"
      show ?thesis
      proof (cases "stop \<le> cursor")
        case True
        then show ?thesis by (auto simp: span_incomplete.simps)
      next
        case False
        with none show ?thesis
          by (simp add: span_incomplete.simps [of price_by cursor]) (intro exI [of _ 0], simp)
      qed
    qed
  next
    case False
    then have "\<not> span_incomplete price_by cursor stop \<longleftrightarrow>
        (\<forall>k. cursor + SLOT + SLOT * int k < stop \<longrightarrow> price_by (cursor + SLOT + SLOT * int k) \<noteq> None)"
      using 1 by (auto simp: span_incomplete.simps [of price_by cursor])
    also have "\<dots> \<longleftrightarrow> (\<forall>k. cursor + SLOT * int (Suc k) < stop \<longrightarrow> price_by (cursor + SLOT * int (Suc k)) \<noteq> None)"
      by (simp add: algebra_simps)
    also have "\<dots> \<longleftrightarrow> (\<forall>k. cursor + SLOT * int k < stop \<longrightarrow> price_by (cursor + SLOT * int k) \<noteq> None)"
      using False by (subst (2) split) simp
    finally show ?thesis .
  qed
qed

definition span_gap :: "price_slot list \<Rightarrow> (instant \<rightharpoonup> real) \<Rightarrow> instant \<Rightarrow> instant \<Rightarrow> bool" where
  "span_gap ps price_by now deadline =
     (let ordered = sort_key pr_start ps
      in span_incomplete price_by (pr_start (hd ordered)) (pr_start (last ordered) + SLOT) \<or>
         span_incomplete price_by (quarter_floor now) deadline)"

definition need_dc_kwh :: "must_charge_config \<Rightarrow> real \<Rightarrow> real \<Rightarrow> real" where
  "need_dc_kwh cfg target_soc soc_pct =
     max 0 (target_soc / 100 * mu_usable_kwh cfg
            - max (mu_floor_soc_pct cfg / 100 * mu_usable_kwh cfg)
                  (max 0 (min 100 soc_pct) / 100 * mu_usable_kwh cfg))"

definition affordable :: "must_charge_config \<Rightarrow> (instant \<rightharpoonup> real) \<Rightarrow> price_slot list \<Rightarrow> price_slot list" where
  "affordable cfg price_by ps =
     filter (\<lambda>p. map_get price_by (pr_start p) 0 \<le> mu_max_price cfg + 1/1000000000000) ps"

definition charging_slot :: "must_charge_config \<Rightarrow> message \<Rightarrow> real \<Rightarrow> instant \<Rightarrow> plan_slot \<Rightarrow> plan_slot" where
  "charging_slot cfg reason target_soc deadline s =
     (plan_slot0 (sl_start s) GRID_CHARGE_TO_TARGET reason)
       \<lparr>sl_target_soc := Some target_soc,
        sl_target_kwh := Some (py_round (stored_kwh_per_slot (mu_max_charge_w cfg) (mu_rte cfg)) 3),
        sl_power_w := Some (mu_max_charge_w cfg),
        sl_floor_soc := Some (opt_else (sl_floor_soc s) (max 0 (min 100 (mu_floor_soc_pct cfg)))),
        sl_deadline := Some deadline, sl_end := sl_end s\<rparr>"

subsection \<open>The automatic overlay\<close>

text \<open>The guards and the choice of slots; \<open>None\<close> when the plan is returned unchanged.\<close>

definition must_charge_choice ::
  "plan \<Rightarrow> price_slot list \<Rightarrow> instant \<Rightarrow> real \<Rightarrow> must_charge_config \<Rightarrow> (instant set \<times> real \<times> instant) option" where
  "must_charge_choice p prices now soc_pct cfg =
     (if \<not> mu_enabled cfg \<or> mu_usable_kwh cfg \<le> 0 \<or> mu_max_charge_w cfg \<le> 0 then None
      else if \<not> mu_capability_ready cfg \<or> mu_device_min_pct cfg = None then None
      else if soc_pct < 0 \<or> 100 < soc_pct then None
      else case detect_must_charge_signals p soc_pct (mu_floor_soc_pct cfg) (mu_buffer_pp cfg) now
                  (12 * us_hour) (mu_tz cfg) of
        None \<Rightarrow> None
      | Some sig \<Rightarrow>
          (case clamp_must_charge_target_soc (mu_target_soc_pct cfg) (mu_floor_soc_pct cfg) (mu_device_min_pct cfg) of
             None \<Rightarrow> None
           | Some target_soc \<Rightarrow>
               (let price_by = price_map prices;
                    deadline = ms_peak_deadline sig;
                    pre_peak = filter (\<lambda>p. pr_start p < deadline) (filter (\<lambda>p. now < pr_start p + SLOT) prices);
                    pool = affordable cfg price_by pre_peak;
                    need = need_dc_kwh cfg target_soc soc_pct;
                    per_slot = stored_kwh_per_slot (mu_max_charge_w cfg) (mu_rte cfg);
                    chosen = late_pack_charge_starts pool \<lceil>need / per_slot\<rceil>
                               (\<lambda>p. map_get price_by (pr_start p) 0) (mu_max_price cfg)
                in if pre_peak = [] then None
                   else if span_gap pre_peak price_by now deadline then None
                   else if pool = [] \<or> need \<le> 1/1000000000 \<or> per_slot \<le> 1/1000000000 then None
                   else if chosen = {} \<or> (\<exists>s\<in>chosen. deadline < s) then None
                   else Some (chosen, target_soc, deadline))))"

definition apply_must_charge ::
  "plan \<Rightarrow> price_slot list \<Rightarrow> instant \<Rightarrow> real \<Rightarrow> must_charge_config \<Rightarrow> plan" where
  "apply_must_charge p prices now soc_pct cfg =
     (case must_charge_choice p prices now soc_pct cfg of
        None \<Rightarrow> p
      | Some (chosen, target_soc, deadline) \<Rightarrow>
          (let hit = (\<lambda>s. sl_start s \<in> chosen \<and> \<not> deadline < sl_start s);
               reason = format_must_charge_slot_reason (mu_max_price cfg)
           in if \<not> list_ex hit (pl_slots p) then p
              else p\<lparr>pl_slots := map (\<lambda>s. if hit s then charging_slot cfg reason target_soc deadline s else s)
                                   (pl_slots p),
                     pl_target_soc := Some target_soc, pl_deadline := Some deadline\<rparr>))"

subsection \<open>The resident's overlay\<close>

definition GEEN_STURING :: message where "GEEN_STURING = [Lit ''geen sturing'']"

definition BATTERY_LIMIT_REASON :: message where
  "BATTERY_LIMIT_REASON = [Lit ''Batterijvermogen: doel niet haalbaar voor de deadline'']"

definition price_cap_unreachable_reason :: "real \<Rightarrow> message" where
  "price_cap_unreachable_reason max_price =
     [Lit ''Prijsplafond: niet genoeg slots onder EUR'', Fixed 2 max_price, Lit ''/kWh'']"

record resident_selection =
  se_starts :: "instant set"
  se_reason :: "message option"
  se_target_soc :: real
  se_deadline :: instant

definition selection :: "instant set \<Rightarrow> message option \<Rightarrow> real \<Rightarrow> instant \<Rightarrow> resident_selection" where
  "selection starts reason target deadline =
     \<lparr>se_starts = starts, se_reason = reason, se_target_soc = target, se_deadline = deadline\<rparr>"

definition select_resident_charge ::
  "price_slot list \<Rightarrow> instant \<Rightarrow> real \<Rightarrow> must_charge_config \<Rightarrow> instant \<Rightarrow> resident_selection" where
  "select_resident_charge prices now soc_pct cfg deadline =
     (let refused = selection {} (Some GEEN_STURING) (mu_target_soc_pct cfg) deadline in
      if deadline \<le> now then selection {} None (mu_target_soc_pct cfg) deadline
      else if \<not> mu_capability_ready cfg \<or> mu_device_min_pct cfg = None then refused
      else if mu_usable_kwh cfg \<le> 0 \<or> mu_max_charge_w cfg \<le> 0 then refused
      else if soc_pct < 0 \<or> 100 < soc_pct then refused
      else case clamp_must_charge_target_soc (mu_target_soc_pct cfg) (mu_floor_soc_pct cfg) (mu_device_min_pct cfg) of
        None \<Rightarrow> refused
      | Some target_soc \<Rightarrow>
          (let price_by = price_map prices;
               future = filter (\<lambda>p. now < pr_start p + SLOT \<and> pr_start p < deadline) prices;
               ordered = sort_key pr_start future;
               need = need_dc_kwh cfg target_soc soc_pct;
               per_slot = stored_kwh_per_slot (mu_max_charge_w cfg) (mu_rte cfg);
               n = \<lceil>need / per_slot\<rceil>;
               pool = affordable cfg price_by ordered;
               price_of = (\<lambda>p. map_get price_by (pr_start p) 0);
               chosen = Set.filter (\<lambda>s. s < deadline)
                          (late_pack_charge_starts ordered n price_of (mu_max_price cfg))
           in if future = [] then selection {} (Some BATTERY_LIMIT_REASON) target_soc deadline
              else if span_gap future price_by now deadline then refused
              else if need \<le> 1/1000000000 then selection {} None target_soc deadline
              else if per_slot \<le> 1/1000000000 then refused
              else if pool = []
              then selection {} (Some (price_cap_unreachable_reason (mu_max_price cfg))) target_soc deadline
              else selection chosen
                     (if int (card chosen) < n
                      then Some (if length pool < length ordered
                                 then price_cap_unreachable_reason (mu_max_price cfg) else BATTERY_LIMIT_REASON)
                      else None) target_soc deadline))"

text \<open>The overlay; the resident's target and deadline are \<open>None\<close> when there is no override.\<close>

definition apply_resident_overlay ::
  "plan \<Rightarrow> price_slot list \<Rightarrow> instant \<Rightarrow> real \<Rightarrow> (real \<times> instant) option \<Rightarrow> must_charge_config \<Rightarrow> plan" where
  "apply_resident_overlay p prices now soc_pct requested cfg0 =
     (case requested of
        None \<Rightarrow> p
      | Some (target, deadline) \<Rightarrow>
          (let cfg = cfg0\<lparr>mu_enabled := True, mu_target_soc_pct := target\<rparr>;
               sel = select_resident_charge prices now soc_pct cfg deadline;
               reason = format_resident_must_charge_reason (se_target_soc sel) deadline (mu_max_price cfg);
               hit = (\<lambda>s. sl_start s \<in> se_starts sel \<and> sl_start s < deadline)
           in if se_starts sel = {} then p
              else if \<not> list_ex hit (pl_slots p) then p
              else p\<lparr>pl_slots := map (\<lambda>s. if hit s then charging_slot cfg reason (se_target_soc sel) deadline s else s)
                                   (pl_slots p)\<rparr>))"

subsection \<open>What the overlays may add\<close>

text \<open>
  A slot an overlay has turned into charging: its price is known and within the price cap, it is not
  over, it starts before the deadline, its target is at or above the reserve floor and the device's
  minimum, and the price of every quarter hour from now to the deadline is known.
\<close>

definition added_charge ::
  "must_charge_config \<Rightarrow> price_slot list \<Rightarrow> instant \<Rightarrow> plan_slot \<Rightarrow> plan_slot \<Rightarrow> bool" where
  "added_charge cfg prices now s t \<longleftrightarrow>
     (\<exists>reason target deadline x m. t = charging_slot cfg reason target deadline s \<and>
        now < sl_start s + SLOT \<and> sl_start s < deadline \<and>
        price_map prices (sl_start s) = Some x \<and> x \<le> mu_max_price cfg \<and>
        mu_device_min_pct cfg = Some m \<and> m \<le> target \<and> mu_floor_soc_pct cfg \<le> target \<and>
        (m \<le> 100 \<and> mu_floor_soc_pct cfg \<le> 100 \<longrightarrow> target \<le> 100) \<and>
        (\<forall>k. quarter_floor now + SLOT * int k < deadline \<longrightarrow>
             price_map prices (quarter_floor now + SLOT * int k) \<noteq> None))"

lemma clamped_target:
  "clamp_must_charge_target_soc t f d = Some x \<Longrightarrow>
     \<exists>m. d = Some m \<and> m \<le> x \<and> f \<le> x \<and> (m \<le> 100 \<and> f \<le> 100 \<longrightarrow> x \<le> 100)"
  by (auto simp: clamp_must_charge_target_soc_def Let_def split: option.splits if_splits)

lemma price_map_dom: "p \<in> set ps \<Longrightarrow> \<exists>x. price_map ps (pr_start p) = Some x"
proof -
  have "p \<in> set ps \<or> m (pr_start p) \<noteq> None \<Longrightarrow>
        \<exists>x. fold (\<lambda>p m. m(pr_start p \<mapsto> pr_eur p)) ps m (pr_start p) = Some x" for m
  proof (induction ps arbitrary: m)
    case (Cons q ps)
    from Cons.IH [of "m(pr_start q \<mapsto> pr_eur q)"] Cons.prems show ?case by auto
  qed auto
  then show "p \<in> set ps \<Longrightarrow> ?thesis" by (simp add: price_map_def)
qed

lemma packed_price:
  assumes "t \<in> late_pack_charge_starts ps n (\<lambda>p. map_get (price_map prices) (pr_start p) 0) cap"
    and "set ps \<subseteq> set prices"
  shows "\<exists>p\<in>set ps. pr_start p = t \<and> (\<exists>x. price_map prices t = Some x \<and> x \<le> cap)"
proof -
  from late_pack_buyable [OF assms(1)] obtain p where p: "p \<in> set ps" "pr_start p = t"
    "map_get (price_map prices) t 0 \<le> cap" by auto
  from price_map_dom [of p prices] p assms(2) obtain x where "price_map prices t = Some x" by auto
  with p show ?thesis by (auto simp: map_get_def)
qed

lemma span_gap_known:
  "\<not> span_gap ps price_by now deadline \<Longrightarrow>
     \<forall>k. quarter_floor now + SLOT * int k < deadline \<longrightarrow> price_by (quarter_floor now + SLOT * int k) \<noteq> None"
  by (simp add: span_gap_def Let_def span_complete_iff)

lemma must_charge_choice_ok:
  assumes c: "must_charge_choice p prices now soc cfg = Some (chosen, target, deadline)"
  shows "mu_enabled cfg \<and> mu_capability_ready cfg \<and> soc < mu_floor_soc_pct cfg + max 0 (mu_buffer_pp cfg)"
    and "s \<in> chosen \<Longrightarrow> now < s + SLOT \<and> s < deadline \<and> (\<exists>x. price_map prices s = Some x \<and> x \<le> mu_max_price cfg)"
    and "\<exists>m. mu_device_min_pct cfg = Some m \<and> m \<le> target \<and> mu_floor_soc_pct cfg \<le> target \<and>
           (m \<le> 100 \<and> mu_floor_soc_pct cfg \<le> 100 \<longrightarrow> target \<le> 100)"
    and "\<forall>k. quarter_floor now + SLOT * int k < deadline \<longrightarrow>
           price_map prices (quarter_floor now + SLOT * int k) \<noteq> None"
proof -
  let ?pre = "filter (\<lambda>p. pr_start p < deadline) (filter (\<lambda>p. now < pr_start p + SLOT) prices)"
  obtain sig where sig: "detect_must_charge_signals p soc (mu_floor_soc_pct cfg) (mu_buffer_pp cfg) now
      (12 * us_hour) (mu_tz cfg) = Some sig"
    and t: "clamp_must_charge_target_soc (mu_target_soc_pct cfg) (mu_floor_soc_pct cfg) (mu_device_min_pct cfg)
              = Some target"
    and en: "mu_enabled cfg" "mu_capability_ready cfg"
    and gap: "\<not> span_gap ?pre (price_map prices) now deadline"
    and ch: "\<exists>n. chosen = late_pack_charge_starts (affordable cfg (price_map prices) ?pre) n
               (\<lambda>p. map_get (price_map prices) (pr_start p) 0) (mu_max_price cfg)"
    using c by (auto simp: must_charge_choice_def Let_def split: if_splits option.splits)
  have "soc < mu_floor_soc_pct cfg + max 0 (mu_buffer_pp cfg)"
    using sig by (auto simp: detect_must_charge_signals_def Let_def split: option.splits if_splits)
  with en show "mu_enabled cfg \<and> mu_capability_ready cfg \<and> soc < mu_floor_soc_pct cfg + max 0 (mu_buffer_pp cfg)"
    by blast
  show "\<exists>m. mu_device_min_pct cfg = Some m \<and> m \<le> target \<and> mu_floor_soc_pct cfg \<le> target \<and>
           (m \<le> 100 \<and> mu_floor_soc_pct cfg \<le> 100 \<longrightarrow> target \<le> 100)" by (rule clamped_target [OF t])
  show "\<forall>k. quarter_floor now + SLOT * int k < deadline \<longrightarrow>
           price_map prices (quarter_floor now + SLOT * int k) \<noteq> None" by (rule span_gap_known [OF gap])
  show "now < s + SLOT \<and> s < deadline \<and> (\<exists>x. price_map prices s = Some x \<and> x \<le> mu_max_price cfg)"
    if "s \<in> chosen"
  proof -
    from ch that obtain n where "s \<in> late_pack_charge_starts (affordable cfg (price_map prices) ?pre) n
        (\<lambda>p. map_get (price_map prices) (pr_start p) 0) (mu_max_price cfg)" by blast
    from packed_price [OF this] obtain q where "q \<in> set (affordable cfg (price_map prices) ?pre)" "pr_start q = s"
      "\<exists>x. price_map prices s = Some x \<and> x \<le> mu_max_price cfg"
      by (auto simp: affordable_def)
    then show ?thesis by (auto simp: affordable_def)
  qed
qed

lemma resident_selection_ok:
  assumes sel: "sel = select_resident_charge prices now soc cfg deadline" and s: "s \<in> se_starts sel"
  shows "now < s + SLOT \<and> s < deadline \<and> (\<exists>x. price_map prices s = Some x \<and> x \<le> mu_max_price cfg)"
    and "\<exists>m. mu_device_min_pct cfg = Some m \<and> m \<le> se_target_soc sel \<and> mu_floor_soc_pct cfg \<le> se_target_soc sel \<and>
           (m \<le> 100 \<and> mu_floor_soc_pct cfg \<le> 100 \<longrightarrow> se_target_soc sel \<le> 100)"
    and "\<forall>k. quarter_floor now + SLOT * int k < deadline \<longrightarrow>
           price_map prices (quarter_floor now + SLOT * int k) \<noteq> None"
proof -
  let ?fut = "filter (\<lambda>p. now < pr_start p + SLOT \<and> pr_start p < deadline) prices"
  obtain n where t: "clamp_must_charge_target_soc (mu_target_soc_pct cfg) (mu_floor_soc_pct cfg) (mu_device_min_pct cfg)
              = Some (se_target_soc sel)"
    and gap: "\<not> span_gap ?fut (price_map prices) now deadline"
    and ch: "s \<in> late_pack_charge_starts (sort_key pr_start ?fut) n
               (\<lambda>p. map_get (price_map prices) (pr_start p) 0) (mu_max_price cfg)"
    using sel s by (auto simp: select_resident_charge_def selection_def Let_def split: if_splits option.splits)
  from packed_price [OF ch] obtain q where "q \<in> set ?fut" "pr_start q = s"
    "\<exists>x. price_map prices s = Some x \<and> x \<le> mu_max_price cfg" by auto
  then show "now < s + SLOT \<and> s < deadline \<and> (\<exists>x. price_map prices s = Some x \<and> x \<le> mu_max_price cfg)" by auto
  show "\<exists>m. mu_device_min_pct cfg = Some m \<and> m \<le> se_target_soc sel \<and> mu_floor_soc_pct cfg \<le> se_target_soc sel \<and>
           (m \<le> 100 \<and> mu_floor_soc_pct cfg \<le> 100 \<longrightarrow> se_target_soc sel \<le> 100)" by (rule clamped_target [OF t])
  show "\<forall>k. quarter_floor now + SLOT * int k < deadline \<longrightarrow>
           price_map prices (quarter_floor now + SLOT * int k) \<noteq> None" by (rule span_gap_known [OF gap])
qed

lemma charging_slot_valid: "sl_start s < d \<Longrightarrow> must_charge_finding (charging_slot c rs t d s) = None"
  by (simp add: must_charge_finding_def charging_slot_def plan_slot0_def)

lemma auto_overlay_slot:
  assumes i: "i < length (pl_slots p)" and ne: "pl_slots (apply_must_charge p prices now soc cfg) ! i \<noteq> pl_slots p ! i"
  defines "t \<equiv> pl_slots (apply_must_charge p prices now soc cfg) ! i"
  shows "added_charge cfg prices now (pl_slots p ! i) t \<and> must_charge_finding t = None \<and>
         mu_enabled cfg \<and> mu_capability_ready cfg \<and> soc < mu_floor_soc_pct cfg + max 0 (mu_buffer_pp cfg)"
proof -
  let ?s = "pl_slots p ! i"
  from ne obtain chosen target deadline where
    c: "must_charge_choice p prices now soc cfg = Some (chosen, target, deadline)"
    by (auto simp: apply_must_charge_def split: option.splits)
  from ne have s: "sl_start ?s \<in> chosen" and t: "t =
      charging_slot cfg (format_must_charge_slot_reason (mu_max_price cfg)) target deadline ?s"
    using i by (auto simp: t_def apply_must_charge_def c Let_def split: if_splits)
  note k = must_charge_choice_ok [OF c]
  show ?thesis using k(1) k(2) [OF s] k(3,4) charging_slot_valid unfolding t added_charge_def by blast
qed

lemma resident_overlay_slot:
  assumes i: "i < length (pl_slots p)"
    and ne: "pl_slots (apply_resident_overlay p prices now soc requested cfg) ! i \<noteq> pl_slots p ! i"
  defines "t \<equiv> pl_slots (apply_resident_overlay p prices now soc requested cfg) ! i"
  shows "added_charge cfg prices now (pl_slots p ! i) t \<and> must_charge_finding t = None \<and> requested \<noteq> None"
proof -
  let ?s = "pl_slots p ! i"
  from ne obtain target deadline where req: "requested = Some (target, deadline)"
    by (auto simp: apply_resident_overlay_def split: option.splits)
  let ?cfg = "cfg\<lparr>mu_enabled := True, mu_target_soc_pct := target\<rparr>"
  let ?sel = "select_resident_charge prices now soc ?cfg deadline"
  from ne have s: "sl_start ?s \<in> se_starts ?sel" and t: "\<exists>reason. t =
      charging_slot ?cfg reason (se_target_soc ?sel) deadline ?s"
    using i by (auto simp: t_def apply_resident_overlay_def req Let_def split: if_splits)
  have same: "charging_slot ?cfg reason x deadline ?s = charging_slot cfg reason x deadline ?s" for reason x
    by (simp add: charging_slot_def)
  note k = resident_selection_ok [OF refl s]
  from t obtain reason where t': "t = charging_slot cfg reason (se_target_soc ?sel) deadline ?s"
    unfolding same by blast
  have "added_charge cfg prices now ?s t" using k unfolding t' added_charge_def by simp blast
  moreover have "must_charge_finding t = None" using k(1) charging_slot_valid unfolding t' by blast
  ultimately show ?thesis using req by blast
qed

lemma overlay_lengths:
  "length (pl_slots (apply_must_charge p prices now soc cfg)) = length (pl_slots p)"
  "length (pl_slots (apply_resident_overlay p prices now soc requested cfg)) = length (pl_slots p)"
  by (simp_all add: apply_must_charge_def apply_resident_overlay_def Let_def split: option.split prod.split)

lemma overlay_frames:
  "pl_created_at (apply_must_charge p prices now soc cfg) = pl_created_at p"
  "pl_created_at (apply_resident_overlay p prices now soc requested cfg) = pl_created_at p"
  "pl_strategy (apply_must_charge p prices now soc cfg) = pl_strategy p"
  "pl_strategy (apply_resident_overlay p prices now soc requested cfg) = pl_strategy p"
  by (simp_all add: apply_must_charge_def apply_resident_overlay_def Let_def split: option.split prod.split)

lemma nth_changed_mem:
  assumes "length ts = length ss" "t \<in> set ts" "t \<notin> set ss"
  obtains i where "i < length ss" "ts ! i = t" "ts ! i \<noteq> ss ! i"
  using assms by (metis in_set_conv_nth)

lemma overlays_add:
  assumes "t \<in> set (pl_slots (apply_resident_overlay (apply_must_charge p prices now soc cfg) prices now soc requested cfg))"
    and new: "t \<notin> set (pl_slots p)"
  shows "\<exists>s. added_charge cfg prices now s t \<and> must_charge_finding t = None"
proof (cases "t \<in> set (pl_slots (apply_must_charge p prices now soc cfg))")
  case True
  from nth_changed_mem [OF overlay_lengths(1) True new] auto_overlay_slot show ?thesis by metis
next
  case False
  from nth_changed_mem [OF overlay_lengths(2) assms(1) False] resident_overlay_slot show ?thesis by metis
qed

text \<open>
  C23. The must-charge overlays stay inside their limits, and what they add passes the validator. With a
  charge window at or above the floor and the device's minimum, each slot of the plan they return is the
  plan's own, or became a charge whose price is known and within the price cap, that is not over and
  starts before the deadline, with every price up to the deadline known; the automatic overlay
  adds charging only when it is enabled, the device is ready and the battery is below the floor plus the
  buffer; and every added slot passes the validator's must-charge check.
\<close>

theorem must_charge_is_bounded:
  assumes q: "q = apply_must_charge p prices now soc cfg"
    and r: "r = apply_resident_overlay p prices now soc requested cfg"
    and i: "i < length (pl_slots p)"
  shows "length (pl_slots q) = length (pl_slots p) \<and> length (pl_slots r) = length (pl_slots p) \<and>
         (pl_slots q ! i \<noteq> pl_slots p ! i \<longrightarrow>
            added_charge cfg prices now (pl_slots p ! i) (pl_slots q ! i) \<and>
            must_charge_finding (pl_slots q ! i) = None \<and>
            mu_enabled cfg \<and> mu_capability_ready cfg \<and>
            soc < mu_floor_soc_pct cfg + max 0 (mu_buffer_pp cfg)) \<and>
         (pl_slots r ! i \<noteq> pl_slots p ! i \<longrightarrow>
            added_charge cfg prices now (pl_slots p ! i) (pl_slots r ! i) \<and>
            must_charge_finding (pl_slots r ! i) = None \<and> requested \<noteq> None)"
  using auto_overlay_slot [OF i, of prices now soc cfg] resident_overlay_slot [OF i, of prices now soc requested cfg]
  by (auto simp: q r overlay_lengths)

definition demo_must_cfg :: must_charge_config where
  "demo_must_cfg =
     \<lparr>mu_enabled = False, mu_target_soc_pct = 30, mu_max_price = 1/4, mu_buffer_pp = 10, mu_usable_kwh = 10,
      mu_floor_soc_pct = 10, mu_max_charge_w = 4000, mu_rte = 1, mu_capability_ready = True,
      mu_device_min_pct = Some 5, mu_tz = utc\<rparr>"

definition demo_idle_plan :: plan where
  "demo_idle_plan = plan0 0 (map (\<lambda>i. plan_slot0 (SLOT * i) ALLOW_SELF_CONSUMPTION []) [0, 1, 2])"

text \<open>The resident asks for 55 percent at the third quarter: the later of the two cheapest slots charges.\<close>

theorem must_charge_is_bounded_witness:
  "let r = apply_resident_overlay demo_idle_plan demo_night 0 50 (Some (55, 2700000000)) demo_must_cfg
   in pl_slots r ! 2 \<noteq> pl_slots demo_idle_plan ! 2 \<and>
      added_charge demo_must_cfg demo_night 0 (pl_slots demo_idle_plan ! 2) (pl_slots r ! 2)"
proof -
  define c where "c = demo_must_cfg\<lparr>mu_enabled := True, mu_target_soc_pct := 55\<rparr>"
  let ?r = "apply_resident_overlay demo_idle_plan demo_night 0 50 (Some (55, 2700000000)) demo_must_cfg"
  let ?fut = "filter (\<lambda>p. 0 < pr_start p + SLOT \<and> pr_start p < 2700000000) demo_night"
  have cfg: "mu_capability_ready c" "mu_device_min_pct c = Some 5" "mu_usable_kwh c = 10"
    "mu_max_charge_w c = 4000" "mu_target_soc_pct c = 55" "mu_floor_soc_pct c = 10"
    "mu_max_price c = 1/4" "mu_rte c = 1"
    by (simp_all add: c_def demo_must_cfg_def)
  have night: "demo_night = [\<lparr>pr_start = 0, pr_eur = 2/10, pr_origin = ''tibber''\<rparr>,
      \<lparr>pr_start = SLOT, pr_eur = 1/10, pr_origin = ''tibber''\<rparr>,
      \<lparr>pr_start = 1800000000, pr_eur = 1/10, pr_origin = ''tibber''\<rparr>,
      \<lparr>pr_start = 2700000000, pr_eur = 1/10, pr_origin = ''tibber''\<rparr>,
      \<lparr>pr_start = 3600000000, pr_eur = 3/10, pr_origin = ''tibber''\<rparr>]"
    by (simp add: demo_night_def)
  have pm: "price_map demo_night = [0 \<mapsto> 2/10, SLOT \<mapsto> 1/10, 1800000000 \<mapsto> 1/10, 2700000000 \<mapsto> 1/10,
      3600000000 \<mapsto> 3/10]"
    by (simp add: price_map_def night)
  have fut: "?fut = take 3 demo_night" by (simp add: night)
  have ord: "sort_key pr_start (take 3 demo_night) = take 3 demo_night" by (simp add: night)
  have need: "need_dc_kwh c 55 50 = 1/2" by (simp add: need_dc_kwh_def cfg)
  have per: "stored_kwh_per_slot 4000 1 = 1" by (simp add: stored_kwh_per_slot_def)
  have gap: "\<not> span_gap (take 3 demo_night) (price_map demo_night) 0 2700000000"
    unfolding span_gap_def ord Let_def
    by (simp add: pm quarter_floor_def span_incomplete.simps) (simp add: night span_incomplete.simps)
  have pack: "late_pack_charge_starts (take 3 demo_night) 1 (\<lambda>p. map_get (price_map demo_night) (pr_start p) 0) (1/4)
      = {1800000000}"
    by (simp add: late_pack_charge_starts_def best_of_def windows_def upt_rec pm map_get_def)
       (simp add: night pack_step_def buyable_window_def window_cost_def starts_of_def COST_EPS_def map_get_def)
  have pool: "affordable c (price_map demo_night) (take 3 demo_night) \<noteq> []"
    unfolding affordable_def pm cfg by (simp add: night map_get_def)
  have before: "Set.filter (\<lambda>s. s < 2700000000) {1800000000} = {1800000000::instant}" by auto
  have ne3: "take 3 demo_night \<noteq> []" by (simp add: night)
  have target: "clamp_must_charge_target_soc 55 10 (Some 5) = Some 55"
    by (simp add: clamp_must_charge_target_soc_def)
  have one: "\<lceil>(1/2 :: real) / 1\<rceil> = 1" by (simp add: ceiling_eq_iff)
  have sel: "select_resident_charge demo_night 0 50 c 2700000000 = selection {1800000000} None 55 2700000000"
    unfolding select_resident_charge_def fut Let_def ord cfg target option.case need per one pack before
    using gap pool ne3 cfg(1) by simp
  have slots: "pl_slots demo_idle_plan = [plan_slot0 0 ALLOW_SELF_CONSUMPTION [],
      plan_slot0 SLOT ALLOW_SELF_CONSUMPTION [], plan_slot0 1800000000 ALLOW_SELF_CONSUMPTION []]"
    by (simp add: demo_idle_plan_def plan0_def)
  have ne: "pl_slots ?r ! 2 \<noteq> pl_slots demo_idle_plan ! 2"
    unfolding apply_resident_overlay_def option.case prod.case Let_def c_def [symmetric] sel
    by (simp add: selection_def slots plan_slot0_def charging_slot_def)
  have "2 < length (pl_slots demo_idle_plan)" by (simp add: slots)
  from must_charge_is_bounded [OF refl refl this, of demo_night 0 50 demo_must_cfg "Some (55, 2700000000)"] ne
  show ?thesis unfolding Let_def by blast
qed

end
