(* ===== verification/BuildPlan.thy ===== *)
theory BuildPlan
  imports AdaptivePlanner SummerPlanner TradingPlanner WinterSafety MustCharge
begin

section \<open>The composition of a plan (\<open>ems/planner/strategy.py\<close>, \<open>build_plan\<close>)\<close>

text \<open>
  The planner of the resolved strategy, the trading overlay, the shared clamps, the must-charge overlays,
  the clamps again, the savings floor: in that order. The inputs are one record; a missing forecast is
  the empty list, as in the code.
\<close>

record plan_request =
  rq_strategy :: string
  rq_prices :: "price_slot list"
  rq_forecast :: "forecast_slot list"
  rq_now :: instant
  rq_soc_pct :: real
  rq_winter :: winter_config
  rq_summer :: summer_config
  rq_load_by :: "(instant \<rightharpoonup> real) option"
  rq_adaptive :: "adaptive_config option"
  rq_expected_ev_kwh :: real
  rq_trading :: "trading_config option"
  rq_price_zone :: price_zone

text \<open>The two calls of \<open>plan_rule_based\<close>; the second leaves the battery at its defaults.\<close>

definition default_battery :: "real \<Rightarrow> battery_input" where
  "default_battery ev =
     \<lparr>bi_soc_pct = 0, bi_load_by = None, bi_usable_kwh = 10, bi_reserve_soc_pct = 10, bi_max_charge_w = 4000,
      bi_max_discharge_w = 4000, bi_expected_ev_kwh = ev\<rparr>"

definition winter_battery :: "adaptive_config \<Rightarrow> real \<Rightarrow> (instant \<rightharpoonup> real) \<Rightarrow> real \<Rightarrow> battery_input" where
  "winter_battery a soc_pct load_by ev =
     \<lparr>bi_soc_pct = soc_pct, bi_load_by = Some load_by, bi_usable_kwh = ad_usable_kwh a,
      bi_reserve_soc_pct = ad_reserve_soc_pct a, bi_max_charge_w = ad_max_charge_w a,
      bi_max_discharge_w = ad_max_charge_w a, bi_expected_ev_kwh = ev\<rparr>"

definition seasonal_plan :: "plan_request \<Rightarrow> py_error + plan" where
  "seasonal_plan rq =
     (if rq_strategy rq = ''summer''
      then Inr (case (rq_adaptive rq, rq_load_by rq) of
                  (Some a, Some load_by) \<Rightarrow>
                    plan_adaptive (rq_prices rq) (rq_forecast rq) (rq_now rq) (rq_soc_pct rq) load_by a
                | _ \<Rightarrow> plan_summer (rq_prices rq) (rq_forecast rq) (rq_now rq) (rq_soc_pct rq) (rq_summer rq))
      else plan_rule_based (rq_prices rq) (rq_now rq) (rq_winter rq)
             (case (rq_adaptive rq, rq_load_by rq) of
                (Some a, Some load_by) \<Rightarrow> winter_battery a (rq_soc_pct rq) load_by (rq_expected_ev_kwh rq)
              | _ \<Rightarrow> default_battery (rq_expected_ev_kwh rq)))"

subsection \<open>The shared clamps\<close>

record cap_inputs =
  ci_bought :: "real option"
  ci_cap :: real
  ci_per_slot :: real
  ci_tz :: zone

definition daily_cap_inputs :: "plan_request \<Rightarrow> cap_inputs" where
  "daily_cap_inputs rq =
     (let w = rq_winter rq; su = rq_summer rq;
          of_winter = (\<lambda>watts. \<lparr>ci_bought = wc_already_bought w, ci_cap = wc_daily_cap_kwh w,
                              ci_per_slot = ac_grid_kwh_per_slot watts, ci_tz = wc_tz w\<rparr>)
      in case (rq_adaptive rq, rq_load_by rq) of
           (Some a, Some load_by) \<Rightarrow>
             if rq_strategy rq = ''summer''
             then \<lparr>ci_bought = ad_already_bought a, ci_cap = ad_daily_cap_kwh a,
                   ci_per_slot = ac_grid_kwh_per_slot (ad_max_charge_w a), ci_tz = ad_tz a\<rparr>
             else of_winter (ad_max_charge_w a)
         | _ \<Rightarrow>
             if rq_strategy rq = ''summer''
             then \<lparr>ci_bought = su_already_bought su, ci_cap = su_daily_cap_kwh su,
                   ci_per_slot = ac_grid_kwh_per_slot (su_max_charge_w su), ci_tz = su_tz su\<rparr>
             else of_winter 4000)"

definition clamp_daily :: "plan_request \<Rightarrow> plan \<Rightarrow> plan" where
  "clamp_daily rq p =
     (let i = daily_cap_inputs rq in clamp_grid_charge p (ci_bought i) (ci_cap i) (ci_per_slot i) (ci_tz i))"

record cycle_inputs =
  yi_charged :: "real option"
  yi_discharged :: "real option"
  yi_max :: real
  yi_usable :: real
  yi_rte :: real
  yi_watts :: real
  yi_tz :: zone

definition shared_cycle_inputs :: "plan_request \<Rightarrow> cycle_inputs" where
  "shared_cycle_inputs rq =
     (let w = rq_winter rq; su = rq_summer rq;
          of_winter = (\<lambda>usable watts rte tz.
             \<lparr>yi_charged = wc_charged_today w, yi_discharged = wc_discharged_today w, yi_max = wc_max_cycles w,
              yi_usable = usable, yi_rte = rte, yi_watts = watts, yi_tz = tz\<rparr>)
      in case (rq_adaptive rq, rq_load_by rq) of
           (Some a, Some load_by) \<Rightarrow>
             if rq_strategy rq = ''summer''
             then \<lparr>yi_charged = ad_charged_today a, yi_discharged = ad_discharged_today a, yi_max = ad_max_cycles a,
                   yi_usable = ad_usable_kwh a, yi_rte = ad_rte a, yi_watts = ad_max_charge_w a, yi_tz = ad_tz a\<rparr>
             else of_winter (ad_usable_kwh a) (ad_max_charge_w a) (wc_rte w) (wc_tz w)
         | _ \<Rightarrow>
             if rq_strategy rq = ''summer''
             then of_winter (su_usable_kwh su) (su_max_charge_w su) (su_rte su) (su_tz su)
             else of_winter 10 4000 (wc_rte w) (wc_tz w))"

definition clamp_shared_cycles :: "plan_request \<Rightarrow> plan \<Rightarrow> plan" where
  "clamp_shared_cycles rq p =
     (let i = shared_cycle_inputs rq
      in clamp_cycle_budget p (yi_charged i) (yi_discharged i) (yi_max i) (yi_usable i) (yi_rte i) (yi_watts i)
           (yi_tz i))"

definition clamp_cycles_unless_trading :: "plan_request \<Rightarrow> plan \<Rightarrow> plan" where
  "clamp_cycles_unless_trading rq p =
     (if pl_strategy p \<noteq> Some ''trading'' then clamp_shared_cycles rq p else p)"

subsection \<open>The overlays\<close>

definition must_charge_cfg :: "adaptive_config \<Rightarrow> must_charge_config" where
  "must_charge_cfg a =
     \<lparr>mu_enabled = ad_must_enabled a, mu_target_soc_pct = ad_must_target_soc a, mu_max_price = ad_must_max_price a,
      mu_buffer_pp = ad_must_buffer_pp a, mu_usable_kwh = ad_usable_kwh a, mu_floor_soc_pct = ad_reserve_soc_pct a,
      mu_max_charge_w = ad_max_charge_w a, mu_rte = ad_rte a, mu_capability_ready = ad_must_capability_ready a,
      mu_device_min_pct = ad_must_device_min a, mu_tz = ad_tz a\<rparr>"

definition resident_configured :: "adaptive_config \<Rightarrow> (real \<times> instant) option" where
  "resident_configured a =
     (case (ad_resident_target a, ad_resident_deadline a) of
        (Some target, Some deadline) \<Rightarrow> Some (target, deadline)
      | _ \<Rightarrow> None)"

definition maybe_apply_must_charge :: "plan_request \<Rightarrow> plan \<Rightarrow> plan" where
  "maybe_apply_must_charge rq p =
     (case (rq_adaptive rq, rq_load_by rq) of
        (Some a, Some load_by) \<Rightarrow>
          apply_resident_overlay
            (apply_must_charge p (rq_prices rq) (rq_now rq) (rq_soc_pct rq) (must_charge_cfg a))
            (rq_prices rq) (rq_now rq) (rq_soc_pct rq) (resident_configured a) (must_charge_cfg a)
      | _ \<Rightarrow> p)"

definition apply_savings_floor :: "plan_request \<Rightarrow> plan \<Rightarrow> plan" where
  "apply_savings_floor rq p =
     (let w = rq_winter rq;
          (rte, deg, risk) = (case (rq_adaptive rq, rq_load_by rq) of
              (Some a, Some load_by) \<Rightarrow> (ad_rte a, ad_degradation a, ad_risk a)
            | _ \<Rightarrow> (wc_rte w, wc_degradation w, wc_risk w))
      in apply_daily_savings_floor p (rq_prices rq) (wc_daily_min_savings w) rte deg risk (wc_import_fee w))"

subsection \<open>The plan\<close>

definition budgeted :: "plan_request \<Rightarrow> plan \<Rightarrow> plan" where
  "budgeted rq p = clamp_cycles_unless_trading rq (clamp_daily rq p)"

definition after_trading :: "plan_request \<Rightarrow> plan \<Rightarrow> plan" where
  "after_trading rq p = apply_savings_floor rq (budgeted rq (maybe_apply_must_charge rq (budgeted rq p)))"

definition build_plan :: "plan_request \<Rightarrow> py_error + plan" where
  "build_plan rq =
     bind_res (seasonal_plan rq) (\<lambda>p.
     bind_res (maybe_apply_trading (p\<lparr>pl_strategy := Some (rq_strategy rq)\<rparr>) (rq_prices rq) (rq_now rq)
                 (rq_trading rq) (rq_price_zone rq) (rq_soc_pct rq) (rq_load_by rq)) (\<lambda>q.
     Inr (after_trading rq q)))"

subsection \<open>The clamps only take away\<close>

interpretation daily: restrict_only clamp_daily
  by unfold_locales (simp_all add: clamp_daily_def Let_def clamp_grid_charge_rewrites clamp_grid_charge_frame)

interpretation shared: restrict_only clamp_shared_cycles
  by unfold_locales (simp_all add: clamp_shared_cycles_def Let_def clamp_cycle_rewrites clamp_cycle_frame)

interpretation cycles: restrict_only clamp_cycles_unless_trading
  by unfold_locales
    (simp_all add: clamp_cycles_unless_trading_def shared.overlay_slots shared.overlay_frame)

interpretation savings: restrict_only apply_savings_floor
  by unfold_locales (simp_all add: apply_savings_floor_def Let_def split_beta savings_floor_rewrites savings_floor_frame)

interpretation budgets: restrict_only budgeted
  unfolding budgeted_def by (rule restrict_only_compose [OF daily.restrict_only_axioms cycles.restrict_only_axioms])

interpretation closing: restrict_only "\<lambda>rq p. apply_savings_floor rq (budgeted rq p)"
  by (rule restrict_only_compose [OF budgets.restrict_only_axioms savings.restrict_only_axioms])

lemma must_charge_frame:
  "pl_created_at (maybe_apply_must_charge rq p) = pl_created_at p"
  "pl_strategy (maybe_apply_must_charge rq p) = pl_strategy p"
  by (simp_all add: maybe_apply_must_charge_def overlay_frames split: option.split)

lemma after_trading_frame:
  "pl_created_at (after_trading rq p) = pl_created_at p"
  "pl_strategy (after_trading rq p) = pl_strategy p"
  by (simp_all add: after_trading_def savings.overlay_frame budgets.overlay_frame must_charge_frame)

lemma build_plan_cases:
  assumes "build_plan rq = Inr q"
  obtains p m where "seasonal_plan rq = Inr p"
    "maybe_apply_trading (p\<lparr>pl_strategy := Some (rq_strategy rq)\<rparr>) (rq_prices rq) (rq_now rq)
       (rq_trading rq) (rq_price_zone rq) (rq_soc_pct rq) (rq_load_by rq) = Inr m"
    "q = after_trading rq m"
  using assms by (auto simp: build_plan_def bind_res_Inr_iff)

lemma composed_daily_cap:
  assumes "build_plan rq = Inr q"
    and v: "vi_daily_cap_kwh v = Some (ci_cap (daily_cap_inputs rq))"
      "vi_already_bought v = ci_bought (daily_cap_inputs rq)"
      "vi_per_slot_kwh v = ci_per_slot (daily_cap_inputs rq)" "vi_tz v = ci_tz (daily_cap_inputs rq)"
  shows "check_daily_cap v q (take n (pl_slots q)) = []"
proof (cases "0 < ci_cap (daily_cap_inputs rq)")
  case False
  then show ?thesis by (simp add: check_daily_cap_def v(1))
next
  case True
  obtain m where q: "q = after_trading rq m" using assms(1) by (rule build_plan_cases)
  let ?p = "maybe_apply_must_charge rq (budgeted rq m)"
  let ?c = "clamp_daily rq ?p"
  have c: "?c = clamp_grid_charge ?p (vi_already_bought v) (ci_cap (daily_cap_inputs rq)) (vi_per_slot_kwh v) (vi_tz v)"
    by (simp add: clamp_daily_def v Let_def)
  have "q = apply_savings_floor rq (clamp_cycles_unless_trading rq ?c)"
    by (simp add: q after_trading_def) (simp add: budgeted_def)
  then show ?thesis
    using clamped_passes_cap_check [OF v(1) True c, of q n]
      slots_restrict_trans [OF cycles.overlay_slots [of ?c rq] savings.overlay_slots [of _ rq]]
    by (simp add: savings.overlay_frame cycles.overlay_frame daily.overlay_frame)
qed

text \<open>
  The composed plan respects the daily purchase cap, whatever the strategy, the trading overlay and the
  must-charge overlays have put into it: checked by the validator with the cap, the counter, the charge
  power and the zone that \<open>build_plan\<close> itself uses, no local day of the plan is over the cap, for any
  number of slots the validator looks at.
\<close>

theorem build_plan_within_daily_cap:
  assumes "build_plan rq = Inr q"
    and v: "vi_daily_cap_kwh v = Some (ci_cap (daily_cap_inputs rq))"
      "vi_already_bought v = ci_bought (daily_cap_inputs rq)"
      "vi_per_slot_kwh v = ci_per_slot (daily_cap_inputs rq)" "vi_tz v = ci_tz (daily_cap_inputs rq)"
  shows "check_daily_cap v q (take n (pl_slots q)) = []"
  using assms by (rule composed_daily_cap)

text \<open>
  The composed plan respects the cycle budget. Unless the trading path has won, every local day of the
  returned plan stays, with today's history, within the configured full cycles (up to the code's
  tolerance), or not a single kWh is bought or exported on it: the day is over the limit by its history
  and by serving the house alone.
\<close>

theorem build_plan_within_cycle_budget:
  assumes "build_plan rq = Inr q" and "pl_strategy q \<noteq> Some ''trading''"
    and i: "i = shared_cycle_inputs rq" "0 < yi_usable i"
    and h: "(h_c, h_d) = resolved_cycle_history (yi_charged i) (yi_discharged i)"
    and b: "b = cycle_budget_of q (yi_max i) (yi_usable i) (yi_rte i) (yi_watts i) (yi_tz i)"
  shows "plan_day_efc q (yi_usable i) (yi_rte i) (yi_watts i) (yi_tz i) h_c h_d d \<le> max 0 (yi_max i) + CYCLE_EPS \<or>
         day_energy b (\<lambda>s. restricted_intent (sl_intent s)) fst (pl_slots q) d = 0 \<and>
         day_energy b (\<lambda>s. restricted_intent (sl_intent s)) snd (pl_slots q) d = 0"
proof -
  obtain m where q: "q = after_trading rq m" using assms(1) by (rule build_plan_cases)
  let ?x = "clamp_daily rq (maybe_apply_must_charge rq (budgeted rq m))"
  let ?y = "clamp_shared_cycles rq ?x"
  have qy: "q = apply_savings_floor rq ?y"
    using assms(2) unfolding q after_trading_def
    by (simp add: budgeted_def savings.overlay_frame clamp_cycles_unless_trading_def shared.overlay_frame split: if_splits)
  have y: "?y = clamp_cycle_budget ?x (Some h_c) (Some h_d) (yi_max i) (yi_usable i) (yi_rte i) (yi_watts i) (yi_tz i)"
    unfolding clamp_shared_cycles_def Let_def i(1) [symmetric]
    by (subst clamp_cycle_history) (simp add: h [symmetric])
  have by': "b = cycle_budget_of ?x (yi_max i) (yi_usable i) (yi_rte i) (yi_watts i) (yi_tz i)" "0 \<le> cy_eta b"
    by (simp_all add: b qy cycle_budget_of_def savings.overlay_frame shared.overlay_frame)
  have sl: "list_all2 (slot_rewritten restricts) (pl_slots ?y) (pl_slots q)"
    unfolding qy by (rule savings.overlay_slots)
  have cr: "pl_created_at q = pl_created_at ?y" by (simp add: qy savings.overlay_frame)
  note le = plan_day_efc_restricted [OF sl cr, of "yi_usable i" "yi_rte i" "yi_watts i" "yi_tz i" h_c h_d d]
  have z: "day_energy b P part (pl_slots q) d = 0" if "day_energy b P part (pl_slots ?y) d = 0" "part \<in> {fst, snd}" for P part
    using day_energy_restricted [OF sl by'(2) that(2), of P d] that(1) by simp
  from clamped_day_efc(2) [OF i(2) y, of d, folded by'(1)] le z show ?thesis by (auto intro: order_trans)
qed

subsection \<open>When it raises\<close>

lemma rule_based_error:
  assumes "plan_rule_based prices now cfg b = Inl e"
  shows "e = ZeroDivisionError \<and> bi_usable_kwh b = 0 \<and> bi_load_by b \<noteq> None"
  using assms
  by (auto simp: plan_rule_based_def plan_winter_def winter_demand_def bind_res_def Let_def
        split: sum.splits if_splits option.splits)

text \<open>
  C29. \<open>build_plan\<close> raises in two situations only, and never with another exception. The winter planner
  divides by a usable capacity of zero, which the learned load profile and an adaptive configuration
  make it do; or the minimum export of trading is configured as zero and no export slot fits (or there
  is no candidate): the trading path then takes the minimum of an empty list.
\<close>

theorem build_plan_errors:
  assumes "build_plan rq = Inl e"
  shows "e = ZeroDivisionError \<and> rq_strategy rq \<noteq> ''summer'' \<and> rq_load_by rq \<noteq> None \<and>
           (\<exists>a. rq_adaptive rq = Some a \<and> ad_usable_kwh a = 0) \<or>
         e = ValueError \<and>
           (\<exists>cfg. rq_trading rq = Some cfg \<and> tr_enabled cfg \<and> tr_min_export_kwh cfg \<le> 1/1000000000 \<and>
              (export_candidates cfg (tr_horizon (rq_prices rq) (rq_now rq) cfg (rq_price_zone rq)) = [] \<or>
               \<not> export_fits cfg (rq_soc_pct rq) (slot_export_ac cfg)))"
proof (cases "seasonal_plan rq")
  case (Inl e')
  with assms have "e' = e" by (simp add: build_plan_def bind_res_def)
  with Inl show ?thesis
    by (auto simp: seasonal_plan_def default_battery_def winter_battery_def
          dest!: rule_based_error split: if_splits option.splits)
next
  case (Inr p)
  with assms have "maybe_apply_trading (p\<lparr>pl_strategy := Some (rq_strategy rq)\<rparr>) (rq_prices rq) (rq_now rq)
      (rq_trading rq) (rq_price_zone rq) (rq_soc_pct rq) (rq_load_by rq) = Inl e"
    by (auto simp: build_plan_def bind_res_def split: sum.splits)
  from trading_error [OF this] show ?thesis by blast
qed

subsection \<open>Where an acting slot comes from\<close>

lemma winter_no_export:
  assumes p: "plan_rule_based prices now cfg b = Inr p" and s: "s \<in> set (pl_slots p)"
  shows "sl_intent s \<noteq> EXPORT_FOR_PROFIT"
proof
  assume x: "sl_intent s = EXPORT_FOR_PROFIT"
  obtain w where w: "plan_winter prices now cfg b = Inr w"
    and pw: "p = winter_budgets cfg b (if wc_negative_soak cfg then soak_negative w prices cfg (bi_max_charge_w b) else w)"
    using p by (auto simp: plan_rule_based_def bind_res_Inr_iff)
  have "s \<in> set (pl_slots w)"
    using winter_budgets_kept [OF s [unfolded pw]] x soak_kept [of s w prices cfg "bi_max_charge_w b"]
    by (auto split: if_splits)
  moreover have "s \<notin> set (pl_slots (winter_trade cfg now b h sz))" for h sz
  proof
    assume "s \<in> set (pl_slots (winter_trade cfg now b h sz))"
    from winter_trade_kept [OF this] x show False
      by (auto simp: winter_from_sizing_def winter_plan_def plan0_def winter_slot_def plan_slot0_def Let_def split: if_splits)
  qed
  moreover have "s \<notin> set (pl_slots (all_auto h now r))" for h r using x by (auto simp: all_auto_def winter_plan_def plan0_def plan_slot0_def)
  moreover have "pl_slots (winter_plan now []) = []" by (simp add: winter_plan_def plan0_def)
  ultimately show False
    using w by (auto simp: plan_winter_def Let_def bind_res_Inr_iff split: if_splits option.splits)
qed

lemma adaptive_no_export:
  assumes "s \<in> set (pl_slots (plan_adaptive prices forecast now soc_pct load_by cfg))"
  shows "sl_intent s \<noteq> EXPORT_FOR_PROFIT"
proof
  assume x: "sl_intent s = EXPORT_FOR_PROFIT"
  have "sl_intent (fst (adaptive_step cfg load_by p50 sz l y)) \<noteq> EXPORT_FOR_PROFIT" for p50 sz l y
    by (simp add: adaptive_step_def plan_slot0_def Let_def)
  with plan_adaptive_slots [OF refl refl assms] x show False by fastforce
qed

lemma summer_no_export:
  assumes "s \<in> set (pl_slots (plan_summer prices forecast now soc_pct cfg))"
  shows "sl_intent s \<noteq> EXPORT_FOR_PROFIT"
proof
  assume x: "sl_intent s = EXPORT_FOR_PROFIT"
  have n: "\<not> restricts i (sl_intent s)" for i by (simp add: restricts_def x)
  have "sl_intent (summer_slot cfg p50 S d y) \<noteq> EXPORT_FOR_PROFIT" for p50 S d y
    by (simp add: summer_slot_def plan_slot0_def Let_def)
  then show False
    using assms x
    by (auto simp: plan_summer_def Let_def plan0_def
          dest!: rewritten_kept [OF clamp_grid_charge_rewrites _ n] split: if_splits)
qed

lemma seasonal_no_export:
  "seasonal_plan rq = Inr p \<Longrightarrow> s \<in> set (pl_slots p) \<Longrightarrow> sl_intent s \<noteq> EXPORT_FOR_PROFIT"
  by (auto simp: seasonal_plan_def winter_no_export adaptive_no_export summer_no_export split: if_splits option.splits)

lemma trading_cases:
  assumes "maybe_apply_trading z prices now requested pz soc_pct load_by = Inr m"
  shows "m = z \<or> (\<exists>cfg r. requested = Some cfg \<and> tr_enabled cfg \<and> build_path_t prices now cfg pz soc_pct = Inr r \<and>
      ((\<exists>x. m = all_auto_plan prices now cfg pz x) \<or> (\<exists>t a b. pt_plan r = Some t \<and> m = winning_plan cfg a b t)))"
  using assms
  by (cases requested)
    (fastforce simp: maybe_apply_trading_def bind_res_Inr_iff Let_def split: option.splits if_splits)+

lemma trading_outcome:
  assumes "maybe_apply_trading z prices now requested pz soc_pct load_by = Inr m"
  shows "m = z \<or> (\<forall>s\<in>set (pl_slots m). sl_intent s = ALLOW_SELF_CONSUMPTION) \<or>
         pl_strategy m = Some ''trading'' \<and> (\<exists>cfg. requested = Some cfg \<and> tr_enabled cfg)"
proof -
  have "\<forall>s\<in>set (pl_slots (all_auto_plan prices now cfg pz r)). sl_intent s = ALLOW_SELF_CONSUMPTION" for cfg r
    by (simp add: all_auto_plan_def plan0_def plan_slot0_def)
  moreover have "pl_strategy (winning_plan cfg a b t) = Some ''trading''"
    if "build_path_t prices now cfg pz soc_pct = Inr r" "pt_plan r = Some t" for cfg a b t r
    by (rule build_path_t_trade [OF that]) (simp add: winning_plan_def trade_plan_def Let_def split: list.split)
  ultimately show ?thesis using trading_cases [OF assms] by blast
qed

lemma added_charge_buys: "added_charge cfg prices now s t \<Longrightarrow> sl_intent t = GRID_CHARGE_TO_TARGET"
  by (auto simp: added_charge_def charging_slot_def plan_slot0_def)

lemma after_trading_kept:
  assumes "s \<in> set (pl_slots (after_trading rq m))" and act: "sl_intent s \<noteq> ALLOW_SELF_CONSUMPTION"
  shows "s \<in> set (pl_slots m) \<or>
         (\<exists>a s0. rq_adaptive rq = Some a \<and> rq_load_by rq \<noteq> None \<and>
            added_charge (must_charge_cfg a) (rq_prices rq) (rq_now rq) s0 s \<and> must_charge_finding s = None)"
proof -
  have n: "\<not> restricts i (sl_intent s)" for i using act by (simp add: restricts_def)
  from rewritten_kept [OF closing.overlay_slots assms(1) [unfolded after_trading_def] n]
  have m: "s \<in> set (pl_slots (maybe_apply_must_charge rq (budgeted rq m)))" .
  show ?thesis
  proof (cases "s \<in> set (pl_slots (budgeted rq m))")
    case True
    from rewritten_kept [OF budgets.overlay_slots this n] show ?thesis ..
  next
    case False
    with m overlays_add [of s "budgeted rq m"] show ?thesis
      by (fastforce simp: maybe_apply_must_charge_def split: option.splits)
  qed
qed

text \<open>
  C21. Nothing acts that was not planned. Every slot of the composed plan that is not self-consumption was in
  the plan the trading step handed over, unchanged, or is a charge a must-charge overlay added within its
  limits (known price within the cap, not over, before its deadline, and valid for the validator); and a
  plan exports only when trading is enabled and the trading path has won.
\<close>

theorem build_plan_acts_as_planned:
  assumes run: "build_plan rq = Inr q" and s: "s \<in> set (pl_slots q)" "sl_intent s \<noteq> ALLOW_SELF_CONSUMPTION"
  shows "((\<exists>p m. seasonal_plan rq = Inr p \<and>
             maybe_apply_trading (p\<lparr>pl_strategy := Some (rq_strategy rq)\<rparr>) (rq_prices rq) (rq_now rq)
               (rq_trading rq) (rq_price_zone rq) (rq_soc_pct rq) (rq_load_by rq) = Inr m \<and> s \<in> set (pl_slots m)) \<or>
          (\<exists>a s0. rq_adaptive rq = Some a \<and> rq_load_by rq \<noteq> None \<and>
             added_charge (must_charge_cfg a) (rq_prices rq) (rq_now rq) s0 s \<and> must_charge_finding s = None)) \<and>
         (sl_intent s = EXPORT_FOR_PROFIT \<longrightarrow>
            pl_strategy q = Some ''trading'' \<and> (\<exists>cfg. rq_trading rq = Some cfg \<and> tr_enabled cfg))"
proof -
  obtain p m where p: "seasonal_plan rq = Inr p"
    and m: "maybe_apply_trading (p\<lparr>pl_strategy := Some (rq_strategy rq)\<rparr>) (rq_prices rq) (rq_now rq)
               (rq_trading rq) (rq_price_zone rq) (rq_soc_pct rq) (rq_load_by rq) = Inr m"
    and q: "q = after_trading rq m"
    using run by (rule build_plan_cases)
  note kept = after_trading_kept [OF s(1) [unfolded q] s(2)]
  have "pl_strategy q = Some ''trading'' \<and> (\<exists>cfg. rq_trading rq = Some cfg \<and> tr_enabled cfg)"
    if x: "sl_intent s = EXPORT_FOR_PROFIT"
  proof -
    from kept x have "s \<in> set (pl_slots m)" by (auto dest: added_charge_buys)
    with trading_outcome [OF m] x seasonal_no_export [OF p] show ?thesis
      by (auto simp: q after_trading_frame)
  qed
  with kept p m show ?thesis by blast
qed

subsection \<open>A summer morning through the whole composition\<close>

definition demo_request :: plan_request where
  "demo_request =
     \<lparr>rq_strategy = ''summer'', rq_prices = demo_prices, rq_forecast = [], rq_now = 0, rq_soc_pct = 10,
      rq_winter = winter_defaults utc (\<lambda>_. 0), rq_summer = demo_summer, rq_load_by = None, rq_adaptive = None,
      rq_expected_ev_kwh = 0, rq_trading = None, rq_price_zone = Some (utc, \<lambda>_. 0)\<rparr>"

lemma demo_inputs:
  "daily_cap_inputs demo_request = \<lparr>ci_bought = Some 0, ci_cap = 12, ci_per_slot = ac_grid_kwh_per_slot 4000, ci_tz = utc\<rparr>"
  "shared_cycle_inputs demo_request =
     \<lparr>yi_charged = Some 0, yi_discharged = Some 0, yi_max = 3/2, yi_usable = 10, yi_rte = 1, yi_watts = 4000, yi_tz = utc\<rparr>"
  by (simp_all add: daily_cap_inputs_def shared_cycle_inputs_def demo_request_def demo_summer_def winter_defaults_def Let_def)

lemma demo_built:
  obtains q s1 s2 where "build_plan demo_request = Inr q" "pl_slots q = [s1, s2]" "pl_strategy q = Some ''summer''"
    "sl_intent s1 = GRID_CHARGE_TO_TARGET" "sl_intent s2 = ALLOW_SELF_CONSUMPTION"
proof (rule demo_summer_plan)
  let ?p = "plan_summer demo_prices [] 0 10 demo_summer"
  fix s1 s2
  assume ss: "pl_slots ?p = [s1, s2]" and s: "sl_start s1 = 0" "sl_intent s1 = GRID_CHARGE_TO_TARGET"
    "sl_power_w s1 = Some 4000" "sl_start s2 = SLOT" "sl_intent s2 = ALLOW_SELF_CONSUMPTION" and c: "pl_created_at ?p = 0"
  define q where "q = ?p\<lparr>pl_strategy := Some ''summer''\<rparr>"
  have q: "pl_slots q = [s1, s2]" "pl_created_at q = 0" "pl_strategy q = Some ''summer''"
    by (simp_all add: q_def ss c)
  have day: "local_date utc 0 = 0" "local_date utc SLOT = 0" by (simp_all add: local_date_def utc_def)
  have "clamp_daily demo_request q = q"
    by (simp add: clamp_daily_def demo_inputs clamp_grid_charge_def q charge_budget_of_def s day plan_day_def
          day_budget_def BUDGET_EPS_def slot_grid_kwh_def remaining_fraction_def SLOT_HOURS_def)
  moreover have "clamp_shared_cycles demo_request q = q"
    by (simp add: clamp_shared_cycles_def demo_inputs clamp_cycle_budget_def q resolved_cycle_history_def
          cycle_budget_of_def restricted_intent_def s cycle_base_def cycle_kwh_def slot_cycle_kwh_def
          remaining_fraction_def SLOT_HOURS_def day plan_day_def equivalent_full_cycles_def CYCLE_EPS_def Let_def)
  ultimately have "budgeted demo_request q = q" by (simp add: budgeted_def clamp_cycles_unless_trading_def)
  moreover have "maybe_apply_must_charge demo_request q = q"
    by (simp add: maybe_apply_must_charge_def demo_request_def)
  moreover have "apply_savings_floor demo_request q = q"
    by (simp add: apply_savings_floor_def demo_request_def winter_defaults_def apply_daily_savings_floor_def)
  ultimately have "after_trading demo_request q = q" by (simp add: after_trading_def)
  moreover have "build_plan demo_request = Inr (after_trading demo_request q)"
    by (simp add: build_plan_def seasonal_plan_def maybe_apply_trading_def q_def demo_request_def)
  ultimately show ?thesis using q s that by simp
qed

theorem build_plan_within_daily_cap_witness:
  "\<exists>q. build_plan demo_request = Inr q \<and> map sl_intent (pl_slots q) = [GRID_CHARGE_TO_TARGET, ALLOW_SELF_CONSUMPTION] \<and>
       check_daily_cap (demo_validate\<lparr>vi_daily_cap_kwh := Some 12, vi_already_bought := Some 0\<rparr>) q (pl_slots q) = []"
proof -
  let ?v = "demo_validate\<lparr>vi_daily_cap_kwh := Some 12, vi_already_bought := Some 0\<rparr>"
  obtain q s1 s2 where q: "build_plan demo_request = Inr q" "pl_slots q = [s1, s2]"
    "sl_intent s1 = GRID_CHARGE_TO_TARGET" "sl_intent s2 = ALLOW_SELF_CONSUMPTION"
    by (rule demo_built)
  have "check_daily_cap ?v q (take 2 (pl_slots q)) = []"
    by (rule build_plan_within_daily_cap [OF q(1)])
      (simp_all add: demo_inputs demo_validate_def ac_grid_kwh_per_slot_def SLOT_HOURS_def)
  with q show ?thesis by (intro exI [of _ q]) simp
qed

theorem build_plan_within_cycle_budget_witness:
  "\<exists>q. build_plan demo_request = Inr q \<and>
       (plan_day_efc q 10 1 4000 utc 0 0 0 \<le> 3/2 + CYCLE_EPS \<or>
        day_energy (cycle_budget_of q (3/2) 10 1 4000 utc) (\<lambda>s. restricted_intent (sl_intent s)) fst (pl_slots q) 0 = 0)"
proof -
  obtain q where q: "build_plan demo_request = Inr q" "pl_strategy q = Some ''summer''"
    by (rule demo_built)
  have "pl_strategy q \<noteq> Some ''trading''" by (simp add: q)
  from build_plan_within_cycle_budget [OF q(1) this refl _ _ refl, of 0 0 0] show ?thesis
    by (intro exI [of _ q] conjI q(1)) (auto simp: demo_inputs resolved_cycle_history_def)
qed

theorem build_plan_acts_as_planned_witness:
  "\<exists>q s. build_plan demo_request = Inr q \<and> s \<in> set (pl_slots q) \<and> sl_intent s = GRID_CHARGE_TO_TARGET \<and>
         (\<exists>p. seasonal_plan demo_request = Inr p \<and> s \<in> set (pl_slots p))"
proof -
  obtain q s1 s2 where q: "build_plan demo_request = Inr q" "pl_slots q = [s1, s2]"
    "sl_intent s1 = GRID_CHARGE_TO_TARGET" "sl_intent s2 = ALLOW_SELF_CONSUMPTION"
    by (rule demo_built)
  have "s1 \<in> set (pl_slots q)" "sl_intent s1 \<noteq> ALLOW_SELF_CONSUMPTION" by (simp_all add: q)
  from conjunct1 [OF build_plan_acts_as_planned [OF q(1) this]]
  have "\<exists>p. seasonal_plan demo_request = Inr p \<and> s1 \<in> set (pl_slots p)"
    by (auto simp: maybe_apply_trading_def demo_request_def)
  with q show ?thesis by (intro exI [of _ q] exI [of _ s1]) simp
qed

text \<open>With a day limit below one slot and no minimum, trading takes the whole plan down.\<close>

theorem build_plan_errors_witness:
  "let cfg = demo_trading\<lparr>tr_max_export_kwh := 5/10, tr_min_export_kwh := 0\<rparr>
   in build_plan (demo_request\<lparr>rq_trading := Some cfg\<rparr>) = Inl ValueError \<and>
      tr_enabled cfg \<and> tr_min_export_kwh cfg \<le> 1/1000000000"
proof -
  define cfg where "cfg = demo_trading\<lparr>tr_max_export_kwh := 5/10, tr_min_export_kwh := 0\<rparr>"
  let ?rq = "demo_request\<lparr>rq_trading := Some cfg\<rparr>"
  have "build_plan ?rq = Inl ValueError"
    using demo_trading_raises [folded cfg_def] by (simp add: build_plan_def seasonal_plan_def demo_request_def bind_res_def)
  moreover from build_plan_errors [OF this] have "tr_enabled cfg \<and> tr_min_export_kwh cfg \<le> 1/1000000000" by simp
  ultimately show ?thesis unfolding Let_def cfg_def [symmetric] by blast
qed

end
