(* ===== verification/PlanShape.thy ===== *)
theory PlanShape
  imports BuildPlan "HOL-Library.Sublist"
begin

section \<open>The shape of a composed plan\<close>

text \<open>
  Whatever the strategy, and whatever the overlays and clamps have changed: the slots of a plan are the
  next quarter hours of the price feed, one for one, from the one that contains the planning instant on.
\<close>

abbreviation times :: "plan_slot list \<Rightarrow> (instant \<times> instant option) list" where
  "times ss \<equiv> map (\<lambda>s. (sl_start s, sl_end s)) ss"

abbreviation price_times :: "price_slot list \<Rightarrow> (instant \<times> instant option) list" where
  "price_times ps \<equiv> map (\<lambda>p. (pr_start p, None)) ps"

definition on_prices :: "price_slot list \<Rightarrow> instant \<Rightarrow> plan \<Rightarrow> bool" where
  "on_prices prices now p \<longleftrightarrow>
     pl_created_at p = now \<and> prefix (times (pl_slots p)) (price_times (future_prices prices now))"

lemma rewritten_times_eq: "list_all2 (slot_rewritten a) ss ts \<Longrightarrow> times ts = times ss"
  by (induction rule: list_all2_induct) (auto simp: slot_rewritten_def)

lemma on_prices_rewritten:
  "on_prices prices now p \<Longrightarrow> list_all2 (slot_rewritten a) (pl_slots p) (pl_slots q) \<Longrightarrow>
     pl_created_at q = pl_created_at p \<Longrightarrow> on_prices prices now q"
  by (simp add: on_prices_def rewritten_times_eq)

lemma on_prices_same_times:
  "on_prices prices now p \<Longrightarrow> times (pl_slots q) = times (pl_slots p) \<Longrightarrow> pl_created_at q = pl_created_at p \<Longrightarrow>
     on_prices prices now q"
  by (simp add: on_prices_def)

lemma slice_on_prices: "prefix (price_times (slice_price_horizon prices now tz w n)) (price_times (future_prices prices now))"
proof -
  obtain k where "slice_price_horizon prices now tz w n = take k (future_prices prices now)"
    using slice_prefix [of prices now tz w n] by (auto simp: future_prices_def)
  then show ?thesis by (simp only: map_mono_prefix [OF take_is_prefix])
qed

lemma tr_horizon_on_prices: "prefix (price_times (tr_horizon prices now cfg pz)) (price_times (future_prices prices now))"
proof (cases pz)
  case None
  then have "tr_horizon prices now cfg pz = take (tr_horizon_slots cfg) (future_prices prices now)"
    by (simp add: tr_horizon_def future_prices_def)
  then show ?thesis by (simp only: map_mono_prefix [OF take_is_prefix])
next
  case (Some x)
  then show ?thesis by (cases x) (simp add: tr_horizon_def slice_on_prices)
qed

lemma on_prices_map:
  assumes "prefix (price_times ps) (price_times (future_prices prices now))"
    and "times (pl_slots p) = price_times ps" and "pl_created_at p = now"
  shows "on_prices prices now p"
  using assms by (simp add: on_prices_def)

lemma on_prices_end:
  assumes "on_prices prices now p" and "s \<in> set (pl_slots p)"
  shows "sl_end s = None"
proof -
  have "(sl_start s, sl_end s) \<in> set (times (pl_slots p))" using assms(2) by auto
  then have "(sl_start s, sl_end s) \<in> set (price_times (future_prices prices now))"
    using assms(1) set_mono_prefix unfolding on_prices_def by blast
  then show ?thesis by auto
qed

lemma on_prices_empty: "pl_slots p = [] \<Longrightarrow> pl_created_at p = now \<Longrightarrow> on_prices prices now p"
  by (simp add: on_prices_def)

subsection \<open>The planners\<close>

lemma winter_on_prices:
  assumes "plan_rule_based prices now cfg b = Inr p"
  shows "on_prices prices now p"
proof -
  let ?h = "slice_price_horizon prices now (wc_tz cfg) (wc_of_wall cfg) (wc_horizon_slots cfg)"
  note on_h = on_prices_map [OF slice_on_prices [of prices now "wc_tz cfg" "wc_of_wall cfg" "wc_horizon_slots cfg"]]
  obtain w where w: "plan_winter prices now cfg b = Inr w"
    and p: "p = winter_budgets cfg b (if wc_negative_soak cfg then soak_negative w prices cfg (bi_max_charge_w b) else w)"
    using assms by (auto simp: plan_rule_based_def bind_res_Inr_iff)
  have ws: "sl_end (winter_slot cfg b peaks sz be x) = None" for peaks sz be x
    by (simp add: winter_slot_def plan_slot0_def Let_def)
  have "on_prices prices now (winter_from_sizing cfg now b ?h sz)" for sz
    by (rule on_h)
       (simp_all add: winter_from_sizing_def winter_plan_def plan0_def ws)
  then have trade: "on_prices prices now (winter_trade cfg now b ?h sz)" for sz
    unfolding winter_trade_def
    by (rule on_prices_rewritten [OF _ apply_evening_reserve_rewrites]) (simp add: apply_evening_reserve_frame)
  have idle: "on_prices prices now (all_auto ?h now r)" for r
    by (rule on_h)
       (simp_all add: all_auto_def winter_plan_def plan0_def plan_slot0_def)
  have "on_prices prices now (winter_plan now [])"
    by (rule on_prices_empty) (simp_all add: winter_plan_def plan0_def)
  with w trade idle have "on_prices prices now w"
    by (auto simp: plan_winter_def Let_def bind_res_Inr_iff split: if_splits option.splits)
  moreover have "on_prices prices now (soak_negative w prices cfg x)" if "on_prices prices now w" for x
    by (rule on_prices_same_times [OF that])
       (simp_all add: soak_negative_def plan0_def soak_slot_def plan_slot0_def on_prices_end [OF that])
  ultimately show ?thesis
    unfolding p winter_budgets_def
    by (auto simp: on_prices_def rewritten_times_eq [OF clamp_cycle_rewrites]
          rewritten_times_eq [OF clamp_grid_charge_rewrites] clamp_cycle_frame clamp_grid_charge_frame)
qed

lemma adaptive_on_prices: "on_prices prices now (plan_adaptive prices forecast now soc_pct load_by cfg)"
proof -
  let ?h = "slice_price_horizon prices now (ad_tz cfg) (ad_of_wall cfg) (ad_horizon_slots cfg)"
  let ?base = "plan_adaptive_base prices forecast now soc_pct load_by cfg"
  have "sl_start (fst (adaptive_step cfg load_by p50 sz l x)) = pr_start x"
    "sl_end (fst (adaptive_step cfg load_by p50 sz l x)) = None" for p50 sz l x
    by (simp_all add: adaptive_step_def plan_slot0_def Let_def)
  then have walk: "times (adaptive_walk cfg load_by p50 sz l ps) = price_times ps" for p50 sz l ps
    by (induction ps arbitrary: l) (simp_all add: split_beta)
  have base: "on_prices prices now ?base"
  proof (cases "?h = []")
    case True
    then show ?thesis by (simp add: plan_adaptive_base_def on_prices_def plan0_def)
  next
    case False
    then show ?thesis
      by (intro on_prices_map [OF slice_on_prices [of prices now "ad_tz cfg" "ad_of_wall cfg" "ad_horizon_slots cfg"]])
        (simp_all add: plan_adaptive_base_def Let_def plan0_def walk)
  qed
  have "on_prices prices now (adaptive_soak ?base prices cfg)"
    by (rule on_prices_same_times [OF base])
       (simp_all add: adaptive_soak_def plan0_def adaptive_soak_slot_def plan_slot0_def on_prices_end [OF base])
  with base show ?thesis
    by (auto simp: plan_adaptive_def adaptive_budgets_def Let_def on_prices_def
          rewritten_times_eq [OF clamp_cycle_rewrites] rewritten_times_eq [OF clamp_grid_charge_rewrites]
          clamp_cycle_frame clamp_grid_charge_frame)
qed

lemma summer_on_prices: "on_prices prices now (plan_summer prices forecast now soc_pct cfg)"
proof -
  let ?h = "slice_price_horizon prices now (su_tz cfg) (su_of_wall cfg) (su_horizon_slots cfg)"
  have "sl_end (summer_slot cfg p50 S d x) = None" "sl_start (summer_slot cfg p50 S d x) = pr_start x" for p50 S d x
    by (simp_all add: summer_slot_def plan_slot0_def Let_def)
  with slice_on_prices [of prices now "su_tz cfg" "su_of_wall cfg" "su_horizon_slots cfg"] show ?thesis
    by (simp add: plan_summer_def Let_def on_prices_def plan0_def rewritten_times_eq [OF clamp_grid_charge_rewrites]
          clamp_grid_charge_frame comp_def)
qed

lemma trading_on_prices:
  assumes "maybe_apply_trading z prices now requested pz soc_pct load_by = Inr m" and z: "on_prices prices now z"
  shows "on_prices prices now m"
proof -
  have auto: "on_prices prices now (all_auto_plan prices now cfg pz x)" for cfg x
    by (rule on_prices_map [OF tr_horizon_on_prices [of prices now cfg pz]])
       (simp_all add: all_auto_plan_def plan0_def plan_slot0_def)
  have win: "on_prices prices now (winning_plan cfg a b t)"
    if b: "build_path_t prices now cfg pz soc_pct = Inr r" "pt_plan r = Some t" for cfg a b t r
  proof (rule build_path_t_trade [OF b])
    fix td
    assume t: "t = trade_plan cfg now soc_pct (tr_horizon prices now cfg pz) td"
    have "sl_end (trade_slot cfg h td ts x) = None" "sl_start (trade_slot cfg h td ts x) = pr_start x" for h ts x
      by (simp_all add: trade_slot_def plan_slot0_def Let_def)
    then have "on_prices prices now t"
      by (intro on_prices_map [OF tr_horizon_on_prices [of prices now cfg pz]])
        (simp_all add: t trade_plan_def plan0_def)
    then show ?thesis
      by (rule on_prices_same_times) (auto simp: winning_plan_def plan0_def Let_def split: list.split)
  qed
  from trading_cases [OF assms(1)] z auto win show ?thesis by blast
qed

subsection \<open>The composition\<close>

lemma overlay_times:
  "times (pl_slots (apply_must_charge p prices now soc cfg)) = times (pl_slots p)"
  "times (pl_slots (apply_resident_overlay p prices now soc requested cfg)) = times (pl_slots p)"
  by (auto simp: apply_must_charge_def apply_resident_overlay_def charging_slot_def plan_slot0_def Let_def
      split: option.split prod.split)

lemma after_trading_times: "times (pl_slots (after_trading rq p)) = times (pl_slots p)"
proof -
  have "times (pl_slots (maybe_apply_must_charge rq x)) = times (pl_slots x)" for x
    by (simp add: maybe_apply_must_charge_def overlay_times split: option.split)
  then show ?thesis
    by (simp add: after_trading_def rewritten_times_eq [OF closing.overlay_slots] rewritten_times_eq [OF budgets.overlay_slots])
qed

lemma spaced_slots_ordered:
  "sorted_wrt (\<lambda>a b. pr_start a + SLOT \<le> pr_start b) ps \<Longrightarrow> prefix (times ss) (price_times ps) \<Longrightarrow> slots_ordered ss"
proof (induction ss arbitrary: ps rule: slots_ordered.induct)
  case (3 s t ss)
  then obtain a b qs where ps: "ps = a # b # qs" "sl_start s = pr_start a" "sl_end s = None"
    "sl_start t = pr_start b" "sl_end t = None" "prefix (times ss) (price_times qs)"
    by (cases ps; cases "tl ps") auto
  from 3(2) have srt: "pr_start a + SLOT \<le> pr_start b" "sorted_wrt (\<lambda>a b. pr_start a + SLOT \<le> pr_start b) (b # qs)"
    by (simp_all add: ps)
  from 3(1) [OF srt(2)] ps have "slots_ordered (t # ss)" by simp
  with ps srt show ?case by (simp add: slot_end_def)
qed simp_all

text \<open>
  C26. A composed plan is well formed. It carries the instant it was made at; its slots are, one for one and
  in order, the first quarter hours of the price feed that are not over at that instant, none with an end
  of its own; and on a feed whose starts are at least a quarter hour apart no two slots overlap, so that
  at most one slot covers any instant.
\<close>

theorem build_plan_well_formed:
  assumes run: "build_plan rq = Inr q"
    and feed: "sorted_wrt (\<lambda>a b. pr_start a + SLOT \<le> pr_start b) (rq_prices rq)"
  shows "pl_created_at q = rq_now rq \<and>
         prefix (times (pl_slots q)) (price_times (future_prices (rq_prices rq) (rq_now rq))) \<and>
         slots_ordered (pl_slots q)"
proof -
  obtain p m where p: "seasonal_plan rq = Inr p"
    and m: "maybe_apply_trading (p\<lparr>pl_strategy := Some (rq_strategy rq)\<rparr>) (rq_prices rq) (rq_now rq)
               (rq_trading rq) (rq_price_zone rq) (rq_soc_pct rq) (rq_load_by rq) = Inr m"
    and q: "q = after_trading rq m"
    using run by (rule build_plan_cases)
  have "on_prices (rq_prices rq) (rq_now rq) p"
    using p by (auto simp: seasonal_plan_def winter_on_prices adaptive_on_prices summer_on_prices
        split: if_splits option.splits)
  then have "on_prices (rq_prices rq) (rq_now rq) (p\<lparr>pl_strategy := Some (rq_strategy rq)\<rparr>)"
    by (simp add: on_prices_def)
  from trading_on_prices [OF m this] have "on_prices (rq_prices rq) (rq_now rq) m" .
  then have on: "on_prices (rq_prices rq) (rq_now rq) q" by (auto simp: q on_prices_def after_trading_times after_trading_frame)
  have "sorted_wrt (\<lambda>a b. pr_start a + SLOT \<le> pr_start b) (future_prices (rq_prices rq) (rq_now rq))"
    unfolding future_prices_def by (rule sorted_wrt_filter [OF feed])
  with on spaced_slots_ordered show ?thesis unfolding on_prices_def by blast
qed

theorem build_plan_well_formed_witness:
  "\<exists>q. build_plan demo_request = Inr q \<and> times (pl_slots q) = [(0, None), (SLOT, None)] \<and> slots_ordered (pl_slots q)"
proof -
  obtain q s1 s2 where q: "build_plan demo_request = Inr q" "pl_slots q = [s1, s2]" by (rule demo_built)
  have rq: "rq_prices demo_request = demo_prices" "rq_now demo_request = 0" by (simp_all add: demo_request_def)
  have "sorted_wrt (\<lambda>a b. pr_start a + SLOT \<le> pr_start b) (rq_prices demo_request)" by (simp add: rq demo_prices_def)
  note wf = build_plan_well_formed [OF q(1) this, unfolded rq]
  have "price_times (future_prices demo_prices 0) = [(0, None), (SLOT, None)]"
    by (simp add: future_prices_def demo_prices_def)
  with conjunct1 [OF conjunct2 [OF wf]] have "prefix (times (pl_slots q)) [(0, None), (SLOT, None)]" by (simp only:)
  then have "times (pl_slots q) = [(0, None), (SLOT, None)]" by (simp add: q(2))
  with conjunct2 [OF conjunct2 [OF wf]] q(1) show ?thesis by (intro exI [of _ q] conjI)
qed

end
