(* ===== verification/StaleMeter.thy ===== *)
theory StaleMeter
  imports Projection
begin

section \<open>Caution when a meter is stale (\<open>ems/planner/reason.py\<close>)\<close>

text \<open>
  With a stale EV or grid meter the planned discharge floor is raised by a buffer, and the slots that
  would take the battery below it are held. The code tests the text of a reason for the planners'
  discharge phrases; texts are lists of pieces here, with the euro sign written EUR.
\<close>

definition STALE_METER_PLAN_REASON :: string where
  "STALE_METER_PLAN_REASON = ''Voorzichtig: meter verouderd''"

definition stale_discharge_floor_soc :: "real \<Rightarrow> real \<Rightarrow> real" where
  "stale_discharge_floor_soc reserve_soc_pct buffer_pp = min 100 (max 0 reserve_soc_pct + max 0 buffer_pp)"

subsection \<open>Texts\<close>

text \<open>\<open>str.strip\<close> on a text of pieces: blanks at either end, in literal pieces only.\<close>

fun strip_start :: "message \<Rightarrow> message" where
  "strip_start (Lit s # t) =
     (let s' = dropWhile blank s in if s' = [] then strip_start t else Lit s' # t)"
| "strip_start t = t"

fun reverse_piece :: "piece \<Rightarrow> piece" where
  "reverse_piece (Lit s) = Lit (rev s)"
| "reverse_piece p = p"

definition reverse_text :: "message \<Rightarrow> message" where
  "reverse_text t = rev (map reverse_piece t)"

definition strip_text :: "message \<Rightarrow> message" where
  "strip_text t = reverse_text (strip_start (reverse_text (strip_start t)))"

definition stale_meter_reason_prefix :: "message \<Rightarrow> message" where
  "stale_meter_reason_prefix reason =
     (let t = strip_text reason
      in if text_has STALE_METER_PLAN_REASON t then t
         else if t = [] then [Lit STALE_METER_PLAN_REASON]
         else Lit STALE_METER_PLAN_REASON # Lit '' -- '' # t)"

definition is_aggressive_discharge_slot :: "plan_slot \<Rightarrow> bool" where
  "is_aggressive_discharge_slot s =
     (if sl_intent s = EXPORT_FOR_PROFIT then True
      else if sl_intent s \<noteq> DISCHARGE_FOR_LOAD then False
      else (let low = map lower_piece (sl_reason s)
            in text_starts ''discharge:'' low \<or> text_starts ''shave the eur'' low \<or>
               text_starts ''self-consumption:'' low))"

definition plan_has_stale_meter_reason :: "plan option \<Rightarrow> bool" where
  "plan_has_stale_meter_reason p =
     (case p of None \<Rightarrow> False | Some q \<Rightarrow> list_ex (\<lambda>s. text_has STALE_METER_PLAN_REASON (sl_reason s)) (pl_slots q))"

subsection \<open>The pass\<close>

definition stale_hold_slot :: "plan_slot \<Rightarrow> projected_slot \<Rightarrow> real \<Rightarrow> bool" where
  "stale_hold_slot s proj effective_floor =
     (if effective_floor \<le> pj_soc_pct proj then False
      else if pj_battery_w proj \<le> 0 then False
      else if sl_intent s = EXPORT_FOR_PROFIT then True
      else if sl_intent s = ALLOW_SELF_CONSUMPTION then True
      else sl_intent s = DISCHARGE_FOR_LOAD \<and> is_aggressive_discharge_slot s)"

record stale_inputs =
  st_floor :: real
  st_model :: battery_model
  st_solar_by :: "instant \<rightharpoonup> real"
  st_load_by :: "instant \<rightharpoonup> real"

text \<open>The first (and only) entry of the projection of one slot.\<close>

definition project_one :: "stale_inputs \<Rightarrow> real \<Rightarrow> plan_slot \<Rightarrow> projected_slot" where
  "project_one e soc s =
     hd (project_energy [s] soc (st_solar_by e) (st_load_by e) (st_model e) (sl_target_soc s) SLOT None)"

definition stale_floor_soc :: "stale_inputs \<Rightarrow> plan_slot \<Rightarrow> real option" where
  "stale_floor_soc e s =
     (if sl_intent s = GRID_CHARGE_TO_TARGET then sl_floor_soc s
      else Some (case sl_floor_soc s of None \<Rightarrow> st_floor e | Some f \<Rightarrow> max f (st_floor e)))"

definition stale_step :: "stale_inputs \<Rightarrow> real \<Rightarrow> plan_slot \<Rightarrow> plan_slot \<times> real" where
  "stale_step e soc s =
     (let proj = project_one e soc s
      in if stale_hold_slot s proj (st_floor e)
         then (s\<lparr>sl_intent := HOLD_RESERVE, sl_power_w := None, sl_floor_soc := stale_floor_soc e s,
                 sl_reason := stale_meter_reason_prefix [Lit ''hold reserve while meter data is uncertain'']\<rparr>,
               pj_soc_pct (project_one e soc (s\<lparr>sl_intent := HOLD_RESERVE, sl_power_w := None\<rparr>)))
         else (s\<lparr>sl_floor_soc := stale_floor_soc e s, sl_reason := stale_meter_reason_prefix (sl_reason s)\<rparr>,
               pj_soc_pct proj))"

fun stale_walk :: "stale_inputs \<Rightarrow> real \<Rightarrow> plan_slot list \<Rightarrow> plan_slot list" where
  "stale_walk e soc [] = []"
| "stale_walk e soc (s # ss) = (let (s', soc') = stale_step e soc s in s' # stale_walk e soc' ss)"

definition discharging_starts :: "plan_slot list \<Rightarrow> instant set" where
  "discharging_starts ss =
     set (map sl_start (filter (\<lambda>s. sl_intent s = DISCHARGE_FOR_LOAD \<or> sl_intent s = EXPORT_FOR_PROFIT) ss))"

definition apply_stale_meter_caution ::
  "plan \<Rightarrow> real \<Rightarrow> real \<Rightarrow> real \<Rightarrow> battery_model \<Rightarrow> (instant \<rightharpoonup> real) \<Rightarrow> (instant \<rightharpoonup> real) \<Rightarrow> py_error + plan" where
  "apply_stale_meter_caution p base_reserve buffer_pp start_soc m solar_by load_by =
     (let e = \<lparr>st_floor = stale_discharge_floor_soc base_reserve buffer_pp, st_model = m,
               st_solar_by = solar_by, st_load_by = load_by\<rparr>;
          out = stale_walk e start_soc (pl_slots p)
      in if discharging_starts out \<subseteq> discharging_starts (pl_slots p)
         then Inr (p\<lparr>pl_slots := out\<rparr>) else Inl AssertionError)"

subsection \<open>What it keeps\<close>

text \<open>The slot-by-slot replay the pass itself makes, on any list of slots.\<close>

fun replay :: "stale_inputs \<Rightarrow> real \<Rightarrow> plan_slot list \<Rightarrow> projected_slot list" where
  "replay e soc [] = []"
| "replay e soc (s # ss) = (let j = project_one e soc s in j # replay e (pj_soc_pct j) ss)"

lemma project_one_eq:
  "project_one e soc s =
     (let m = st_model e; k = start_kwh m soc;
          solar = map_get (st_solar_by e) (sl_start s) 0; load = map_get (st_load_by e) (sl_start s) 0;
          w = slot_battery_w m SLOT_HOURS (target_kwh_of m (sl_target_soc s)) (sl_intent s) k (load - solar)
      in \<lparr>pj_start = sl_start s, pj_intent = sl_intent s, pj_soc_pct = soc_pct_of m (soc_after m SLOT_HOURS k w),
          pj_battery_w = w, pj_grid_w = load - solar - w, pj_solar_w = solar, pj_load_w = load\<rparr>)"
proof -
  have "total_seconds SLOT / 3600 = SLOT_HOURS" by (simp add: total_seconds_def SLOT_HOURS_def)
  then show ?thesis by (simp add: project_one_def project_energy_def MAX_HORIZON_SLOTS_def Let_def)
qed

lemma project_one_cong:
  "sl_start t = sl_start s \<Longrightarrow> sl_intent t = sl_intent s \<Longrightarrow> sl_target_soc t = sl_target_soc s \<Longrightarrow>
     project_one e soc t = project_one e soc s"
  by (simp add: project_one_eq Let_def)

lemma held_never_discharges:
  assumes "model_ok (st_model e)" and "sl_intent s = HOLD_RESERVE"
  shows "pj_battery_w (project_one e soc s) \<le> 0"
  using assms max_charge_ac_bounds(1) [OF assms(1), of SLOT_HOURS]
  by (simp add: project_one_eq slot_battery_w_def Let_def SLOT_HOURS_def)

text \<open>What the pass may do to a slot, and what the replay of the result then shows for it.\<close>

definition cautious :: "stale_inputs \<Rightarrow> plan_slot \<Rightarrow> plan_slot \<Rightarrow> projected_slot \<Rightarrow> bool" where
  "cautious e s t j \<longleftrightarrow>
     sl_start t = sl_start s \<and> sl_end t = sl_end s \<and> sl_deadline t = sl_deadline s \<and>
     sl_target_soc t = sl_target_soc s \<and>
     (sl_intent t = sl_intent s \<and> sl_power_w t = sl_power_w s \<or>
      sl_intent t = HOLD_RESERVE \<and> sl_intent s \<notin> {GRID_CHARGE_TO_TARGET, HOLD_RESERVE}) \<and>
     (sl_intent s = GRID_CHARGE_TO_TARGET \<longrightarrow> t = s\<lparr>sl_reason := sl_reason t\<rparr>) \<and>
     (sl_intent s \<noteq> GRID_CHARGE_TO_TARGET \<longrightarrow> (\<exists>f. sl_floor_soc t = Some f \<and> st_floor e \<le> f)) \<and>
     (pj_battery_w j \<le> 0 \<or> st_floor e \<le> pj_soc_pct j \<or>
      sl_intent s = DISCHARGE_FOR_LOAD \<and> \<not> is_aggressive_discharge_slot s)"

lemma never_discharges:
  assumes "model_ok (st_model e)" and "sl_intent s \<in> {GRID_CHARGE_TO_TARGET, HOLD_RESERVE}"
  shows "pj_battery_w (project_one e soc s) \<le> 0"
proof -
  have h: "0 < SLOT_HOURS" by (simp add: SLOT_HOURS_def)
  have "0 \<le> max 0 x / bm_eta m / SLOT_HOURS * 1000" for x m
    using h by (intro mult_nonneg_nonneg divide_nonneg_nonneg) (simp_all add: less_imp_le)
  then show ?thesis
    using assms max_charge_ac_bounds(1) [OF assms(1) h]
    by (auto simp: project_one_eq slot_battery_w_def Let_def)
qed

lemma stale_step_cautious:
  assumes m: "model_ok (st_model e)" and st: "stale_step e soc s = (t, soc')"
  shows "soc' = pj_soc_pct (project_one e soc t) \<and> cautious e s t (project_one e soc t)"
proof (cases "stale_hold_slot s (project_one e soc s) (st_floor e)")
  case True
  let ?h = "s\<lparr>sl_intent := HOLD_RESERVE, sl_power_w := None\<rparr>"
  have t: "t = ?h\<lparr>sl_floor_soc := stale_floor_soc e s,
      sl_reason := stale_meter_reason_prefix [Lit ''hold reserve while meter data is uncertain'']\<rparr>"
    and soc': "soc' = pj_soc_pct (project_one e soc ?h)"
    using st True by (auto simp: stale_step_def Let_def)
  have same: "project_one e soc t = project_one e soc ?h" by (rule project_one_cong) (simp_all add: t)
  have "pj_battery_w (project_one e soc ?h) \<le> 0" by (rule never_discharges [OF m]) simp
  moreover have "sl_intent s \<notin> {GRID_CHARGE_TO_TARGET, HOLD_RESERVE}"
    using True by (auto simp: stale_hold_slot_def split: if_splits)
  ultimately show ?thesis
    unfolding same by (simp add: cautious_def soc' t stale_floor_soc_def split: option.split)
next
  case False
  have t: "t = s\<lparr>sl_floor_soc := stale_floor_soc e s, sl_reason := stale_meter_reason_prefix (sl_reason s)\<rparr>"
    and soc': "soc' = pj_soc_pct (project_one e soc s)"
    using st False by (auto simp: stale_step_def Let_def)
  have same: "project_one e soc t = project_one e soc s" by (rule project_one_cong) (simp_all add: t)
  have "pj_battery_w (project_one e soc s) \<le> 0 \<or> st_floor e \<le> pj_soc_pct (project_one e soc s) \<or>
      sl_intent s = DISCHARGE_FOR_LOAD \<and> \<not> is_aggressive_discharge_slot s"
    using False never_discharges [OF m, of s soc]
    by (cases "sl_intent s") (auto simp: stale_hold_slot_def split: if_splits)
  then show ?thesis
    unfolding same by (auto simp: cautious_def soc' t stale_floor_soc_def split: option.split)
qed

lemma stale_walk_cautious:
  assumes m: "model_ok (st_model e)"
  shows "list_all2 (\<lambda>s (t, j). cautious e s t j) ss (zip (stale_walk e soc ss) (replay e soc (stale_walk e soc ss)))"
proof (induction ss arbitrary: soc)
  case (Cons s ss)
  obtain t soc' where st: "stale_step e soc s = (t, soc')" by (cases "stale_step e soc s")
  from stale_step_cautious [OF m st] Cons.IH [of soc'] show ?case by (simp add: st Let_def)
qed simp

lemma replay_length [simp]: "length (replay e soc ss) = length ss"
  by (induction ss arbitrary: soc) (simp_all add: Let_def)

lemma stale_walk_starts:
  assumes "model_ok (st_model e)"
  shows "discharging_starts (stale_walk e soc ss) \<subseteq> discharging_starts ss"
proof -
  have "list_all2 (\<lambda>s t. sl_start t = sl_start s \<and> (sl_intent t = sl_intent s \<or> sl_intent t = HOLD_RESERVE)) ss (stale_walk e soc ss)"
    using stale_walk_cautious [OF assms, of ss soc]
    by (auto simp: list_all2_conv_all_nth cautious_def)
  then show ?thesis
    by (induction rule: list_all2_induct) (auto simp: discharging_starts_def)
qed

text \<open>
  The pass never raises; every slot keeps its time, target and intent or becomes a hold, grid-charge slots
  keep everything but their text, every other slot carries at least the raised floor; and in the replay
  of the returned plan no slot takes the battery below the raised floor, except a discharge slot whose
  reason is not one of the planners' phrases.
\<close>

lemma stale_caution_keeps_buffer:
  assumes m: "model_ok m"
    and e: "e = \<lparr>st_floor = stale_discharge_floor_soc base_reserve buffer_pp, st_model = m,
                 st_solar_by = solar_by, st_load_by = load_by\<rparr>"
  shows "\<exists>q. apply_stale_meter_caution p base_reserve buffer_pp start_soc m solar_by load_by = Inr q \<and>
           q = p\<lparr>pl_slots := pl_slots q\<rparr> \<and>
           list_all2 (\<lambda>s (t, j). cautious e s t j) (pl_slots p) (zip (pl_slots q) (replay e start_soc (pl_slots q)))"
proof -
  have "model_ok (st_model e)" by (simp add: e m)
  from stale_walk_starts [OF this, of start_soc "pl_slots p"] stale_walk_cautious [OF this, of "pl_slots p" start_soc]
  show ?thesis by (simp add: apply_stale_meter_caution_def Let_def e [symmetric])
qed

end
