(* ===== verification/PlannerPort.thy ===== *)
theory PlannerPort
  imports PlanShape StaleMeter
begin

section \<open>The planner port (\<open>ems/planner/base.py\<close>, \<open>ems/planner/factory.py\<close>)\<close>

text \<open>
  The adapter the control loop calls: the composed plan, the stale-meter caution, and the identity and
  audit snapshot stamped on it. SHA-256 and the canonical JSON of the configuration are arguments: any
  functions of the hashed text and of the request.
\<close>

record port_request =
  po_plan :: plan_request
  po_mode :: "planner_mode + string"
  po_price_provenance :: "string option"
  po_forecast_provider :: "string option"
  po_forecast_issued_at :: "instant option"
  po_baseline :: "string option"
  po_capability_ref :: "string option"
  po_ev_stale :: bool
  po_grid_stale :: bool
  po_stale_buffer_pp :: real

fun planner_mode_value :: "planner_mode \<Rightarrow> string" where
  "planner_mode_value RULE_BASED = ''rule_based''"
| "planner_mode_value ML_MODE = ''ml''"
| "planner_mode_value ADVISORY = ''advisory''"

definition po_mode_value :: "planner_mode + string \<Rightarrow> string" where
  "po_mode_value m = (case m of Inl x \<Rightarrow> planner_mode_value x | Inr s \<Rightarrow> s)"

text \<open>Neither seasonal configuration has a field \<open>min_reserve_soc\<close>: the lookup gives its default, 10.\<close>

definition base_reserve_soc_pct :: "plan_request \<Rightarrow> real" where
  "base_reserve_soc_pct rq =
     (case (rq_adaptive rq, rq_load_by rq) of
        (Some a, Some _) \<Rightarrow> ad_reserve_soc_pct a
      | _ \<Rightarrow> 10)"

definition stale_model :: "plan_request \<Rightarrow> real \<Rightarrow> battery_model" where
  "stale_model rq reserve =
     (let model = (\<lambda>usable watts rte. \<lparr>bm_usable_kwh = usable, bm_max_charge_w = watts, bm_max_discharge_w = watts,
                     bm_round_trip_efficiency = rte, bm_reserve_soc_pct = reserve\<rparr>)
      in case rq_adaptive rq of
           Some a \<Rightarrow> model (ad_usable_kwh a) (ad_max_charge_w a) (ad_rte a)
         | None \<Rightarrow>
             if rq_strategy rq = ''summer''
             then model (su_usable_kwh (rq_summer rq)) (su_max_charge_w (rq_summer rq)) (su_rte (rq_summer rq))
             else model (su_usable_kwh (rq_summer rq)) 4000 (wc_rte (rq_winter rq)))"

definition stale_meter_projection_model ::
  "plan_request \<Rightarrow> real \<Rightarrow> battery_model \<times> (instant \<rightharpoonup> real) \<times> (instant \<rightharpoonup> real)" where
  "stale_meter_projection_model rq reserve =
     (stale_model rq reserve, p50_map (rq_forecast rq), opt_else (rq_load_by rq) Map.empty)"

definition stale_cautioned :: "port_request \<Rightarrow> plan \<Rightarrow> py_error + plan" where
  "stale_cautioned po p =
     (let rq = po_plan po; reserve = base_reserve_soc_pct rq;
          (m, solar_by, load_by) = stale_meter_projection_model rq reserve
      in if po_ev_stale po \<or> po_grid_stale po
         then apply_stale_meter_caution p reserve (po_stale_buffer_pp po) (rq_soc_pct rq) m solar_by load_by
         else Inr p)"

subsection \<open>Identity and snapshot\<close>

type_synonym hasher = "message \<Rightarrow> string"

definition digest :: "hasher \<Rightarrow> message list \<Rightarrow> string option" where
  "digest sha ls =
     (case ls of [] \<Rightarrow> None
      | l # rest \<Rightarrow> Some (take 16 (sha (l @ concat (map (\<lambda>x. Lit [CHR 0x0A] # x) rest)))))"

definition digest_prices :: "hasher \<Rightarrow> price_slot list \<Rightarrow> string option" where
  "digest_prices sha ps = digest sha (map (\<lambda>p. [Iso (pr_start p), Lit ''|'', Fixed 8 (pr_eur p)]) ps)"

definition digest_forecast :: "hasher \<Rightarrow> forecast_slot list \<Rightarrow> string option" where
  "digest_forecast sha fs =
     digest sha (map (\<lambda>f. [Iso (fc_start f), Lit ''|'', Fixed 4 (fc_p10_w f), Lit ''|'', Fixed 4 (fc_p50_w f),
                           Lit ''|'', Fixed 4 (fc_p90_w f)]) fs)"

definition digest_load :: "hasher \<Rightarrow> (instant \<rightharpoonup> real) option \<Rightarrow> string option" where
  "digest_load sha m =
     (case m of None \<Rightarrow> None
      | Some by \<Rightarrow> digest sha (map (\<lambda>t. [Iso t, Lit ''|'', Fixed 4 (map_get by t 0)]) (sorted_list_of_set (dom by))))"

definition forecast_p50_kwh :: "forecast_slot list \<Rightarrow> real option" where
  "forecast_p50_kwh fs =
     (if fs = [] then None
      else Some (py_round (sum_list (map (\<lambda>f. max 0 (fc_p50_w f)) fs) * (1/4) / 1000) 3))"

definition build_input_snapshot :: "hasher \<Rightarrow> (port_request \<Rightarrow> string \<Rightarrow> string) \<Rightarrow> port_request \<Rightarrow> string \<Rightarrow> planner_input_snapshot" where
  "build_input_snapshot sha cfg_hash po strategy =
     (let rq = po_plan po; euros = map pr_eur (rq_prices rq);
          ev = py_round (max 0 (rq_expected_ev_kwh rq)) 3
      in \<lparr>in_taken_at = rq_now rq, in_planner_mode = po_mode_value (po_mode po), in_strategy = strategy,
          in_soc_pct = rq_soc_pct rq, in_price_slots = int (length euros), in_price_resolution_minutes = 15,
          in_price_provenance = po_price_provenance po,
          in_price_min_eur = (if euros = [] then None else Some (Min (set euros))),
          in_price_max_eur = (if euros = [] then None else Some (Max (set euros))),
          in_prices_digest = digest_prices sha (rq_prices rq),
          in_forecast_slots = int (length (rq_forecast rq)), in_forecast_provider = po_forecast_provider po,
          in_forecast_issued_at = po_forecast_issued_at po,
          in_forecast_p50_kwh = forecast_p50_kwh (rq_forecast rq),
          in_forecast_digest = digest_forecast sha (rq_forecast rq),
          in_load_digest = digest_load sha (rq_load_by rq), in_baseline = po_baseline po,
          in_expected_ev_kwh = (if ev = 0 then None else Some ev),
          in_capability_report_ref = po_capability_ref po, in_config_hash = Some (cfg_hash po strategy)\<rparr>)"

definition opt_text :: "('a \<Rightarrow> message) \<Rightarrow> string \<Rightarrow> 'a option \<Rightarrow> message" where
  "opt_text f none x = (case x of None \<Rightarrow> [Lit none] | Some v \<Rightarrow> f v)"

definition plan_id :: "hasher \<Rightarrow> port_request \<Rightarrow> plan \<Rightarrow> string" where
  "plan_id sha po p =
     take 16 (sha ([Lit (po_mode_value (po_mode po)), Lit ''|''] @ opt_text (\<lambda>s. [Lit s]) ''None'' (pl_strategy p) @
       [Lit ''|''] @ opt_text (\<lambda>x. [Gen x]) ''None'' (pl_target_soc p) @ [Lit ''|''] @
       opt_text (\<lambda>t. [Iso t]) [] (pl_deadline p) @
       [Lit ''|'', Iso (rq_now (po_plan po)), Lit ''|'', Fixed 2 (rq_soc_pct (po_plan po))]))"

definition stamped :: "hasher \<Rightarrow> (port_request \<Rightarrow> string \<Rightarrow> string) \<Rightarrow> port_request \<Rightarrow> plan \<Rightarrow> plan" where
  "stamped sha cfg_hash po p =
     (let strategy = (case pl_strategy p of Some s \<Rightarrow> if s = [] then rq_strategy (po_plan po) else s
                                           | None \<Rightarrow> rq_strategy (po_plan po))
      in p\<lparr>pl_strategy := Some strategy, pl_id := Some (plan_id sha po p), pl_version := 1,
           pl_input_snapshot := Some (build_input_snapshot sha cfg_hash po strategy),
           pl_planner_mode := Some (po_mode_value (po_mode po))\<rparr>)"

definition rule_based_plan :: "hasher \<Rightarrow> (port_request \<Rightarrow> string \<Rightarrow> string) \<Rightarrow> port_request \<Rightarrow> py_error + plan" where
  "rule_based_plan sha cfg_hash po =
     bind_res (build_plan (po_plan po)) (\<lambda>p.
     bind_res (stale_cautioned po p) (\<lambda>q. Inr (stamped sha cfg_hash po q)))"

subsection \<open>The factory\<close>

definition strip_lower :: "string \<Rightarrow> string" where
  "strip_lower s = map lower_char (py_strip s)"

definition UNAVAILABLE_MODES :: "string set" where
  "UNAVAILABLE_MODES = {planner_mode_value ML_MODE, planner_mode_value ADVISORY}"

text \<open>The registry: the keys of the adapters; registering one is refused when empty or taken.\<close>

definition register_planner :: "string \<Rightarrow> string set \<Rightarrow> py_error + string set" where
  "register_planner name registry =
     (let key = strip_lower name
      in if key = [] then Inl ValueError else if key \<in> registry then Inl ValueError else Inr (insert key registry))"

definition planner_key :: "(planner_mode + string) option \<Rightarrow> string" where
  "planner_key mode =
     (case mode of
        Some (Inl m) \<Rightarrow> planner_mode_value m
      | Some (Inr s) \<Rightarrow>
          (let k = strip_lower (if s = [] then planner_mode_value RULE_BASED else s)
           in if k = [] then planner_mode_value RULE_BASED else k)
      | None \<Rightarrow> planner_mode_value RULE_BASED)"

definition build_planner :: "string set \<Rightarrow> (planner_mode + string) option \<Rightarrow> string" where
  "build_planner registry mode =
     (let key = planner_key mode
      in if key \<in> UNAVAILABLE_MODES \<or> key \<notin> registry then planner_mode_value RULE_BASED else key)"

text \<open>Whatever mode is configured, the adapter exists, and it is never one of the unavailable ones.\<close>

lemma build_planner_registered:
  assumes "planner_mode_value RULE_BASED \<in> registry"
  shows "build_planner registry mode \<in> registry \<and> build_planner registry mode \<notin> UNAVAILABLE_MODES"
  using assms by (simp add: build_planner_def Let_def UNAVAILABLE_MODES_def)

subsection \<open>A stale meter never spends the buffer\<close>

lemma lower_phrases:
  "is_prefix ''self-consumption:'' (map lower_char ''self-consumption: EUR'')"
  "is_prefix ''shave the eur'' (map lower_char ''shave the EUR'')"
  by code_simp+

lemma planner_phrase_aggressive:
  assumes i: "sl_intent s = DISCHARGE_FOR_LOAD"
    and r: "(\<exists>t. sl_reason s = Lit ''self-consumption: EUR'' # t) \<or> (\<exists>t. sl_reason s = Lit ''shave the EUR'' # t)"
  shows "is_aggressive_discharge_slot s"
proof -
  have start: "text_starts m (map lower_piece (Lit x # t)) = is_prefix m (map lower_char x)" for m x t
    by simp
  have "text_starts ''self-consumption:'' (map lower_piece (sl_reason s)) \<or>
      text_starts ''shave the eur'' (map lower_piece (sl_reason s))"
    using r lower_phrases by (elim disjE exE) (simp_all only: start simp_thms)
  moreover have "DISCHARGE_FOR_LOAD \<noteq> EXPORT_FOR_PROFIT" by simp
  ultimately show ?thesis
    unfolding is_aggressive_discharge_slot_def Let_def i by (simp only: simp_thms if_False if_True) blast
qed

lemma winter_discharge_phrase:
  assumes p: "plan_rule_based prices now cfg b = Inr p" and s: "s \<in> set (pl_slots p)" "sl_intent s = DISCHARGE_FOR_LOAD"
  shows "is_aggressive_discharge_slot s"
proof -
  obtain w where w: "plan_winter prices now cfg b = Inr w"
    and pw: "p = winter_budgets cfg b (if wc_negative_soak cfg then soak_negative w prices cfg (bi_max_charge_w b) else w)"
    using p by (auto simp: plan_rule_based_def bind_res_Inr_iff)
  have "s \<in> set (pl_slots w)"
    using winter_budgets_kept [OF s(1) [unfolded pw]] s(2) soak_kept [of s w prices cfg "bi_max_charge_w b"]
    by (auto split: if_splits)
  moreover have "is_aggressive_discharge_slot s" if "s \<in> set (pl_slots (winter_trade cfg now b h sz))" for h sz
  proof -
    from winter_trade_kept [OF that] s(2) obtain x where
      x: "s = winter_slot cfg b (discharge_set cfg h) sz (winter_breakeven cfg h) x"
      by (auto simp: winter_from_sizing_def winter_plan_def plan0_def)
    have "\<exists>t. sl_reason s = Lit ''self-consumption: EUR'' # t"
      using s(2) unfolding x by (auto simp: winter_slot_def plan_slot0_def Let_def split: if_splits)
    with s(2) show ?thesis by (blast intro: planner_phrase_aggressive)
  qed
  moreover have "s \<notin> set (pl_slots (all_auto h now r))" for h r
    using s(2) by (auto simp: all_auto_def winter_plan_def plan0_def plan_slot0_def)
  moreover have "pl_slots (winter_plan now []) = []" by (simp add: winter_plan_def plan0_def)
  ultimately show ?thesis
    using w by (auto simp: plan_winter_def Let_def bind_res_Inr_iff split: if_splits option.splits)
qed

lemma adaptive_discharge_phrase:
  assumes "s \<in> set (pl_slots (plan_adaptive prices forecast now soc_pct load_by cfg))" "sl_intent s = DISCHARGE_FOR_LOAD"
  shows "is_aggressive_discharge_slot s"
proof -
  have step: "\<exists>t. sl_reason (fst (adaptive_step cfg load_by p50 sz l y)) = Lit ''shave the EUR'' # t"
    if "sl_intent (fst (adaptive_step cfg load_by p50 sz l y)) = DISCHARGE_FOR_LOAD" for p50 sz l y
    using that by (auto simp: adaptive_step_def plan_slot0_def Let_def split: if_splits)
  have "\<exists>t. sl_reason s = Lit ''shave the EUR'' # t"
    using plan_adaptive_slots [OF refl refl assms(1)] assms(2) step by fastforce
  with assms(2) show ?thesis by (blast intro: planner_phrase_aggressive)
qed

lemma summer_no_discharge:
  assumes "s \<in> set (pl_slots (plan_summer prices forecast now soc_pct cfg))"
  shows "sl_intent s \<noteq> DISCHARGE_FOR_LOAD"
proof
  assume x: "sl_intent s = DISCHARGE_FOR_LOAD"
  have n: "\<not> restricts i (sl_intent s)" for i by (simp add: restricts_def x)
  have "sl_intent (summer_slot cfg p50 S d y) \<noteq> DISCHARGE_FOR_LOAD" for p50 S d y
    by (simp add: summer_slot_def plan_slot0_def Let_def)
  then show False
    using assms x
    by (auto simp: plan_summer_def Let_def plan0_def
          dest!: rewritten_kept [OF clamp_grid_charge_rewrites _ n] split: if_splits)
qed

lemma trading_no_discharge:
  assumes m: "maybe_apply_trading z prices now requested pz soc_pct load_by = Inr m"
    and s: "s \<in> set (pl_slots m)" "sl_intent s = DISCHARGE_FOR_LOAD"
  shows "m = z"
proof (rule ccontr)
  assume "m \<noteq> z"
  with trading_cases [OF m] obtain cfg r where r: "build_path_t prices now cfg pz soc_pct = Inr r"
    and c: "(\<exists>x. m = all_auto_plan prices now cfg pz x) \<or> (\<exists>t a b. pt_plan r = Some t \<and> m = winning_plan cfg a b t)"
    by blast
  have "\<not> (\<exists>x. m = all_auto_plan prices now cfg pz x)"
    using s by (auto simp: all_auto_plan_def plan0_def plan_slot0_def)
  with c obtain t a b where t: "pt_plan r = Some t" "m = winning_plan cfg a b t" by blast
  have "DISCHARGE_FOR_LOAD \<in> set (map sl_intent (pl_slots m))" using s by force
  also have "map sl_intent (pl_slots m) = map sl_intent (pl_slots t)"
    using arg_cong [OF winning_plan_slots [of cfg a b t], of "map snd"] by (simp add: t(2) comp_def)
  finally have "DISCHARGE_FOR_LOAD \<in> set (map sl_intent (pl_slots t))" .
  moreover have "DISCHARGE_FOR_LOAD \<notin> sl_intent ` set (pl_slots t)"
    by (rule build_path_t_trade [OF r t(1)])
       (auto simp: trade_plan_def plan0_def trade_slot_def plan_slot0_def Let_def split: if_splits)
  ultimately show False by simp
qed

lemma build_plan_discharge_phrase:
  assumes run: "build_plan rq = Inr q" and s: "s \<in> set (pl_slots q)" "sl_intent s = DISCHARGE_FOR_LOAD"
  shows "is_aggressive_discharge_slot s"
proof -
  obtain p m where p: "seasonal_plan rq = Inr p"
    and m: "maybe_apply_trading (p\<lparr>pl_strategy := Some (rq_strategy rq)\<rparr>) (rq_prices rq) (rq_now rq)
               (rq_trading rq) (rq_price_zone rq) (rq_soc_pct rq) (rq_load_by rq) = Inr m"
    and q: "q = after_trading rq m"
    using run by (rule build_plan_cases)
  have "s \<in> set (pl_slots m)"
    using after_trading_kept [OF s(1) [unfolded q]] s(2) by (auto dest: added_charge_buys)
  with trading_no_discharge [OF m this s(2)] have "s \<in> set (pl_slots p)" by simp
  with p s(2) show ?thesis
    by (auto simp: seasonal_plan_def winter_discharge_phrase adaptive_discharge_phrase summer_no_discharge
          split: if_splits option.splits)
qed

definition stale_env :: "port_request \<Rightarrow> stale_inputs" where
  "stale_env po =
     (let rq = po_plan po; reserve = base_reserve_soc_pct rq
      in \<lparr>st_floor = stale_discharge_floor_soc reserve (po_stale_buffer_pp po), st_model = stale_model rq reserve,
          st_solar_by = p50_map (rq_forecast rq), st_load_by = opt_else (rq_load_by rq) Map.empty\<rparr>)"

lemma stale_cautioned_eq:
  assumes m: "model_ok (st_model (stale_env po))" and stale: "po_ev_stale po \<or> po_grid_stale po"
  shows "\<exists>q. stale_cautioned po p = Inr q \<and> q = p\<lparr>pl_slots := pl_slots q\<rparr> \<and>
           list_all2 (\<lambda>s (t, j). cautious (stale_env po) s t j) (pl_slots p)
             (zip (pl_slots q) (replay (stale_env po) (rq_soc_pct (po_plan po)) (pl_slots q)))"
proof -
  let ?r = "base_reserve_soc_pct (po_plan po)"
  have "model_ok (stale_model (po_plan po) ?r)" using m by (simp add: stale_env_def Let_def)
  from stale_caution_keeps_buffer [OF this refl] stale show ?thesis
    by (simp add: stale_cautioned_def stale_meter_projection_model_def stale_env_def Let_def)
qed

text \<open>
  C32. With a stale meter no plan from the port spends the buffer. The adapter raises nothing that
  \<open>build_plan\<close> does not raise; when the EV or the grid meter is stale, every slot of the plan it returns
  keeps the time and the target of the composed plan's slot and its intent, or is a hold; and in the
  replay of the returned plan from the current state of charge, every slot that discharges the battery
  ends at or above the reserve plus the buffer.
\<close>

theorem stale_port_keeps_buffer:
  assumes m: "model_ok (st_model (stale_env po))" and stale: "po_ev_stale po \<or> po_grid_stale po"
    and p: "build_plan (po_plan po) = Inr p"
  shows "\<exists>q. rule_based_plan sha cfg_hash po = Inr q \<and>
           list_all2 (\<lambda>s t. sl_start t = sl_start s \<and> sl_target_soc t = sl_target_soc s \<and>
              (sl_intent t = sl_intent s \<or> sl_intent t = HOLD_RESERVE \<and> sl_intent s \<noteq> GRID_CHARGE_TO_TARGET))
             (pl_slots p) (pl_slots q) \<and>
           list_all (\<lambda>j. pj_battery_w j \<le> 0 \<or> st_floor (stale_env po) \<le> pj_soc_pct j)
             (replay (stale_env po) (rq_soc_pct (po_plan po)) (pl_slots q))"
proof -
  obtain c where c: "stale_cautioned po p = Inr c" and k: "list_all2 (\<lambda>s (t, j). cautious (stale_env po) s t j) (pl_slots p)
      (zip (pl_slots c) (replay (stale_env po) (rq_soc_pct (po_plan po)) (pl_slots c)))"
    using stale_cautioned_eq [OF m stale, of p] by blast
  have q: "rule_based_plan sha cfg_hash po = Inr (stamped sha cfg_hash po c)"
    "pl_slots (stamped sha cfg_hash po c) = pl_slots c"
    by (simp_all add: rule_based_plan_def p c stamped_def Let_def)
  have len: "length (pl_slots c) = length (pl_slots p)" using list_all2_lengthD [OF k] by simp
  have each: "cautious (stale_env po) (pl_slots p ! i) (pl_slots c ! i)
      (replay (stale_env po) (rq_soc_pct (po_plan po)) (pl_slots c) ! i)" if "i < length (pl_slots p)" for i
    using list_all2_nthD [OF k that] that len by simp
  have phrase: "\<not> (sl_intent s = DISCHARGE_FOR_LOAD \<and> \<not> is_aggressive_discharge_slot s)"
    if "s \<in> set (pl_slots p)" for s using build_plan_discharge_phrase [OF p that] by blast
  show ?thesis
    unfolding q(1)
    using each len phrase nth_mem
    by (intro exI [of _ "stamped sha cfg_hash po c"])
       (fastforce simp: q(2) list_all2_conv_all_nth list_all_length cautious_def)
qed

definition demo_port :: port_request where
  "demo_port =
     \<lparr>po_plan = demo_request, po_mode = Inl RULE_BASED, po_price_provenance = None, po_forecast_provider = None,
      po_forecast_issued_at = None, po_baseline = None, po_capability_ref = None, po_ev_stale = True,
      po_grid_stale = False, po_stale_buffer_pp = 5\<rparr>"

theorem stale_port_keeps_buffer_witness:
  "\<exists>q. rule_based_plan (\<lambda>_. ''0'') (\<lambda>_ _. ''1'') demo_port = Inr q \<and> length (pl_slots q) = 2 \<and>
       list_all (\<lambda>j. pj_battery_w j \<le> 0 \<or> 15 \<le> pj_soc_pct j) (replay (stale_env demo_port) 10 (pl_slots q))"
proof -
  obtain p s1 s2 where p: "build_plan demo_request = Inr p" "pl_slots p = [s1, s2]" by (rule demo_built)
  have e: "model_ok (st_model (stale_env demo_port))" "st_floor (stale_env demo_port) = 15"
    "po_ev_stale demo_port \<or> po_grid_stale demo_port" "po_plan demo_port = demo_request" "rq_soc_pct demo_request = 10"
    by (simp_all add: stale_env_def demo_port_def demo_request_def base_reserve_soc_pct_def stale_model_def
          demo_summer_def model_ok_def stale_discharge_floor_soc_def Let_def)
  from stale_port_keeps_buffer [OF e(1,3), unfolded e(4), OF p(1), of "\<lambda>_. ''0''" "\<lambda>_ _. ''1''"]
  show ?thesis by (auto simp: e p(2) dest: list_all2_lengthD)
qed

end
