(* ===== verification/Recovery.thy ===== *)
theory Recovery
  imports Economics Projection PlanSafety ControlGuards LatePack "HOL-Library.Product_Lexorder"
begin

section \<open>Missed charge windows (\<open>ems/planner/recovery.py\<close>, \<open>ems/planner/charge_need.py\<close>)\<close>

text \<open>
  The verdict on a committed charge, the catch-up plan for a missed window, the honest partial target,
  and the charge need shown to the resident. The zone of the daily cap is an input (the code defaults
  it to Europe/Amsterdam); an infinite buy ceiling is \<open>None\<close>.
\<close>

subsection \<open>The verdict\<close>

definition ON_PACE :: string where "ON_PACE = ''on_pace''"
definition BEHIND :: string where "BEHIND = ''behind''"
definition MISSED :: string where "MISSED = ''missed''"
definition COMPLETE :: string where "COMPLETE = ''complete''"
definition NOT_APPLICABLE :: string where "NOT_APPLICABLE = ''not_applicable''"

record completion_status =
  cs_status :: string
  cs_gap_pp :: real
  cs_reason :: message

definition needs_recovery :: "completion_status \<Rightarrow> bool" where
  "needs_recovery st = (cs_status st = MISSED)"

definition window_label :: "plan \<Rightarrow> message" where
  "window_label p =
     (let charge = charge_slots (pl_slots p)
      in if charge = [] then [Lit ''the cheap window'']
         else [Clock (Min (set (map sl_start charge))), Lit ''-'', Clock (Max (set (map slot_end charge)))])"

definition pace_tolerance :: "plan \<Rightarrow> instant \<Rightarrow> real \<Rightarrow> instant \<Rightarrow> real \<Rightarrow> real" where
  "pace_tolerance p now target deadline margin =
     (let window_start = Min (set (map sl_start (charge_slots (pl_slots p))));
          span = total_seconds (deadline - window_start);
          frac = (if span \<le> 0 then 0 else max 0 (min 1 (total_seconds (now - window_start) / span)))
      in margin + (1 - frac) * (target - margin))"

definition check_charge_completion :: "plan \<Rightarrow> instant \<Rightarrow> real \<Rightarrow> real \<Rightarrow> completion_status" where
  "check_charge_completion p now soc_pct margin =
     (case (pl_target_soc p, pl_deadline p) of
        (Some target, Some deadline) \<Rightarrow>
          (let gap = target - soc_pct;
               verdict = (\<lambda>s g r. \<lparr>cs_status = s, cs_gap_pp = g, cs_reason = r\<rparr>);
               short = [Fixed 0 gap, Lit '' pp short of '', Fixed 0 target, Lit ''%'']
           in if gap \<le> 1/1000000000
              then verdict COMPLETE 0 [Lit ''reached the '', Fixed 0 target, Lit ''% target -- charge complete'']
              else if gap \<le> margin
              then verdict ON_PACE gap [Lit ''within '', Fixed 0 margin, Lit '' pp of the '', Fixed 0 target, Lit ''% target'']
              else if deadline \<le> now
              then verdict MISSED gap ([Lit ''deadline '', Clock deadline, Lit '' passed still ''] @ short)
              else if filter (\<lambda>s. now < slot_end s \<and> sl_start s < deadline) (charge_slots (pl_slots p)) = []
              then verdict MISSED gap (short @ [Lit '' with nothing scheduled to charge before '', Clock deadline])
              else if pace_tolerance p now target deadline margin < gap
              then verdict MISSED gap (short @ [Lit '' and off pace for '', Clock deadline])
              else verdict BEHIND gap (short @ [Lit '', still on the ramp to '', Clock deadline]))
      | _ \<Rightarrow> \<lparr>cs_status = NOT_APPLICABLE, cs_gap_pp = 0,
               cs_reason = [Lit ''no committed charge target to track'']\<rparr>)"

subsection \<open>The catch-up plan\<close>

record catch_up_inputs =
  cu_soc_pct :: real
  cu_prices :: "price_slot list"
  cu_usable_kwh :: real
  cu_reserve_soc_pct :: real
  cu_max_charge_w :: real
  cu_rte :: real
  cu_daily_cap_kwh :: real
  cu_already_bought :: "real option"
  cu_tz :: zone
  cu_degradation :: real
  cu_risk :: real
  cu_max_buy :: real

record catch_up_result =
  cr_plan :: plan
  cr_feasible :: bool
  cr_target_soc :: real
  cr_kwh_short :: real
  cr_slots_used :: nat
  cr_reason :: message
  cr_note :: message

definition discharge_starts :: "plan \<Rightarrow> instant set" where
  "discharge_starts p = set (map sl_start (filter (\<lambda>s. sl_intent s = DISCHARGE_FOR_LOAD) (pl_slots p)))"

definition effective_deadline :: "plan \<Rightarrow> instant \<Rightarrow> instant" where
  "effective_deadline p deadline =
     (if discharge_starts p = {} then deadline else max deadline (Max (discharge_starts p)))"

text \<open>The buy ceiling; \<open>None\<close> is an infinite one.\<close>

definition catch_up_ceiling :: "catch_up_inputs \<Rightarrow> plan \<Rightarrow> real option" where
  "catch_up_ceiling c p =
     (let peaks = map pr_eur (filter (\<lambda>x. pr_start x \<in> discharge_starts p) (cu_prices c))
      in if peaks = [] then (if cu_max_buy c \<le> 0 then None else Some (cu_max_buy c))
         else Some (apply_max_buy_cap
                (max_buy_for_peak (Min (set peaks)) (cu_rte c) (cu_degradation c) (cu_risk c)) (cu_max_buy c)))"

definition catch_up_candidates :: "catch_up_inputs \<Rightarrow> plan \<Rightarrow> instant \<Rightarrow> instant \<Rightarrow> price_slot list" where
  "catch_up_candidates c p now deadline =
     sort_key (\<lambda>x. (pr_eur x, pr_start x))
       (filter (\<lambda>x. now < pr_start x + SLOT \<and> pr_start x < deadline \<and> pr_start x \<notin> discharge_starts p \<and>
                    pr_start x \<in> set (map sl_start (pl_slots p)) \<and>
                    (case catch_up_ceiling c p of None \<Rightarrow> True | Some m \<Rightarrow> pr_eur x \<le> m)) (cu_prices c))"

definition remaining_dc :: "catch_up_inputs \<Rightarrow> real \<Rightarrow> real" where
  "remaining_dc c target = max 0 ((target - cu_soc_pct c) / 100 * cu_usable_kwh c)"

definition cu_slot_kwh :: "catch_up_inputs \<Rightarrow> real" where
  "cu_slot_kwh c = stored_kwh_per_slot (cu_max_charge_w c) (cu_rte c)"

definition slots_needed :: "catch_up_inputs \<Rightarrow> real \<Rightarrow> nat" where
  "slots_needed c target =
     (if 0 < cu_slot_kwh c \<and> 1/1000000000 < remaining_dc c target
      then nat \<lceil>remaining_dc c target / cu_slot_kwh c\<rceil> else 0)"

definition partial_target :: "catch_up_inputs \<Rightarrow> real \<Rightarrow> nat \<Rightarrow> real" where
  "partial_target c target n =
     (let reserve = max 0 (cu_reserve_soc_pct c)
      in if 0 < cu_usable_kwh c
         then min target (max reserve (cu_soc_pct c + real n * cu_slot_kwh c / cu_usable_kwh c * 100))
         else reserve)"

definition catch_up_slot ::
  "catch_up_inputs \<Rightarrow> instant set \<Rightarrow> real \<Rightarrow> instant \<Rightarrow> plan_slot \<Rightarrow> plan_slot" where
  "catch_up_slot c chosen target deadline s =
     (if sl_start s \<in> chosen
      then (plan_slot0 (sl_start s) GRID_CHARGE_TO_TARGET
              [Lit ''catch-up charge: cheapest remaining slot before '', Clock deadline])
           \<lparr>sl_target_soc := Some target, sl_target_kwh := Some (py_round (cu_slot_kwh c) 3),
            sl_power_w := Some (cu_max_charge_w c), sl_floor_soc := Some (max 0 (cu_reserve_soc_pct c)),
            sl_deadline := Some deadline, sl_end := sl_end s\<rparr>
      else if sl_intent s = GRID_CHARGE_TO_TARGET
      then (plan_slot0 (sl_start s) ALLOW_SELF_CONSUMPTION [Lit ''self-consumption: superseded by catch-up window''])
           \<lparr>sl_floor_soc := sl_floor_soc s, sl_end := sl_end s\<rparr>
      else s)"

definition catch_up_plan_of ::
  "catch_up_inputs \<Rightarrow> plan \<Rightarrow> instant \<Rightarrow> instant set \<Rightarrow> real \<Rightarrow> instant \<Rightarrow> plan" where
  "catch_up_plan_of c p now chosen target deadline =
     clamp_grid_charge
       (p\<lparr>pl_created_at := now, pl_slots := map (catch_up_slot c chosen target deadline) (pl_slots p),
          pl_target_soc := Some target, pl_deadline := Some deadline, pl_version := pl_version p + 1\<rparr>)
       (cu_already_bought c) (cu_daily_cap_kwh c) (ac_grid_kwh_per_slot (cu_max_charge_w c)) (cu_tz c)"

text \<open>The audit line and the sentence for the resident.\<close>

definition catch_up_texts ::
  "message \<Rightarrow> real \<Rightarrow> real \<Rightarrow> instant \<Rightarrow> nat \<Rightarrow> nat \<Rightarrow> real \<Rightarrow> real \<Rightarrow> message \<times> message" where
  "catch_up_texts label remaining target deadline used needed recovered short =
     (let missed = label @ [Lit '' ('', Fixed 1 (py_round remaining 1), Lit '' kWh short)'']
      in if needed \<le> used
         then ([Lit ''catch-up: missed ''] @ missed @ [Lit '', using '', Count (int needed),
                Lit '' remaining cheap slot(s) to reach '', Fixed 0 target, Lit ''% by '', Clock deadline],
               [Lit ''EMS missed the ''] @ label @ [Lit '' charge window, so it will top up in the cheapest '',
                Count (int needed), Lit '' slot(s) before '', Clock deadline,
                Lit ''. Your battery is safe; nothing to do.''])
         else if used = 0
         then ([Lit ''catch-up: missed ''] @ missed @
               [Lit '' but no remaining slot under the max buy price before '', Clock deadline],
               [Lit ''EMS missed the charge window and there is no buy slot left under your max price. '',
                Lit ''Your battery is safe; nothing to do.''])
         else ([Lit ''catch-up (partial): missed ''] @ missed @ [Lit '' but only '', Count (int used),
                Lit '' cheap slot(s) before '', Clock deadline, Lit '' -- targeting '', Fixed 0 recovered,
                Lit ''% (not '', Fixed 0 target, Lit ''%), '', Fixed 1 short, Lit '' kWh short''],
               [Lit ''EMS missed the ''] @ label @ [Lit '' charge window and can only partly catch up before '',
                Clock deadline, Lit '' (about '', Fixed 1 short, Lit '' kWh short of the '', Fixed 0 target,
                Lit ''% target). Your battery is safe; it will charge as much as it economically can.'']))"

definition build_catch_up_plan :: "plan \<Rightarrow> instant \<Rightarrow> catch_up_inputs \<Rightarrow> py_error + catch_up_result" where
  "build_catch_up_plan p now c =
     (case (pl_target_soc p, pl_deadline p) of
        (Some target, Some plan_deadline) \<Rightarrow>
          (let deadline = effective_deadline p plan_deadline;
               candidates = catch_up_candidates c p now deadline;
               needed = slots_needed c target;
               feasible = (needed \<le> length candidates);
               chosen = (if feasible then take needed candidates else candidates);
               recovered = (if feasible then target else partial_target c target (length chosen));
               short = (if feasible then 0
                        else py_round (max 0 (remaining_dc c target - real (length chosen) * cu_slot_kwh c)) 1);
               (reason, note) = catch_up_texts (window_label p) (remaining_dc c target) target deadline
                                  (if feasible then needed else length chosen) needed recovered short
           in Inr \<lparr>cr_plan = catch_up_plan_of c p now (set (map pr_start chosen)) recovered deadline,
                   cr_feasible = feasible, cr_target_soc = recovered, cr_kwh_short = short,
                   cr_slots_used = length chosen, cr_reason = reason, cr_note = note\<rparr>)
      | _ \<Rightarrow> Inl AssertionError)"

definition recover_if_needed ::
  "plan \<Rightarrow> instant \<Rightarrow> catch_up_inputs \<Rightarrow> bool \<Rightarrow> real
     \<Rightarrow> py_error + (plan \<times> completion_status \<times> catch_up_result option)" where
  "recover_if_needed p now c enabled margin =
     (let status = check_charge_completion p now (cu_soc_pct c) margin;
          idle = Inr (p, status, None)
      in case map_option (effective_deadline p) (pl_deadline p) of
           None \<Rightarrow> idle
         | Some deadline \<Rightarrow>
             if \<not> enabled \<or> \<not> needs_recovery status \<or> pl_strategy p \<noteq> Some ''winter'' \<or> deadline \<le> now then idle
             else bind_res (build_catch_up_plan p now c) (\<lambda>r. Inr (cr_plan r, status, Some r)))"

subsection \<open>The honest partial\<close>

text \<open>
  The commitments are a Python set of pairs; here they are visited in the order of the slots
  (\<open>lowered_any_order\<close> below: the order does not matter).
\<close>

definition charge_commitments :: "plan \<Rightarrow> instant \<Rightarrow> real \<Rightarrow> (instant \<times> real) list" where
  "charge_commitments p deadline target =
     remdups (map (\<lambda>s. (opt_else (sl_deadline s) deadline, opt_else (sl_target_soc s) target))
                (charge_slots (pl_slots p)))"

definition projected_reach :: "projected_slot list \<Rightarrow> instant \<Rightarrow> real option" where
  "projected_reach ps deadline =
     (let reached = filter (\<lambda>p. pj_start p + SLOT \<le> deadline) ps
      in if reached = [] then None else Some (pj_soc_pct (last reached)))"

definition lower_one ::
  "projected_slot list \<Rightarrow> real \<Rightarrow> real \<Rightarrow> instant \<times> real \<Rightarrow> (instant \<rightharpoonup> real) \<Rightarrow> (instant \<rightharpoonup> real)" where
  "lower_one ps lowest margin dt m =
     (case projected_reach ps (fst dt) of
        None \<Rightarrow> m
      | Some reached \<Rightarrow> if snd dt - margin \<le> reached then m
                        else m(fst dt \<mapsto> max lowest (min (snd dt) reached)))"

definition lowered_targets ::
  "projected_slot list \<Rightarrow> real \<Rightarrow> real \<Rightarrow> (instant \<times> real) list \<Rightarrow> (instant \<rightharpoonup> real)" where
  "lowered_targets ps lowest margin cs = fold (lower_one ps lowest margin) cs Map.empty"

definition partial_slot :: "(instant \<rightharpoonup> real) \<Rightarrow> instant \<Rightarrow> real \<Rightarrow> plan_slot \<Rightarrow> plan_slot" where
  "partial_slot lowered deadline target s =
     (if sl_intent s \<noteq> GRID_CHARGE_TO_TARGET then s
      else case lowered (opt_else (sl_deadline s) deadline) of
             None \<Rightarrow> s
           | Some new \<Rightarrow>
               s\<lparr>sl_target_soc := Some new,
                 sl_reason := sl_reason s @ [Lit '' -- honest partial: target lowered to '', Fixed 0 new,
                   Lit ''% (projection short of '', Fixed 0 (opt_else (sl_target_soc s) target), Lit ''%)'']\<rparr>)"

definition honest_partial_from_projection ::
  "plan \<Rightarrow> projected_slot list option \<Rightarrow> real \<Rightarrow> real \<Rightarrow> real \<Rightarrow> plan" where
  "honest_partial_from_projection p projection min_reserve_soc min_target_soc margin =
     (case (projection, pl_target_soc p, pl_deadline p) of
        (Some ps, Some target, Some deadline) \<Rightarrow>
          if pl_strategy p \<noteq> Some ''winter'' \<or> charge_slots (pl_slots p) = [] then p
          else
            (let lowest = soc_control_floor min_reserve_soc None (Some min_target_soc);
                 cs = charge_commitments p deadline target;
                 lowered = lowered_targets ps lowest margin cs;
                 values = List.map_filter lowered (map fst cs)
             in if values = [] then p
                else p\<lparr>pl_slots := map (partial_slot lowered deadline target) (pl_slots p),
                       pl_target_soc := Some (case lowered deadline of Some x \<Rightarrow> x | None \<Rightarrow> Min (set values)),
                       pl_version := pl_version p + 1\<rparr>)
      | _ \<Rightarrow> p)"

subsection \<open>What a catch-up may buy\<close>

text \<open>
  How a slot may come out of the recovery: as it was, when it did not charge; as self-consumption, when it
  was not a discharge; or as a catch-up charge, never on a discharge slot, not over, before the last
  peak, and at a price whose break-even is at most the price of every slot the plan discharges in.
\<close>

definition caught_up :: "catch_up_inputs \<Rightarrow> plan \<Rightarrow> instant \<Rightarrow> instant \<Rightarrow> real \<Rightarrow> plan_slot \<Rightarrow> plan_slot \<Rightarrow> bool" where
  "caught_up c p now deadline target s t \<longleftrightarrow>
     sl_start t = sl_start s \<and> sl_end t = sl_end s \<and>
     (t = s \<and> sl_intent s \<noteq> GRID_CHARGE_TO_TARGET \<or>
      sl_intent s \<noteq> DISCHARGE_FOR_LOAD \<and> sl_intent t = ALLOW_SELF_CONSUMPTION \<or>
      sl_intent s \<noteq> DISCHARGE_FOR_LOAD \<and> sl_intent t = GRID_CHARGE_TO_TARGET \<and> sl_target_soc t = Some target \<and>
      sl_deadline t = Some deadline \<and> now < sl_start s + SLOT \<and> sl_start s < deadline \<and>
      (\<exists>x\<in>set (cu_prices c). pr_start x = sl_start s \<and> (0 < cu_max_buy c \<longrightarrow> pr_eur x \<le> cu_max_buy c) \<and>
         (\<forall>y\<in>set (cu_prices c). pr_start y \<in> discharge_starts p \<longrightarrow>
            breakeven (pr_eur x) (cu_rte c) (cu_degradation c) (cu_risk c) \<le> pr_eur y)))"

lemma ceiling_pays:
  assumes "x \<in> set (catch_up_candidates c p now deadline)"
  shows "x \<in> set (cu_prices c) \<and> now < pr_start x + SLOT \<and> pr_start x < deadline \<and> pr_start x \<notin> discharge_starts p \<and>
         (0 < cu_max_buy c \<longrightarrow> pr_eur x \<le> cu_max_buy c) \<and>
         (\<forall>y\<in>set (cu_prices c). pr_start y \<in> discharge_starts p \<longrightarrow>
            breakeven (pr_eur x) (cu_rte c) (cu_degradation c) (cu_risk c) \<le> pr_eur y)"
proof -
  let ?peaks = "map pr_eur (filter (\<lambda>x. pr_start x \<in> discharge_starts p) (cu_prices c))"
  let ?auto = "max_buy_for_peak (Min (set ?peaks)) (cu_rte c) (cu_degradation c) (cu_risk c)"
  have x: "x \<in> set (cu_prices c)" "now < pr_start x + SLOT" "pr_start x < deadline" "pr_start x \<notin> discharge_starts p"
    and m: "case catch_up_ceiling c p of None \<Rightarrow> True | Some m \<Rightarrow> pr_eur x \<le> m"
    using assms by (auto simp: catch_up_candidates_def)
  have cap: "0 < cu_max_buy c \<longrightarrow> pr_eur x \<le> cu_max_buy c"
    using m by (auto simp: catch_up_ceiling_def apply_max_buy_cap_def Let_def split: if_splits)
  have "breakeven (pr_eur x) (cu_rte c) (cu_degradation c) (cu_risk c) \<le> pr_eur y"
    if y: "y \<in> set (cu_prices c)" "pr_start y \<in> discharge_starts p" for y
  proof -
    have ne: "?peaks \<noteq> []" and mem: "pr_eur y \<in> set ?peaks" using y by (auto simp: filter_empty_conv)
    have "pr_eur x \<le> apply_max_buy_cap ?auto (cu_max_buy c)"
      using m ne unfolding catch_up_ceiling_def Let_def by simp
    then have "pr_eur x \<le> ?auto" by (auto simp: apply_max_buy_cap_def split: if_splits)
    then have "breakeven (pr_eur x) (cu_rte c) (cu_degradation c) (cu_risk c) \<le> Min (set ?peaks)"
      by (simp only: breakeven_le_iff)
    also have "\<dots> \<le> pr_eur y" using mem by (intro Min_le) auto
    finally show ?thesis .
  qed
  with x cap show ?thesis by blast
qed

lemma catch_up_slot_caught_up:
  assumes chosen: "chosen \<subseteq> pr_start ` set (catch_up_candidates c p now deadline)" and s: "s \<in> set (pl_slots p)"
  shows "caught_up c p now deadline target s (catch_up_slot c chosen target deadline s)"
proof (cases "sl_start s \<in> chosen")
  case True
  then obtain x where x: "x \<in> set (catch_up_candidates c p now deadline)" "pr_start x = sl_start s" using chosen by auto
  note k = ceiling_pays [OF x(1)]
  have "sl_intent s \<noteq> DISCHARGE_FOR_LOAD" using k s by (auto simp: discharge_starts_def x(2))
  with k x(2) True show ?thesis
    by (auto simp: caught_up_def catch_up_slot_def plan_slot0_def)
next
  case False
  then show ?thesis by (simp add: caught_up_def catch_up_slot_def plan_slot0_def)
qed

lemma caught_up_rewritten:
  assumes "caught_up c p now deadline target s t" and "slot_rewritten restricts t u"
  shows "caught_up c p now deadline target s u"
proof (cases "u = t")
  case False
  then have u: "sl_start u = sl_start t" "sl_end u = sl_end t" "sl_intent u = ALLOW_SELF_CONSUMPTION"
    "sl_intent t \<in> {GRID_CHARGE_TO_TARGET, EXPORT_FOR_PROFIT}"
    using assms(2) by (auto simp: slot_rewritten_def restricts_def)
  with assms(1) show ?thesis by (auto simp: caught_up_def)
qed (use assms(1) in simp)

lemma catch_up_plan_caught_up:
  assumes "chosen \<subseteq> pr_start ` set (catch_up_candidates c p now deadline)"
  shows "list_all2 (caught_up c p now deadline target) (pl_slots p)
           (pl_slots (catch_up_plan_of c p now chosen target deadline))"
proof -
  let ?m = "map (catch_up_slot c chosen target deadline) (pl_slots p)"
  have "list_all2 (caught_up c p now deadline target) (pl_slots p) ?m"
    using catch_up_slot_caught_up [OF assms] by (simp add: list_all2_map2 list.rel_refl_strong)
  moreover have "list_all2 (slot_rewritten restricts) ?m (pl_slots (catch_up_plan_of c p now chosen target deadline))"
    using clamp_grid_charge_rewrites [of "p\<lparr>pl_created_at := now, pl_slots := ?m, pl_target_soc := Some target,
        pl_deadline := Some deadline, pl_version := pl_version p + 1\<rparr>"]
    by (simp add: catch_up_plan_of_def)
  ultimately show ?thesis
    by (rule list_all2_trans [rotated]) (rule caught_up_rewritten)
qed

lemma partial_target_le: "0 < cu_usable_kwh c \<Longrightarrow> partial_target c target n \<le> target"
  by (simp add: partial_target_def)

lemma slots_needed_enough:
  assumes "0 < cu_slot_kwh c"
  shows "remaining_dc c target \<le> real (slots_needed c target) * cu_slot_kwh c + 1/1000000000"
proof (cases "1/1000000000 < remaining_dc c target")
  case True
  then have "0 \<le> remaining_dc c target / cu_slot_kwh c" using assms by simp
  then have "remaining_dc c target / cu_slot_kwh c \<le> real (slots_needed c target)"
    using True assms by (simp add: slots_needed_def)
  then show ?thesis using assms by (simp add: field_simps)
next
  case False
  then show ?thesis using assms by (simp add: slots_needed_def)
qed

lemma build_catch_up_sound:
  assumes "pl_target_soc p = Some target" and "pl_deadline p = Some plan_deadline"
    and deadline: "deadline = effective_deadline p plan_deadline"
  obtains chosen r where "build_catch_up_plan p now c = Inr r"
    "cr_plan r = catch_up_plan_of c p now chosen (cr_target_soc r) deadline"
    "chosen \<subseteq> pr_start ` set (catch_up_candidates c p now deadline)"
    "0 < cu_usable_kwh c \<Longrightarrow> cr_target_soc r \<le> target"
    "cr_feasible r \<Longrightarrow> cr_slots_used r = slots_needed c target"
    "distinct (map pr_start (cu_prices c)) \<Longrightarrow> card chosen = cr_slots_used r"
proof -
  let ?cs = "catch_up_candidates c p now deadline" and ?n = "slots_needed c target"
  let ?chosen = "if ?n \<le> length ?cs then take ?n ?cs else ?cs"
  obtain r where r: "build_catch_up_plan p now c = Inr r"
    "cr_plan r = catch_up_plan_of c p now (set (map pr_start ?chosen)) (cr_target_soc r) deadline"
    "cr_target_soc r = (if ?n \<le> length ?cs then target else partial_target c target (length ?chosen))"
    "cr_feasible r = (?n \<le> length ?cs)" "cr_slots_used r = length ?chosen"
    by (simp add: build_catch_up_plan_def assms Let_def split_beta)
  have card: "card (set (map pr_start ?chosen)) = length ?chosen" if "distinct (map pr_start (cu_prices c))"
  proof -
    have "distinct (map pr_start ?cs)"
      using that by (auto simp: catch_up_candidates_def distinct_map intro: inj_on_subset)
    then have "distinct (map pr_start ?chosen)" by (simp add: take_map [symmetric])
    from distinct_card [OF this] show ?thesis by simp
  qed
  show ?thesis
  proof (rule that [OF r(1,2)])
    show "set (map pr_start ?chosen) \<subseteq> pr_start ` set ?cs" by (auto dest: in_set_takeD)
    show "cr_target_soc r \<le> target" if "0 < cu_usable_kwh c"
      using partial_target_le [OF that] by (simp add: r(3))
    show "cr_slots_used r = ?n" if "cr_feasible r" using that by (simp add: r(4,5))
    show "card (set (map pr_start ?chosen)) = cr_slots_used r" if "distinct (map pr_start (cu_prices c))"
      using card [OF that] by (simp only: r(5))
  qed
qed

text \<open>Before the daily cap, the plan charges in the chosen slots and nowhere else.\<close>

lemma uncapped_charges:
  assumes "cu_daily_cap_kwh c \<le> 0" and "chosen \<subseteq> pr_start ` set (catch_up_candidates c p now deadline)"
  shows "{sl_start s |s. s \<in> set (pl_slots (catch_up_plan_of c p now chosen target deadline)) \<and>
            sl_intent s = GRID_CHARGE_TO_TARGET} = chosen"
proof -
  have slots: "pl_slots (catch_up_plan_of c p now chosen target deadline) = map (catch_up_slot c chosen target deadline) (pl_slots p)"
    using assms(1) by (simp add: catch_up_plan_of_def clamp_grid_charge_def)
  have cand: "pr_start ` set (catch_up_candidates c p now deadline) \<subseteq> sl_start ` set (pl_slots p)"
    by (auto simp: catch_up_candidates_def)
  have st: "sl_start (catch_up_slot c chosen target deadline s) = sl_start s"
    "sl_intent (catch_up_slot c chosen target deadline s) = GRID_CHARGE_TO_TARGET \<longleftrightarrow> sl_start s \<in> chosen" for s
    by (simp_all add: catch_up_slot_def plan_slot0_def)
  have "{sl_start s |s. s \<in> set (pl_slots (catch_up_plan_of c p now chosen target deadline)) \<and>
            sl_intent s = GRID_CHARGE_TO_TARGET} =
        {sl_start (catch_up_slot c chosen target deadline s) |s. s \<in> set (pl_slots p) \<and>
            sl_intent (catch_up_slot c chosen target deadline s) = GRID_CHARGE_TO_TARGET}"
    unfolding slots by auto
  also have "\<dots> = sl_start ` set (pl_slots p) \<inter> chosen" by (auto simp: st)
  finally have "{sl_start s |s. s \<in> set (pl_slots (catch_up_plan_of c p now chosen target deadline)) \<and>
            sl_intent s = GRID_CHARGE_TO_TARGET} = sl_start ` set (pl_slots p) \<inter> chosen" .
  with order_trans [OF assms(2) cand] show ?thesis by blast
qed

lemma catch_up_daily_cap:
  assumes v: "vi_daily_cap_kwh v = Some (cu_daily_cap_kwh c)" "vi_already_bought v = cu_already_bought c"
      "vi_per_slot_kwh v = ac_grid_kwh_per_slot (cu_max_charge_w c)" "vi_tz v = cu_tz c"
  shows "check_daily_cap v (catch_up_plan_of c p now chosen target deadline)
           (take n (pl_slots (catch_up_plan_of c p now chosen target deadline))) = []"
proof (cases "0 < cu_daily_cap_kwh c")
  case True
  show ?thesis
    unfolding catch_up_plan_of_def v(2-4) [symmetric]
    by (rule clamped_passes_cap_check [OF v(1) True refl])
      (simp_all only: list_all2_rewritten_refl clamp_grid_charge_frame)
qed (simp add: check_daily_cap_def v(1))

text \<open>The recovery leaves the plan alone or returns a catch-up plan.\<close>

lemma recover_cases:
  assumes "recover_if_needed p now c enabled margin = Inr (q, st, caught)"
  obtains (same) "q = p" | (caught_up) chosen target deadline where "q = catch_up_plan_of c p now chosen target deadline"
proof (cases "q = p")
  case False
  with assms obtain d where d: "pl_deadline p = Some d" and "needs_recovery (check_charge_completion p now (cu_soc_pct c) margin)"
    and run: "bind_res (build_catch_up_plan p now c) (\<lambda>r. Inr (cr_plan r, check_charge_completion p now (cu_soc_pct c) margin, Some r))
          = Inr (q, st, caught)"
    by (auto simp: recover_if_needed_def Let_def split: option.splits if_splits)
  then obtain target where t: "pl_target_soc p = Some target"
    by (auto simp: needs_recovery_def check_charge_completion_def MISSED_def NOT_APPLICABLE_def split: option.splits)
  from build_catch_up_sound [OF t d refl, of now c] obtain chosen r where "build_catch_up_plan p now c = Inr r"
    "cr_plan r = catch_up_plan_of c p now chosen (cr_target_soc r) (effective_deadline p d)" by blast
  with run have "q = catch_up_plan_of c p now chosen (cr_target_soc r) (effective_deadline p d)" by simp
  then show ?thesis by (rule caught_up)
qed (rule same)

text \<open>
  C30. The recovery of a missed charge window never raises, leaves the plan alone unless a committed winter
  charge was missed with its deadline still ahead, and then buys only what pays: the discharge slots are
  untouched, every charge of the recovered plan lies before the last peak in a slot that is not over, at a
  price within the resident's ceiling whose break-even is at most the price of every slot the plan
  discharges in; the target is never raised; and the validator finds no day over the purchase cap.
  The recovery calls itself feasible before it applies that cap: the slots it picked would hold the
  energy that is short. Without a cap they are also the slots the plan charges in (each start priced once);
  with one, the cap may take any of them back (\<open>feasible_ignores_the_cap\<close> below).
\<close>

theorem recovery_buys_what_pays:
  assumes run: "res = recover_if_needed p now c enabled margin"
    and v: "vi_daily_cap_kwh v = Some (cu_daily_cap_kwh c)" "vi_already_bought v = cu_already_bought c"
      "vi_per_slot_kwh v = ac_grid_kwh_per_slot (cu_max_charge_w c)" "vi_tz v = cu_tz c"
    and pos: "0 < cu_usable_kwh c" "0 < cu_slot_kwh c"
  shows "case res of
           Inl e \<Rightarrow> False
         | Inr (q, st, None) \<Rightarrow> q = p
         | Inr (q, st, Some r) \<Rightarrow>
             q = cr_plan r \<and> enabled \<and> cs_status st = MISSED \<and> pl_strategy p = Some ''winter'' \<and>
             (\<exists>target deadline. pl_target_soc p = Some target \<and> pl_deadline p = Some deadline \<and>
                now < effective_deadline p deadline \<and> cr_target_soc r \<le> target \<and>
                list_all2 (caught_up c p now (effective_deadline p deadline) (cr_target_soc r)) (pl_slots p) (pl_slots q) \<and>
                (cr_feasible r \<longrightarrow>
                   remaining_dc c target \<le> real (cr_slots_used r) * cu_slot_kwh c + 1/1000000000) \<and>
                (cu_daily_cap_kwh c \<le> 0 \<and> distinct (map pr_start (cu_prices c)) \<longrightarrow>
                   card {sl_start s |s. s \<in> set (pl_slots q) \<and> sl_intent s = GRID_CHARGE_TO_TARGET} = cr_slots_used r)) \<and>
             check_daily_cap v q (take n (pl_slots q)) = []"
proof -
  let ?st = "check_charge_completion p now (cu_soc_pct c) margin"
  show ?thesis
  proof (cases "\<exists>d. pl_deadline p = Some d \<and> now < effective_deadline p d \<and> enabled \<and> needs_recovery ?st \<and>
        pl_strategy p = Some ''winter''")
    case False
    then have "res = Inr (p, ?st, None)"
      by (cases "pl_deadline p") (auto simp: run recover_if_needed_def Let_def)
    then show ?thesis by simp
  next
    case True
    then obtain d where d: "pl_deadline p = Some d" "now < effective_deadline p d" "enabled" "needs_recovery ?st"
      "pl_strategy p = Some ''winter''" by blast
    obtain target where t: "pl_target_soc p = Some target"
      using d(4) by (auto simp: needs_recovery_def check_charge_completion_def MISSED_def NOT_APPLICABLE_def
          split: option.splits)
    obtain chosen r where r: "build_catch_up_plan p now c = Inr r"
      "cr_plan r = catch_up_plan_of c p now chosen (cr_target_soc r) (effective_deadline p d)"
      "chosen \<subseteq> pr_start ` set (catch_up_candidates c p now (effective_deadline p d))"
      "0 < cu_usable_kwh c \<Longrightarrow> cr_target_soc r \<le> target"
      "cr_feasible r \<Longrightarrow> cr_slots_used r = slots_needed c target"
      "distinct (map pr_start (cu_prices c)) \<Longrightarrow> card chosen = cr_slots_used r"
      using build_catch_up_sound [OF t d(1) refl, of now c] by blast
    have res: "res = Inr (cr_plan r, ?st, Some r)"
      using d r(1) by (simp add: run recover_if_needed_def)
    have cap: "check_daily_cap v (cr_plan r) (take n (pl_slots (cr_plan r))) = []"
      unfolding r(2) by (rule catch_up_daily_cap [OF v])
    have count: "card {sl_start s |s. s \<in> set (pl_slots (cr_plan r)) \<and> sl_intent s = GRID_CHARGE_TO_TARGET} = cr_slots_used r"
      if "cu_daily_cap_kwh c \<le> 0" "distinct (map pr_start (cu_prices c))"
      unfolding r(2) uncapped_charges [OF that(1) r(3)] by (rule r(6) [OF that(2)])
    have slots: "list_all2 (caught_up c p now (effective_deadline p d) (cr_target_soc r)) (pl_slots p) (pl_slots (cr_plan r))"
      using catch_up_plan_caught_up [OF r(3), of "cr_target_soc r"] by (simp add: r(2) [symmetric])
    show ?thesis
      unfolding res prod.case sum.case option.case
      using d t r(4) [OF pos(1)] r(5) cap slots count slots_needed_enough [OF pos(2), of target]
      by (intro conjI exI [of _ target] exI [of _ d]) (auto simp: needs_recovery_def)
  qed
qed

subsection \<open>The honest partial is reachable\<close>

lemma lower_one_same:
  "0 \<le> margin \<Longrightarrow> lower_one ps lowest margin dt m = m \<or>
     (\<exists>r. projected_reach ps (fst dt) = Some r \<and> r < snd dt - margin \<and>
        lower_one ps lowest margin dt m = m(fst dt \<mapsto> max lowest r))"
  by (auto simp: lower_one_def min_def split: option.split)

text \<open>Each lowered target is the projected one, or the floor: the order of the commitments is irrelevant.\<close>

lemma lowered_any_order:
  assumes "0 \<le> margin"
  shows "lowered_targets ps lowest margin cs d =
    (case projected_reach ps d of
       None \<Rightarrow> None
     | Some r \<Rightarrow> if \<exists>t. (d, t) \<in> set cs \<and> r < t - margin then Some (max lowest r) else None)"
proof -
  have "fold (lower_one ps lowest margin) cs m d =
      (case projected_reach ps d of None \<Rightarrow> m d
       | Some r \<Rightarrow> if \<exists>t. (d, t) \<in> set cs \<and> r < t - margin then Some (max lowest r) else m d)" for m
  proof (induction cs arbitrary: m)
    case (Cons x cs)
    show ?case
      unfolding fold_simps Cons.IH
      using assms by (cases x) (auto simp: lower_one_def min_def not_less split: option.split)
  qed (simp split: option.split)
  then show ?thesis by (simp add: lowered_targets_def)
qed

text \<open>
  C31. The honest partial changes nothing of a slot but the target and the text of charge slots, and nothing
  of the plan but its slots, its target and its version. Afterwards no charge slot with a target of its own
  promises more than the projection of the plan reaches by its deadline plus the margin, unless that is
  below the lowest target the device and the reserve allow; and its target is at most the largest of what
  it was, that floor and the projected level. A charge slot that is left without a target of its own was
  within the margin by the target the plan had before. The new target of the plan is the old one or, for
  the deadline of one of its charge slots, the projected level (at least that floor). Neither target is
  sure to go down, and a slot without one inherits the new target of the plan, which can be above its own
  reach: \<open>honest_partial_raises\<close> and \<open>honest_partial_raises_the_plan\<close> below.
\<close>

theorem honest_partial_is_reachable:
  assumes q: "q = honest_partial_from_projection p (Some ps) min_reserve min_target margin"
    and p: "pl_strategy p = Some ''winter''" "pl_target_soc p = Some target" "pl_deadline p = Some deadline"
    and lowest: "lowest = soc_control_floor min_reserve None (Some min_target)" and m: "0 \<le> margin"
    and i: "i < length (pl_slots p)"
  shows "(\<exists>ss g n. q = p\<lparr>pl_slots := ss, pl_target_soc := g, pl_version := n\<rparr>) \<and>
         length (pl_slots q) = length (pl_slots p) \<and>
         (\<exists>x m. pl_slots q ! i = (pl_slots p ! i)\<lparr>sl_target_soc := x, sl_reason := m\<rparr>) \<and>
         (sl_intent (pl_slots p ! i) \<noteq> GRID_CHARGE_TO_TARGET \<longrightarrow> pl_slots q ! i = pl_slots p ! i) \<and>
         (case projected_reach ps (opt_else (sl_deadline (pl_slots p ! i)) deadline) of
            None \<Rightarrow> pl_slots q ! i = pl_slots p ! i
          | Some r \<Rightarrow> sl_intent (pl_slots p ! i) = GRID_CHARGE_TO_TARGET \<longrightarrow>
              (case sl_target_soc (pl_slots q ! i) of
                 None \<Rightarrow> sl_target_soc (pl_slots p ! i) = None \<and> target \<le> r + margin
               | Some x \<Rightarrow> x \<le> max lowest (r + margin) \<and>
                           x \<le> max lowest (max r (opt_else (sl_target_soc (pl_slots p ! i)) target)))) \<and>
         (pl_target_soc q = pl_target_soc p \<or>
          (\<exists>s\<in>set (charge_slots (pl_slots p)). \<exists>r.
             projected_reach ps (opt_else (sl_deadline s) deadline) = Some r \<and> pl_target_soc q = Some (max lowest r)))"
proof -
  let ?s = "pl_slots p ! i" and ?d = "opt_else (sl_deadline (pl_slots p ! i)) deadline"
  let ?cs = "charge_commitments p deadline target"
  let ?low = "lowered_targets ps lowest margin ?cs"
  have mem: "(?d, opt_else (sl_target_soc ?s) target) \<in> set ?cs" if "sl_intent ?s = GRID_CHARGE_TO_TARGET"
    using i that by (auto simp: charge_commitments_def charge_slots_def charge_intent_def)
  have none: "?low x = None" if "List.map_filter ?low (map fst ?cs) = []" for x
  proof (rule ccontr)
    assume "?low x \<noteq> None"
    then have "x \<in> fst ` set ?cs" by (force simp: lowered_any_order [OF m] split: option.splits if_splits)
    with that \<open>?low x \<noteq> None\<close> show False by (force simp: List.map_filter_def filter_empty_conv)
  qed
  have slots: "pl_slots q = map (partial_slot ?low deadline target) (pl_slots p)"
  proof (cases "List.map_filter ?low (map fst ?cs) = [] \<or> charge_slots (pl_slots p) = []")
    case True
    have "partial_slot ?low deadline target s = s" if "s \<in> set (pl_slots p)" for s
      using True that none
      by (auto simp: partial_slot_def charge_slots_def charge_intent_def filter_empty_conv)
    then have "map (partial_slot ?low deadline target) (pl_slots p) = pl_slots p" by (simp add: map_idI)
    with True show ?thesis by (auto simp: q honest_partial_from_projection_def p Let_def lowest)
  next
    case False
    then show ?thesis by (auto simp: q honest_partial_from_projection_def p Let_def lowest)
  qed
  have t: "pl_slots q ! i = partial_slot ?low deadline target ?s" using i by (simp add: slots)
  have low_is: "\<exists>s\<in>set (charge_slots (pl_slots p)). \<exists>r. d = opt_else (sl_deadline s) deadline \<and>
      projected_reach ps d = Some r \<and> x = max lowest r" if "?low d = Some x" for d x
    using that by (force simp: lowered_any_order [OF m] charge_commitments_def split: option.splits if_splits)
  have frame: "\<exists>ss g n. q = p\<lparr>pl_slots := ss, pl_target_soc := g, pl_version := n\<rparr>"
    "pl_target_soc q = pl_target_soc p \<or>
      (\<exists>s\<in>set (charge_slots (pl_slots p)). \<exists>r.
         projected_reach ps (opt_else (sl_deadline s) deadline) = Some r \<and> pl_target_soc q = Some (max lowest r))"
  proof -
    let ?vs = "List.map_filter ?low (map fst ?cs)"
    have same: "\<exists>ss g n. p = p\<lparr>pl_slots := ss, pl_target_soc := g, pl_version := n\<rparr>"
      by (rule exI [of _ "pl_slots p"], rule exI [of _ "pl_target_soc p"], rule exI [of _ "pl_version p"]) simp
    have new: "\<exists>d. ?low d = Some (case ?low deadline of Some x \<Rightarrow> x | None \<Rightarrow> Min (set ?vs))" if "?vs \<noteq> []"
    proof (cases "?low deadline")
      case None
      have "Min (set ?vs) \<in> set ?vs" using that by (intro Min_in) simp_all
      then show ?thesis using None by (auto simp: List.map_filter_def)
    qed auto
    show "\<exists>ss g n. q = p\<lparr>pl_slots := ss, pl_target_soc := g, pl_version := n\<rparr>"
      using same by (auto simp: q honest_partial_from_projection_def p Let_def)
    show "pl_target_soc q = pl_target_soc p \<or>
      (\<exists>s\<in>set (charge_slots (pl_slots p)). \<exists>r.
         projected_reach ps (opt_else (sl_deadline s) deadline) = Some r \<and> pl_target_soc q = Some (max lowest r))"
    proof (cases "charge_slots (pl_slots p) = [] \<or> ?vs = []")
      case True
      then show ?thesis by (auto simp: q honest_partial_from_projection_def p Let_def lowest)
    next
      case False
      then have "pl_target_soc q = Some (case ?low deadline of Some x \<Rightarrow> x | None \<Rightarrow> Min (set ?vs))"
        by (simp add: q honest_partial_from_projection_def p Let_def lowest split: option.split)
      with new low_is False show ?thesis by metis
    qed
  qed
  have upd: "\<exists>x m. ?s = ?s\<lparr>sl_target_soc := x, sl_reason := m\<rparr>"
    by (rule exI [of _ "sl_target_soc ?s"], rule exI [of _ "sl_reason ?s"]) simp
  have slot: "\<exists>x m. pl_slots q ! i = ?s\<lparr>sl_target_soc := x, sl_reason := m\<rparr>"
    unfolding t using upd by (auto simp: partial_slot_def split: option.split)
  have len: "length (pl_slots q) = length (pl_slots p)" by (simp add: slots)
  note rest = frame slot len
  show ?thesis
  proof (cases "sl_intent ?s = GRID_CHARGE_TO_TARGET")
    case False
    then have "pl_slots q ! i = ?s" unfolding t by (simp add: partial_slot_def)
    with rest False show ?thesis by (simp split: option.split)
  next
    case True
    note low = lowered_any_order [OF m, of ps lowest ?cs ?d]
    have not_low: "opt_else (sl_target_soc ?s) target \<le> r + margin"
      if "projected_reach ps ?d = Some r" "?low ?d = None" for r
      using mem [OF True] that low by (auto simp: not_less split: if_splits)
    have is_low: "\<exists>r. projected_reach ps ?d = Some r \<and> x = max lowest r" if "?low ?d = Some x" for x
      using that low by (auto split: option.splits if_splits)
    show ?thesis
    proof (cases "?low ?d")
      case None
      then have "pl_slots q ! i = ?s" unfolding t by (simp add: partial_slot_def)
      with rest True None not_low show ?thesis by (auto simp: le_max_iff_disj split: option.split)
    next
      case (Some x)
      then obtain r where r: "projected_reach ps ?d = Some r" "x = max lowest r" using is_low by blast
      have "sl_target_soc (pl_slots q ! i) = Some x" unfolding t using True Some by (simp add: partial_slot_def)
      with rest True r m show ?thesis by (auto simp: le_max_iff_disj)
    qed
  qed
qed

subsection \<open>A night with a missed window\<close>

definition demo_missed :: plan where
  "demo_missed =
     (plan0 0 [plan_slot0 SLOT ALLOW_SELF_CONSUMPTION [], plan_slot0 (2 * SLOT) HOLD_RESERVE [],
               plan_slot0 (4 * SLOT) DISCHARGE_FOR_LOAD []])
       \<lparr>pl_strategy := Some ''winter'', pl_target_soc := Some 20, pl_deadline := Some (4 * SLOT)\<rparr>"

definition demo_catch_up :: catch_up_inputs where
  "demo_catch_up =
     \<lparr>cu_soc_pct = 10, cu_prices = demo_night, cu_usable_kwh = 10, cu_reserve_soc_pct = 5, cu_max_charge_w = 4000,
      cu_rte = 1, cu_daily_cap_kwh = 12, cu_already_bought = Some 0, cu_tz = utc, cu_degradation = 0, cu_risk = 0,
      cu_max_buy = 0\<rparr>"

text \<open>One kilowatt-hour short with nothing scheduled: the cheaper of the two free slots charges.\<close>

lemma demo_missed_status: "cs_status (check_charge_completion demo_missed 0 10 5) = MISSED"
  by (simp add: check_charge_completion_def demo_missed_def plan0_def plan_slot0_def charge_slots_def charge_intent_def)

lemma demo_catch_up_result:
  obtains r where "build_catch_up_plan demo_missed 0 demo_catch_up = Inr r"
    "map sl_intent (pl_slots (cr_plan r)) = [GRID_CHARGE_TO_TARGET, HOLD_RESERVE, DISCHARGE_FOR_LOAD]"
proof -
  have d: "discharge_starts demo_missed = {4 * SLOT}"
    by (simp add: discharge_starts_def demo_missed_def plan0_def plan_slot0_def)
  have f: "pl_target_soc demo_missed = Some 20" "pl_deadline demo_missed = Some (4 * SLOT)"
    "map sl_start (pl_slots demo_missed) = [SLOT, 2 * SLOT, 4 * SLOT]" "pl_version demo_missed = 1"
    by (simp_all add: demo_missed_def plan0_def plan_slot0_def)
  have dl: "effective_deadline demo_missed (4 * SLOT) = 4 * SLOT" by (simp add: effective_deadline_def d)
  have kwh: "cu_slot_kwh demo_catch_up = 1" "remaining_dc demo_catch_up 20 = 1"
    by (simp_all add: cu_slot_kwh_def demo_catch_up_def stored_kwh_per_slot_def remaining_dc_def)
  have n: "slots_needed demo_catch_up 20 = 1" by (simp add: slots_needed_def kwh)
  have c: "catch_up_ceiling demo_catch_up demo_missed = Some (3/10)"
    by (simp add: catch_up_ceiling_def d demo_catch_up_def demo_night_def max_buy_eq efficiency_of_def apply_max_buy_cap_def)
  have cand: "map pr_start (catch_up_candidates demo_catch_up demo_missed 0 (4 * SLOT)) = [SLOT, 2 * SLOT]"
    unfolding catch_up_candidates_def c d f(3) by (simp add: demo_catch_up_def demo_night_def)
  then have chosen: "set (map pr_start (take 1 (catch_up_candidates demo_catch_up demo_missed 0 (4 * SLOT)))) = {SLOT}"
    and len: "length (catch_up_candidates demo_catch_up demo_missed 0 (4 * SLOT)) = 2"
    by (auto simp: take_map [symmetric] dest: arg_cong [of _ _ length])
  obtain s1 s2 s3 where ss: "map (catch_up_slot demo_catch_up {SLOT} 20 (4 * SLOT)) (pl_slots demo_missed) = [s1, s2, s3]"
    and s: "sl_intent s1 = GRID_CHARGE_TO_TARGET" "sl_start s1 = SLOT" "sl_power_w s1 = Some 4000"
      "sl_intent s2 = HOLD_RESERVE" "sl_intent s3 = DISCHARGE_FOR_LOAD"
    by (simp add: demo_missed_def plan0_def plan_slot0_def catch_up_slot_def demo_catch_up_def)
  have day: "local_date utc 0 = 0" "local_date utc SLOT = 0" by (simp_all add: local_date_def utc_def)
  have "map sl_intent (pl_slots (catch_up_plan_of demo_catch_up demo_missed 0 {SLOT} 20 (4 * SLOT))) =
      [GRID_CHARGE_TO_TARGET, HOLD_RESERVE, DISCHARGE_FOR_LOAD]"
    unfolding catch_up_plan_of_def ss
    by (simp add: demo_catch_up_def clamp_grid_charge_def charge_budget_of_def s day plan_day_def day_budget_def
          BUDGET_EPS_def slot_grid_kwh_def remaining_fraction_def SLOT_HOURS_def)
  then show ?thesis
    using that chosen len by (simp add: build_catch_up_plan_def f dl [simplified] n Let_def split_beta)
qed

theorem recovery_buys_what_pays_witness:
  "\<exists>q st r. recover_if_needed demo_missed 0 demo_catch_up True 5 = Inr (q, st, Some r) \<and>
     map sl_intent (pl_slots q) = [GRID_CHARGE_TO_TARGET, HOLD_RESERVE, DISCHARGE_FOR_LOAD] \<and>
     cr_target_soc r \<le> 20 \<and>
     check_daily_cap (demo_validate\<lparr>vi_daily_cap_kwh := Some 12, vi_already_bought := Some 0\<rparr>) q (pl_slots q) = []"
proof -
  obtain r where r: "build_catch_up_plan demo_missed 0 demo_catch_up = Inr r"
    "map sl_intent (pl_slots (cr_plan r)) = [GRID_CHARGE_TO_TARGET, HOLD_RESERVE, DISCHARGE_FOR_LOAD]"
    by (rule demo_catch_up_result)
  let ?st = "check_charge_completion demo_missed 0 10 5"
  have d: "effective_deadline demo_missed (4 * SLOT) = 4 * SLOT" "pl_deadline demo_missed = Some (4 * SLOT)"
    "pl_strategy demo_missed = Some ''winter''" "pl_target_soc demo_missed = Some 20" "cu_soc_pct demo_catch_up = 10"
    by (simp_all add: effective_deadline_def discharge_starts_def demo_missed_def plan0_def plan_slot0_def demo_catch_up_def)
  have run: "recover_if_needed demo_missed 0 demo_catch_up True 5 = Inr (cr_plan r, ?st, Some r)"
    by (simp add: recover_if_needed_def d [simplified] r(1) needs_recovery_def demo_missed_status Let_def)
  have k: "cu_daily_cap_kwh demo_catch_up = 12" "cu_already_bought demo_catch_up = Some 0" "cu_tz demo_catch_up = utc"
    "0 < cu_usable_kwh demo_catch_up" "0 < cu_slot_kwh demo_catch_up"
    "ac_grid_kwh_per_slot (cu_max_charge_w demo_catch_up) = 1"
    by (simp_all add: demo_catch_up_def cu_slot_kwh_def stored_kwh_per_slot_def ac_grid_kwh_per_slot_def SLOT_HOURS_def)
  have v: "vi_per_slot_kwh demo_validate = 1" "vi_tz demo_validate = utc" by (simp_all add: demo_validate_def)
  have "cr_target_soc r \<le> 20 \<and>
      check_daily_cap (demo_validate\<lparr>vi_daily_cap_kwh := Some 12, vi_already_bought := Some 0\<rparr>) (cr_plan r)
        (take 3 (pl_slots (cr_plan r))) = []"
    using recovery_buys_what_pays [OF run [symmetric],
        of "demo_validate\<lparr>vi_daily_cap_kwh := Some 12, vi_already_bought := Some 0\<rparr>" 3]
    by (simp add: k v d [simplified])
  moreover have "length (pl_slots (cr_plan r)) = 3" using arg_cong [OF r(2), of length] by simp
  ultimately show ?thesis using run r(2) by (intro exI [of _ "cr_plan r"] exI [of _ ?st] exI [of _ r]) simp
qed

text \<open>
  With the cap of the day spent, the same recovery calls itself feasible, with one slot to use, and returns
  a plan that charges in none.
\<close>

lemma feasible_ignores_the_cap:
  "case build_catch_up_plan demo_missed 0 (demo_catch_up\<lparr>cu_already_bought := Some 12\<rparr>) of
     Inl _ \<Rightarrow> False
   | Inr r \<Rightarrow> cr_feasible r \<and> cr_slots_used r = 1 \<and> cr_target_soc r = 20 \<and>
             (\<forall>s\<in>set (pl_slots (cr_plan r)). sl_intent s \<noteq> GRID_CHARGE_TO_TARGET)"
proof -
  let ?c = "demo_catch_up\<lparr>cu_already_bought := Some 12\<rparr>"
  have d: "discharge_starts demo_missed = {4 * SLOT}"
    by (simp add: discharge_starts_def demo_missed_def plan0_def plan_slot0_def)
  have f: "pl_target_soc demo_missed = Some 20" "pl_deadline demo_missed = Some (4 * SLOT)"
    "map sl_start (pl_slots demo_missed) = [SLOT, 2 * SLOT, 4 * SLOT]" "pl_version demo_missed = 1"
    by (simp_all add: demo_missed_def plan0_def plan_slot0_def)
  have dl: "effective_deadline demo_missed (4 * SLOT) = 4 * SLOT" by (simp add: effective_deadline_def d)
  have kwh: "cu_slot_kwh ?c = 1" "remaining_dc ?c 20 = 1"
    by (simp_all add: cu_slot_kwh_def demo_catch_up_def stored_kwh_per_slot_def remaining_dc_def)
  have n: "slots_needed ?c 20 = 1" by (simp add: slots_needed_def kwh)
  have k: "catch_up_ceiling ?c demo_missed = Some (3/10)"
    by (simp add: catch_up_ceiling_def d demo_catch_up_def demo_night_def max_buy_eq efficiency_of_def apply_max_buy_cap_def)
  have "map pr_start (catch_up_candidates ?c demo_missed 0 (4 * SLOT)) = [SLOT, 2 * SLOT]"
    unfolding catch_up_candidates_def k d f(3) by (simp add: demo_catch_up_def demo_night_def)
  then have chosen: "set (map pr_start (take 1 (catch_up_candidates ?c demo_missed 0 (4 * SLOT)))) = {SLOT}"
    and len: "length (catch_up_candidates ?c demo_missed 0 (4 * SLOT)) = 2"
    by (auto simp: take_map [symmetric] dest: arg_cong [of _ _ length])
  obtain s1 s2 s3 where ss: "map (catch_up_slot ?c {SLOT} 20 (4 * SLOT)) (pl_slots demo_missed) = [s1, s2, s3]"
    and s: "sl_intent s1 = GRID_CHARGE_TO_TARGET" "sl_start s1 = SLOT" "sl_power_w s1 = Some 4000"
      "sl_intent s2 = HOLD_RESERVE" "sl_intent s3 = DISCHARGE_FOR_LOAD"
    by (simp add: demo_missed_def plan0_def plan_slot0_def catch_up_slot_def demo_catch_up_def)
  have day: "local_date utc 0 = 0" "local_date utc SLOT = 0" by (simp_all add: local_date_def utc_def)
  have "map sl_intent (pl_slots (catch_up_plan_of ?c demo_missed 0 {SLOT} 20 (4 * SLOT))) =
      [ALLOW_SELF_CONSUMPTION, HOLD_RESERVE, DISCHARGE_FOR_LOAD]"
    unfolding catch_up_plan_of_def ss
    by (simp add: demo_catch_up_def clamp_grid_charge_def charge_budget_of_def s day plan_day_def day_budget_def
          BUDGET_EPS_def slot_grid_kwh_def remaining_fraction_def SLOT_HOURS_def as_self_consumption_def)
  then have none: "\<forall>s\<in>set (pl_slots (catch_up_plan_of ?c demo_missed 0 {SLOT} 20 (4 * SLOT))). sl_intent s \<noteq> GRID_CHARGE_TO_TARGET"
    by (auto dest: arg_cong [of _ _ set])
  show ?thesis
    using chosen len none by (simp add: build_catch_up_plan_def f dl [simplified] n Let_def split_beta)
qed

subsection \<open>Two targets for one deadline\<close>

definition demo_reach :: "projected_slot list" where
  "demo_reach = [\<lparr>pj_start = 0, pj_intent = GRID_CHARGE_TO_TARGET, pj_soc_pct = 15, pj_battery_w = 0, pj_grid_w = 0,
                  pj_solar_w = 0, pj_load_w = 0\<rparr>]"

definition demo_two_targets :: plan where
  "demo_two_targets =
     (plan0 0 [(plan_slot0 0 GRID_CHARGE_TO_TARGET [])\<lparr>sl_target_soc := Some 12\<rparr>,
               (plan_slot0 SLOT GRID_CHARGE_TO_TARGET [])\<lparr>sl_target_soc := Some 30\<rparr>])
       \<lparr>pl_strategy := Some ''winter'', pl_target_soc := Some 30, pl_deadline := Some SLOT\<rparr>"

text \<open>
  A slot whose own target is within reach ends with a higher one when another slot of the same deadline
  aims higher: the map of lowered targets is keyed by the deadline alone.
\<close>

lemma honest_partial_raises:
  "map sl_target_soc (pl_slots (honest_partial_from_projection demo_two_targets (Some demo_reach) 5 5 5)) =
     [Some 15, Some 15]"
  by (simp add: honest_partial_from_projection_def demo_two_targets_def demo_reach_def plan0_def plan_slot0_def
        charge_slots_def charge_intent_def soc_control_floor_def charge_commitments_def lowered_targets_def
        lower_one_def projected_reach_def partial_slot_def List.map_filter_def)

text \<open>
  And the target of the plan can go up. One slot with a target of 50 by a later deadline, which the
  projection misses at 24, and one without a target, within the margin of the plan's 12: the plan then
  promises 24, also for the slot that reaches 8.
\<close>

definition demo_reaches :: "projected_slot list" where
  "demo_reaches = map (\<lambda>(t, soc). \<lparr>pj_start = t, pj_intent = GRID_CHARGE_TO_TARGET, pj_soc_pct = soc, pj_battery_w = 0,
                    pj_grid_w = 0, pj_solar_w = 0, pj_load_w = 0\<rparr>) [(0, 8), (SLOT, 24)]"

definition demo_inherits :: plan where
  "demo_inherits =
     (plan0 0 [(plan_slot0 0 GRID_CHARGE_TO_TARGET [])\<lparr>sl_deadline := Some SLOT\<rparr>,
               (plan_slot0 SLOT GRID_CHARGE_TO_TARGET [])\<lparr>sl_target_soc := Some 50\<rparr>])
       \<lparr>pl_strategy := Some ''winter'', pl_target_soc := Some 12, pl_deadline := Some (2 * SLOT)\<rparr>"

lemma honest_partial_raises_the_plan:
  "let q = honest_partial_from_projection demo_inherits (Some demo_reaches) 5 5 5
   in pl_target_soc q = Some 24 \<and> map sl_target_soc (pl_slots q) = [None, Some 24] \<and>
      projected_reach demo_reaches SLOT = Some 8"
  by (simp add: honest_partial_from_projection_def demo_inherits_def demo_reaches_def plan0_def plan_slot0_def
        charge_slots_def charge_intent_def soc_control_floor_def charge_commitments_def lowered_targets_def
        lower_one_def projected_reach_def partial_slot_def List.map_filter_def Let_def)

theorem honest_partial_is_reachable_witness:
  "let q = honest_partial_from_projection demo_two_targets (Some demo_reach) 5 5 5
   in sl_target_soc (pl_slots q ! 1) = Some 15 \<and> opt_else (sl_target_soc (pl_slots q ! 1)) 30 \<le> max 5 (15 + 5)"
proof -
  let ?q = "honest_partial_from_projection demo_two_targets (Some demo_reach) 5 5 5"
  have p: "pl_strategy demo_two_targets = Some ''winter''" "pl_target_soc demo_two_targets = Some 30"
    "pl_deadline demo_two_targets = Some SLOT" "length (pl_slots demo_two_targets) = 2"
    "sl_intent (pl_slots demo_two_targets ! 1) = GRID_CHARGE_TO_TARGET" "sl_deadline (pl_slots demo_two_targets ! 1) = None"
    by (simp_all add: demo_two_targets_def plan0_def plan_slot0_def)
  have f: "5 = soc_control_floor 5 None (Some 5)" by (simp add: soc_control_floor_def)
  have r: "projected_reach demo_reach SLOT = Some 15" by (simp add: projected_reach_def demo_reach_def)
  have "1 < length (pl_slots demo_two_targets)" by (simp add: p)
  note k = honest_partial_is_reachable [OF refl p(1-3) f _ this, of 5 demo_reach]
  have "map sl_target_soc (pl_slots ?q) ! 1 = Some 15" by (simp add: honest_partial_raises)
  moreover have "length (pl_slots ?q) = 2" using k by (simp add: p del: One_nat_def)
  ultimately have "sl_target_soc (pl_slots ?q ! 1) = Some 15" by (simp del: One_nat_def)
  with k show ?thesis by (simp add: Let_def p r del: One_nat_def)
qed

end
