(* ===== verification/ChargeNeed.thy ===== *)
theory ChargeNeed
  imports EnergyDomain
begin

section \<open>The charge need shown to the resident (\<open>ems/planner/charge_need.py\<close>)\<close>

text \<open>
  The advisory overnight need, the need that follows from a committed target, and the choice between the
  two. None of it drives the controller; it must agree with the plan when a plan has committed.
\<close>

record charge_need =
  cn_usable_kwh :: real
  cn_current_soc_pct :: real
  cn_current_kwh :: real
  cn_reserve_kwh :: real
  cn_target_kwh :: real
  cn_target_soc_pct :: real
  cn_deficit_kwh :: real
  cn_on_track :: bool
  cn_reason :: message

definition unconfigured_need :: "real \<Rightarrow> charge_need" where
  "unconfigured_need soc =
     \<lparr>cn_usable_kwh = 0, cn_current_soc_pct = soc, cn_current_kwh = 0, cn_reserve_kwh = 0, cn_target_kwh = 0,
      cn_target_soc_pct = 0, cn_deficit_kwh = 0, cn_on_track = True,
      cn_reason = [Lit ''battery capacity not configured'']\<rparr>"

definition overnight_target_kwh :: "real \<Rightarrow> real \<Rightarrow> real \<Rightarrow> real \<Rightarrow> real \<Rightarrow> real" where
  "overnight_target_kwh usable min_reserve night_reserve load rte =
     min usable ((load + night_reserve) / eta_of rte + usable * max 0 min_reserve / 100)"

definition compute_charge_need :: "real \<Rightarrow> real \<Rightarrow> real \<Rightarrow> real \<Rightarrow> real \<Rightarrow> real \<Rightarrow> charge_need" where
  "compute_charge_need soc_pct usable min_reserve night_reserve load rte =
     (let soc = max 0 (min 100 soc_pct);
          reserve = usable * max 0 min_reserve / 100;
          current = usable * soc / 100;
          target = overnight_target_kwh usable min_reserve night_reserve load rte;
          target_soc = target / usable * 100;
          deficit = max 0 (target - current);
          on_track = (deficit \<le> 1/1000000000)
      in if usable \<le> 0 then unconfigured_need soc
         else \<lparr>cn_usable_kwh = usable, cn_current_soc_pct = soc, cn_current_kwh = current,
               cn_reserve_kwh = reserve, cn_target_kwh = target, cn_target_soc_pct = target_soc,
               cn_deficit_kwh = deficit, cn_on_track = on_track,
               cn_reason =
                 (if on_track
                  then [Lit ''On track: '', Fixed 1 current, Lit '' kWh stored already covers tonight's target (~'',
                        Fixed 1 target, Lit '' kWh).'']
                  else [Lit ''Need ~'', Fixed 1 deficit, Lit '' kWh more to reach '', Fixed 0 target_soc,
                        Lit ''% before the overnight period (load '', Fixed 1 load, Lit '' + reserve '',
                        Fixed 1 night_reserve, Lit '' + floor '', Fixed 1 reserve, Lit '' kWh).''])\<rparr>)"

definition charge_need_from_target :: "real \<Rightarrow> real \<Rightarrow> real \<Rightarrow> real \<Rightarrow> charge_need" where
  "charge_need_from_target soc_pct usable min_reserve target_soc_pct =
     (let soc = max 0 (min 100 soc_pct);
          current = usable * soc / 100;
          target_soc = max 0 (min 100 target_soc_pct);
          target = usable * target_soc / 100;
          deficit = max 0 (target - current);
          on_track = (deficit \<le> 1/1000000000)
      in if usable \<le> 0 then unconfigured_need soc
         else \<lparr>cn_usable_kwh = usable, cn_current_soc_pct = soc, cn_current_kwh = current,
               cn_reserve_kwh = usable * max 0 min_reserve / 100, cn_target_kwh = target,
               cn_target_soc_pct = target_soc, cn_deficit_kwh = deficit, cn_on_track = on_track,
               cn_reason =
                 (if on_track
                  then [Lit ''On track: '', Fixed 1 current, Lit '' kWh stored already covers the plan target (~'',
                        Fixed 1 target, Lit '' kWh / '', Fixed 0 target_soc, Lit ''%).'']
                  else [Lit ''Need ~'', Fixed 1 deficit, Lit '' kWh more to reach the plan target of '',
                        Fixed 0 target_soc, Lit ''% (~'', Fixed 1 target, Lit '' kWh).''])\<rparr>)"

definition ui_charge_need ::
  "real \<Rightarrow> real \<Rightarrow> real \<Rightarrow> real \<Rightarrow> real \<Rightarrow> real \<Rightarrow> real option \<Rightarrow> charge_need" where
  "ui_charge_need soc_pct usable min_reserve night_reserve load rte plan_target =
     (case plan_target of
        Some t \<Rightarrow> charge_need_from_target soc_pct usable min_reserve t
      | None \<Rightarrow> compute_charge_need soc_pct usable min_reserve night_reserve load rte)"

text \<open>Committing to the advisory target leaves the numbers on the screen as they were.\<close>

lemma committed_need_agrees:
  assumes "0 < usable" "0 \<le> load + night_reserve"
    and n: "n = compute_charge_need soc usable min_reserve night_reserve load rte"
    and c: "c = charge_need_from_target soc usable min_reserve (cn_target_soc_pct n)"
  shows "cn_target_kwh c = cn_target_kwh n \<and> cn_deficit_kwh c = cn_deficit_kwh n \<and> cn_on_track c = cn_on_track n \<and>
         cn_reserve_kwh c = cn_reserve_kwh n \<and> cn_current_kwh c = cn_current_kwh n"
proof -
  let ?t = "overnight_target_kwh usable min_reserve night_reserve load rte"
  have "0 \<le> (load + night_reserve) / eta_of rte + usable * max 0 min_reserve / 100"
    using divide_nonneg_nonneg [OF assms(2) eta_of_nonneg [of rte]] assms(1) by simp
  then have t: "0 \<le> ?t" "?t \<le> usable" using assms(1) by (simp_all add: overnight_target_kwh_def)
  then have "max 0 (min 100 (?t / usable * 100)) = ?t / usable * 100"
    using assms(1) by (simp add: field_simps)
  then show ?thesis
    using assms(1) unfolding n c by (simp add: compute_charge_need_def charge_need_from_target_def Let_def)
qed

end
