(* ===== verification/PriceQuality.thy ===== *)
theory PriceQuality
  imports Ownership Horizon
begin

section \<open>Completeness of a price horizon (\<open>ems/price_quality.py\<close>)\<close>

text \<open>
  The check every price feed passes before it may drive control. A slot as the adapter delivers it may
  have a naive start and a price that is not finite (\<open>None\<close>); the local days are calendar dates, and a
  local midnight is built from a date by the zone's wall-to-UTC map, as in \<open>Horizon\<close>.
\<close>

record raw_price =
  rp_start :: py_datetime
  rp_eur :: "real option"
  rp_origin :: string

record price_horizon_status =
  ph_ok :: bool
  ph_reason :: "message option"
  ph_count :: nat
  ph_end :: "instant option"

definition raw_end :: "raw_price list \<Rightarrow> instant option" where
  "raw_end slots =
     (if slots = [] then None
      else case rp_start (last slots) of Aware t \<Rightarrow> Some (t + SLOT) | Naive _ \<Rightarrow> None)"

definition ph_invalid :: "message \<Rightarrow> raw_price list \<Rightarrow> price_horizon_status" where
  "ph_invalid reason slots =
     \<lparr>ph_ok = False, ph_reason = Some reason, ph_count = length slots, ph_end = raw_end slots\<rparr>"

definition off_quarter :: "instant \<Rightarrow> bool" where
  "off_quarter t \<longleftrightarrow>
     t mod us_minute div us_second \<noteq> 0 \<or> t mod us_second \<noteq> 0 \<or> t mod us_hour div us_minute mod 15 \<noteq> 0"

text \<open>The loop over the slots: the starts collected so far, or the first fault.\<close>

fun horizon_starts :: "raw_price list \<Rightarrow> instant option \<Rightarrow> message + instant list" where
  "horizon_starts [] previous = Inr []"
| "horizon_starts (s # ss) previous =
     (case rp_start s of
        Naive _ \<Rightarrow> Inl [Lit ''price slot is timezone-naive'']
      | Aware t \<Rightarrow>
          if rp_eur s = None then Inl [Lit ''price slot is non-finite'']
          else if off_quarter t then Inl [Lit ''price slot is not aligned to a quarter-hour'']
          else if (\<exists>p. previous = Some p \<and> t \<le> p) then Inl [Lit ''price slots are duplicate or out of order'']
          else if (\<exists>p. previous = Some p \<and> t - p \<noteq> SLOT) then Inl [Lit ''price horizon contains a gap'']
          else (case horizon_starts ss (Some t) of Inl e \<Rightarrow> Inl e | Inr ts \<Rightarrow> Inr (t # ts)))"

text \<open>The quarter hours of a local day, by the loop of the code.\<close>

function day_walk :: "instant \<Rightarrow> instant \<Rightarrow> instant list" where
  "day_walk cursor stop = (if cursor < stop then cursor # day_walk (cursor + SLOT) stop else [])"
  by pat_completeness auto
termination by (relation "measure (\<lambda>(cursor, stop). nat (stop - cursor))") auto

declare day_walk.simps [simp del]

definition local_midnight :: "(int \<Rightarrow> instant) \<Rightarrow> int \<Rightarrow> instant" where
  "local_midnight of_wall day = of_wall (us_day * day)"

definition day_starts :: "(int \<Rightarrow> instant) \<Rightarrow> int \<Rightarrow> instant list" where
  "day_starts of_wall day = day_walk (local_midnight of_wall day) (local_midnight of_wall (day + 1))"

definition incomplete_day :: "int \<Rightarrow> instant list \<Rightarrow> instant list \<Rightarrow> message" where
  "incomplete_day day expected starts =
     [Lit ''price day '', IsoDay day, Lit '' is incomplete ('',
      Count (int (card (set expected \<inter> set starts))), Lit ''/'', Count (int (card (set expected))), Lit '' slots)'']"

fun first_incomplete :: "(int \<Rightarrow> instant) \<Rightarrow> instant list \<Rightarrow> int list \<Rightarrow> message option" where
  "first_incomplete of_wall starts [] = None"
| "first_incomplete of_wall starts (d # ds) =
     (if set (day_starts of_wall d) \<subseteq> set starts then first_incomplete of_wall starts ds
      else Some (incomplete_day d (day_starts of_wall d) starts))"

definition validate_price_horizon ::
  "raw_price list \<Rightarrow> py_datetime \<Rightarrow> zone \<Rightarrow> (int \<Rightarrow> instant) \<Rightarrow> price_horizon_status" where
  "validate_price_horizon slots now tz of_wall =
     (if slots = [] then ph_invalid [Lit ''price horizon is empty''] slots
      else case now of
        Naive _ \<Rightarrow> ph_invalid [Lit ''current time is timezone-naive''] slots
      | Aware t \<Rightarrow>
          if list_ex (\<lambda>s. rp_origin s = ''fixed_backup'') slots
          then ph_invalid [Lit ''fixed-tariff backup is display-only (not a control horizon)''] slots
          else case horizon_starts slots None of
            Inl e \<Rightarrow> ph_invalid e slots
          | Inr starts \<Rightarrow>
              case first_incomplete of_wall starts (sorted_list_of_set (local_date tz ` set starts)) of
                Some e \<Rightarrow> ph_invalid e slots
              | None \<Rightarrow>
                  if hd starts \<le> t \<and> t < last starts + SLOT
                  then \<lparr>ph_ok = True, ph_reason = None, ph_count = length slots, ph_end = Some (last starts + SLOT)\<rparr>
                  else ph_invalid [Lit ''price horizon does not cover the current time''] slots)"

subsection \<open>What the check accepts\<close>

lemma off_quarter_iff: "off_quarter t \<longleftrightarrow> \<not> SLOT dvd t"
proof -
  define s where "s = t div us_second"
  have m: "t mod us_minute = us_second * (s mod 60) + t mod us_second"
    using zmod_zmult2_eq [of 60 t us_second] by (simp add: s_def)
  have h: "t mod us_hour = us_minute * (s div 60 mod 60) + t mod us_minute"
    using zmod_zmult2_eq [of 60 t us_minute] zdiv_zmult2_eq [of 60 t us_second] by (simp add: s_def)
  have q: "t mod SLOT = us_second * (s mod 900) + t mod us_second"
    using zmod_zmult2_eq [of 900 t us_second] by (simp add: s_def)
  have a: "t mod us_minute div us_second = s mod 60" unfolding m by simp
  have b: "t mod us_hour div us_minute = s div 60 mod 60" unfolding h by simp
  have "SLOT dvd t \<longleftrightarrow> s mod 900 = 0 \<and> t mod us_second = 0"
    unfolding dvd_eq_mod_eq_0 q by (subst add_nonneg_eq_0_iff) simp_all
  moreover have "s mod 900 = 0 \<longleftrightarrow> s mod 60 = 0 \<and> s div 60 mod 60 mod 15 = 0"
  proof -
    have "s mod 900 = 60 * (s div 60 mod 15) + s mod 60" using zmod_zmult2_eq [of 15 s 60] by simp
    then have "s mod 900 = 0 \<longleftrightarrow> 60 * (s div 60 mod 15) = 0 \<and> s mod 60 = 0"
      by (simp only:) (subst add_nonneg_eq_0_iff, simp_all)
    then show ?thesis by (simp add: mod_mod_cancel conj_commute)
  qed
  ultimately show ?thesis unfolding off_quarter_def a b by argo
qed

text \<open>A run of consecutive quarter hours, and the slots that carry one: aware starts, finite prices.\<close>

definition grid :: "instant \<Rightarrow> nat \<Rightarrow> instant list" where
  "grid a n = map (\<lambda>i. a + SLOT * int i) [0..<n]"

definition slot_run :: "raw_price list \<Rightarrow> instant \<Rightarrow> bool" where
  "slot_run slots a \<longleftrightarrow>
     SLOT dvd a \<and> map rp_start slots = map Aware (grid a (length slots)) \<and> list_all (\<lambda>s. rp_eur s \<noteq> None) slots"

lemma grid_simps [simp]: "grid a 0 = []" "grid a (Suc n) = a # grid (a + SLOT) n" "length (grid a n) = n"
  by (simp_all add: grid_def upt_conv_Cons map_Suc_upt [symmetric] algebra_simps del: upt_Suc)

lemma last_grid: "0 < n \<Longrightarrow> last (grid a n) = a + SLOT * (int n - 1)"
  by (simp add: grid_def last_map of_nat_diff)

lemma hd_grid: "0 < n \<Longrightarrow> hd (grid a n) = a"
  by (cases n) simp_all

lemma set_grid: "t \<in> set (grid a n) \<longleftrightarrow> (\<exists>i<n. t = a + SLOT * int i)"
  by (auto simp: grid_def)

lemma slot_run_simps [simp]:
  "slot_run [] a \<longleftrightarrow> SLOT dvd a"
  "slot_run (s # ss) a \<longleftrightarrow> SLOT dvd a \<and> rp_start s = Aware a \<and> rp_eur s \<noteq> None \<and> slot_run ss (a + SLOT)"
  by (auto simp: slot_run_def)

lemma horizon_starts_step:
  assumes s: "rp_start s = Aware t" "rp_eur s \<noteq> None" "SLOT dvd t" and p: "previous = None \<or> previous = Some (t - SLOT)"
    and ss: "\<And>ts. horizon_starts ss (Some t) = Inr ts \<longleftrightarrow> slot_run ss (t + SLOT) \<and> ts = grid (t + SLOT) (length ss)"
  shows "horizon_starts (s # ss) previous = Inr ts \<longleftrightarrow> slot_run (s # ss) t \<and> ts = grid t (length (s # ss))"
proof (cases "horizon_starts ss (Some t)")
  case (Inl e)
  then have "\<not> slot_run ss (t + SLOT)" using ss [of "grid (t + SLOT) (length ss)"] by simp
  with Inl s p show ?thesis by (auto simp: off_quarter_iff)
next
  case (Inr us)
  with ss have "slot_run ss (t + SLOT)" "us = grid (t + SLOT) (length ss)" by blast+
  with Inr s p show ?thesis by (auto simp: off_quarter_iff)
qed

lemma horizon_starts_later:
  "SLOT dvd p \<Longrightarrow> horizon_starts slots (Some p) = Inr ts \<longleftrightarrow>
     slot_run slots (p + SLOT) \<and> ts = grid (p + SLOT) (length slots)"
proof (induction slots arbitrary: p ts)
  case (Cons s ss)
  have d: "SLOT dvd p + SLOT" using Cons.prems by simp
  show ?case
  proof (cases "rp_start s = Aware (p + SLOT) \<and> rp_eur s \<noteq> None")
    case True
    with Cons.IH [OF d] d show ?thesis by (intro horizon_starts_step) auto
  next
    case False
    then have "horizon_starts (s # ss) (Some p) \<noteq> Inr ts"
      by (auto split: py_datetime.split sum.split)
    with False show ?thesis by auto
  qed
qed auto

lemma horizon_starts_ok:
  assumes "slots \<noteq> []"
  shows "horizon_starts slots None = Inr ts \<longleftrightarrow> (\<exists>a. slot_run slots a \<and> ts = grid a (length slots))"
proof -
  obtain s ss where slots: "slots = s # ss" using assms by (cases slots) auto
  show ?thesis
  proof (cases "\<exists>t. rp_start s = Aware t \<and> rp_eur s \<noteq> None \<and> SLOT dvd t")
    case True
    then obtain t where t: "rp_start s = Aware t" "rp_eur s \<noteq> None" "SLOT dvd t" by blast
    from horizon_starts_step [OF t _ horizon_starts_later [OF t(3)], of None]
    have "horizon_starts (s # ss) None = Inr ts \<longleftrightarrow> slot_run (s # ss) t \<and> ts = grid t (length (s # ss))" by simp
    moreover have "a = t" if "slot_run (s # ss) a" for a using that t(1) by simp
    ultimately show ?thesis unfolding slots by blast
  next
    case False
    then have "horizon_starts (s # ss) None \<noteq> Inr ts"
      by (auto simp: off_quarter_iff split: py_datetime.split sum.split)
    moreover have "\<not> slot_run (s # ss) a" for a using False by auto
    ultimately show ?thesis unfolding slots by blast
  qed
qed

text \<open>The walk over a local day, and its days in order.\<close>

lemma set_day_walk: "t \<in> set (day_walk cursor stop) \<longleftrightarrow> (\<exists>k. t = cursor + SLOT * int k \<and> t < stop)"
proof (induction cursor stop rule: day_walk.induct)
  case (1 cursor stop)
  show ?case
  proof (cases "cursor < stop")
    case True
    have "(\<exists>k. t = cursor + SLOT * int k \<and> t < stop) \<longleftrightarrow>
          t = cursor \<or> (\<exists>k. t = cursor + SLOT + SLOT * int k \<and> t < stop)" (is "?l = ?r")
    proof
      assume ?l
      then obtain k where k: "t = cursor + SLOT * int k" "t < stop" by blast
      then show ?r by (cases k) (auto simp: algebra_simps intro: exI [of _ "k - 1"])
    next
      assume ?r
      then show ?l
      proof
        assume "t = cursor"
        with True show ?l by (intro exI [of _ 0]) simp
      next
        assume "\<exists>k. t = cursor + SLOT + SLOT * int k \<and> t < stop"
        then obtain k where "t = cursor + SLOT + SLOT * int k" "t < stop" by blast
        then show ?l by (intro exI [of _ "Suc k"]) (simp add: algebra_simps)
      qed
    qed
    with True 1 show ?thesis by (subst day_walk.simps) simp
  next
    case False
    then have "\<not> cursor + SLOT * int k < stop" for k using zero_le_mult_iff [of SLOT "int k"] by simp
    with False show ?thesis by (subst day_walk.simps) auto
  qed
qed

lemma length_day_walk: "cursor \<le> stop \<Longrightarrow> int (length (day_walk cursor stop)) = (stop - cursor + SLOT - 1) div SLOT"
proof (induction cursor stop rule: day_walk.induct)
  case (1 cursor stop)
  show ?case
  proof (cases "cursor + SLOT \<le> stop")
    case True
    then have "(stop - cursor + SLOT - 1) div SLOT = (stop - (cursor + SLOT) + SLOT - 1) div SLOT + 1"
      by (simp add: div_add_self2 [symmetric] algebra_simps)
    with True 1 show ?thesis by (subst day_walk.simps) simp
  next
    case False
    with "1.prems" show ?thesis
      by (subst day_walk.simps, subst day_walk.simps) (auto simp: div_pos_pos_trivial zdiv_eq_0_iff)
  qed
qed

lemma first_incomplete_None:
  "first_incomplete of_wall starts ds = None \<longleftrightarrow> (\<forall>d\<in>set ds. set (day_starts of_wall d) \<subseteq> set starts)"
  by (induction ds) auto

text \<open>What a feed that passes is: no backup tariff, a run of quarter hours, every local day of it full.\<close>

lemma price_horizon_ok:
  "ph_ok (validate_price_horizon slots now tz of_wall) \<longleftrightarrow>
     slots \<noteq> [] \<and> (\<forall>s\<in>set slots. rp_origin s \<noteq> ''fixed_backup'') \<and>
     (\<exists>t a. now = Aware t \<and> slot_run slots a \<and> a \<le> t \<and> t < a + SLOT * int (length slots) \<and>
        (\<forall>d\<in>local_date tz ` set (grid a (length slots)).
           set (day_starts of_wall d) \<subseteq> set (grid a (length slots))))"
proof (cases "slots = [] \<or> list_ex (\<lambda>s. rp_origin s = ''fixed_backup'') slots")
  case True
  then show ?thesis
    by (auto simp: validate_price_horizon_def ph_invalid_def list_ex_iff split: py_datetime.split)
next
  case False
  then have slots: "slots \<noteq> []" "\<not> list_ex (\<lambda>s. rp_origin s = ''fixed_backup'') slots"
    and live: "\<forall>s\<in>set slots. rp_origin s \<noteq> ''fixed_backup''" by (auto simp: list_ex_iff)
  show ?thesis
  proof (cases "\<exists>t a. now = Aware t \<and> slot_run slots a")
    case True
    then obtain t a where t: "now = Aware t" and a: "slot_run slots a" by blast
    have one: "b = a" if "slot_run slots b" for b
      using a that slots(1) by (cases slots) auto
    define g where "g = grid a (length slots)"
    have ends: "hd g = a" "last g + SLOT = a + SLOT * int (length slots)"
      using slots(1) by (simp_all add: g_def hd_grid last_grid algebra_simps)
    have "horizon_starts slots None = Inr g"
      using horizon_starts_ok [OF slots(1)] a unfolding g_def by blast
    then have "ph_ok (validate_price_horizon slots now tz of_wall) \<longleftrightarrow>
        first_incomplete of_wall g (sorted_list_of_set (local_date tz ` set g)) = None \<and> a \<le> t \<and> t < last g + SLOT"
      using slots by (simp add: validate_price_horizon_def ph_invalid_def t ends(1) split: option.split)
    then have "ph_ok (validate_price_horizon slots now tz of_wall) \<longleftrightarrow>
        (\<forall>d\<in>local_date tz ` set g. set (day_starts of_wall d) \<subseteq> set g) \<and>
        a \<le> t \<and> t < a + SLOT * int (length slots)"
      unfolding first_incomplete_None ends by simp
    with slots(1) live t a one show ?thesis unfolding g_def by blast
  next
    case none: False
    have "horizon_starts slots None \<noteq> Inr ts" if "now = Aware t" for t ts
      using none that horizon_starts_ok [OF slots(1)] by blast
    with slots none show ?thesis
      by (auto simp: validate_price_horizon_def ph_invalid_def split: py_datetime.split sum.split)
  qed
qed

text \<open>
  Where local days follow one another from midnight to midnight, on the quarter hour, a run whose days
  are all full starts at a midnight and ends at one.
\<close>

lemma day_starts_in_grid:
  assumes al: "SLOT dvd local_midnight w d" "SLOT dvd a"
    and day: "a \<le> local_midnight w d" "local_midnight w (d + 1) \<le> a + SLOT * int n"
  shows "set (day_starts w d) \<subseteq> set (grid a n)"
proof
  fix t
  assume "t \<in> set (day_starts w d)"
  then obtain k where k: "t = local_midnight w d + SLOT * int k" "t < local_midnight w (d + 1)"
    by (auto simp: day_starts_def set_day_walk)
  with al obtain j where j: "t - a = SLOT * j" by (metis dvd_add dvd_diff dvd_triv_left dvd_def)
  with k day have "0 \<le> SLOT * j" "SLOT * j < SLOT * int n" by (simp_all add: algebra_simps)
  then have "t = a + SLOT * int (nat j) \<and> nat j < n" using j by auto
  then show "t \<in> set (grid a n)" unfolding set_grid by blast
qed

lemma full_days:
  assumes zone: "\<And>t d. local_date tz t = d \<longleftrightarrow> local_midnight w d \<le> t \<and> t < local_midnight w (d + 1)"
    and mono: "strict_mono (local_midnight w)"
    and al: "\<And>d. SLOT dvd local_midnight w d" and n: "0 < n" and a: "SLOT dvd a"
  shows "(\<forall>d\<in>local_date tz ` set (grid a n). set (day_starts w d) \<subseteq> set (grid a n)) \<longleftrightarrow>
         (\<exists>d1. a = local_midnight w (local_date tz a) \<and> a + SLOT * int n = local_midnight w (d1 + 1))"
proof
  assume full: "\<forall>d\<in>local_date tz ` set (grid a n). set (day_starts w d) \<subseteq> set (grid a n)"
  define z where "z = a + SLOT * (int n - 1)"
  define d0 where "d0 = local_date tz a"
  define d1 where "d1 = local_date tz z"
  have mem: "a \<in> set (grid a n)" "z \<in> set (grid a n)"
    using n by (auto simp: set_grid z_def of_nat_diff intro: exI [of _ 0] exI [of _ "n - 1"])
  have in0: "local_midnight w d0 \<le> a" "a < local_midnight w (d0 + 1)"
    and in1: "local_midnight w d1 \<le> z" "z < local_midnight w (d1 + 1)"
    using zone [of a d0] zone [of z d1] by (simp_all add: d0_def d1_def)
  have "local_midnight w d0 \<in> set (day_starts w d0)"
    unfolding day_starts_def set_day_walk using in0 by (intro exI [of _ 0]) simp
  with full mem(1) have "local_midnight w d0 \<in> set (grid a n)" unfolding d0_def by blast
  with in0 have first: "a = local_midnight w d0" by (auto simp: set_grid)
  define e where "e = local_midnight w (d1 + 1) - SLOT"
  have zd: "SLOT dvd z" using a by (simp add: z_def)
  have "SLOT dvd local_midnight w (d1 + 1) - z" using al zd by (intro dvd_diff)
  then obtain k where k: "local_midnight w (d1 + 1) - z = SLOT * k" by blast
  have "SLOT dvd z - local_midnight w d1" using al zd by (intro dvd_diff)
  then obtain j where j: "z - local_midnight w d1 = SLOT * j" by blast
  have kj: "1 \<le> k" "0 \<le> j" using k j in1 by simp_all
  have "e = local_midnight w d1 + SLOT * int (nat (j + k - 1))"
    using k j kj by (simp add: e_def algebra_simps)
  moreover have "e < local_midnight w (d1 + 1)" by (simp add: e_def)
  ultimately have "e \<in> set (day_starts w d1)" unfolding day_starts_def set_day_walk by blast
  with full mem(2) have "e \<in> set (grid a n)" unfolding d1_def by blast
  then have "e \<le> z" using n by (auto simp: set_grid z_def)
  with k kj have "local_midnight w (d1 + 1) = a + SLOT * int n" by (simp add: e_def z_def algebra_simps)
  with first show "\<exists>d1. a = local_midnight w (local_date tz a) \<and> a + SLOT * int n = local_midnight w (d1 + 1)"
    unfolding d0_def by metis
next
  assume "\<exists>d1. a = local_midnight w (local_date tz a) \<and> a + SLOT * int n = local_midnight w (d1 + 1)"
  then obtain d1 where ends: "a = local_midnight w (local_date tz a)" "a + SLOT * int n = local_midnight w (d1 + 1)"
    by blast
  show "\<forall>d\<in>local_date tz ` set (grid a n). set (day_starts w d) \<subseteq> set (grid a n)"
  proof (intro ballI day_starts_in_grid al a)
    fix d
    assume "d \<in> local_date tz ` set (grid a n)"
    then obtain t where t: "t \<in> set (grid a n)" "local_date tz t = d" by blast
    then have dt: "local_midnight w d \<le> t" "t < local_midnight w (d + 1)" using zone by blast+
    have at: "a \<le> t" "t < a + SLOT * int n" using t(1) by (auto simp: set_grid)
    from at(1) dt(2) ends(1) have "local_midnight w (local_date tz a) < local_midnight w (d + 1)" by linarith
    with mono have "local_date tz a < d + 1" by (simp add: strict_mono_less)
    with mono ends(1) show "a \<le> local_midnight w d" by (metis strict_mono_less_eq zle_add1_eq_le)
    from at(2) dt(1) ends(2) have "local_midnight w d < local_midnight w (d1 + 1)" by linarith
    with mono have "d + 1 \<le> d1 + 1" by (simp add: strict_mono_less)
    with mono ends(2) show "local_midnight w (d + 1) \<le> a + SLOT * int n" by (metis strict_mono_less_eq)
  qed
qed

lemma horizon_ok_iff:
  assumes zone: "\<And>t d. local_date tz t = d \<longleftrightarrow> local_midnight of_wall d \<le> t \<and> t < local_midnight of_wall (d + 1)"
    and mono: "strict_mono (local_midnight of_wall)" and al: "\<And>d. SLOT dvd local_midnight of_wall d"
  shows "ph_ok (validate_price_horizon slots now tz of_wall) \<longleftrightarrow>
           (\<forall>s\<in>set slots. rp_origin s \<noteq> ''fixed_backup'') \<and>
           (\<exists>t d0 d1. now = Aware t \<and> d0 \<le> local_date tz t \<and> local_date tz t \<le> d1 \<and>
              map rp_start slots = map Aware (grid (local_midnight of_wall d0) (length slots)) \<and>
              (\<forall>s\<in>set slots. rp_eur s \<noteq> None) \<and>
              SLOT * int (length slots) = local_midnight of_wall (d1 + 1) - local_midnight of_wall d0)"
    (is "?ok \<longleftrightarrow> ?live \<and> ?days")
proof
  assume ?ok
  then obtain t a where ne: "slots \<noteq> []" "?live" and t: "now = Aware t" "a \<le> t" "t < a + SLOT * int (length slots)"
    and a: "slot_run slots a"
    and full: "\<forall>d\<in>local_date tz ` set (grid a (length slots)). set (day_starts of_wall d) \<subseteq> set (grid a (length slots))"
    unfolding price_horizon_ok by blast
  from full_days [OF zone mono al, of "length slots" a] full ne(1) a
  obtain d1 where d1: "a = local_midnight of_wall (local_date tz a)"
    "a + SLOT * int (length slots) = local_midnight of_wall (d1 + 1)"
    by (auto simp: slot_run_def)
  have now: "local_midnight of_wall (local_date tz t) \<le> t" "t < local_midnight of_wall (local_date tz t + 1)"
    using zone by blast+
  have "local_midnight of_wall (local_date tz a) < local_midnight of_wall (local_date tz t + 1)"
    "local_midnight of_wall (local_date tz t) < local_midnight of_wall (d1 + 1)"
    using t(2,3) now d1 by linarith+
  then have "local_date tz a < local_date tz t + 1" "local_date tz t < d1 + 1"
    unfolding strict_mono_less [OF mono] by blast+
  then have "local_date tz a \<le> local_date tz t" "local_date tz t \<le> d1" by simp_all
  moreover have "map rp_start slots = map Aware (grid (local_midnight of_wall (local_date tz a)) (length slots))"
    "\<forall>s\<in>set slots. rp_eur s \<noteq> None"
    using a unfolding d1(1) [symmetric] by (simp_all add: slot_run_def list_all_iff)
  moreover have "SLOT * int (length slots) = local_midnight of_wall (d1 + 1) - local_midnight of_wall (local_date tz a)"
    using d1 by simp
  ultimately show "?live \<and> ?days" using ne(2) t(1) by blast
next
  assume r: "?live \<and> ?days"
  then obtain t d0 d1 where t: "now = Aware t" "d0 \<le> local_date tz t" "local_date tz t \<le> d1"
    and run: "map rp_start slots = map Aware (grid (local_midnight of_wall d0) (length slots))"
      "\<forall>s\<in>set slots. rp_eur s \<noteq> None"
    and len: "local_midnight of_wall d0 + SLOT * int (length slots) = local_midnight of_wall (d1 + 1)" by fastforce
  define a where "a = local_midnight of_wall d0"
  have now: "local_midnight of_wall (local_date tz t) \<le> t" "t < local_midnight of_wall (local_date tz t + 1)"
    using zone by blast+
  have le: "a \<le> local_midnight of_wall (local_date tz t)" "local_midnight of_wall (local_date tz t + 1) \<le> a + SLOT * int (length slots)"
    unfolding a_def len using t(2,3) by (simp_all add: strict_mono_less_eq [OF mono])
  with now have ne: "slots \<noteq> []" by auto
  have day0: "local_date tz a = d0" unfolding zone a_def by (simp add: strict_mono_less [OF mono])
  have "\<forall>d\<in>local_date tz ` set (grid a (length slots)). set (day_starts of_wall d) \<subseteq> set (grid a (length slots))"
    using full_days [OF zone mono al, of "length slots" a] ne al day0 len by (auto simp: a_def)
  moreover have "slot_run slots a" using run al by (simp add: slot_run_def list_all_iff a_def)
  moreover have "a \<le> t" "t < a + SLOT * int (length slots)" using le now by linarith+
  ultimately show ?ok unfolding price_horizon_ok using r ne t(1) by blast
qed

text \<open>
  C9. A price feed may drive control only as whole local days. On a site whose local days follow one
  another from midnight to midnight, on the quarter hour, the check accepts exactly the feeds without a
  fixed backup tariff that are aware, finite, consecutive quarter hours from the midnight of one local day
  to the end of another, now lying in between: as many slots as the zone gives each day (92, 96 or 100 in
  Europe), none missing, doubled or out of order. The loop over a day ends for every zone.
\<close>

theorem price_horizon_is_whole_days:
  assumes zone: "\<And>t d. local_date tz t = d \<longleftrightarrow> local_midnight of_wall d \<le> t \<and> t < local_midnight of_wall (d + 1)"
    and mono: "strict_mono (local_midnight of_wall)" and al: "\<And>d. SLOT dvd local_midnight of_wall d"
  shows "ph_ok (validate_price_horizon slots now tz of_wall) \<longleftrightarrow>
           (\<forall>s\<in>set slots. rp_origin s \<noteq> ''fixed_backup'') \<and>
           (\<exists>t d0 d1. now = Aware t \<and> d0 \<le> local_date tz t \<and> local_date tz t \<le> d1 \<and>
              map rp_start slots = map Aware (grid (local_midnight of_wall d0) (length slots)) \<and>
              (\<forall>s\<in>set slots. rp_eur s \<noteq> None) \<and>
              SLOT * int (length slots) = local_midnight of_wall (d1 + 1) - local_midnight of_wall d0)"
  using assms by (rule horizon_ok_iff)

text \<open>A full day under UTC passes; one slot less does not.\<close>

definition demo_day :: "nat \<Rightarrow> raw_price list" where
  "demo_day n = map (\<lambda>i. \<lparr>rp_start = Aware (SLOT * int i), rp_eur = Some (1/10), rp_origin = ''live''\<rparr>) [0..<n]"

lemma demo_site:
  "local_date utc t = d \<longleftrightarrow> local_midnight (\<lambda>x. x) d \<le> t \<and> t < local_midnight (\<lambda>x. x) (d + 1)"
  "strict_mono (local_midnight (\<lambda>x. x))" "SLOT dvd local_midnight (\<lambda>x. x) d"
  by (auto simp: local_date_def utc_def local_midnight_def strict_mono_def)

lemma demo_feed:
  "local_date utc us_hour = 0" "map rp_start (demo_day n) = map Aware (grid 0 n)" "length (demo_day n) = n"
  "\<forall>s\<in>set (demo_day n). rp_origin s \<noteq> ''fixed_backup'' \<and> rp_eur s \<noteq> None"
  by (simp_all add: demo_day_def grid_def local_date_def utc_def del: not_None_eq)

lemma demo_feed_ok: "ph_ok (validate_price_horizon (demo_day 96) (Aware us_hour) utc (\<lambda>x. x))"
  unfolding horizon_ok_iff [OF demo_site]
  using demo_feed by (auto simp: local_midnight_def intro!: exI [of _ 0])

theorem price_horizon_is_whole_days_witness:
  "ph_ok (validate_price_horizon (demo_day 96) (Aware us_hour) utc (\<lambda>x. x)) \<and>
   \<not> ph_ok (validate_price_horizon (demo_day 95) (Aware us_hour) utc (\<lambda>x. x))"
  unfolding price_horizon_is_whole_days [OF demo_site]
  using demo_feed by (auto simp: local_midnight_def intro!: exI [of _ 0])

end
