(* ===== verification/IndevoltDriver.thy ===== *)
theory IndevoltDriver
  imports BatteryDriver JsonValue
begin

section \<open>The Indevolt driver (\<open>ems/sources/indevolt_driver.py\<close>)\<close>

text \<open>
  The one place that can change the battery. A command becomes a list of single-register writes; each
  is posted to a tower and retried when the transport fails; a tower that answers without a true
  \<open>result\<close> refuses the command. The transport is an argument: any function of the tower, the register,
  the values and the state of the outside world, which answers a JSON value or raises (\<open>None\<close>). What the
  driver did is kept as a log of posts, with their answers, and of the pauses between them.
\<close>

abbreviation K_STATE :: int where "K_STATE \<equiv> 6001"
abbreviation K_MODE :: int where "K_MODE \<equiv> 7101"

abbreviation P_MODE :: int where "P_MODE \<equiv> 47005"
abbreviation P_STATE :: int where "P_STATE \<equiv> 47015"
abbreviation P_POWER :: int where "P_POWER \<equiv> 47016"
abbreviation P_SOC :: int where "P_SOC \<equiv> 47017"

definition MODE_SELF :: int where "MODE_SELF = 1"
definition MODE_REALTIME :: int where "MODE_REALTIME = 4"
definition W_IDLE :: int where "W_IDLE = 0"
definition W_CHARGE :: int where "W_CHARGE = 1"
definition W_DISCHARGE :: int where "W_DISCHARGE = 2"
definition MIN_POWER_W :: int where "MIN_POWER_W = 50"
definition MAX_POWER_W :: int where "MAX_POWER_W = 2400"
definition MIN_SOC :: int where "MIN_SOC = 5"

lemmas register_values = MODE_SELF_def MODE_REALTIME_def W_IDLE_def W_CHARGE_def W_DISCHARGE_def

subsection \<open>A command as register writes\<close>

definition setdata_writes ::
  "physical_mode \<Rightarrow> int \<Rightarrow> int option \<Rightarrow> int \<Rightarrow> py_error + (int \<times> int list) list" where
  "setdata_writes m power_w target_soc max_power_w =
     (let realtime = (\<lambda>state. case target_soc of
            None \<Rightarrow> Inl ValueError
          | Some soc \<Rightarrow> Inr [(P_MODE, [MODE_REALTIME]), (P_POWER, [max MIN_POWER_W (min max_power_w power_w)]),
                            (P_SOC, [max MIN_SOC (min 100 soc)]), (P_STATE, [state])])
      in case m of
           AUTO \<Rightarrow> Inr [(P_MODE, [MODE_SELF])]
         | IDLE \<Rightarrow> Inr [(P_MODE, [MODE_REALTIME]), (P_STATE, [W_IDLE])]
         | CHARGE \<Rightarrow> realtime W_CHARGE
         | DISCHARGE \<Rightarrow> realtime W_DISCHARGE)"

text \<open>The mode registers read back; an unhashable state value raises in the table lookup.\<close>

definition mode_from_data :: "(int \<times> json) list \<Rightarrow> py_error + physical_mode" where
  "mode_from_data data =
     (if map_of data K_MODE = Some (JNum 4)
      then case opt_else (map_of data K_STATE) JNull of
             JArr _ \<Rightarrow> Inl TypeError
           | JObj _ \<Rightarrow> Inl TypeError
           | v \<Rightarrow> Inr (if v = JNum 1001 then CHARGE else if v = JNum 1002 then DISCHARGE else IDLE)
      else Inr AUTO)"

subsection \<open>The driver\<close>

datatype io_event =
    Posted string int "int list" "json option"   \<comment> \<open>tower, register, values; the answer, \<open>None\<close> when it raised\<close>
  | Slept real

type_synonym 'w transport = "string \<Rightarrow> int \<Rightarrow> int list \<Rightarrow> 'w \<Rightarrow> json option \<times> 'w"

record indevolt_driver =
  iv_ips :: "string list"
  iv_armed :: bool
  iv_charge_w :: int
  iv_discharge_w :: int
  iv_attempts :: nat
  iv_backoff :: real
  iv_transport :: bool

definition cluster_ips :: "string option list \<Rightarrow> string list" where
  "cluster_ips candidates =
     foldl (\<lambda>ips c. let a = py_strip (opt_else c []) in if a \<noteq> [] \<and> a \<notin> set ips then ips @ [a] else ips)
       [] candidates"

definition indevolt_init ::
  "string \<Rightarrow> string option list \<Rightarrow> bool \<Rightarrow> real \<Rightarrow> real option \<Rightarrow> int \<Rightarrow> real \<Rightarrow> bool \<Rightarrow> indevolt_driver" where
  "indevolt_init ip extra_ips armed charge_w discharge_w write_attempts backoff transport =
     \<lparr>iv_ips = cluster_ips (Some ip # extra_ips), iv_armed = armed, iv_charge_w = py_int charge_w,
      iv_discharge_w = py_int (opt_else discharge_w charge_w), iv_attempts = nat (max 1 write_attempts),
      iv_backoff = max 0 backoff, iv_transport = transport\<rparr>"

definition set_power_limits :: "indevolt_driver \<Rightarrow> real \<Rightarrow> real \<Rightarrow> indevolt_driver" where
  "set_power_limits d c w = d\<lparr>iv_charge_w := py_int c, iv_discharge_w := py_int w\<rparr>"

text \<open>\<open>probe\<close> on the registers the device answered.\<close>

definition probe :: "indevolt_driver \<Rightarrow> (int \<times> json) list \<Rightarrow> py_error + capability_report" where
  "probe d data =
     (if data = [] then Inl DeviceError
      else
        let limit = (\<lambda>w. if max 1 (length (iv_ips d)) = 1 then min (real_of_int w) (real_of_int MAX_POWER_W)
                         else real_of_int w)
        in Inr \<lparr>cap_services = [''charge'', ''discharge''],
                cap_energy_mode_options = [''self_consumption'', ''real_time_control''],
                cap_has_standby = True, cap_has_grid_charge_switch = True,
                cap_p1_paired = (map_of data 7120 = Some (JNum 1000)),
                cap_max_charge_w = limit (iv_charge_w d), cap_max_discharge_w = limit (iv_discharge_w d),
                cap_supports_discharge_control = True, cap_supports_grid_charge = True,
                cap_supports_standby = True, cap_min_power_w = real_of_int MIN_POWER_W,
                cap_min_target_soc = real_of_int MIN_SOC\<rparr>)"

text \<open>
  One register write: \<open>left\<close> attempts are left, \<open>attempt\<close> were made. It answers the first response, or
  \<open>None\<close> when every attempt raised.
\<close>

fun post_with_retry ::
  "'w transport \<Rightarrow> real \<Rightarrow> string \<Rightarrow> int \<Rightarrow> int list \<Rightarrow> nat \<Rightarrow> nat \<Rightarrow> 'w \<Rightarrow> json option \<times> io_event list \<times> 'w" where
  "post_with_retry post backoff ip p v attempt 0 w = (None, [], w)"
| "post_with_retry post backoff ip p v attempt (Suc left) w =
     (case post ip p v w of
        (Some r, w1) \<Rightarrow> (Some r, [Posted ip p v (Some r)], w1)
      | (None, w1) \<Rightarrow>
          (case post_with_retry post backoff ip p v (attempt + 1) left w1 of
             (r, evs, w2) \<Rightarrow>
               (r, Posted ip p v None #
                   (if 0 < left \<and> backoff \<noteq> 0 then [Slept (backoff * real (attempt + 1))] else []) @ evs, w2)))"

fun answered_true :: "json \<Rightarrow> bool" where
  "answered_true (JObj kvs) = truthy (json_get kvs ''result'')"
| "answered_true _ = False"

text \<open>The writes of a command, in order, up to the first that is refused or not confirmed.\<close>

fun write_all ::
  "'w transport \<Rightarrow> indevolt_driver \<Rightarrow> (string \<times> int \<times> int list) list \<Rightarrow> 'w
     \<Rightarrow> apply_result \<times> io_event list \<times> 'w" where
  "write_all post d [] w = (Accepted, [], w)"
| "write_all post d ((ip, p, v) # ws) w =
     (case post_with_retry post (iv_backoff d) ip p v 0 (iv_attempts d) w of
        (None, evs, w1) \<Rightarrow> (Unconfirmed, evs, w1)
      | (Some r, evs, w1) \<Rightarrow>
          if \<not> answered_true r then (Refused, evs, w1)
          else (case write_all post d ws w1 of (res, evs2, w2) \<Rightarrow> (res, evs @ evs2, w2)))"

definition configured_w :: "indevolt_driver \<Rightarrow> physical_mode \<Rightarrow> int" where
  "configured_w d m = (if m = DISCHARGE then iv_discharge_w d else iv_charge_w d)"

definition cluster_max_w :: "indevolt_driver \<Rightarrow> physical_mode \<Rightarrow> int" where
  "cluster_max_w d m = max (int (length (iv_ips d)) * MAX_POWER_W) (configured_w d m)"

definition command_writes ::
  "indevolt_driver \<Rightarrow> physical_mode \<Rightarrow> real option \<Rightarrow> real option \<Rightarrow> py_error + (string \<times> int \<times> int list) list" where
  "command_writes d m target_soc power_w =
     (let total = max MIN_POWER_W (min (cluster_max_w d m)
                    (case power_w of Some x \<Rightarrow> py_int x | None \<Rightarrow> configured_w d m));
          targets = (if m = AUTO then iv_ips d else take 1 (iv_ips d))
      in if targets = [] then Inr []
         else case setdata_writes m total (map_option py_int target_soc) (cluster_max_w d m) of
                Inl e \<Rightarrow> Inl e
              | Inr ws \<Rightarrow> Inr (concat (map (\<lambda>ip. map (\<lambda>(p, v). (ip, p, v)) ws) targets)))"

definition indevolt_apply ::
  "'w transport \<Rightarrow> indevolt_driver \<Rightarrow> physical_mode \<Rightarrow> real option \<Rightarrow> real option \<Rightarrow> 'w
     \<Rightarrow> apply_result \<times> io_event list \<times> 'w" where
  "indevolt_apply post d m target_soc power_w w =
     (if \<not> iv_armed d then (Refused, [], w)
      else if m \<in> {CHARGE, DISCHARGE} \<and> target_soc = None then (Refused, [], w)
      else if \<not> iv_transport d then (Refused, [], w)
      else case command_writes d m target_soc power_w of
             Inl e \<Rightarrow> (Raised, [], w)
           | Inr ws \<Rightarrow> write_all post d ws w)"

subsection \<open>What a command writes\<close>

fun is_post :: "io_event \<Rightarrow> bool" where
  "is_post (Posted _ _ _ _) = True"
| "is_post (Slept _) = False"

text \<open>The writes a tower took, in order.\<close>

fun taken_write :: "io_event \<Rightarrow> (string \<times> int \<times> int list) option" where
  "taken_write (Posted ip p v (Some j)) = (if answered_true j then Some (ip, p, v) else None)"
| "taken_write _ = None"

definition taken :: "io_event list \<Rightarrow> (string \<times> int \<times> int list) list" where
  "taken evs = List.map_filter taken_write evs"

lemma taken_simps [simp]:
  "taken [] = []" "taken (xs @ ys) = taken xs @ taken ys"
  "taken (e # es) = (case taken_write e of Some x \<Rightarrow> x # taken es | None \<Rightarrow> taken es)"
  by (simp_all add: taken_def List.map_filter_def split: option.split)

lemma post_with_retry_spec:
  "post_with_retry post b ip p v a n w = (r, evs, w') \<Longrightarrow>
     (\<forall>e\<in>set evs. is_post e \<longrightarrow> (\<exists>j. e = Posted ip p v j)) \<and> length (filter is_post evs) \<le> n \<and>
     taken evs = (case r of Some j \<Rightarrow> if answered_true j then [(ip, p, v)] else [] | None \<Rightarrow> [])"
proof (induction post b ip p v a n w arbitrary: r evs w' rule: post_with_retry.induct)
  case (2 post b ip p v a left w)
  show ?case
  proof (cases "post ip p v w")
    case (Pair x w1)
    show ?thesis
    proof (cases x)
      case None
      obtain r1 evs1 w2 where rest: "post_with_retry post b ip p v (a + 1) left w1 = (r1, evs1, w2)"
        by (metis prod_cases3)
      from "2.IH" [OF Pair [symmetric] None rest] "2.prems" Pair None rest show ?thesis by (auto split: option.splits)
    qed (use "2.prems" Pair in auto)
  qed
qed simp

lemma write_all_spec:
  "write_all post d ws w = (res, evs, w') \<Longrightarrow>
     \<exists>k\<le>length ws. taken evs = take k ws \<and> (res = Accepted \<longleftrightarrow> k = length ws) \<and> res \<noteq> Raised \<and>
       (\<forall>ip p v j. Posted ip p v j \<in> set evs \<longrightarrow> (ip, p, v) \<in> set (take (Suc k) ws)) \<and>
       length (filter is_post evs) \<le> iv_attempts d * length ws"
proof (induction post d ws w arbitrary: res evs w' rule: write_all.induct)
  case (1 post d w)
  then show ?case by auto
next
  case (2 post d ip p v ws w)
  obtain r e1 w1 where one: "post_with_retry post (iv_backoff d) ip p v 0 (iv_attempts d) w = (r, e1, w1)"
    by (metis prod_cases3)
  note e1 = post_with_retry_spec [OF one]
  then have here: "(ip', p', v') = (ip, p, v)" if "Posted ip' p' v' j \<in> set e1" for ip' p' v' j
    using that by fastforce
  show ?case
  proof (cases "\<exists>j. r = Some j \<and> answered_true j")
    case False
    with "2.prems" one have "evs = e1" "res \<in> {Refused, Unconfirmed}" by (auto split: option.splits if_splits)
    with e1 here False show ?thesis
      by (intro exI [of _ 0]) (auto split: option.splits if_splits dest: here)
  next
    case True
    then obtain j where j: "r = Some j" "answered_true j" by blast
    obtain res2 e2 w2 where rest: "write_all post d ws w1 = (res2, e2, w2)" by (metis prod_cases3)
    from "2.IH" [OF one [symmetric] j(1) refl _ rest] j(2) obtain k where k: "k \<le> length ws" "taken e2 = take k ws"
      "res2 = Accepted \<longleftrightarrow> k = length ws" "res2 \<noteq> Raised"
      "\<And>ip p v j. Posted ip p v j \<in> set e2 \<Longrightarrow> (ip, p, v) \<in> set (take (Suc k) ws)"
      "length (filter is_post e2) \<le> iv_attempts d * length ws" by blast
    from "2.prems" one j rest have "evs = e1 @ e2" "res = res2" by auto
    with k e1 j here show ?thesis
      by (intro exI [of _ "Suc k"]) (auto dest: here)
  qed
qed

text \<open>A command to the cluster: the vendor mode to every tower, anything else to the first one only.\<close>

lemma auto_writes:
  "command_writes d AUTO ts pw = Inr ws \<longleftrightarrow> ws = map (\<lambda>ip. (ip, P_MODE, [MODE_SELF])) (iv_ips d)"
  by (auto simp: command_writes_def setdata_writes_def Let_def concat_map_singleton)

lemma idle_writes:
  "command_writes d IDLE ts pw = Inr ws \<longleftrightarrow>
     ws = (case iv_ips d of [] \<Rightarrow> [] | ip # _ \<Rightarrow> [(ip, P_MODE, [MODE_REALTIME]), (ip, P_STATE, [W_IDLE])])"
  by (auto simp: command_writes_def setdata_writes_def split: list.splits)

lemma power_writes:
  assumes m: "m = CHARGE \<and> s = W_CHARGE \<or> m = DISCHARGE \<and> s = W_DISCHARGE"
    and ws: "command_writes d m (Some t) pw = Inr ws"
  shows "ws = [] \<and> iv_ips d = [] \<or>
     (\<exists>x y. iv_ips d \<noteq> [] \<and> MIN_POWER_W \<le> x \<and> x \<le> cluster_max_w d m \<and>
        MIN_SOC \<le> y \<and> y \<le> 100 \<and> (MIN_SOC \<le> py_int t \<and> py_int t \<le> 100 \<longrightarrow> y = py_int t) \<and>
        ws = map (\<lambda>(p, v). (hd (iv_ips d), p, v))
               [(P_MODE, [MODE_REALTIME]), (P_POWER, [x]), (P_SOC, [y]), (P_STATE, [s])])"
proof (cases "iv_ips d")
  case Nil
  with ws m show ?thesis by (auto simp: command_writes_def Let_def)
next
  case (Cons ip ips)
  have "MIN_POWER_W \<le> cluster_max_w d m" by (simp add: cluster_max_w_def Cons MIN_POWER_W_def MAX_POWER_W_def)
  with ws m Cons show ?thesis
    by (auto simp: command_writes_def setdata_writes_def Let_def MIN_SOC_def)
qed

lemma command_writes_size:
  "command_writes d m ts pw = Inr ws \<longrightarrow> length ws \<le> max 4 (length (iv_ips d))"
  by (cases m; cases "iv_ips d"; cases ts)
    (auto simp: command_writes_def setdata_writes_def Let_def concat_map_singleton split: if_splits)

lemma driver_never_raises:
  assumes "indevolt_apply post d m ts pw w = (res, evs, w')"
  shows "res \<noteq> Raised"
proof -
  have no: "command_writes d m ts pw \<noteq> Inl e" if "m \<in> {CHARGE, DISCHARGE} \<Longrightarrow> ts \<noteq> None" for e
    using that by (cases m) (auto simp: command_writes_def setdata_writes_def Let_def)
  show ?thesis
    using assms no write_all_spec [of post d _ w res evs w']
    by (auto simp: indevolt_apply_def split: if_splits sum.splits)
qed

text \<open>The trigger is the last of four: whoever got to it went through the other three.\<close>

lemma trigger_last:
  assumes ws: "ws = [(ip, P_MODE, a), (ip, P_POWER, b), (ip, P_SOC, c), (ip, P_STATE, [s])]" and k: "k \<le> length ws"
    and p: "(ip', P_STATE, [s']) \<in> set (take (Suc k) ws)"
  shows "ip' = ip \<and> s' = s \<and> take 3 (take k ws) = take 3 ws"
proof -
  from k consider "k = 0" | "k = 1" | "k = 2" | "3 \<le> k" unfolding ws by fastforce
  then show ?thesis
  proof cases
    case 4
    with p show ?thesis by (auto simp: ws min_def dest: in_set_takeD)
  qed (use p in \<open>auto simp: ws numeral_2_eq_2\<close>)
qed

text \<open>
  C8. Nothing leaves the driver but a sized command. An unarmed driver, or one without a transport,
  posts nothing. Towers other than the master are only ever told to go back to the vendor's
  self-consumption. Before the register that starts a charge or a discharge is posted, the same tower
  took the real-time mode, a power between 50 W and the ceiling of the cluster, and a target between 5
  and 100 percent, the commanded one where it lies in that range. However often the transport fails, a
  command makes at most as many posts as it has writes (\<open>command_writes\<close>: at most four, or one per
  tower) times the configured attempts, and none when its writes cannot be built. And a command
  raises nothing but the unconfirmed write (floats are real numbers here: the \<open>int()\<close> of a NaN does not
  arise).
\<close>

theorem driver_starts_only_sized_commands:
  assumes run: "indevolt_apply post d m ts pw w = (res, evs, w')"
  shows "(\<forall>ip p v a. Posted ip p v a \<in> set evs \<longrightarrow> iv_armed d \<and> iv_transport d \<and> ip \<in> set (iv_ips d) \<and>
            (ip = hd (iv_ips d) \<or> m = AUTO \<and> p = P_MODE \<and> v = [MODE_SELF])) \<and>
         (\<forall>ip s a. Posted ip P_STATE [s] a \<in> set evs \<and> s \<noteq> W_IDLE \<longrightarrow>
            (\<exists>t x y. ts = Some t \<and> m = (if s = W_CHARGE then CHARGE else DISCHARGE) \<and>
               50 \<le> x \<and> x \<le> cluster_max_w d m \<and> 5 \<le> y \<and> y \<le> 100 \<and>
               (5 \<le> py_int t \<and> py_int t \<le> 100 \<longrightarrow> y = py_int t) \<and>
               take 3 (taken evs) = [(ip, P_MODE, [MODE_REALTIME]), (ip, P_POWER, [x]), (ip, P_SOC, [y])])) \<and>
         length (filter is_post evs)
           \<le> iv_attempts d * (case command_writes d m ts pw of Inr ws \<Rightarrow> length ws | Inl _ \<Rightarrow> 0) \<and>
         (\<forall>ws. command_writes d m ts pw = Inr ws \<longrightarrow> length ws \<le> max 4 (length (iv_ips d))) \<and>
         res \<noteq> Raised"
proof (cases "evs = []")
  case True
  with run show ?thesis using command_writes_size [of d m ts pw] driver_never_raises [OF run] by simp
next
  case False
  with run have armed: "iv_armed d" "iv_transport d" and target: "m \<in> {CHARGE, DISCHARGE} \<Longrightarrow> ts \<noteq> None"
    by (auto simp: indevolt_apply_def split: if_splits)
  from run False armed target obtain ws where ws: "command_writes d m ts pw = Inr ws"
    and all: "write_all post d ws w = (res, evs, w')"
    by (auto simp: indevolt_apply_def split: if_splits sum.splits)
  from write_all_spec [OF all] obtain k where k: "k \<le> length ws" "taken evs = take k ws"
    "\<And>ip p v j. Posted ip p v j \<in> set evs \<Longrightarrow> (ip, p, v) \<in> set (take (Suc k) ws)"
    "length (filter is_post evs) \<le> iv_attempts d * length ws" by blast
  have count: "length (filter is_post evs)
      \<le> iv_attempts d * (case command_writes d m ts pw of Inr ws \<Rightarrow> length ws | Inl _ \<Rightarrow> 0)" using k(4) ws by simp
  note rest = count command_writes_size [of d m ts pw] driver_never_raises [OF run]
  have posted: "(ip, p, v) \<in> set ws" if "Posted ip p v a \<in> set evs" for ip p v a
    using k(3) [OF that] by (rule in_set_takeD)
  have power: ?thesis if m: "m = CHARGE \<and> st = W_CHARGE \<or> m = DISCHARGE \<and> st = W_DISCHARGE" for st
  proof -
    from m target obtain t where t: "ts = Some t" by auto
    from power_writes [OF m ws [unfolded t]] posted show ?thesis
    proof (elim disjE conjE exE)
      assume "ws = []"
      with all False show ?thesis by simp
    next
      fix x y
      assume ip: "iv_ips d \<noteq> []" and x: "MIN_POWER_W \<le> x" "x \<le> cluster_max_w d m" and y: "MIN_SOC \<le> y" "y \<le> 100"
        "MIN_SOC \<le> py_int t \<and> py_int t \<le> 100 \<longrightarrow> y = py_int t"
        and four: "ws = map (\<lambda>(p, v). (hd (iv_ips d), p, v))
                  [(P_MODE, [MODE_REALTIME]), (P_POWER, [x]), (P_SOC, [y]), (P_STATE, [st])]"
      from four have ws4: "ws = [(hd (iv_ips d), P_MODE, [MODE_REALTIME]), (hd (iv_ips d), P_POWER, [x]),
          (hd (iv_ips d), P_SOC, [y]), (hd (iv_ips d), P_STATE, [st])]" by simp
      have "ip' = hd (iv_ips d) \<and> s = st \<and> take 3 (taken evs) = take 3 ws"
        if "Posted ip' P_STATE [s] a \<in> set evs" for ip' s a
        using trigger_last [OF ws4 k(1) k(3) [OF that]] unfolding k(2) .
      moreover have "ip' = hd (iv_ips d) \<and> ip' \<in> set (iv_ips d)" if "Posted ip' p v a \<in> set evs" for ip' p v a
        using posted [OF that] ip by (auto simp: ws4)
      moreover have "m = (if st = W_CHARGE then CHARGE else DISCHARGE)" using m by (auto simp: register_values)
      ultimately show ?thesis
        using x y t armed rest by (auto simp: ws4 MIN_POWER_W_def MIN_SOC_def)
    qed
  qed
  show ?thesis
  proof (cases m)
    case AUTO
    then have "ws = map (\<lambda>ip. (ip, P_MODE, [MODE_SELF])) (iv_ips d)" using ws unfolding AUTO auto_writes by simp
    then show ?thesis using AUTO armed rest by (auto dest!: posted)
  next
    case IDLE
    then have "ws = (case iv_ips d of [] \<Rightarrow> [] | ip # _ \<Rightarrow> [(ip, P_MODE, [MODE_REALTIME]), (ip, P_STATE, [W_IDLE])])"
      using ws unfolding IDLE idle_writes by simp
    then show ?thesis using armed rest by (auto dest!: posted split: list.splits)
  next
    case CHARGE
    then show ?thesis by (intro power [of W_CHARGE]) simp
  next
    case DISCHARGE
    then show ?thesis by (intro power [of W_DISCHARGE]) simp
  qed
qed

text \<open>A cluster of two towers that takes every write, and one whose power register is refused.\<close>

definition demo_tower :: "int set \<Rightarrow> nat transport" where
  "demo_tower refused ip p v w = (Some (JObj [(''result'', JBool (p \<notin> refused))]), Suc w)"

definition demo_indevolt :: indevolt_driver where
  "demo_indevolt = indevolt_init ''10.0.0.2'' [Some '' 10.0.0.3 '', None, Some ''10.0.0.2''] True 4800 None 2 (1/2) True"

lemma demo_indevolt_eval:
  "demo_indevolt = \<lparr>iv_ips = [''10.0.0.2'', ''10.0.0.3''], iv_armed = True, iv_charge_w = 4800,
     iv_discharge_w = 4800, iv_attempts = 2, iv_backoff = 1/2, iv_transport = True\<rparr>"
  by (simp add: demo_indevolt_def indevolt_init_def cluster_ips_def py_strip_def blank_def py_int_def)

lemmas driver_eval = demo_indevolt_eval indevolt_apply_def command_writes_def setdata_writes_def cluster_max_w_def
  configured_w_def demo_tower_def json_get_def py_int_def register_values MIN_POWER_W_def MAX_POWER_W_def
  MIN_SOC_def numeral_2_eq_2

theorem driver_starts_only_sized_commands_witness:
  "case indevolt_apply (demo_tower {}) demo_indevolt CHARGE (Some 80) (Some 9000) 0 of
     (res, evs, w) \<Rightarrow> res = Accepted \<and> length (filter is_post evs) \<le> 8 \<and>
       take 3 (taken evs) = [(''10.0.0.2'', P_MODE, [4]), (''10.0.0.2'', P_POWER, [4800]), (''10.0.0.2'', P_SOC, [80])]"
proof -
  obtain res evs w where run: "indevolt_apply (demo_tower {}) demo_indevolt CHARGE (Some 80) (Some 9000) 0 = (res, evs, w)"
    by (metis prod_cases3)
  have "length (filter is_post evs) \<le> iv_attempts demo_indevolt *
      (case command_writes demo_indevolt CHARGE (Some 80) (Some 9000) of Inr ws \<Rightarrow> length ws | Inl _ \<Rightarrow> 0)"
    using driver_starts_only_sized_commands [OF run] by blast
  then have "length (filter is_post evs) \<le> 8" by (simp add: driver_eval)
  moreover have "res = Accepted" "taken evs = [(''10.0.0.2'', P_MODE, [4]), (''10.0.0.2'', P_POWER, [4800]),
      (''10.0.0.2'', P_SOC, [80]), (''10.0.0.2'', P_STATE, [1])]"
    using run by (simp_all add: driver_eval) (auto simp: json_get_def)
  ultimately show ?thesis by (simp add: run)
qed

text \<open>
  A refused command is no promise that nothing changed: when the power register is refused the tower
  is already in the real-time mode. The mode controller therefore commands the vendor mode next.
\<close>

lemma refused_command_changed_mode:
  "case indevolt_apply (demo_tower {P_POWER}) demo_indevolt CHARGE (Some 80) None 0 of
     (res, evs, w) \<Rightarrow> res = Refused \<and> taken evs = [(''10.0.0.2'', P_MODE, [4])]"
  by (simp add: driver_eval)

end
