(* ===== verification/ClusterReader.thy ===== *)
theory ClusterReader
  imports IndevoltDriver
begin

section \<open>Reading the towers (\<open>ems/sources/indevolt.py\<close>)\<close>

text \<open>
  The read side of the battery: what one tower answers, the cluster as one battery, and the quiesce that
  keeps reads off the device while a write lands. Times are seconds of a monotonic clock. The answer of
  each tower is an input of the read: its registers, or \<open>None\<close> when the request raised.
\<close>

abbreviation K_SOC :: int where "K_SOC \<equiv> 6002"
abbreviation K_POWER :: int where "K_POWER \<equiv> 6000"
abbreviation K_CAPACITY :: int where "K_CAPACITY \<equiv> 142"
abbreviation K_ROLE :: int where "K_ROLE \<equiv> 606"

type_synonym registers = "(int \<times> json) list"

definition tower_mode_label :: "json \<Rightarrow> json \<Rightarrow> string option" where
  "tower_mode_label mode_reg state_reg =
     (case json_int mode_reg of
        Inl _ \<Rightarrow> None
      | Inr m \<Rightarrow>
          if m = 1 then Some ''self-consumption''
          else if m = 4 then
            Some (if state_reg = JNum 1001 then ''charging''
                  else if state_reg = JNum 1002 then ''discharging'' else ''standby'')
          else if m = 0 then Some ''outdoor'' else if m = 5 then Some ''schedule'' else None)"

definition role_label :: "int \<Rightarrow> string option" where
  "role_label n = (if n = 1000 then Some ''master'' else if n = 1001 then Some ''slave''
                   else if n = 1002 then Some ''none'' else None)"

definition signed_battery_power :: "real \<Rightarrow> json \<Rightarrow> real" where
  "signed_battery_power magnitude state =
     (if state = JNum 1001 then - \<bar>magnitude\<bar> else if state = JNum 1002 then \<bar>magnitude\<bar> else 0)"

definition reg :: "registers \<Rightarrow> int \<Rightarrow> json" where
  "reg data k = opt_else (map_of data k) JNull"

text \<open>The single-tower client: power and state of charge, or \<open>BatteryUnavailable\<close>.\<close>

definition client_power_soc :: "registers option \<Rightarrow> py_error + real \<times> real" where
  "client_power_soc answer =
     (case answer of
        None \<Rightarrow> Inl DeviceError
      | Some data \<Rightarrow>
          if data = [] \<or> reg data K_SOC = JNull \<or> reg data K_POWER = JNull then Inl DeviceError
          else case (json_float (reg data K_POWER), json_float (reg data K_SOC)) of
                 (Inr mag, Inr soc) \<Rightarrow> Inr (signed_battery_power mag (reg data K_STATE), soc)
               | _ \<Rightarrow> Inl DeviceError)"

record tower_reading =
  tr_ip :: string
  tr_soc :: "real option"
  tr_power_w :: real
  tr_capacity :: "real option"
  tr_role :: "string option"
  tr_online :: bool
  tr_mode :: "string option"

subsection \<open>The cluster as one battery\<close>

text \<open>Capacity-weighted when every tower that answered has a positive capacity, the plain mean otherwise.\<close>

definition known_capacity :: "(real \<times> real option) list \<Rightarrow> bool" where
  "known_capacity valid = list_all (\<lambda>(s, c). \<exists>x. c = Some x \<and> 0 < x) valid"

definition aggregate_soc :: "tower_reading list \<Rightarrow> py_error + real" where
  "aggregate_soc readings =
     (let valid = map (\<lambda>r. (the (tr_soc r), tr_capacity r)) (filter (\<lambda>r. tr_soc r \<noteq> None) readings)
      in if valid = [] then Inl ValueError
         else if known_capacity valid
         then Inr (sum_list (map (\<lambda>(s, c). s * the c) valid) / sum_list (map (\<lambda>(s, c). the c) valid))
         else Inr (sum_list (map fst valid) / real (length valid)))"

subsection \<open>The quiesce of the device\<close>

record quiesce =
  qu_in_flight :: int
  qu_quiet_until :: real
  qu_settle :: real




definition reads_suppressed :: "quiesce \<Rightarrow> real \<Rightarrow> bool" where
  "reads_suppressed q now \<longleftrightarrow> 0 < qu_in_flight q \<or> now < qu_quiet_until q"

subsection \<open>The reader\<close>

record cluster_reader =
  cr_clients :: "string list"
  cr_caps :: "string \<rightharpoonup> real"
  cr_roles :: "string \<rightharpoonup> string"
  cr_cache_seconds :: real
  cr_cache :: "(real \<times> tower_reading list) option"


text \<open>\<open>float(data["6002"])\<close> and the signed power, inside the guarded part; a missing key raises too.\<close>

definition dynamic_part :: "registers option \<Rightarrow> (real \<times> real) option" where
  "dynamic_part answer =
     (case answer of
        None \<Rightarrow> None
      | Some data \<Rightarrow>
          (case (json_float (reg data K_SOC), json_float (reg data K_POWER)) of
             (Inr soc, Inr mag) \<Rightarrow> Some (soc, signed_battery_power mag (reg data K_STATE))
           | _ \<Rightarrow> None))"

definition offline_reading :: "cluster_reader \<Rightarrow> string \<Rightarrow> tower_reading" where
  "offline_reading rd ip =
     \<lparr>tr_ip = ip, tr_soc = None, tr_power_w = 0, tr_capacity = cr_caps rd ip, tr_role = cr_roles rd ip,
      tr_online = False, tr_mode = None\<rparr>"

text \<open>The capacity register outside the guarded part: a value that is not a number raises.\<close>

definition note_capacity :: "cluster_reader \<Rightarrow> string \<Rightarrow> json \<Rightarrow> py_error + cluster_reader" where
  "note_capacity rd ip v =
     (if v = JNull then Inr rd
      else case json_float v of
             Inl e \<Rightarrow> Inl e
           | Inr c \<Rightarrow> Inr (if 0 < c then rd\<lparr>cr_caps := (cr_caps rd)(ip \<mapsto> c)\<rparr> else rd))"

definition note_role :: "cluster_reader \<Rightarrow> string \<Rightarrow> json \<Rightarrow> cluster_reader" where
  "note_role rd ip v =
     (case json_int v of
        Inl _ \<Rightarrow> rd
      | Inr n \<Rightarrow> (case role_label n of None \<Rightarrow> rd | Some r \<Rightarrow> rd\<lparr>cr_roles := (cr_roles rd)(ip \<mapsto> r)\<rparr>))"

definition read_one :: "cluster_reader \<Rightarrow> string \<Rightarrow> registers option \<Rightarrow> cluster_reader \<times> (py_error + tower_reading)" where
  "read_one rd ip answer =
     (case dynamic_part answer of
        None \<Rightarrow> (rd, Inr (offline_reading rd ip))
      | Some (soc, pw) \<Rightarrow>
          (let data = the answer
           in case note_capacity rd ip (reg data K_CAPACITY) of
                Inl e \<Rightarrow> (rd, Inl e)
              | Inr rd1 \<Rightarrow>
                  (let rd2 = note_role rd1 ip (reg data K_ROLE)
                   in (rd2, Inr \<lparr>tr_ip = ip, tr_soc = Some soc, tr_power_w = pw, tr_capacity = cr_caps rd2 ip,
                                 tr_role = cr_roles rd2 ip, tr_online = True,
                                 tr_mode = tower_mode_label (reg data K_MODE) (reg data K_STATE)\<rparr>))))"

fun read_each :: "(string \<Rightarrow> registers option) \<Rightarrow> cluster_reader \<Rightarrow> string list
                    \<Rightarrow> cluster_reader \<times> (py_error + tower_reading list)" where
  "read_each answers rd [] = (rd, Inr [])"
| "read_each answers rd (ip # ips) =
     (case read_one rd ip (answers ip) of
        (rd1, Inl e) \<Rightarrow> (rd1, Inl e)
      | (rd1, Inr t) \<Rightarrow>
          (case read_each answers rd1 ips of
             (rd2, Inl e) \<Rightarrow> (rd2, Inl e)
           | (rd2, Inr ts) \<Rightarrow> (rd2, Inr (t # ts))))"

definition serves_cache :: "quiesce \<Rightarrow> cluster_reader \<Rightarrow> real \<Rightarrow> tower_reading list option" where
  "serves_cache q rd now =
     (case cr_cache rd of
        None \<Rightarrow> None
      | Some (t, towers) \<Rightarrow>
          if now - t < cr_cache_seconds rd \<or> reads_suppressed q now then Some towers else None)"

definition read_towers :: "quiesce \<Rightarrow> (string \<Rightarrow> registers option) \<Rightarrow> cluster_reader \<Rightarrow> real
                             \<Rightarrow> cluster_reader \<times> (py_error + tower_reading list)" where
  "read_towers q answers rd now =
     (case serves_cache q rd now of
        Some towers \<Rightarrow> (rd, Inr towers)
      | None \<Rightarrow>
          (case read_each answers rd (cr_clients rd) of
             (rd1, Inl e) \<Rightarrow> (rd1, Inl e)
           | (rd1, Inr towers) \<Rightarrow> (rd1\<lparr>cr_cache := Some (now, towers)\<rparr>, Inr towers)))"

definition read_power_soc :: "quiesce \<Rightarrow> (string \<Rightarrow> registers option) \<Rightarrow> cluster_reader \<Rightarrow> real
                                \<Rightarrow> cluster_reader \<times> (py_error + real \<times> real)" where
  "read_power_soc q answers rd now =
     (case read_towers q answers rd now of
        (rd1, Inl e) \<Rightarrow> (rd1, Inl e)
      | (rd1, Inr towers) \<Rightarrow>
          (let online = filter (\<lambda>t. tr_online t \<and> tr_soc t \<noteq> None) towers
           in (rd1, if online = [] then Inl DeviceError
                    else bind_res (aggregate_soc online) (\<lambda>soc. Inr (sum_list (map tr_power_w online), soc)))))"

subsection \<open>The state of charge of a cluster lies between its towers\<close>

lemma sum_list_pos: "xs \<noteq> [] \<Longrightarrow> (\<And>x. x \<in> set xs \<Longrightarrow> 0 < (x::real)) \<Longrightarrow> 0 < sum_list xs"
  by (induction xs) (auto intro: add_pos_nonneg add_pos_pos simp: sum_list_nonneg less_imp_le)

lemma weighted_mean_bounds:
  assumes "xs \<noteq> []" and w: "\<And>x. x \<in> set xs \<Longrightarrow> 0 < w x" and b: "\<And>x. x \<in> set xs \<Longrightarrow> lo \<le> f x \<and> f x \<le> (hi::real)"
  shows "lo \<le> sum_list (map (\<lambda>x. f x * w x) xs) / sum_list (map w xs) \<and>
         sum_list (map (\<lambda>x. f x * w x) xs) / sum_list (map w xs) \<le> hi"
proof -
  have pos: "0 < sum_list (map w xs)" using assms(1) w by (intro sum_list_pos) auto
  have "sum_list (map (\<lambda>x. lo * w x) xs) \<le> sum_list (map (\<lambda>x. f x * w x) xs)"
    "sum_list (map (\<lambda>x. f x * w x) xs) \<le> sum_list (map (\<lambda>x. hi * w x) xs)"
    using w b by (auto intro!: sum_list_map_mono mult_right_mono simp: less_imp_le)
  with pos show ?thesis by (simp add: sum_list_const_mult field_simps)
qed

lemma aggregate_soc_bounds:
  assumes agg: "aggregate_soc readings = Inr soc"
    and b: "\<And>r s. r \<in> set readings \<Longrightarrow> tr_soc r = Some s \<Longrightarrow> lo \<le> s \<and> s \<le> hi"
  shows "lo \<le> soc \<and> soc \<le> hi"
proof -
  define valid where "valid = map (\<lambda>r. (the (tr_soc r), tr_capacity r)) (filter (\<lambda>r. tr_soc r \<noteq> None) readings)"
  have eq: "(if valid = [] then Inl ValueError
      else if known_capacity valid
      then Inr (sum_list (map (\<lambda>v. fst v * the (snd v)) valid) / sum_list (map (\<lambda>v. the (snd v)) valid))
      else Inr (sum_list (map fst valid) / real (length valid))) = Inr soc"
    using agg unfolding aggregate_soc_def valid_def [symmetric] Let_def case_prod_beta .
  then have ne: "valid \<noteq> []" by auto
  have in_range: "lo \<le> fst v \<and> fst v \<le> hi" if "v \<in> set valid" for v using that b by (auto simp: valid_def)
  show ?thesis
  proof (cases "known_capacity valid")
    case True
    then have w: "0 < the (snd v)" if "v \<in> set valid" for v
      using that by (auto simp: known_capacity_def list_all_iff)
    have "soc = sum_list (map (\<lambda>v. fst v * the (snd v)) valid) / sum_list (map (\<lambda>v. the (snd v)) valid)"
      using eq True ne by simp
    with weighted_mean_bounds [OF ne, of "\<lambda>v. the (snd v)" lo fst hi] w in_range show ?thesis by simp
  next
    case False
    have "soc = sum_list (map (\<lambda>v. fst v * 1) valid) / sum_list (map (\<lambda>v. 1) valid)"
      using eq False ne by (simp add: sum_list_triv)
    with weighted_mean_bounds [OF ne, of "\<lambda>v. 1" lo fst hi] in_range show ?thesis by simp
  qed
qed

subsection \<open>Reads and writes over time\<close>







subsection \<open>What a snapshot shows\<close>









subsection \<open>The contract of the reads\<close>












end
