(* ===== verification/LiveReads.thy ===== *)
theory LiveReads
  imports ClusterReader
begin

section \<open>Live readings (\<open>ems/sources/live.py\<close>, the coalesced reads of \<open>ems/control/service.py\<close>)\<close>

text \<open>
  How a reading reaches the control loop: the meters and the battery composed into one sample with the
  signals that were really read, and the cache that shares one read per window and remembers when the
  state of charge was last known. What each device answers is an input (\<open>None\<close> when the request raised);
  the cache is one value where the code guards it with a lock.
\<close>

subsection \<open>The composed source\<close>

type_synonym payload = "(string \<times> json) list"

record raw_sample =
  sm_grid_w :: real
  sm_solar_w :: real
  sm_battery_w :: real
  sm_ev_w :: real
  sm_soc_pct :: real
  sm_gas_m3 :: "real option"

text \<open>A meter the operator did not configure is \<open>None\<close>; the meter of the grid is always there.\<close>

record live_inputs =
  li_p1 :: "payload option"
  li_p1_again :: "payload option"          \<comment> \<open>the second request, made for the gas meter only\<close>
  li_solar :: "payload option option"
  li_car :: "payload option option"
  li_battery :: "(real \<times> real) option option"

record last_good =
  lg_grid :: real
  lg_solar :: real
  lg_ev :: real
  lg_battery :: real
  lg_soc :: real

definition live_init :: last_good where
  "live_init = \<lparr>lg_grid = 0, lg_solar = 0, lg_ev = 0, lg_battery = 0, lg_soc = 0\<rparr>"

definition meter_w :: "payload option \<Rightarrow> real option" where
  "meter_w answer =
     (case answer of
        None \<Rightarrow> None
      | Some p \<Rightarrow> (case map_of p ''active_power_w'' of
                     None \<Rightarrow> None
                   | Some v \<Rightarrow> (case json_float v of Inl _ \<Rightarrow> None | Inr x \<Rightarrow> Some x)))"

definition grid_w :: "payload option \<Rightarrow> real option" where "grid_w p1 = meter_w p1"

definition solar_w :: "payload option \<Rightarrow> real option" where
  "solar_w meter = map_option (\<lambda>x. max 0 (- x)) (meter_w meter)"

definition ev_w :: "payload option \<Rightarrow> real option" where
  "ev_w meter = map_option (\<lambda>x. max 0 x) (meter_w meter)"

definition gas_m3 :: "payload option \<Rightarrow> real option" where
  "gas_m3 answer =
     (case answer of
        None \<Rightarrow> None
      | Some p \<Rightarrow> (case opt_else (map_of p ''total_gas_m3'') JNull of
                     JNull \<Rightarrow> None
                   | v \<Rightarrow> (case json_float v of Inl _ \<Rightarrow> None | Inr x \<Rightarrow> Some x)))"

text \<open>\<open>attempt\<close>: the new value and the signal, or the last value and nothing.\<close>

definition attempt :: "string \<Rightarrow> real option \<Rightarrow> real \<Rightarrow> real \<times> string set" where
  "attempt signal result old = (case result of Some x \<Rightarrow> (x, {signal}) | None \<Rightarrow> (old, {}))"

definition configured :: "'a option \<Rightarrow> ('a \<Rightarrow> real option) \<Rightarrow> real option" where
  "configured meter f = (case meter of None \<Rightarrow> None | Some answer \<Rightarrow> f answer)"

definition battery_part :: "last_good \<Rightarrow> live_inputs \<Rightarrow> (real \<times> real) \<times> string set" where
  "battery_part lg inp =
     (case li_battery inp of
        Some (Some r) \<Rightarrow> (r, {''battery'', ''soc''})
      | _ \<Rightarrow> ((lg_battery lg, lg_soc lg), {}))"

definition read_sample :: "last_good \<Rightarrow> live_inputs \<Rightarrow> (raw_sample \<times> string set) \<times> last_good" where
  "read_sample lg inp =
     (let (g, f1) = attempt ''grid'' (grid_w (li_p1 inp)) (lg_grid lg);
          (s, f2) = attempt ''solar'' (configured (li_solar inp) solar_w) (lg_solar lg);
          (e, f3) = attempt ''ev'' (configured (li_car inp) ev_w) (lg_ev lg);
          ((b, soc), f4) = battery_part lg inp;
          gas = gas_m3 (case li_p1 inp of Some p \<Rightarrow> Some p | None \<Rightarrow> li_p1_again inp);
          lg' = \<lparr>lg_grid = g, lg_solar = s, lg_ev = e, lg_battery = b, lg_soc = soc\<rparr>
      in ((\<lparr>sm_grid_w = g, sm_solar_w = s, sm_battery_w = b, sm_ev_w = e, sm_soc_pct = soc, sm_gas_m3 = gas\<rparr>,
           f1 \<union> f2 \<union> f3 \<union> f4), lg'))"

subsection \<open>The window shared by the reads\<close>

definition LIVE_SAMPLE_COALESCE_SECONDS :: real where "LIVE_SAMPLE_COALESCE_SECONDS = 30"
definition SAMPLE_MAX_AGE_SECONDS :: real where "SAMPLE_MAX_AGE_SECONDS = 600"

text \<open>Settings as stored: a value \<open>float\<close> rejects gives the default.\<close>

definition coalesce_s :: "json \<Rightarrow> real" where
  "coalesce_s v = (case json_float (py_or v (JNum LIVE_SAMPLE_COALESCE_SECONDS)) of
                     Inl _ \<Rightarrow> LIVE_SAMPLE_COALESCE_SECONDS | Inr x \<Rightarrow> x)"

definition sample_max_age_s :: "json \<Rightarrow> real" where
  "sample_max_age_s v =
     (if v = JNull \<or> v = JStr [] then SAMPLE_MAX_AGE_SECONDS
      else case json_float v of Inl _ \<Rightarrow> SAMPLE_MAX_AGE_SECONDS | Inr x \<Rightarrow> x)"

definition quantize_now :: "real \<Rightarrow> instant \<Rightarrow> instant" where
  "quantize_now window now =
     (if window \<le> 0 then now
      else py_round0 (of_int \<lfloor>total_seconds now / window\<rfloor> * window * 1000000))"

record sample_cache =
  sc_sample :: "raw_sample option"
  sc_at :: "instant option"
  sc_soc_at :: "instant option"

definition sample_cache_init :: sample_cache where
  "sample_cache_init = \<lparr>sc_sample = None, sc_at = None, sc_soc_at = None\<rparr>"

definition sample_fresh :: "real \<Rightarrow> sample_cache \<Rightarrow> instant \<Rightarrow> bool" where
  "sample_fresh window c now =
     (case sc_at c of None \<Rightarrow> False | Some t \<Rightarrow> sc_sample c \<noteq> None \<and> total_seconds (now - t) < window)"

definition store_sample :: "sample_cache \<Rightarrow> instant \<Rightarrow> raw_sample \<times> string set \<Rightarrow> sample_cache" where
  "store_sample c now r =
     c\<lparr>sc_sample := Some (fst r), sc_at := Some now,
       sc_soc_at := (if ''soc'' \<in> snd r then Some now else sc_soc_at c)\<rparr>"

text \<open>\<open>current_sample\<close>: the source is asked only when the window is over; a source that raised leaves the cache.\<close>

definition current_sample ::
  "real \<Rightarrow> ('s \<Rightarrow> (raw_sample \<times> string set) option \<times> 's) \<Rightarrow> 's \<Rightarrow> sample_cache \<Rightarrow> instant \<Rightarrow> sample_cache \<times> 's" where
  "current_sample window source s c now =
     (if sample_fresh window c now then (c, s)
      else case source s of
             (None, s') \<Rightarrow> (c, s')
           | (Some r, s') \<Rightarrow> (store_sample c now r, s'))"

definition known_soc :: "real \<Rightarrow> sample_cache \<Rightarrow> instant \<Rightarrow> real option" where
  "known_soc max_age c now =
     (case (sc_sample c, sc_soc_at c) of
        (Some sm, Some t) \<Rightarrow> if max_age < total_seconds (now - t) then None else Some (sm_soc_pct sm)
      | _ \<Rightarrow> None)"

definition current_soc ::
  "real \<Rightarrow> real \<Rightarrow> ('s \<Rightarrow> (raw_sample \<times> string set) option \<times> 's) \<Rightarrow> 's \<Rightarrow> sample_cache \<Rightarrow> instant
     \<Rightarrow> real option \<times> sample_cache \<times> 's" where
  "current_soc window max_age source s c now =
     (case current_sample window source s c now of (c', s') \<Rightarrow> (known_soc max_age c' now, c', s'))"

subsection \<open>The towers\<close>

record tower_cache =
  tc_towers :: "tower_reading list option"
  tc_at :: "instant option"

definition towers_fresh :: "real \<Rightarrow> tower_cache \<Rightarrow> instant \<Rightarrow> bool" where
  "towers_fresh window c now =
     (case tc_at c of None \<Rightarrow> False | Some t \<Rightarrow> tc_towers c \<noteq> None \<and> total_seconds (now - t) < window)"

definition current_towers ::
  "real \<Rightarrow> ('s \<Rightarrow> 's \<times> (py_error + tower_reading list)) \<Rightarrow> 's \<Rightarrow> tower_cache \<Rightarrow> instant \<Rightarrow> tower_cache \<times> 's" where
  "current_towers window reader s c now =
     (if towers_fresh window c now then (c, s)
      else case reader s of
             (s', Inl _) \<Rightarrow> (c, s')
           | (s', Inr ts) \<Rightarrow> (\<lparr>tc_towers = Some ts, tc_at = Some now\<rparr>, s'))"

text \<open>Without a cluster reader (\<open>None\<close>) the last sample tells whether the battery answers.\<close>

definition battery_reachable :: "tower_reading list option \<Rightarrow> sample_cache \<Rightarrow> bool" where
  "battery_reachable towers c = (case towers of Some ts \<Rightarrow> list_ex tr_online ts | None \<Rightarrow> sc_sample c \<noteq> None)"

subsection \<open>The state of charge is measured\<close>

text \<open>A run of the loop: at each instant the source is asked as the cache decides, with what the devices answer.\<close>

definition live_source :: "live_inputs \<Rightarrow> last_good \<Rightarrow> (raw_sample \<times> string set) option \<times> last_good" where
  "live_source inp lg = (case read_sample lg inp of (r, lg') \<Rightarrow> (Some r, lg'))"

fun live_run :: "real \<Rightarrow> (instant \<times> live_inputs) list \<Rightarrow> sample_cache \<times> last_good" where
  "live_run window [] = (sample_cache_init, live_init)"
| "live_run window ((now, inp) # older) =
     (case live_run window older of (c, lg) \<Rightarrow> current_sample window (live_source inp) lg c now)"

lemma attempt_signal: "x \<in> snd (attempt signal r old) \<Longrightarrow> x = signal"
  by (auto simp: attempt_def split: option.splits)

lemma read_sample_soc:
  assumes "read_sample lg inp = ((sm, fresh), lg')"
  shows "sm_soc_pct sm = lg_soc lg'"
    and "''soc'' \<in> fresh \<Longrightarrow> \<exists>pw. li_battery inp = Some (Some (pw, lg_soc lg'))"
    and "''soc'' \<notin> fresh \<Longrightarrow> lg_soc lg' = lg_soc lg"
proof -
  have soc: "lg_soc lg' = snd (fst (battery_part lg inp))" and "sm_soc_pct sm = snd (fst (battery_part lg inp))"
    and fresh: "fresh = snd (attempt ''grid'' (grid_w (li_p1 inp)) (lg_grid lg)) \<union>
        snd (attempt ''solar'' (configured (li_solar inp) solar_w) (lg_solar lg)) \<union>
        snd (attempt ''ev'' (configured (li_car inp) ev_w) (lg_ev lg)) \<union> snd (battery_part lg inp)"
    using assms by (auto simp: read_sample_def Let_def case_prod_beta)
  then show "sm_soc_pct sm = lg_soc lg'" by simp
  have in_fresh: "''soc'' \<in> fresh \<longleftrightarrow> ''soc'' \<in> snd (battery_part lg inp)"
    unfolding fresh by (auto dest: attempt_signal)
  show "''soc'' \<in> fresh \<Longrightarrow> \<exists>pw. li_battery inp = Some (Some (pw, lg_soc lg'))"
    unfolding in_fresh soc by (auto simp: battery_part_def split: option.splits)
  show "''soc'' \<notin> fresh \<Longrightarrow> lg_soc lg' = lg_soc lg"
    unfolding in_fresh soc by (auto simp: battery_part_def split: option.splits)
qed

lemma live_run_measured:
  assumes "live_run window evs = (c, lg)"
  shows "(\<forall>sm. sc_sample c = Some sm \<longrightarrow> sm_soc_pct sm = lg_soc lg) \<and>
         (\<forall>u. sc_soc_at c = Some u \<longrightarrow> (\<exists>inp pw. (u, inp) \<in> set evs \<and> li_battery inp = Some (Some (pw, lg_soc lg))))"
  using assms
proof (induction evs arbitrary: c lg)
  case Nil
  then show ?case by (auto simp: sample_cache_init_def)
next
  case (Cons ev evs)
  obtain now inp where ev: "ev = (now, inp)" by fastforce
  obtain c1 lg1 where old: "live_run window evs = (c1, lg1)" by fastforce
  note ih = Cons.IH [OF old]
  show ?case
  proof (cases "sample_fresh window c1 now")
    case True
    with Cons.prems old have "c = c1" "lg = lg1" by (simp_all add: ev current_sample_def)
    with ih show ?thesis by fastforce
  next
    case False
    obtain sm fresh lg2 where read: "read_sample lg1 inp = ((sm, fresh), lg2)" by (metis prod.exhaust)
    from Cons.prems old False have "c = store_sample c1 now (sm, fresh)" "lg = lg2"
      by (simp_all add: ev current_sample_def live_source_def read)
    with ih read_sample_soc [OF read] show ?thesis
      by (cases "''soc'' \<in> fresh") (auto simp: store_sample_def ev, fastforce)
  qed
qed

text \<open>
  C19. The control loop never works with an invented state of charge. Over any sequence of cycles, with
  meters and battery that answer or fail at will, a percentage \<open>current_soc\<close> gives out was answered by the
  reader of the battery (what it keeps itself is C20), in one of those cycles, and no longer ago than the configured maximum age; the zero the
  source is seeded with and the value it keeps after a failed read are never taken for a reading.
\<close>

theorem soc_is_measured:
  assumes run: "live_run window evs = (c, lg)"
    and soc: "current_soc window max_age (live_source inp) lg c now = (Some x, c', lg')"
  shows "\<exists>u inp' pw. (u, inp') \<in> set ((now, inp) # evs) \<and> li_battery inp' = Some (Some (pw, x)) \<and>
           total_seconds (now - u) \<le> max_age"
proof -
  have "current_sample window (live_source inp) lg c now = (c', lg')" and known: "known_soc max_age c' now = Some x"
    using soc by (auto simp: current_soc_def split: prod.splits)
  with run have "live_run window ((now, inp) # evs) = (c', lg')" by simp
  note measured = live_run_measured [OF this]
  from known obtain sm u where "sc_sample c' = Some sm" "sc_soc_at c' = Some u" "x = sm_soc_pct sm"
    "total_seconds (now - u) \<le> max_age"
    by (auto simp: known_soc_def not_less split: option.splits if_splits)
  with measured show ?thesis by metis
qed

text \<open>The battery answers once; eleven minutes later its last value is no longer known.\<close>

definition demo_inputs_at :: "(real \<times> real) option \<Rightarrow> live_inputs" where
  "demo_inputs_at battery = \<lparr>li_p1 = None, li_p1_again = None, li_solar = None, li_car = None, li_battery = Some battery\<rparr>"

theorem soc_is_measured_witness:
  "let (c, lg) = live_run 30 [(0, demo_inputs_at (Some (400, 55)))]; later = live_source (demo_inputs_at None)
   in fst (current_soc 30 600 later lg c (10 * us_minute)) = Some 55 \<and>
      fst (current_soc 30 600 later lg c (11 * us_minute)) = None"
proof -
  obtain c lg where run: "live_run 30 [(0, demo_inputs_at (Some (400, 55)))] = (c, lg)" by fastforce
  then have c: "sc_soc_at c = Some 0" "sc_at c = Some 0" "lg_soc lg = 55"
    by (auto simp: live_source_def read_sample_def battery_part_def demo_inputs_at_def Let_def current_sample_def
        sample_fresh_def sample_cache_init_def store_sample_def case_prod_beta)
  have later: "\<exists>sm lg'. live_source (demo_inputs_at None) lg = (Some (sm, {}), lg') \<and> sm_soc_pct sm = 55"
    by (simp add: live_source_def read_sample_def battery_part_def demo_inputs_at_def Let_def attempt_def
        grid_w_def meter_w_def configured_def c)
  have "fst (current_soc 30 600 (live_source (demo_inputs_at None)) lg c (11 * us_minute)) = None"
    using later c by (auto simp: current_soc_def current_sample_def sample_fresh_def store_sample_def known_soc_def
        total_seconds_def)
  moreover obtain c' lg' where ten: "current_soc 30 600 (live_source (demo_inputs_at None)) lg c (10 * us_minute) = (Some 55, c', lg')"
    using later c by (auto simp: current_soc_def current_sample_def sample_fresh_def store_sample_def known_soc_def
        total_seconds_def)
  moreover from soc_is_measured [OF run ten] have "\<exists>u. total_seconds (10 * us_minute - u) \<le> 600" by blast
  ultimately show ?thesis unfolding run by simp
qed

end
