(* ===== verification/EvLoad.thy ===== *)
theory EvLoad
  imports EnergyDomain JsonValue
begin

section \<open>The car's schedule and its expected load (\<open>ems/ev_schedule.py\<close>, \<open>ems/planner/ev_load.py\<close>)\<close>

text \<open>
  The weekly schedule as it is stored, its deadlines, and the energy the winter planner adds for a day on
  which the car will charge. A stored schedule is what JSON makes of it; a ready-by time is its text. A
  deadline is built from a date and a wall time by the zone's map \<open>of_wall\<close>; the code compares and sorts
  deadlines of one zone by their wall time, and so does the model. A row of history carries what
  \<open>date.fromisoformat\<close> makes of its first ten characters (\<open>None\<close> when it is no text or no date).
\<close>

datatype weekday = Mon | Tue | Wed | Thu | Fri | Sat | Sun

definition weekdays :: "weekday list" where "weekdays = [Mon, Tue, Wed, Thu, Fri, Sat, Sun]"

fun day_key :: "weekday \<Rightarrow> string" where
  "day_key Mon = ''mon''" | "day_key Tue = ''tue''" | "day_key Wed = ''wed''" | "day_key Thu = ''thu''"
| "day_key Fri = ''fri''" | "day_key Sat = ''sat''" | "day_key Sun = ''sun''"

text \<open>\<open>date.weekday()\<close> of a day number; day 0, the first of January 1970, was a Thursday.\<close>

definition weekday_of :: "int \<Rightarrow> weekday" where
  "weekday_of d = weekdays ! nat ((d + 3) mod 7)"

record day_cfg =
  dc_enabled :: bool
  dc_min_pct :: int
  dc_ready_by :: string

definition DEFAULT_MIN_PCT :: int where "DEFAULT_MIN_PCT = 80"
definition DEFAULT_READY_BY :: string where "DEFAULT_READY_BY = ''07:30''"

definition default_day :: day_cfg where
  "default_day = \<lparr>dc_enabled = False, dc_min_pct = DEFAULT_MIN_PCT, dc_ready_by = DEFAULT_READY_BY\<rparr>"

definition clamp_min_pct :: "json \<Rightarrow> int" where
  "clamp_min_pct v =
     (case v of
        JBool _ \<Rightarrow> DEFAULT_MIN_PCT
      | _ \<Rightarrow> (case json_float v of Inl _ \<Rightarrow> DEFAULT_MIN_PCT | Inr x \<Rightarrow> max 0 (min 100 (py_round0 x))))"

text \<open>The pattern \<open>HH:MM\<close>; the end-of-text anchor admits one final newline.\<close>

definition digit :: "char \<Rightarrow> int option" where
  "digit c = (let n = int (of_char c) in if 48 \<le> n \<and> n \<le> 57 then Some (n - 48) else None)"

definition two_digits :: "char \<Rightarrow> char \<Rightarrow> int option" where
  "two_digits a b = (case (digit a, digit b) of (Some x, Some y) \<Rightarrow> Some (10 * x + y) | _ \<Rightarrow> None)"

fun clock_of :: "string \<Rightarrow> (int \<times> int) option" where
  "clock_of (a # b # c # x # y # rest) =
     (if c \<noteq> CHR '':'' \<or> rest \<notin> {[], [CHR 0x0A]} then None
      else case (two_digits a b, two_digits x y) of
             (Some h, Some m) \<Rightarrow> if h \<le> 23 \<and> m \<le> 59 then Some (h, m) else None
           | _ \<Rightarrow> None)"
| "clock_of _ = None"

definition valid_ready_by :: "json \<Rightarrow> string" where
  "valid_ready_by v =
     (case v of JStr s \<Rightarrow> if clock_of s \<noteq> None then s else DEFAULT_READY_BY | _ \<Rightarrow> DEFAULT_READY_BY)"

definition parse_day :: "json \<Rightarrow> day_cfg" where
  "parse_day raw =
     (case raw of
        JObj kvs \<Rightarrow>
          \<lparr>dc_enabled = truthy (json_get kvs ''enabled''), dc_min_pct = clamp_min_pct (json_get kvs ''min_pct''),
           dc_ready_by = valid_ready_by (json_get kvs ''ready_by'')\<rparr>
      | _ \<Rightarrow> default_day)"

text \<open>What is stored: nothing or a value, or a text with the value it parses to.\<close>

datatype stored_schedule = StoredValue json | StoredText "json option"

definition schedule_data :: "stored_schedule \<Rightarrow> json" where
  "schedule_data raw = (case raw of StoredValue v \<Rightarrow> v | StoredText None \<Rightarrow> JNull | StoredText (Some v) \<Rightarrow> v)"

definition parse_schedule :: "stored_schedule \<Rightarrow> weekday \<Rightarrow> day_cfg" where
  "parse_schedule raw day =
     (case schedule_data raw of JObj kvs \<Rightarrow> parse_day (json_get kvs (day_key day)) | _ \<Rightarrow> default_day)"

subsection \<open>Deadlines\<close>

record deadline =
  dl_wall :: int
  dl_at :: instant
  dl_min_pct :: int
  dl_day :: weekday

definition day_deadline ::
  "(weekday \<Rightarrow> day_cfg) \<Rightarrow> instant \<Rightarrow> zone \<Rightarrow> (int \<Rightarrow> instant) \<Rightarrow> int \<Rightarrow> deadline option" where
  "day_deadline schedule now tz of_wall offset =
     (let day = local_date tz now + offset; cfg = schedule (weekday_of day)
      in if \<not> dc_enabled cfg then None
         else case clock_of (dc_ready_by cfg) of
                None \<Rightarrow> None
              | Some (h, m) \<Rightarrow>
                  (let wall = us_day * day + h * us_hour + m * us_minute;
                       w = (if wall < now + tz now then wall + 7 * us_day else wall)
                   in Some \<lparr>dl_wall = w, dl_at = of_wall w, dl_min_pct = dc_min_pct cfg,
                            dl_day = weekday_of day\<rparr>))"

definition materialize_deadlines ::
  "(weekday \<Rightarrow> day_cfg) \<Rightarrow> instant \<Rightarrow> zone \<Rightarrow> (int \<Rightarrow> instant) \<Rightarrow> deadline list" where
  "materialize_deadlines schedule now tz of_wall =
     sort_key dl_wall (List.map_filter (day_deadline schedule now tz of_wall) [0..6])"

lemma parsed_schedule_clock: "\<exists>h m. clock_of (dc_ready_by (parse_schedule raw d)) = Some (h, m)"
proof -
  have "clock_of DEFAULT_READY_BY \<noteq> None"
    by (simp add: DEFAULT_READY_BY_def two_digits_def digit_def Let_def)
  then have "clock_of (valid_ready_by v) \<noteq> None" for v
    by (auto simp: valid_ready_by_def split: json.split)
  with \<open>clock_of DEFAULT_READY_BY \<noteq> None\<close> show ?thesis
    by (auto simp: parse_schedule_def parse_day_def default_day_def split: json.split)
qed

text \<open>
  Whatever is stored, the schedule reads back with a percentage from 0 to 100 and a time of day, and its
  deadlines are one per enabled day of the week, in order, none in the past and each within eight days
  by the wall clock.
\<close>

lemma clock_of_bounds: "clock_of s = Some (h, m) \<Longrightarrow> 0 \<le> h \<and> h \<le> 23 \<and> 0 \<le> m \<and> m \<le> 59"
  by (cases s rule: clock_of.cases)
     (auto simp: two_digits_def digit_def Let_def split: option.splits if_splits)

lemma parsed_min_pct: "0 \<le> dc_min_pct (parse_schedule raw d) \<and> dc_min_pct (parse_schedule raw d) \<le> 100"
  by (auto simp: parse_schedule_def parse_day_def default_day_def clamp_min_pct_def DEFAULT_MIN_PCT_def
      split: json.split sum.split)

lemma day_deadline_ahead:
  assumes "day_deadline schedule now tz w offset = Some d" and "offset \<in> {0..6}"
  shows "now + tz now \<le> dl_wall d \<and> dl_wall d < now + tz now + 8 * us_day \<and> dl_at d = w (dl_wall d) \<and>
         dc_enabled (schedule (dl_day d)) \<and> dl_min_pct d = dc_min_pct (schedule (dl_day d))"
proof -
  define l where "l = now + tz now"
  define day where "day = local_date tz now + offset"
  from assms(1) obtain h m where hm: "clock_of (dc_ready_by (schedule (weekday_of day))) = Some (h, m)"
    and d: "d = (let wall = us_day * day + h * us_hour + m * us_minute; v = (if wall < l then wall + 7 * us_day else wall)
                 in \<lparr>dl_wall = v, dl_at = w v, dl_min_pct = dc_min_pct (schedule (weekday_of day)), dl_day = weekday_of day\<rparr>)"
    and en: "dc_enabled (schedule (weekday_of day))"
    by (auto simp: day_deadline_def Let_def day_def l_def split: if_splits option.splits)
  have "us_day * local_date tz now \<le> l" "l < us_day * local_date tz now + us_day"
    unfolding local_date_def l_def [symmetric]
    using pos_mod_bound [of us_day l] pos_mod_sign [of us_day l] minus_mod_eq_mult_div [of l us_day] by linarith+
  with clock_of_bounds [OF hm] assms(2) en show ?thesis
    unfolding d day_def l_def by (auto simp: Let_def algebra_simps)
qed

lemma deadlines_ahead:
  "sorted (map dl_wall (materialize_deadlines schedule now tz w)) \<and>
   (\<forall>d\<in>set (materialize_deadlines schedule now tz w). now + tz now \<le> dl_wall d \<and> dl_wall d < now + tz now + 8 * us_day)"
proof (intro conjI ballI)
  fix d
  assume "d \<in> set (materialize_deadlines schedule now tz w)"
  then obtain k where "k \<in> {0..6}" "day_deadline schedule now tz w k = Some d"
    by (auto simp: materialize_deadlines_def List.map_filter_def)
  from day_deadline_ahead [OF this(2,1)]
  show "now + tz now \<le> dl_wall d" "dl_wall d < now + tz now + 8 * us_day" by blast+
qed (simp add: materialize_deadlines_def)

subsection \<open>The expected load\<close>

record ev_estimate =
  ev_kwh :: real
  ev_source :: string
  ev_reason :: message

definition no_ev :: "string \<Rightarrow> ev_estimate" where
  "no_ev reason = \<lparr>ev_kwh = 0, ev_source = ''none'', ev_reason = [Lit reason]\<rparr>"

definition SIGNIFICANT_EV_KWH :: real where "SIGNIFICANT_EV_KWH = 5"
definition MIN_WEEKDAY_SAMPLES :: nat where "MIN_WEEKDAY_SAMPLES = 2"

text \<open>\<open>statistics.median\<close> of a list that is not empty.\<close>

definition median :: "real list \<Rightarrow> real" where
  "median xs =
     (let s = sort xs; n = length s
      in if odd n then s ! (n div 2) else (s ! (n div 2 - 1) + s ! (n div 2)) / 2)"

type_synonym ev_row = "int option \<times> json"

definition weekday_value :: "int \<Rightarrow> ev_row \<Rightarrow> real option" where
  "weekday_value today row =
     (case row of
        (Some d, v) \<Rightarrow>
          (if v = JNull then None
           else case json_float v of
                  Inl _ \<Rightarrow> None
                | Inr ev \<Rightarrow>
                    if today - d < 0 \<or> 28 < today - d \<or> d = today \<or> weekday_of d \<noteq> weekday_of today then None
                    else if SIGNIFICANT_EV_KWH \<le> ev then Some ev else None)
      | _ \<Rightarrow> None)"

definition median_same_weekday_ev :: "ev_row list \<Rightarrow> int \<Rightarrow> real option" where
  "median_same_weekday_ev rows today =
     (let values = List.map_filter (weekday_value today) rows
      in if length values < MIN_WEEKDAY_SAMPLES then None else Some (median values))"

record ev_inputs =
  ei_expected_day_kwh :: "real option"
  ei_day_hint :: bool
  ei_typical_kwh :: real
  ei_schedule :: stored_schedule
  ei_rows :: "ev_row list"
  ei_skip_today :: bool

definition ev_text :: "real \<Rightarrow> string \<Rightarrow> message" where
  "ev_text kwh what = [Lit ''EV load expected ~'', Fixed 0 kwh, Lit '' kWh ('', Lit what, Lit '')'']"

text \<open>Without a manual amount: the hint, the schedule of today, the same weekday in history.\<close>

definition unforced_estimate :: "int \<Rightarrow> real \<Rightarrow> ev_inputs \<Rightarrow> ev_estimate" where
  "unforced_estimate today typical ei =
     (if ei_day_hint ei \<and> 0 < typical
      then \<lparr>ev_kwh = typical, ev_source = ''day_hint'', ev_reason = ev_text typical ''EV day hint''\<rparr>
      else if dc_enabled (parse_schedule (ei_schedule ei) (weekday_of today)) \<and> 0 < typical
      then \<lparr>ev_kwh = typical, ev_source = ''schedule'', ev_reason = ev_text typical ''schedule day''\<rparr>
      else case median_same_weekday_ev (ei_rows ei) today of
             Some x \<Rightarrow>
               if 0 < x
               then \<lparr>ev_kwh = x, ev_source = ''same_weekday_history'', ev_reason = ev_text x ''same-weekday history''\<rparr>
               else no_ev ''no EV day signal (hint/schedule/history)''
           | None \<Rightarrow> no_ev ''no EV day signal (hint/schedule/history)'')"

definition estimate_ev_exogenous_kwh :: "instant \<Rightarrow> zone \<Rightarrow> ev_inputs \<Rightarrow> ev_estimate" where
  "estimate_ev_exogenous_kwh now tz ei =
     (let today = local_date tz now; typical = max 0 (ei_typical_kwh ei)
      in if ei_skip_today ei
         then \<lparr>ev_kwh = 0, ev_source = ''skipped_today'', ev_reason = [Lit ''Auto laadt vandaag niet (jouw keuze)'']\<rparr>
         else case ei_expected_day_kwh ei of
           Some manual \<Rightarrow>
             if 0 < manual
             then \<lparr>ev_kwh = manual, ev_source = ''manual'', ev_reason = ev_text manual ''manual day override''\<rparr>
             else unforced_estimate today typical ei
         | None \<Rightarrow> unforced_estimate today typical ei)"

lemma ev_estimate_nonneg: "0 \<le> ev_kwh (estimate_ev_exogenous_kwh now tz ei)"
  by (auto simp: estimate_ev_exogenous_kwh_def unforced_estimate_def no_ev_def Let_def split: option.split)

end
