(* ===== verification/AcceptedWindows.thy ===== *)
theory AcceptedWindows
  imports EnergyDomain JsonValue "HOL-Library.List_Lexorder" "HOL-Library.Char_ord" "HOL-Library.Multiset"
begin

section \<open>Accepted appliance windows (\<open>ems/consumers/start_advice.py\<close>)\<close>

text \<open>
  The load the planner adds for a household appliance whose start the resident accepted: the stored windows,
  those still open, the extra watts per slot and the token that makes the plan cache notice a change. The
  stored row is what JSON makes of its text (\<open>None\<close> when it is absent, empty or unreadable); the token is the
  list the code prints as JSON.
\<close>

definition SLOT_HOURS_OF_WINDOW :: real where "SLOT_HOURS_OF_WINDOW = 1/4"

definition bump_w_for_assumed :: "real \<Rightarrow> int \<Rightarrow> real" where
  "bump_w_for_assumed assumed_kwh slots =
     (if slots \<le> 0 \<or> assumed_kwh \<le> 0 then 0
      else let watts = assumed_kwh / of_int slots / SLOT_HOURS_OF_WINDOW * 1000 in if watts \<le> 0 then 0 else watts)"

record window =
  wi_start :: instant
  wi_end :: instant
  wi_slots :: int
  wi_kwh :: real
  wi_bump_w :: real

fun is_bool :: "json \<Rightarrow> bool" where
  "is_bool (JBool _) = True" | "is_bool _ = False"

definition parse_record :: "json \<Rightarrow> window option" where
  "parse_record raw =
     (case raw of
        JObj kvs \<Rightarrow>
          (case (json_datetime (json_str (json_get kvs ''start'')), json_datetime (json_str (json_get kvs ''end''))) of
             (Inr (Aware start), Inr (Aware stop)) \<Rightarrow>
               (let slots = json_get kvs ''slots''; kwh = json_get kvs ''assumed_kwh''
                in if is_bool slots \<or> is_bool kwh then None
                   else case (json_int slots, json_float kwh) of
                          (Inr n, Inr assumed) \<Rightarrow>
                            if stop \<le> start \<or> (stop - start) mod SLOT \<noteq> 0 \<or> (stop - start) div SLOT \<noteq> n then None
                            else (let watts = bump_w_for_assumed assumed n
                                  in if watts \<le> 0 then None
                                     else Some \<lparr>wi_start = start, wi_end = stop, wi_slots = n,
                                                wi_kwh = assumed, wi_bump_w = watts\<rparr>)
                        | _ \<Rightarrow> None)
           | _ \<Rightarrow> None)
      | _ \<Rightarrow> None)"

definition stored_rows :: "json option \<Rightarrow> (string \<times> json) list" where
  "stored_rows blob = (case blob of Some (JObj rows) \<Rightarrow> rows | _ \<Rightarrow> [])"

text \<open>The windows still open at \<open>now\<close>, by device; without a clock there are none.\<close>

definition live_window :: "instant \<Rightarrow> string \<times> json \<Rightarrow> (string \<times> window) option" where
  "live_window now row =
     (if fst row = [] then None
      else case parse_record (snd row) of
             None \<Rightarrow> None
           | Some w \<Rightarrow> if wi_end w \<le> now then None else Some (fst row, w))"

definition live_windows :: "json option \<Rightarrow> instant option \<Rightarrow> (string \<times> window) list" where
  "live_windows blob now =
     (case now of None \<Rightarrow> [] | Some t \<Rightarrow> List.map_filter (live_window t) (stored_rows blob))"

definition bump_at :: "(string \<times> window) list \<Rightarrow> instant \<Rightarrow> real" where
  "bump_at windows start =
     sum_list (map (\<lambda>(_, w). if wi_start w \<le> start \<and> start < wi_end w then wi_bump_w w else 0) windows)"

definition accepted_load_bump_w :: "json option \<Rightarrow> instant list \<Rightarrow> instant option \<Rightarrow> (instant \<rightharpoonup> real)" where
  "accepted_load_bump_w blob starts now =
     (let windows = live_windows blob now
      in (\<lambda>t. if t \<in> set starts \<and> 0 < bump_at windows t then Some (bump_at windows t) else None))"

definition accepted_windows_revision :: "json option \<Rightarrow> instant option \<Rightarrow> (string \<times> window) list" where
  "accepted_windows_revision blob now = sort_key fst (live_windows blob now)"

text \<open>The energy of an accepted window, spread over its slots, is the energy assumed; the bump is never negative.\<close>

lemma parsed_window:
  assumes "parse_record raw = Some w"
  shows "wi_start w < wi_end w \<and> wi_end w - wi_start w = SLOT * wi_slots w \<and> 0 < wi_bump_w w \<and>
         wi_bump_w w * SLOT_HOURS_OF_WINDOW * of_int (wi_slots w) / 1000 = wi_kwh w"
proof -
  from assms obtain start stop n assumed where t: "start < stop" "(stop - start) mod SLOT = 0" "(stop - start) div SLOT = n"
    and pos: "0 < bump_w_for_assumed assumed n"
    and w: "w = \<lparr>wi_start = start, wi_end = stop, wi_slots = n, wi_kwh = assumed, wi_bump_w = bump_w_for_assumed assumed n\<rparr>"
    unfolding parse_record_def Let_def
    by (fastforce split: json.splits sum.splits py_datetime.splits if_splits)
  have "stop - start = SLOT * n" using t(2,3) mult_div_mod_eq [of SLOT "stop - start"] by simp
  moreover have "bump_w_for_assumed assumed n * SLOT_HOURS_OF_WINDOW * of_int n / 1000 = assumed"
    using pos by (auto simp: bump_w_for_assumed_def SLOT_HOURS_OF_WINDOW_def Let_def divide_le_0_iff split: if_splits)
  ultimately show ?thesis using t(1) pos by (simp add: w)
qed

lemma bump_nonneg: "0 \<le> opt_else (accepted_load_bump_w blob starts now t) 0"
  by (auto simp: accepted_load_bump_w_def Let_def)

text \<open>Two rows with the same revision lay the same load on the planner, for any slots.\<close>

lemma bump_at_perm: "mset xs = mset ys \<Longrightarrow> bump_at xs t = bump_at ys t"
  by (simp add: bump_at_def sum_mset_sum_list [symmetric] del: sum_mset_sum_list)

lemma revision_determines_load:
  assumes "accepted_windows_revision blob now = accepted_windows_revision blob' now'"
  shows "accepted_load_bump_w blob starts now = accepted_load_bump_w blob' starts now'"
proof -
  have "mset (live_windows blob now) = mset (live_windows blob' now')"
    using assms unfolding accepted_windows_revision_def by (metis mset_sort)
  from bump_at_perm [OF this] have "bump_at (live_windows blob now) = bump_at (live_windows blob' now')" by blast
  then show ?thesis unfolding accepted_load_bump_w_def Let_def by (simp cong: if_cong)
qed

end
