(* ===== verification/SeasonHysteresis.thy ===== *)
theory SeasonHysteresis
  imports JsonValue EnergyDomain
begin

section \<open>Strategy choice and its hysteresis (\<open>ems/planner/strategy.py\<close>)\<close>

text \<open>
  Which of the two seasonal strategies runs. The pick of the day follows the energy conditions, with the
  calendar month as a fallback; a switch away from the committed season waits for a number of days. The
  memory is a record of the values the stored JSON holds, as Python keeps them, so that a corrupt field
  stays representable; a day is the number of the local date.
\<close>

subsection \<open>The pick\<close>

definition mode_text :: "string option \<Rightarrow> string" where
  "mode_text mode = (case mode of None \<Rightarrow> ''auto'' | Some s \<Rightarrow> if s = [] then ''auto'' else map lower_char s)"

text \<open>The month of a day of the proleptic Gregorian calendar, from the number of days since 1970-01-01.\<close>

definition month_of_day :: "int \<Rightarrow> int" where
  "month_of_day d =
     (let doe = (d + 719468) mod 146097;
          yoe = (doe - doe div 1460 + doe div 36524 - doe div 146096) div 365;
          doy = doe - (365 * yoe + yoe div 4 - yoe div 100);
          mp = (5 * doy + 2) div 153
      in if mp < 10 then mp + 3 else mp - 9)"

definition DEFAULT_SUMMER_MONTHS :: "int set" where "DEFAULT_SUMMER_MONTHS = {4, 5, 6, 7, 8, 9}"
definition AUTO_SURPLUS_KWH :: real where "AUTO_SURPLUS_KWH = 3"
definition AUTO_SPREAD_EUR :: real where "AUTO_SPREAD_EUR = 1/10"

definition season_of :: "zone \<Rightarrow> instant \<Rightarrow> int set \<Rightarrow> string" where
  "season_of tz now summer_months =
     (if month_of_day (local_date tz now) \<in> summer_months then ''summer'' else ''winter'')"

definition select_strategy :: "instant \<Rightarrow> string option \<Rightarrow> zone \<Rightarrow> int set \<Rightarrow> string" where
  "select_strategy now mode tz summer_months =
     (let m = mode_text mode in if m \<in> {''summer'', ''winter''} then m else season_of tz now summer_months)"

definition strategy_label :: "string \<Rightarrow> string" where
  "strategy_label s = (if s = ''summer'' then ''solar-first'' else ''price-smart'')"

definition select_strategy_with_reason ::
  "instant \<Rightarrow> string option \<Rightarrow> zone \<Rightarrow> real option \<Rightarrow> real option \<Rightarrow> int set \<Rightarrow> string \<times> message" where
  "select_strategy_with_reason now mode tz surplus_kwh price_spread_eur summer_months =
     (let m = mode_text mode in
      if m = ''summer'' then (''summer'', [Lit ''You chose Solar-first -- running the night on your own solar.''])
      else if m = ''winter''
      then (''winter'', [Lit ''You chose Price-smart -- arbitraging cheap vs. expensive grid windows.''])
      else if (case surplus_kwh of Some s \<Rightarrow> AUTO_SURPLUS_KWH \<le> s | None \<Rightarrow> False)
      then (''summer'', [Lit ''Running solar-first -- the forecast surplus (~'', Fixed 0 (the surplus_kwh),
                         Lit '' kWh) should carry the home tonight.''])
      else if (case (surplus_kwh, price_spread_eur) of (Some _, Some e) \<Rightarrow> AUTO_SPREAD_EUR \<le> e | _ \<Rightarrow> False)
      then (''winter'', [Lit ''Running price-smart -- low solar (~'', Fixed 0 (the surplus_kwh),
                         Lit '' kWh) and a EUR'', Fixed 2 (the price_spread_eur),
                         Lit '' price spread make arbitrage worthwhile.''])
      else (let season = season_of tz now summer_months
            in (season, [Lit ''Running '', Lit (strategy_label season),
                         Lit '' by season -- not enough forecast/price data to decide yet.''])))"

subsection \<open>The memory\<close>

record hysteresis_state =
  hy_committed :: json
  hy_pending :: json
  hy_count :: int
  hy_last_day :: json

definition hy_fresh :: hysteresis_state where
  "hy_fresh = \<lparr>hy_committed = JNull, hy_pending = JNull, hy_count = 0, hy_last_day = JNull\<rparr>"

definition hy_commit :: "string \<Rightarrow> json \<Rightarrow> hysteresis_state" where
  "hy_commit season last_day =
     \<lparr>hy_committed = JStr season, hy_pending = JNull, hy_count = 0, hy_last_day = last_day\<rparr>"

definition hy_to_json :: "hysteresis_state \<Rightarrow> json" where
  "hy_to_json s =
     JObj [(''committed'', hy_committed s), (''pending'', hy_pending s), (''count'', JNum (of_int (hy_count s))),
           (''last_day'', hy_last_day s)]"

text \<open>
  The stored text is absent or empty (\<open>None\<close>), or what \<open>json.loads\<close> makes of it: an error or a value.
  Only \<open>ValueError\<close> and \<open>TypeError\<close> are caught; a value that is not an object has no \<open>get\<close>.
\<close>

definition hy_from_json :: "(py_error + json) option \<Rightarrow> py_error + hysteresis_state" where
  "hy_from_json raw =
     (case raw of
        None \<Rightarrow> Inr hy_fresh
      | Some (Inl _) \<Rightarrow> Inr hy_fresh
      | Some (Inr (JObj kvs)) \<Rightarrow>
          (case json_int (opt_else (map_of kvs ''count'') (JNum 0)) of
             Inl _ \<Rightarrow> Inr hy_fresh
           | Inr n \<Rightarrow> Inr \<lparr>hy_committed = json_get kvs ''committed'', hy_pending = json_get kvs ''pending'',
                           hy_count = n, hy_last_day = json_get kvs ''last_day''\<rparr>)
      | Some (Inr _) \<Rightarrow> Inl AttributeError)"

definition hysteresis_status :: "hysteresis_state \<Rightarrow> int \<Rightarrow> (string \<times> json) list" where
  "hysteresis_status s days =
     [(''committed'', hy_committed s), (''pending'', hy_pending s), (''count'', JNum (of_int (hy_count s))),
      (''days'', JNum (of_int days))]"

definition apply_hysteresis :: "string \<Rightarrow> hysteresis_state \<Rightarrow> int \<Rightarrow> int \<Rightarrow> json \<times> hysteresis_state" where
  "apply_hysteresis raw s days day =
     (let day_key = JDate day in
      if hy_committed s = JNull \<or> days \<le> 0 then (JStr raw, hy_commit raw day_key)
      else if JStr raw = hy_committed s
      then (if hy_pending s = JNull \<and> hy_count s = 0 then (hy_committed s, s)
            else if hy_last_day s = day_key then (hy_committed s, s)
            else (hy_committed s, \<lparr>hy_committed = hy_committed s, hy_pending = JNull, hy_count = 0,
                                    hy_last_day = day_key\<rparr>))
      else if hy_last_day s = day_key then (hy_committed s, s)
      else (let n = (if hy_pending s = JStr raw then hy_count s + 1 else 1)
            in if days \<le> n then (JStr raw, hy_commit raw day_key)
               else (hy_committed s, \<lparr>hy_committed = hy_committed s, hy_pending = JStr raw, hy_count = n,
                                      hy_last_day = day_key\<rparr>)))"

definition resolve_strategy_hysteretic ::
  "instant \<Rightarrow> string option \<Rightarrow> zone \<Rightarrow> hysteresis_state \<Rightarrow> real option \<Rightarrow> real option \<Rightarrow> int set \<Rightarrow> int
     \<Rightarrow> json \<times> message \<times> hysteresis_state" where
  "resolve_strategy_hysteretic now mode tz s surplus_kwh price_spread_eur summer_months days =
     (let (raw, why) = select_strategy_with_reason now mode tz surplus_kwh price_spread_eur summer_months;
          m = mode_text mode in
      if m \<in> {''summer'', ''winter''} then (JStr raw, why, hy_commit raw (hy_last_day s))
      else (let (committed, s') = apply_hysteresis raw s days (local_date tz now)
            in if committed = JStr raw then (committed, why, s')
               else (committed,
                     [Lit ''Holding '', Lit (if committed = JStr ''summer'' then ''solar-first'' else ''price-smart''),
                      Lit '' -- today's signal leans '', Lit (strategy_label raw),
                      Lit '', but a season switch waits for '', Count (hy_count s'), Lit ''/'', Count days,
                      Lit '' steady days (avoids shoulder-season flip-flop).''], s')))"

subsection \<open>Runs\<close>













fun hy_acts :: "int \<Rightarrow> (string \<times> int) list \<Rightarrow> hysteresis_state \<Rightarrow> json list" where
  "hy_acts days [] s = []"
| "hy_acts days ((raw, day) # evs) s =
     (case apply_hysteresis raw s days day of (acted, s') \<Rightarrow> acted # hy_acts days evs s')"


lemma hy_acts_length [simp]: "length (hy_acts days evs s) = length evs"
  by (induction days evs s rule: hy_acts.induct) (simp_all split: prod.split)






text \<open>
  The memory survives a restart: what \<open>to_json\<close> stores, \<open>from_json\<close> reads back unchanged, for every
  state; an absent, empty or unparsable text and an object with a corrupt counter give a fresh memory.
  A stored value that is valid JSON but not an object, however, raises \<open>AttributeError\<close> instead.
\<close>

theorem hysteresis_round_trip:
  "hy_from_json (Some (Inr (hy_to_json s))) = Inr s \<and>
   hy_from_json None = Inr hy_fresh \<and> hy_from_json (Some (Inl e)) = Inr hy_fresh \<and>
   hy_from_json (Some (Inr (JObj [(''count'', JStr x)]))) = Inr hy_fresh \<and>
   hy_from_json (Some (Inr (JArr vs))) = Inl AttributeError"
  by (simp add: hy_from_json_def hy_to_json_def json_get_def py_int_def)

end
