(* ===== verification/Freshness.thy ===== *)
theory Freshness
  imports Ownership
begin

section \<open>Data freshness (\<open>ems/freshness.py\<close>)\<close>

text \<open>
  The age classification of one signal, the tracker of all signals, and the latch that keeps the
  planner cautious while a meter is stale. A snapshot is a map from signal names to their state.
\<close>

datatype freshness = FRESH | STALE | MISSING

definition METER_STALE_SIGNALS :: "string list" where
  "METER_STALE_SIGNALS = [''ev'', ''grid'']"

definition SIGNAL_STALE_AFTER_S :: "string \<rightharpoonup> real" where
  "SIGNAL_STALE_AFTER_S =
     [''grid'' \<mapsto> 600, ''solar'' \<mapsto> 600, ''ev'' \<mapsto> 600, ''battery'' \<mapsto> 600, ''soc'' \<mapsto> 600,
      ''prices'' \<mapsto> 6 * 3600, ''forecast'' \<mapsto> 24 * 3600]"

definition classify_at :: "instant option \<Rightarrow> instant \<Rightarrow> real \<Rightarrow> freshness" where
  "classify_at last_update now stale_after_s =
     (case last_update of
        None \<Rightarrow> MISSING
      | Some t \<Rightarrow> (let age = max 0 (total_seconds (now - t))
                   in if stale_after_s < age then STALE else FRESH))"

definition classify :: "py_datetime option \<Rightarrow> py_datetime \<Rightarrow> real \<Rightarrow> py_error + freshness" where
  "classify last_update now stale_after_s =
     bind_res (require_aware now) (\<lambda>n.
       case last_update of
         None \<Rightarrow> Inr MISSING
       | Some d \<Rightarrow> bind_res (require_aware d) (\<lambda>t. Inr (classify_at (Some t) n stale_after_s)))"

subsection \<open>The tracker\<close>

record freshness_tracker =
  ft_stale_after :: real
  ft_expected :: "string set"
  ft_last :: "string \<rightharpoonup> instant"
  ft_thresholds :: "string \<rightharpoonup> real"

definition tracker_init :: freshness_tracker where
  "tracker_init = \<lparr>ft_stale_after = 600, ft_expected = {}, ft_last = Map.empty,
                   ft_thresholds = Map.empty\<rparr>"

fun register_thresholds :: "string list \<Rightarrow> (string \<rightharpoonup> real) \<Rightarrow> (string \<rightharpoonup> real)" where
  "register_thresholds [] m = m"
| "register_thresholds (s # ss) m =
     register_thresholds ss
       (case SIGNAL_STALE_AFTER_S s of
          Some x \<Rightarrow> if m s = None then m(s \<mapsto> x) else m
        | None \<Rightarrow> m)"

definition register :: "freshness_tracker \<Rightarrow> string list \<Rightarrow> freshness_tracker" where
  "register t signals =
     t\<lparr>ft_expected := ft_expected t \<union> set signals,
       ft_thresholds := register_thresholds signals (ft_thresholds t)\<rparr>"

definition set_stale_after :: "freshness_tracker \<Rightarrow> string \<Rightarrow> real \<Rightarrow> freshness_tracker" where
  "set_stale_after t s x = t\<lparr>ft_thresholds := (ft_thresholds t)(s \<mapsto> x)\<rparr>"

definition threshold :: "freshness_tracker \<Rightarrow> string \<Rightarrow> real" where
  "threshold t s = map_get (ft_thresholds t) s (map_get SIGNAL_STALE_AFTER_S s (ft_stale_after t))"

definition mark :: "freshness_tracker \<Rightarrow> string \<Rightarrow> py_datetime \<Rightarrow> py_error + freshness_tracker" where
  "mark t s ts = bind_res (require_aware ts) (\<lambda>x. Inr (t\<lparr>ft_last := (ft_last t)(s \<mapsto> x)\<rparr>))"

definition signal_state :: "freshness_tracker \<Rightarrow> string \<Rightarrow> instant \<Rightarrow> freshness" where
  "signal_state t s now = classify_at (ft_last t s) now (threshold t s)"

definition age_seconds :: "freshness_tracker \<Rightarrow> string \<Rightarrow> instant \<Rightarrow> real option" where
  "age_seconds t s now = map_option (\<lambda>u. max 0 (total_seconds (now - u))) (ft_last t s)"

definition freshness_snapshot :: "freshness_tracker \<Rightarrow> instant \<Rightarrow> string \<rightharpoonup> freshness" where
  "freshness_snapshot t now s =
     (if s \<in> ft_expected t \<or> ft_last t s \<noteq> None then Some (signal_state t s now) else None)"

text \<open>A registered signal is never absent from the snapshot, and data only ever gets older.\<close>

lemma register_reported: "s \<in> set signals \<Longrightarrow> freshness_snapshot (register t signals) now s \<noteq> None"
  by (simp add: freshness_snapshot_def register_def)

lemma snapshot_missing_iff:
  "freshness_snapshot t now s = Some MISSING \<longleftrightarrow> s \<in> ft_expected t \<and> ft_last t s = None"
  by (auto simp: freshness_snapshot_def signal_state_def classify_at_def Let_def split: option.splits)

lemma stale_stays_stale:
  "signal_state t s now = STALE \<Longrightarrow> now \<le> later \<Longrightarrow> signal_state t s later = STALE"
  by (auto simp: signal_state_def classify_at_def Let_def max_def total_seconds_def
        split: option.splits if_splits)

subsection \<open>The stale-meter latch\<close>

record stale_meter_hysteresis =
  sh_active :: "string set"
  sh_fresh_streak :: "string \<rightharpoonup> nat"
  sh_ever_fresh :: "string set"

definition hysteresis_init :: stale_meter_hysteresis where
  "hysteresis_init = \<lparr>sh_active = {}, sh_fresh_streak = Map.empty, sh_ever_fresh = {}\<rparr>"

definition raw_meter_stale :: "(string \<rightharpoonup> freshness) \<Rightarrow> string set" where
  "raw_meter_stale snap = set (filter (\<lambda>s. snap s = Some STALE) METER_STALE_SIGNALS)"

definition note_ever_fresh :: "(string \<rightharpoonup> freshness) \<Rightarrow> stale_meter_hysteresis \<Rightarrow> stale_meter_hysteresis" where
  "note_ever_fresh snap h =
     h\<lparr>sh_ever_fresh := sh_ever_fresh h
         \<union> set (filter (\<lambda>s. snap s = Some FRESH) METER_STALE_SIGNALS)\<rparr>"

definition raw_with_missing :: "(string \<rightharpoonup> freshness) \<Rightarrow> stale_meter_hysteresis \<Rightarrow> string set" where
  "raw_with_missing snap h =
     raw_meter_stale snap
       \<union> set (filter (\<lambda>s. snap s = Some MISSING \<and> s \<in> sh_ever_fresh h) METER_STALE_SIGNALS)"

definition latch_signal ::
  "string set \<Rightarrow> string \<Rightarrow> stale_meter_hysteresis \<times> string set \<Rightarrow> stale_meter_hysteresis \<times> string set" where
  "latch_signal raw s st =
     (let (h, out) = st in
      if s \<in> raw
      then (h\<lparr>sh_active := insert s (sh_active h), sh_fresh_streak := (sh_fresh_streak h)(s := None)\<rparr>,
            insert s out)
      else if s \<in> sh_active h
      then (let streak = map_get (sh_fresh_streak h) s 0 + 1
            in if 2 \<le> streak
               then (h\<lparr>sh_active := sh_active h - {s},
                       sh_fresh_streak := (sh_fresh_streak h)(s := None)\<rparr>, out)
               else (h\<lparr>sh_fresh_streak := (sh_fresh_streak h)(s \<mapsto> streak)\<rparr>, insert s out))
      else (h, out))"

definition stale_signals ::
  "stale_meter_hysteresis \<Rightarrow> (string \<rightharpoonup> freshness) \<Rightarrow> stale_meter_hysteresis \<times> string set" where
  "stale_signals h snap =
     (let h1 = note_ever_fresh snap h
      in fold (latch_signal (raw_with_missing snap h1)) METER_STALE_SIGNALS (h1, {}))"

text \<open>The injected callable may be absent or raise; both flags are then off, or both on.\<close>

definition stale_flags :: "(instant \<Rightarrow> py_error + string set) option \<Rightarrow> instant \<Rightarrow> bool \<times> bool" where
  "stale_flags f now =
     (case f of
        None \<Rightarrow> (False, False)
      | Some g \<Rightarrow> (case g now of
                     Inl _ \<Rightarrow> (True, True)
                   | Inr names \<Rightarrow> (''ev'' \<in> names, ''grid'' \<in> names)))"

text \<open>Control cycles: one snapshot each.\<close>

fun latch_run :: "stale_meter_hysteresis \<Rightarrow> (string \<rightharpoonup> freshness) list \<Rightarrow> string set list" where
  "latch_run h [] = []"
| "latch_run h (snap # snaps) = (let (h', out) = stale_signals h snap in out # latch_run h' snaps)"

text \<open>
  The specification, without any state: a meter is unreliable in cycle \<open>i\<close> when it is stale, or
  missing although some cycle up to then saw it fresh.
\<close>

definition unreliable_at :: "(string \<rightharpoonup> freshness) list \<Rightarrow> nat \<Rightarrow> string \<Rightarrow> bool" where
  "unreliable_at snaps i s =
     ((snaps ! i) s = Some STALE \<or>
      (snaps ! i) s = Some MISSING \<and> (\<exists>j\<le>i. (snaps ! j) s = Some FRESH))"

text \<open>One cycle for one meter, whatever the state of the other.\<close>

definition latch_out :: "stale_meter_hysteresis \<Rightarrow> (string \<rightharpoonup> freshness) \<Rightarrow> string \<Rightarrow> bool" where
  "latch_out h snap s = (s \<in> snd (stale_signals h snap))"

definition bad_now :: "stale_meter_hysteresis \<Rightarrow> (string \<rightharpoonup> freshness) \<Rightarrow> string \<Rightarrow> bool" where
  "bad_now h snap s = (snap s = Some STALE \<or> snap s = Some MISSING \<and> s \<in> sh_ever_fresh h)"

lemma latch_signal_same:
  "s \<in> snd (latch_signal raw s (h, out)) \<longleftrightarrow>
     s \<in> out \<or> s \<in> raw \<or> (s \<in> sh_active h \<and> map_get (sh_fresh_streak h) s 0 = 0)"
  "s \<in> sh_active (fst (latch_signal raw s (h, out))) \<longleftrightarrow>
     s \<in> raw \<or> (s \<in> sh_active h \<and> map_get (sh_fresh_streak h) s 0 = 0)"
  "sh_fresh_streak (fst (latch_signal raw s (h, out))) s =
     (if s \<in> raw then None
      else if s \<in> sh_active h
      then (if map_get (sh_fresh_streak h) s 0 = 0 then Some 1 else None)
      else sh_fresh_streak h s)"
  by (simp_all add: latch_signal_def Let_def)

lemma latch_signal_other:
  "t \<noteq> s \<Longrightarrow> s \<in> snd (latch_signal raw t x) \<longleftrightarrow> s \<in> snd x"
  "t \<noteq> s \<Longrightarrow> s \<in> sh_active (fst (latch_signal raw t x)) \<longleftrightarrow> s \<in> sh_active (fst x)"
  "t \<noteq> s \<Longrightarrow> sh_fresh_streak (fst (latch_signal raw t x)) s = sh_fresh_streak (fst x) s"
  by (cases x; simp add: latch_signal_def Let_def)+

lemma latch_signal_ever [simp]:
  "sh_ever_fresh (fst (latch_signal raw t x)) = sh_ever_fresh (fst x)"
  by (cases x) (simp add: latch_signal_def Let_def)

lemma raw_with_missing_iff:
  "s \<in> set METER_STALE_SIGNALS \<Longrightarrow>
     s \<in> raw_with_missing snap (note_ever_fresh snap h) \<longleftrightarrow> bad_now h snap s"
  by (auto simp: raw_with_missing_def raw_meter_stale_def note_ever_fresh_def bad_now_def)

lemma stale_signals_eval:
  assumes "s \<in> set METER_STALE_SIGNALS"
  shows "s \<in> snd (stale_signals h snap) \<longleftrightarrow>
           bad_now h snap s \<or> (s \<in> sh_active h \<and> map_get (sh_fresh_streak h) s 0 = 0)"
    and "s \<in> sh_active (fst (stale_signals h snap)) \<longleftrightarrow>
           bad_now h snap s \<or> (s \<in> sh_active h \<and> map_get (sh_fresh_streak h) s 0 = 0)"
    and "s \<in> sh_ever_fresh (fst (stale_signals h snap)) \<longleftrightarrow> s \<in> sh_ever_fresh h \<or> snap s = Some FRESH"
    and "sh_fresh_streak (fst (stale_signals h snap)) s =
           (if bad_now h snap s then None
            else if s \<in> sh_active h
            then (if map_get (sh_fresh_streak h) s 0 = 0 then Some 1 else None)
            else sh_fresh_streak h s)"
proof -
  let ?h = "note_ever_fresh snap h"
  let ?raw = "raw_with_missing snap ?h"
  have f: "stale_signals h snap = latch_signal ?raw ''grid'' (latch_signal ?raw ''ev'' (?h, {}))"
    by (simp add: stale_signals_def METER_STALE_SIGNALS_def Let_def)
  obtain h1 o1 where one: "latch_signal ?raw ''ev'' (?h, {}) = (h1, o1)"
    by (cases "latch_signal ?raw ''ev'' (?h, {})")
  have frame: "sh_active ?h = sh_active h" "sh_fresh_streak ?h = sh_fresh_streak h"
    by (simp_all add: note_ever_fresh_def)
  note ev = latch_signal_same [where s = "''ev''" and raw = ?raw and h = ?h and out = "{}", unfolded one fst_conv snd_conv]
  note oth = latch_signal_other [where t = "''ev''" and s = "''grid''" and raw = ?raw and x = "(?h, {})", unfolded one fst_conv snd_conv]
  note bad = raw_with_missing_iff [OF assms, of snap h]
  have s: "s = ''ev'' \<or> s = ''grid''" using assms by (simp add: METER_STALE_SIGNALS_def)
  show "s \<in> snd (stale_signals h snap) \<longleftrightarrow>
           bad_now h snap s \<or> (s \<in> sh_active h \<and> map_get (sh_fresh_streak h) s 0 = 0)"
    using s bad ev oth frame by (elim disjE) (simp_all add: f one latch_signal_same latch_signal_other map_get_def)
  show "s \<in> sh_active (fst (stale_signals h snap)) \<longleftrightarrow>
           bad_now h snap s \<or> (s \<in> sh_active h \<and> map_get (sh_fresh_streak h) s 0 = 0)"
    using s bad ev oth frame by (elim disjE) (simp_all add: f one latch_signal_same latch_signal_other map_get_def)
  show "s \<in> sh_ever_fresh (fst (stale_signals h snap)) \<longleftrightarrow> s \<in> sh_ever_fresh h \<or> snap s = Some FRESH"
    using assms by (auto simp: f note_ever_fresh_def)
  show "sh_fresh_streak (fst (stale_signals h snap)) s =
           (if bad_now h snap s then None
            else if s \<in> sh_active h
            then (if map_get (sh_fresh_streak h) s 0 = 0 then Some 1 else None)
            else sh_fresh_streak h s)"
    using s bad ev oth frame by (elim disjE) (simp_all add: f one latch_signal_same latch_signal_other map_get_def)
qed

text \<open>What the latch remembers of a meter: whether the last cycle, or the one before it, was bad.\<close>

definition latch_inv :: "stale_meter_hysteresis \<Rightarrow> string \<Rightarrow> bool \<Rightarrow> bool \<Rightarrow> bool \<Rightarrow> bool" where
  "latch_inv h s bad1 bad2 seen =
     ((s \<in> sh_active h \<longleftrightarrow> bad1 \<or> bad2) \<and> (s \<in> sh_ever_fresh h \<longleftrightarrow> seen) \<and>
      (map_get (sh_fresh_streak h) s 0 = 0 \<longleftrightarrow> bad1 \<or> \<not> bad2))"

lemma latch_inv_step:
  assumes "latch_inv h s bad1 bad2 seen" and s: "s \<in> set METER_STALE_SIGNALS"
  shows "latch_inv (fst (stale_signals h snap)) s (bad_now h snap s) bad1 (seen \<or> snap s = Some FRESH)"
    and "s \<in> snd (stale_signals h snap) \<longleftrightarrow> bad_now h snap s \<or> bad1"
  using assms(1) stale_signals_eval [OF s, of h snap]
  by (auto simp: latch_inv_def map_get_def)

lemma ex_le_Suc: "(\<exists>j\<le>Suc n. P j) \<longleftrightarrow> P 0 \<or> (\<exists>j\<le>n. P (Suc j))"
proof
  assume "\<exists>j\<le>Suc n. P j"
  then obtain j where "j \<le> Suc n" "P j" by blast
  then show "P 0 \<or> (\<exists>j\<le>n. P (Suc j))" by (cases j) auto
qed auto

lemma latch_run_spec:
  assumes "latch_inv h s bad1 bad2 seen" and s: "s \<in> set METER_STALE_SIGNALS" and "i < length snaps"
  shows "s \<in> latch_run h snaps ! i \<longleftrightarrow>
     (let bad = \<lambda>k. (snaps ! k) s = Some STALE \<or>
                     (snaps ! k) s = Some MISSING \<and> (seen \<or> (\<exists>j\<le>k. (snaps ! j) s = Some FRESH))
      in bad i \<or> (case i of 0 \<Rightarrow> bad1 | Suc k \<Rightarrow> bad k))"
  using assms(1,3)
proof (induction snaps arbitrary: h bad1 bad2 seen i)
  case Nil
  then show ?case by simp
next
  case (Cons snap snaps)
  note st = latch_inv_step [OF Cons.prems(1) s, of snap]
  have seen: "s \<in> sh_ever_fresh h \<longleftrightarrow> seen" using Cons.prems(1) by (simp add: latch_inv_def)
  show ?case
  proof (cases i)
    case 0
    then show ?thesis using st(2) seen
      by (auto simp: bad_now_def split_beta)
  next
    case (Suc k)
    have ex: "(\<exists>j\<le>Suc n. ((snap # snaps) ! j) s = Some FRESH) \<longleftrightarrow>
              snap s = Some FRESH \<or> (\<exists>j\<le>n. (snaps ! j) s = Some FRESH)" for n
      by (auto simp: ex_le_Suc)
    have "k < length snaps" using Cons.prems(2) Suc by simp
    from Cons.IH [OF st(1) this] seen Suc show ?thesis
      by (cases k) (auto simp: bad_now_def split_beta Let_def ex)
  qed
qed

text \<open>
  The snapshots of a running system come from one tracker: in each cycle some signals are marked, then the
  snapshot is taken. A signal that was seen once is never missing, or absent, again.
\<close>

fun mark_all :: "freshness_tracker \<Rightarrow> (string \<times> py_datetime) list \<Rightarrow> freshness_tracker" where
  "mark_all t [] = t"
| "mark_all t ((s, ts) # ms) = mark_all (case mark t s ts of Inr t' \<Rightarrow> t' | Inl _ \<Rightarrow> t) ms"

fun tracked_snapshots ::
  "freshness_tracker \<Rightarrow> ((string \<times> py_datetime) list \<times> instant) list \<Rightarrow> (string \<rightharpoonup> freshness) list" where
  "tracked_snapshots t [] = []"
| "tracked_snapshots t ((ms, now) # cycles) =
     freshness_snapshot (mark_all t ms) now # tracked_snapshots (mark_all t ms) cycles"

lemma mark_all_seen: "ft_last t s \<noteq> None \<Longrightarrow> ft_last (mark_all t ms) s \<noteq> None"
proof (induction t ms rule: mark_all.induct)
  case (2 t x ts ms)
  have "ft_last (case mark t x ts of Inr t' \<Rightarrow> t' | Inl _ \<Rightarrow> t) s \<noteq> None"
    using "2.prems" by (auto simp: mark_def bind_res_Inr_iff split: sum.split)
  from "2.IH" [OF this] show ?case by simp
qed simp

lemma seen_reported: "freshness_snapshot t now s \<in> {Some FRESH, Some STALE} \<longleftrightarrow> ft_last t s \<noteq> None"
  by (auto simp: freshness_snapshot_def signal_state_def classify_at_def Let_def split: option.split)

lemma tracked_seen:
  assumes "ft_last t s \<noteq> None" and "k < length cycles"
  shows "(tracked_snapshots t cycles ! k) s \<in> {Some FRESH, Some STALE}"
  using assms
proof (induction t cycles arbitrary: k rule: tracked_snapshots.induct)
  case (2 t ms now cycles)
  have seen: "ft_last (mark_all t ms) s \<noteq> None" using "2.prems"(1) by (rule mark_all_seen)
  show ?case
  proof (cases k)
    case 0
    then show ?thesis using seen by (simp only: seen_reported tracked_snapshots.simps nth_Cons_0 simp_thms)
  next
    case (Suc j)
    with "2.IH" [OF seen] "2.prems"(2) show ?thesis by simp
  qed
qed simp

lemma tracked_stays_seen:
  assumes "(tracked_snapshots t cycles ! i) s \<in> {Some FRESH, Some STALE}" and "i \<le> j" and "j < length cycles"
  shows "(tracked_snapshots t cycles ! j) s \<in> {Some FRESH, Some STALE}"
  using assms
proof (induction t cycles arbitrary: i j rule: tracked_snapshots.induct)
  case (2 t ms now cycles)
  show ?case
  proof (cases i)
    case 0
    with "2.prems"(1) have seen: "ft_last (mark_all t ms) s \<noteq> None"
      by (simp only: seen_reported tracked_snapshots.simps nth_Cons_0 simp_thms)
    show ?thesis
    proof (cases j)
      case (Suc k)
      with tracked_seen [OF seen, of k cycles] "2.prems"(3) show ?thesis by simp
    qed (use 0 "2.prems"(1) in simp)
  next
    case (Suc k)
    with "2.prems" obtain l where "j = Suc l" "k \<le> l" by (cases j) auto
    with "2.IH" [of k l] "2.prems" Suc show ?thesis by simp
  qed
qed simp

lemma tracked_length [simp]: "length (tracked_snapshots t cycles) = length cycles"
  by (induction t cycles rule: tracked_snapshots.induct) simp_all

text \<open>
  C36. What the stale-meter latch does, over any sequence of cycles: a meter makes the planner cautious in
  a cycle exactly when it is unreliable in that cycle or was in the one before, where unreliable means
  stale (also in the very first cycle), or missing after it was seen fresh. So caution starts at once and
  is released by the second reliable cycle in a row, not by the first. The latch itself also counts a
  cycle in which the meter is absent, or missing and never seen fresh, as reliable; but with snapshots
  that one tracker takes, caution is only released by two fresh cycles in a row, as documented.
\<close>

theorem latch_is_two_fresh_cycles:
  assumes "s \<in> set METER_STALE_SIGNALS" and "i < length snaps"
  shows "(s \<in> latch_run hysteresis_init snaps ! i \<longleftrightarrow>
            unreliable_at snaps i s \<or> (0 < i \<and> unreliable_at snaps (i - 1) s)) \<and>
         (snaps = tracked_snapshots t cycles \<and> 0 < i \<and>
          s \<in> latch_run hysteresis_init snaps ! (i - 1) \<and> s \<notin> latch_run hysteresis_init snaps ! i \<longrightarrow>
            (snaps ! (i - 1)) s = Some FRESH \<and> (snaps ! i) s = Some FRESH)"
proof -
  have "latch_inv hysteresis_init s False False False"
    by (simp add: latch_inv_def hysteresis_init_def)
  from latch_run_spec [OF this assms(1)]
  have spec: "s \<in> latch_run hysteresis_init snaps ! k \<longleftrightarrow>
      unreliable_at snaps k s \<or> (0 < k \<and> unreliable_at snaps (k - 1) s)" if "k < length snaps" for k
    using that by (cases k) (simp_all add: unreliable_at_def)
  have "(snaps ! (i - 1)) s = Some FRESH \<and> (snaps ! i) s = Some FRESH"
    if snaps: "snaps = tracked_snapshots t cycles" and "0 < i"
      and out: "s \<in> latch_run hysteresis_init snaps ! (i - 1)" "s \<notin> latch_run hysteresis_init snaps ! i"
  proof -
    obtain k where i: "i = Suc k" using \<open>0 < i\<close> by (cases i) auto
    from out spec [of i] assms(2) have ok: "\<not> unreliable_at snaps (Suc k) s" "\<not> unreliable_at snaps k s"
      by (simp_all add: i)
    from out(1) spec [of k] assms(2) ok(2) have bad: "0 < k" "unreliable_at snaps (k - 1) s" by (simp_all add: i)
    have "\<exists>j\<le>k - 1. (snaps ! j) s \<in> {Some FRESH, Some STALE}"
      using bad(2) by (auto simp: unreliable_at_def)
    then obtain j where j: "j \<le> k" "(snaps ! j) s \<in> {Some FRESH, Some STALE}" by (meson diff_le_self le_trans)
    have "(snaps ! l) s \<in> {Some FRESH, Some STALE}" if "l = k \<or> l = Suc k" for l
      using tracked_stays_seen [of t cycles j s l] j assms(2) that unfolding snaps i by (elim disjE) simp_all
    from this [of k] this [of "Suc k"] ok show ?thesis by (auto simp: unreliable_at_def i)
  qed
  with spec [OF assms(2)] show ?thesis by blast
qed

text \<open>A grid meter that is marked at 0 s, then at 20 minutes and again at 25: cautious for 15 and 20 minutes.\<close>

definition demo_cycles :: "((string \<times> py_datetime) list \<times> instant) list" where
  "demo_cycles = [([(''grid'', Aware 0)], 0), ([], 15 * us_minute),
     ([(''grid'', Aware (20 * us_minute))], 20 * us_minute), ([(''grid'', Aware (25 * us_minute))], 25 * us_minute)]"

theorem latch_is_two_fresh_cycles_witness:
  "let snaps = tracked_snapshots tracker_init demo_cycles
   in ''grid'' \<in> latch_run hysteresis_init snaps ! 2 \<and> ''grid'' \<notin> latch_run hysteresis_init snaps ! 3 \<and>
      (snaps ! 2) ''grid'' = Some FRESH \<and> (snaps ! 3) ''grid'' = Some FRESH"
proof -
  let ?snaps = "tracked_snapshots tracker_init demo_cycles"
  have len: "length ?snaps = 4" by (simp add: demo_cycles_def)
  have grid: "''grid'' \<in> set METER_STALE_SIGNALS" by (simp add: METER_STALE_SIGNALS_def)
  have st: "map (\<lambda>m. m ''grid'') ?snaps = [Some FRESH, Some STALE, Some FRESH, Some FRESH]"
    by (simp add: demo_cycles_def mark_def tracker_init_def freshness_snapshot_def signal_state_def classify_at_def
        threshold_def SIGNAL_STALE_AFTER_S_def map_get_def total_seconds_def)
  have at: "(?snaps ! k) ''grid'' = [Some FRESH, Some STALE, Some FRESH, Some FRESH] ! k" if "k < 4" for k
    using nth_map [of k ?snaps "\<lambda>m. m ''grid''"] that len by (simp add: st)
  have un: "unreliable_at ?snaps 1 ''grid''" "\<not> unreliable_at ?snaps 2 ''grid''" "\<not> unreliable_at ?snaps 3 ''grid''"
    using at [of 1] at [of 2] at [of 3] by (simp_all add: unreliable_at_def)
  note th = latch_is_two_fresh_cycles [OF grid, of _ ?snaps tracker_init demo_cycles]
  have "''grid'' \<in> latch_run hysteresis_init ?snaps ! 2" using th [of 2] un len by (simp add: numeral_2_eq_2)
  moreover have "''grid'' \<notin> latch_run hysteresis_init ?snaps ! 3" using th [of 3] un len by (simp add: numeral_eq_Suc)
  moreover have "(?snaps ! 2) ''grid'' = Some FRESH \<and> (?snaps ! 3) ''grid'' = Some FRESH"
    using th [of 3] len calculation by (simp add: numeral_eq_Suc)
  ultimately show ?thesis by (simp add: Let_def)
qed

end
