(* ===== verification/PlanPipeline.thy ===== *)
theory PlanPipeline
  imports PlannerPort Recovery ChargeNeed PriceQuality LiveReads EvLoad AcceptedWindows SeasonHysteresis Freshness
begin

section \<open>The plan to act on (\<open>ems/control/service.py\<close>, the plan path)\<close>

text \<open>
  From the settings and the live inputs to the plan the control loop works with: the configurations of the
  planners, the price check, the strategy with its memory, the request through the planner port, the
  missed-window recovery, the floor marks, the honest partial and the last cycle clamp, and the memo that
  shares one plan per window. The settings are the values in force; everything a cycle reads is one
  record. The strategy is a text; a stored memory that holds no text gives the empty one, which every
  planner treats as it treats \<open>winter\<close>.
\<close>

subsection \<open>Settings and surroundings\<close>

record plan_settings =
  ps_usable_kwh :: real
  ps_max_charge_w :: real
  ps_max_discharge_w :: real
  ps_min_reserve :: "real option"
  ps_night_reserve :: real
  ps_overnight_load :: real
  ps_rte :: real
  ps_degradation :: real
  ps_risk :: real
  ps_charge_slots :: nat
  ps_discharge_slots :: nat
  ps_negative_soak :: bool
  ps_import_fee :: real
  ps_includes_all_fees :: bool
  ps_daily_cap :: real
  ps_max_cycles :: real
  ps_min_savings :: real
  ps_max_buy :: real
  ps_solar_confidence :: real            \<comment> \<open>percent\<close>
  ps_solar_basis :: string
  ps_summer_topup :: bool
  ps_summer_max_topup :: real
  ps_must_enabled :: bool
  ps_must_target :: real
  ps_must_max_price :: real
  ps_must_buffer :: real
  ps_recovery_enabled :: bool
  ps_strategy_mode :: string
  ps_hysteresis_days :: int
  ps_stale_buffer_pp :: real
  ps_quarter_profile :: bool
  ps_planner_mode :: "(planner_mode + string) option"
  ps_live_read_seconds :: json
  ps_trading_enabled :: bool
  ps_trading_min_extra :: real
  ps_max_export_kwh :: real
  ps_min_export_kwh :: real
  ps_export_mode :: string
  ps_export_model :: string
  ps_energy_tax :: real
  ps_fixed_feed_in :: real

text \<open>What one cycle reads; the state of charge is read again after the plan is built.\<close>

record plan_env =
  pe_settings :: plan_settings
  pe_tz :: zone
  pe_of_wall :: "int \<Rightarrow> instant"
  pe_price_zone :: price_zone
  pe_prices :: "raw_price list option"          \<comment> \<open>\<open>None\<close>: no price source\<close>
  pe_serving_backup :: bool
  pe_price_provenance :: string
  pe_forecast :: "forecast_slot list option"    \<comment> \<open>\<open>None\<close>: no solar forecast\<close>
  pe_forecast_provider :: string
  pe_forecast_issued_at :: "instant option"
  pe_soc :: "real option"
  pe_soc_after :: "real option"
  pe_capability :: "capability_report option"
  pe_profile :: "(bool \<Rightarrow> instant \<Rightarrow> real) option"   \<comment> \<open>by quarter or by hour\<close>
  pe_windows :: "json option"
  pe_clock :: instant
  pe_ev :: ev_inputs
  pe_bought :: "real option"
  pe_throughput :: "(real \<times> real) option"
  pe_stale :: "(instant \<Rightarrow> py_error + string set) option"
  pe_resident :: "must_charge_override option"
  pe_sha :: hasher
  pe_cfg_hash :: "port_request \<Rightarrow> string \<Rightarrow> string"

definition pe_floor_soc :: "plan_env \<Rightarrow> real" where
  "pe_floor_soc e = effective_floor_from_settings (ps_min_reserve (pe_settings e)) (pe_capability e)"

subsection \<open>The configurations of the planners\<close>

definition import_fee_of :: "plan_settings \<Rightarrow> real" where
  "import_fee_of s = (if ps_includes_all_fees s then 0 else ps_import_fee s)"

definition planner_cfg :: "plan_env \<Rightarrow> winter_config" where
  "planner_cfg e =
     (let s = pe_settings e
      in (winter_defaults (pe_tz e) (pe_of_wall e))
           \<lparr>wc_rte := ps_rte s, wc_degradation := ps_degradation s, wc_risk := ps_risk s,
            wc_charge_slots := ps_charge_slots s, wc_discharge_slots := ps_discharge_slots s,
            wc_negative_soak := ps_negative_soak s, wc_import_fee := import_fee_of s,
            wc_includes_all_fees := ps_includes_all_fees s, wc_daily_cap_kwh := ps_daily_cap s,
            wc_max_cycles := ps_max_cycles s, wc_daily_min_savings := ps_min_savings s,
            wc_max_buy := ps_max_buy s\<rparr>)"

definition night_target_soc :: "plan_env \<Rightarrow> real \<Rightarrow> charge_need" where
  "night_target_soc e soc_pct =
     (let s = pe_settings e
      in compute_charge_need soc_pct (ps_usable_kwh s) (pe_floor_soc e) (ps_night_reserve s)
           (ps_overnight_load s) (ps_rte s))"

definition summer_cfg :: "plan_env \<Rightarrow> real \<Rightarrow> summer_config" where
  "summer_cfg e soc_pct =
     (let s = pe_settings e
      in \<lparr>su_usable_kwh = ps_usable_kwh s, su_target_soc_pct = cn_target_soc_pct (night_target_soc e soc_pct),
          su_rte = ps_rte s, su_max_charge_w = ps_max_charge_w s,
          su_expected_load_w = ps_overnight_load s * 1000 / 12,
          su_solar_confidence = ps_solar_confidence s / 100, su_allow_topup = ps_summer_topup s,
          su_max_topup_price = ps_summer_max_topup s, su_degradation = ps_degradation s, su_risk = ps_risk s,
          su_horizon_slots = 96, su_negative_soak = ps_negative_soak s, su_daily_cap_kwh = ps_daily_cap s,
          su_already_bought = Some 0, su_tz = pe_tz e, su_of_wall = pe_of_wall e\<rparr>)"

text \<open>The resident's override, when it engages; the device's floor of the automatic target.\<close>

definition resident_inputs :: "plan_env \<Rightarrow> (real \<times> instant) option" where
  "resident_inputs e =
     (case pe_resident e of
        None \<Rightarrow> None
      | Some r \<Rightarrow> if mo_engages r (pe_clock e) (pe_soc e) then Some (mo_target_soc r, mo_deadline r) else None)"

definition device_min_of :: "capability_report option \<Rightarrow> real option" where
  "device_min_of cap =
     (case cap of None \<Rightarrow> None | Some c \<Rightarrow> if 0 < cap_min_target_soc c then Some (cap_min_target_soc c) else None)"

definition grid_charge_ready :: "capability_report option \<Rightarrow> bool" where
  "grid_charge_ready cap =
     (case cap of None \<Rightarrow> False | Some c \<Rightarrow> cap_supports_grid_charge c \<and> 0 < cap_max_charge_w c)"

definition must_target_of :: "plan_env \<Rightarrow> real" where
  "must_target_of e =
     (let wanted = min 100 (ps_must_target (pe_settings e))
      in case device_min_of (pe_capability e) of
           Some d \<Rightarrow> max (pe_floor_soc e) (max d wanted)
         | None \<Rightarrow> max (pe_floor_soc e) wanted)"

definition adaptive_cfg :: "plan_env \<Rightarrow> adaptive_config" where
  "adaptive_cfg e =
     (let s = pe_settings e
      in \<lparr>ad_usable_kwh = ps_usable_kwh s, ad_reserve_soc_pct = pe_floor_soc e, ad_rte = ps_rte s,
          ad_max_charge_w = ps_max_charge_w s, ad_degradation = ps_degradation s, ad_risk = ps_risk s,
          ad_solar_confidence = ps_solar_confidence s / 100, ad_horizon_slots = 96,
          ad_negative_soak = ps_negative_soak s, ad_daily_cap_kwh = ps_daily_cap s, ad_already_bought = Some 0,
          ad_max_cycles = ps_max_cycles s, ad_charged_today = Some 0, ad_discharged_today = Some 0,
          ad_tz = pe_tz e, ad_of_wall = pe_of_wall e, ad_must_enabled = ps_must_enabled s,
          ad_must_target_soc = must_target_of e, ad_must_max_price = ps_must_max_price s,
          ad_must_buffer_pp = ps_must_buffer s, ad_must_capability_ready = grid_charge_ready (pe_capability e),
          ad_must_device_min = device_min_of (pe_capability e),
          ad_resident_target = map_option fst (resident_inputs e),
          ad_resident_deadline = map_option snd (resident_inputs e), ad_max_buy = ps_max_buy s,
          ad_solar_basis = ps_solar_basis s\<rparr>)"

definition known_or :: "string \<Rightarrow> string list \<Rightarrow> string \<Rightarrow> string" where
  "known_or v known fallback = (if v \<in> set known then v else fallback)"

definition trading_config_from_settings :: "plan_settings \<Rightarrow> real option \<Rightarrow> trading_config" where
  "trading_config_from_settings s reserve_soc_pct =
     \<lparr>tr_enabled = ps_trading_enabled s, tr_min_extra = ps_trading_min_extra s,
      tr_max_export_kwh = ps_max_export_kwh s, tr_min_export_kwh = ps_min_export_kwh s,
      tr_export_mode = known_or (ps_export_mode s) [''peak_slice'', ''full_dump''] ''peak_slice'',
      tr_max_cycles = ps_max_cycles s, tr_charged_today = Some 0, tr_discharged_today = Some 0,
      tr_daily_min = ps_min_savings s,
      tr_export_model = known_or (ps_export_model s) [''net_metering'', ''spot_minus_tax'', ''fixed''] ''spot_minus_tax'',
      tr_energy_tax = ps_energy_tax s, tr_fixed_feed_in = ps_fixed_feed_in s, tr_rte = ps_rte s,
      tr_degradation = ps_degradation s, tr_risk = ps_risk s, tr_charge_slots = ps_charge_slots s,
      tr_discharge_slots = ps_discharge_slots s, tr_horizon_slots = 96, tr_max_charge_w = ps_max_charge_w s,
      tr_max_discharge_w = ps_max_discharge_w s, tr_usable_kwh = ps_usable_kwh s,
      tr_reserve_soc_pct = opt_else reserve_soc_pct 10, tr_import_fee = import_fee_of s,
      tr_includes_all_fees = ps_includes_all_fees s, tr_assumed_load_w = 800\<rparr>"

text \<open>Today's purchases and throughput, as read from history; unknown stays unknown.\<close>

definition charged_of :: "(real \<times> real) option \<Rightarrow> real option" where "charged_of t = map_option fst t"
definition discharged_of :: "(real \<times> real) option \<Rightarrow> real option" where "discharged_of t = map_option snd t"

definition stamp_winter :: "plan_env \<Rightarrow> winter_config \<Rightarrow> winter_config" where
  "stamp_winter e c = c\<lparr>wc_already_bought := pe_bought e, wc_charged_today := charged_of (pe_throughput e),
                        wc_discharged_today := discharged_of (pe_throughput e)\<rparr>"

definition stamp_summer :: "plan_env \<Rightarrow> summer_config \<Rightarrow> summer_config" where
  "stamp_summer e c = c\<lparr>su_already_bought := pe_bought e\<rparr>"

definition stamp_adaptive :: "plan_env \<Rightarrow> adaptive_config \<Rightarrow> adaptive_config" where
  "stamp_adaptive e c = c\<lparr>ad_already_bought := pe_bought e, ad_charged_today := charged_of (pe_throughput e),
                          ad_discharged_today := discharged_of (pe_throughput e)\<rparr>"

definition stamp_trading :: "plan_env \<Rightarrow> trading_config \<Rightarrow> trading_config" where
  "stamp_trading e c = c\<lparr>tr_charged_today := charged_of (pe_throughput e),
                         tr_discharged_today := discharged_of (pe_throughput e)\<rparr>"

subsection \<open>Expected load, strategy\<close>

definition load_by :: "plan_env \<Rightarrow> instant list \<Rightarrow> (instant \<rightharpoonup> real)" where
  "load_by e starts =
     (let base = (case pe_profile e of
                    None \<Rightarrow> (\<lambda>_. ps_overnight_load (pe_settings e) * 1000 / 12)
                  | Some f \<Rightarrow> f (ps_quarter_profile (pe_settings e)));
          bump = accepted_load_bump_w (pe_windows e) starts (Some (pe_clock e))
      in (\<lambda>t. if t \<in> set starts then Some (base t + max 0 (opt_else (bump t) 0)) else None))"

definition surplus_kwh :: "plan_env \<Rightarrow> real option" where
  "surplus_kwh e =
     (case pe_forecast e of
        None \<Rightarrow> None
      | Some slots \<Rightarrow>
          (let fc = take 96 slots; load = load_by e (map fc_start fc)
           in Some (sum_list (map (\<lambda>f. max 0 (fc_p50_w f - map_get load (fc_start f) 0) * (1/4) / 1000) fc))))"

text \<open>The spread is taken over the feed that passed the check, so every price is finite.\<close>

definition price_spread :: "price_slot list \<Rightarrow> real option" where
  "price_spread prices =
     (let ps = map pr_eur (take 96 prices) in if ps = [] then None else Some (Max (set ps) - Min (set ps)))"

record acted_plan =
  ap_now :: instant
  ap_prices :: "price_slot list"
  ap_plan :: plan
  ap_status :: completion_status
  ap_catch :: "catch_up_result option"

text \<open>What a cached plan is for: the window of its instant, the accepted appliances, the resident's override.\<close>

datatype resident_token =
    NoResident | Ended end_cause instant | Idle instant | Active real instant instant

type_synonym plan_key = "instant \<times> (string \<times> window) list \<times> resident_token"

record plan_service =
  sv_hysteresis :: hysteresis_state
  sv_prev_backup :: bool
  sv_horizon :: "price_horizon_status option"
  sv_cache :: "(plan_key \<times> acted_plan) option"
  sv_builds :: nat

definition strategy_text :: "json \<Rightarrow> string" where
  "strategy_text v = (case v of JStr s \<Rightarrow> s | _ \<Rightarrow> [])"

definition active_strategy :: "plan_env \<Rightarrow> price_slot list \<Rightarrow> hysteresis_state \<Rightarrow> instant \<Rightarrow> string \<times> hysteresis_state" where
  "active_strategy e prices h now =
     (let s = pe_settings e; forced = ps_strategy_mode s \<in> {''summer'', ''winter''};
          (strat, why, h') = resolve_strategy_hysteretic now (Some (ps_strategy_mode s)) (pe_tz e) h
             (if forced then None else surplus_kwh e) (if forced then None else price_spread prices)
             DEFAULT_SUMMER_MONTHS (ps_hysteresis_days s)
      in (strategy_text strat, h'))"

subsection \<open>The fresh plan\<close>

definition accepted_prices :: "raw_price list \<Rightarrow> price_slot list" where
  "accepted_prices raw =
     List.map_filter (\<lambda>s. case (rp_start s, rp_eur s) of
        (Aware t, Some x) \<Rightarrow> Some \<lparr>pr_start = t, pr_eur = x, pr_origin = rp_origin s\<rparr>
      | _ \<Rightarrow> None) raw"

definition request_of :: "plan_env \<Rightarrow> instant \<Rightarrow> price_slot list \<Rightarrow> real \<Rightarrow> string \<Rightarrow> port_request" where
  "request_of e now prices soc strategy =
     (let s = pe_settings e; load = load_by e (map pr_start prices); flags = stale_flags (pe_stale e) now
      in \<lparr>po_plan =
            \<lparr>rq_strategy = strategy, rq_prices = prices, rq_forecast = opt_else (pe_forecast e) [], rq_now = now,
             rq_soc_pct = soc, rq_winter = stamp_winter e (planner_cfg e),
             rq_summer = stamp_summer e (summer_cfg e soc), rq_load_by = Some load,
             rq_adaptive = Some (stamp_adaptive e (adaptive_cfg e)),
             rq_expected_ev_kwh =
               (if strategy = ''winter'' then ev_kwh (estimate_ev_exogenous_kwh now (pe_tz e) (pe_ev e)) else 0),
             rq_trading = Some (stamp_trading e (trading_config_from_settings s (Some (pe_floor_soc e)))),
             rq_price_zone = pe_price_zone e\<rparr>,
          po_mode = opt_else (ps_planner_mode s) (Inl RULE_BASED),
          po_price_provenance = Some (pe_price_provenance e),
          po_forecast_provider = (if pe_forecast e = None then None else Some (pe_forecast_provider e)),
          po_forecast_issued_at = (if pe_forecast e = None then None else pe_forecast_issued_at e),
          po_baseline = (if prices = [] then None else Some ''load_profile''), po_capability_ref = None,
          po_ev_stale = fst flags, po_grid_stale = snd flags, po_stale_buffer_pp = ps_stale_buffer_pp s\<rparr>)"

text \<open>
  A feed that is live again after the backup tariff drops the cached plan.
  \<open>None\<close> beside the state: no price source, a feed that fails the check, or an unknown state of charge.
  The registry has the rule-based adapter only, so that is the planner for every configured mode.
\<close>

definition build_plan_now ::
  "plan_env \<Rightarrow> plan_service \<Rightarrow> instant \<Rightarrow> plan_service \<times> (py_error + (price_slot list \<times> plan) option)" where
  "build_plan_now e sv now =
     (case pe_prices e of
        None \<Rightarrow> (sv, Inr None)
      | Some raw \<Rightarrow>
          (let status = validate_price_horizon raw (Aware now) (pe_tz e) (pe_of_wall e);
               sv1 = sv\<lparr>sv_cache := (if sv_prev_backup sv \<and> \<not> pe_serving_backup e then None else sv_cache sv),
                        sv_prev_backup := pe_serving_backup e, sv_horizon := Some status\<rparr>
           in if \<not> ph_ok status then (sv1, Inr None)
              else
                (let prices = accepted_prices raw;
                     (strategy, h) = active_strategy e prices (sv_hysteresis sv) now;
                     sv2 = sv1\<lparr>sv_hysteresis := h\<rparr>
                 in case pe_soc e of
                      None \<Rightarrow> (sv2, Inr None)
                    | Some soc \<Rightarrow>
                        (sv2, bind_res (rule_based_plan (pe_sha e) (pe_cfg_hash e)
                                          (request_of e now prices soc strategy))
                                (\<lambda>p. Inr (Some (prices, p)))))))"

subsection \<open>Recovery, marks, honest partial, last clamp\<close>

definition project_plan :: "plan_env \<Rightarrow> plan \<Rightarrow> real \<Rightarrow> projected_slot list option" where
  "project_plan e p soc =
     (case pe_forecast e of
        None \<Rightarrow> None
      | Some fc \<Rightarrow>
          if pl_slots p = [] then None
          else
            (let s = pe_settings e;
                 m = \<lparr>bm_usable_kwh = ps_usable_kwh s, bm_max_charge_w = ps_max_charge_w s,
                      bm_max_discharge_w = ps_max_discharge_w s, bm_round_trip_efficiency = ps_rte s,
                      bm_reserve_soc_pct = pe_floor_soc e\<rparr>
             in Some (project_energy (pl_slots p) soc (p50_map fc) (load_by e (map sl_start (pl_slots p))) m
                        None SLOT None)))"

definition recovery_inputs :: "plan_env \<Rightarrow> price_slot list \<Rightarrow> real \<Rightarrow> catch_up_inputs" where
  "recovery_inputs e prices soc =
     (let s = pe_settings e
      in \<lparr>cu_soc_pct = soc, cu_prices = prices, cu_usable_kwh = ps_usable_kwh s, cu_reserve_soc_pct = pe_floor_soc e,
          cu_max_charge_w = ps_max_charge_w s, cu_rte = ps_rte s, cu_daily_cap_kwh = ps_daily_cap s,
          cu_already_bought = pe_bought e, cu_tz = pe_tz e, cu_degradation = ps_degradation s,
          cu_risk = ps_risk s, cu_max_buy = ps_max_buy s\<rparr>)"

definition DEFAULT_MARGIN_PP :: real where "DEFAULT_MARGIN_PP = 5"

definition reshaped :: "plan_env \<Rightarrow> plan \<Rightarrow> real \<Rightarrow> plan" where
  "reshaped e p soc =
     (let s = pe_settings e; projected = project_plan e p soc;
          marked = mark_floor_holds p projected (pe_floor_soc e) (Some soc);
          honest = honest_partial_from_projection marked projected (pe_floor_soc e)
                     (device_min_target_soc (pe_capability e)) DEFAULT_MARGIN_PP
      in clamp_cycle_budget honest (charged_of (pe_throughput e)) (discharged_of (pe_throughput e)) (ps_max_cycles s)
           (ps_usable_kwh s) (ps_rte s) (ps_max_charge_w s) (pe_tz e))"

definition plan_with_recovery_uncached ::
  "plan_env \<Rightarrow> plan_service \<Rightarrow> instant \<Rightarrow> plan_service \<times> (py_error + acted_plan option)" where
  "plan_with_recovery_uncached e sv now =
     (case build_plan_now e sv now of
        (sv1, Inl err) \<Rightarrow> (sv1, Inl err)
      | (sv1, Inr None) \<Rightarrow> (sv1, Inr None)
      | (sv1, Inr (Some (prices, p))) \<Rightarrow>
          (sv1,
           case pe_soc_after e of
             None \<Rightarrow> Inr (Some \<lparr>ap_now = now, ap_prices = prices, ap_plan = p,
                        ap_status = \<lparr>cs_status = NOT_APPLICABLE, cs_gap_pp = 0,
                                     cs_reason = [Lit ''battery level unknown'']\<rparr>, ap_catch = None\<rparr>)
           | Some soc \<Rightarrow>
               bind_res (recover_if_needed p now (recovery_inputs e prices soc)
                           (ps_recovery_enabled (pe_settings e)) DEFAULT_MARGIN_PP)
                 (\<lambda>(r, status, caught). Inr (Some \<lparr>ap_now = now, ap_prices = prices, ap_plan = reshaped e r soc,
                                                  ap_status = status, ap_catch = caught\<rparr>))))"

subsection \<open>The memo\<close>

definition resident_token :: "plan_env \<Rightarrow> instant \<Rightarrow> resident_token" where
  "resident_token e now =
     (case pe_resident e of
        None \<Rightarrow> NoResident
      | Some r \<Rightarrow>
          (case mo_end_cause r now (pe_soc e) of
             Some cause \<Rightarrow> Ended cause (mo_created r)
           | None \<Rightarrow> if \<not> mo_engages r now (pe_soc e) then Idle (mo_created r)
                     else Active (mo_target_soc r) (mo_deadline r) (mo_created r)))"

definition plan_key :: "plan_env \<Rightarrow> instant \<Rightarrow> plan_key" where
  "plan_key e now =
     (quantize_now (coalesce_s (ps_live_read_seconds (pe_settings e))) now,
      accepted_windows_revision (pe_windows e) (Some (pe_clock e)), resident_token e now)"

text \<open>Only a plan is kept: after \<open>None\<close> or an exception the next call tries again.\<close>

definition build_and_keep ::
  "plan_env \<Rightarrow> plan_service \<Rightarrow> instant \<Rightarrow> plan_service \<times> (py_error + acted_plan option)" where
  "build_and_keep e sv now =
     (case plan_with_recovery_uncached e sv now of
        (sv1, Inl err) \<Rightarrow> (sv1, Inl err)
      | (sv1, Inr None) \<Rightarrow> (sv1\<lparr>sv_builds := sv_builds sv1 + 1\<rparr>, Inr None)
      | (sv1, Inr (Some q)) \<Rightarrow>
          (sv1\<lparr>sv_builds := sv_builds sv1 + 1, sv_cache := Some (plan_key e now, q)\<rparr>, Inr (Some q)))"

definition plan_with_recovery ::
  "plan_env \<Rightarrow> plan_service \<Rightarrow> instant \<Rightarrow> plan_service \<times> (py_error + acted_plan option)" where
  "plan_with_recovery e sv now =
     (case sv_cache sv of
        None \<Rightarrow> build_and_keep e sv now
      | Some (k, r) \<Rightarrow> if k = plan_key e now then (sv, Inr (Some r)) else build_and_keep e sv now)"

definition invalidate_plan_cache :: "plan_service \<Rightarrow> plan_service" where
  "invalidate_plan_cache sv = sv\<lparr>sv_cache := None\<rparr>"

end
