(* ===== verification/PipelineSafety.thy ===== *)
theory PipelineSafety
  imports PlanPipeline
begin

section \<open>The plan the loop acts on keeps its budgets\<close>

text \<open>
  What the plan path of \<open>ems/control/service.py\<close> promises of the plan it hands out: every stage between the
  planner port and the controller leaves the purchases of each day within the cap, the last stage leaves each
  day within the cycle budget, and the memo hands out nothing but a plan built for the same window, the same
  accepted appliances and the same override.
\<close>

subsection \<open>No stage after the planner buys more\<close>

lemma stale_walk_buys_no_more: "list_all2 buys_no_more ss (stale_walk e soc ss)"
proof (induction ss arbitrary: soc)
  case (Cons s ss)
  have "buys_no_more s (fst (stale_step e soc s))"
    by (simp add: stale_step_def buys_no_more_def Let_def)
  with Cons show ?case by (simp add: split_beta)
qed simp

lemma partial_slot_buys_no_more: "buys_no_more s (partial_slot lowered deadline target s)"
  by (auto simp: partial_slot_def buys_no_more_def split: option.split)

lemma buys_no_more_refl: "list_all2 buys_no_more ss ss"
  by (rule list.rel_refl_strong) (simp add: buys_no_more_def)

lemma honest_partial_buys_no_more:
  "list_all2 buys_no_more (pl_slots p) (pl_slots (honest_partial_from_projection p ps a b m))"
  "pl_created_at (honest_partial_from_projection p ps a b m) = pl_created_at p"
  by (auto simp: honest_partial_from_projection_def Let_def buys_no_more_refl list_all2_map2
        partial_slot_buys_no_more intro: list.rel_refl_strong split: option.split)

lemma reshaped_daily_cap:
  assumes "check_daily_cap v p (take n (pl_slots p)) = []"
  shows "check_daily_cap v (reshaped e p soc) (take n (pl_slots (reshaped e p soc))) = []"
proof -
  let ?m = "mark_floor_holds p (project_plan e p soc) (pe_floor_soc e) (Some soc)"
  let ?h = "honest_partial_from_projection ?m (project_plan e p soc) (pe_floor_soc e)
              (device_min_target_soc (pe_capability e)) DEFAULT_MARGIN_PP"
  have "check_daily_cap v ?m (take n (pl_slots ?m)) = []"
    by (rule buys_no_more_cap_check [OF assms buys_no_more_rewritten [OF mark_floor_holds_rewrites]])
      (simp_all add: holds_def mark_floor_holds_frame)
  then have "check_daily_cap v ?h (take n (pl_slots ?h)) = []"
    by (rule buys_no_more_cap_check) (rule honest_partial_buys_no_more)+
  then show ?thesis
    unfolding reshaped_def Let_def
    by (rule buys_no_more_cap_check [OF _ buys_no_more_rewritten [OF clamp_cycle_rewrites]])
      (simp_all add: restricts_def clamp_cycle_frame)
qed

lemma port_daily_cap:
  assumes "rule_based_plan sha cfg_hash po = Inr q"
    and v: "vi_daily_cap_kwh v = Some (ci_cap (daily_cap_inputs (po_plan po)))"
      "vi_already_bought v = ci_bought (daily_cap_inputs (po_plan po))"
      "vi_per_slot_kwh v = ci_per_slot (daily_cap_inputs (po_plan po))" "vi_tz v = ci_tz (daily_cap_inputs (po_plan po))"
  shows "check_daily_cap v q (take n (pl_slots q)) = []"
proof -
  obtain p c where p: "build_plan (po_plan po) = Inr p" and c: "stale_cautioned po p = Inr c"
    and q: "q = stamped sha cfg_hash po c"
    using assms(1) by (auto simp: rule_based_plan_def bind_res_Inr_iff)
  have slots: "list_all2 buys_no_more (pl_slots p) (pl_slots c)" "pl_created_at c = pl_created_at p"
    using c by (auto simp: stale_cautioned_def apply_stale_meter_caution_def split_beta Let_def
        buys_no_more_refl stale_walk_buys_no_more split: if_splits)
  show ?thesis
    by (rule buys_no_more_cap_check [OF composed_daily_cap [OF p v]]) (simp_all add: q stamped_def Let_def slots)
qed

lemma request_cap_inputs:
  "daily_cap_inputs (po_plan (request_of e now prices soc strategy)) =
     \<lparr>ci_bought = pe_bought e, ci_cap = ps_daily_cap (pe_settings e),
      ci_per_slot = ac_grid_kwh_per_slot (ps_max_charge_w (pe_settings e)), ci_tz = pe_tz e\<rparr>"
  by (simp add: request_of_def daily_cap_inputs_def stamp_winter_def stamp_adaptive_def adaptive_cfg_def
        planner_cfg_def winter_defaults_def Let_def)

lemma built_through_port:
  assumes "build_plan_now e sv now = (sv', Inr (Some (prices, p)))"
  obtains soc strategy where "rule_based_plan (pe_sha e) (pe_cfg_hash e) (request_of e now prices soc strategy) = Inr p"
  using assms
  by (auto simp: build_plan_now_def Let_def split_beta bind_res_Inr_iff split: option.splits if_splits)

lemma uncached_cases:
  assumes "plan_with_recovery_uncached e sv now = (sv', Inr (Some r))"
  obtains (unknown) prices where "build_plan_now e sv now = (sv', Inr (Some (prices, ap_plan r)))" "pe_soc_after e = None" "ap_now r = now"
  | (known) prices p soc q st caught where "build_plan_now e sv now = (sv', Inr (Some (prices, p)))"
      "pe_soc_after e = Some soc" "ap_plan r = reshaped e q soc"
      "recover_if_needed p now (recovery_inputs e prices soc) (ps_recovery_enabled (pe_settings e)) DEFAULT_MARGIN_PP =
         Inr (q, st, caught)" "ap_now r = now"
  using assms
  by (auto simp: plan_with_recovery_uncached_def bind_res_Inr_iff split: prod.splits sum.splits option.splits)

text \<open>
  C7. The plan the control loop acts on is within its budgets, whatever the planner, the recovery of a missed
  window, the floor marks and the honest partial did to it. With the settings in force, no local day of it is
  over the daily purchase cap, counting what history says was bought today (and nothing more may be bought
  today when that is unknown); and when the state of charge was known when the last clamp ran, every local
  day stays, with today's history, within the full cycles allowed, or nothing at all is bought or exported
  on it. There is no exception for the trading strategy.
\<close>

theorem acted_plan_within_budgets:
  assumes run: "plan_with_recovery_uncached e sv now = (sv', Inr (Some r))" and s: "s = pe_settings e"
    and v: "vi_daily_cap_kwh v = Some (ps_daily_cap s)" "vi_already_bought v = pe_bought e"
      "vi_per_slot_kwh v = ac_grid_kwh_per_slot (ps_max_charge_w s)" "vi_tz v = pe_tz e"
    and h: "(h_c, h_d) = resolved_cycle_history (charged_of (pe_throughput e)) (discharged_of (pe_throughput e))"
    and b: "b = cycle_budget_of (ap_plan r) (ps_max_cycles s) (ps_usable_kwh s) (ps_rte s) (ps_max_charge_w s) (pe_tz e)"
  shows "check_daily_cap v (ap_plan r) (take n (pl_slots (ap_plan r))) = [] \<and>
         (0 < ps_usable_kwh s \<and> pe_soc_after e \<noteq> None \<longrightarrow>
            plan_day_efc (ap_plan r) (ps_usable_kwh s) (ps_rte s) (ps_max_charge_w s) (pe_tz e) h_c h_d d
              \<le> max 0 (ps_max_cycles s) + CYCLE_EPS \<or>
            day_energy b (\<lambda>t. restricted_intent (sl_intent t)) fst (pl_slots (ap_plan r)) d = 0 \<and>
            day_energy b (\<lambda>t. restricted_intent (sl_intent t)) snd (pl_slots (ap_plan r)) d = 0)"
proof -
  have built: "check_daily_cap v p (take n (pl_slots p)) = []"
    if "build_plan_now e sv now = (sv', Inr (Some (prices, p)))" for prices p
    using that
    by (rule built_through_port) (erule port_daily_cap; simp add: request_cap_inputs v s)
  from run show ?thesis
  proof (cases rule: uncached_cases)
    case (unknown prices)
    then show ?thesis using built by simp
  next
    case (known prices p soc q st caught)
    from known(4) have "check_daily_cap v q (take n (pl_slots q)) = []"
    proof (cases rule: recover_cases)
      case same
      then show ?thesis using built [OF known(1)] by simp
    next
      case (caught_up chosen target deadline)
      show ?thesis
        unfolding caught_up by (rule catch_up_daily_cap) (simp_all add: recovery_inputs_def v s Let_def)
    qed
    then have cap: "check_daily_cap v (ap_plan r) (take n (pl_slots (ap_plan r))) = []"
      unfolding known(3) by (rule reshaped_daily_cap)
    have resolved: "clamp_cycle_budget y (charged_of (pe_throughput e)) (discharged_of (pe_throughput e)) (ps_max_cycles s)
        (ps_usable_kwh s) (ps_rte s) (ps_max_charge_w s) (pe_tz e) =
      clamp_cycle_budget y (Some h_c) (Some h_d) (ps_max_cycles s) (ps_usable_kwh s) (ps_rte s) (ps_max_charge_w s)
        (pe_tz e)" for y
      by (subst clamp_cycle_history) (simp add: h [symmetric])
    obtain x where x: "ap_plan r = clamp_cycle_budget x (Some h_c) (Some h_d) (ps_max_cycles s) (ps_usable_kwh s)
        (ps_rte s) (ps_max_charge_w s) (pe_tz e)"
      unfolding known(3) reshaped_def Let_def s [symmetric] resolved by blast
    have "b = cycle_budget_of x (ps_max_cycles s) (ps_usable_kwh s) (ps_rte s) (ps_max_charge_w s) (pe_tz e)"
      by (simp add: b x cycle_budget_of_def clamp_cycle_frame)
    with clamped_day_efc(2) [OF _ x, of d] cap show ?thesis by blast
  qed
qed

subsection \<open>The memo\<close>

text \<open>The calls on the service, in the order of the lock: a plan is asked for, or the memo is dropped.\<close>

datatype plan_call = is_Ask: Ask plan_env instant | Forget

fun plan_call_step :: "plan_service \<Rightarrow> plan_call \<Rightarrow> plan_service" where
  "plan_call_step sv (Ask e now) = fst (plan_with_recovery e sv now)"
| "plan_call_step sv Forget = invalidate_plan_cache sv"

definition after_calls :: "plan_service \<Rightarrow> plan_call list \<Rightarrow> plan_service" where
  "after_calls = foldl plan_call_step"

definition since_forget :: "plan_call list \<Rightarrow> plan_call list" where
  "since_forget cs = takeWhile is_Ask (rev cs)"

definition built_by :: "acted_plan \<Rightarrow> plan_env \<Rightarrow> instant \<Rightarrow> bool" where
  "built_by r e now = (\<exists>sv sv'. plan_with_recovery_uncached e sv now = (sv', Inr (Some r)))"

lemma built_byI: "plan_with_recovery_uncached e sv now = (sv', Inr (Some r)) \<Longrightarrow> built_by r e now"
  unfolding built_by_def by blast

lemma built_by_now: "built_by r e now \<Longrightarrow> ap_now r = now"
  unfolding built_by_def by (elim exE) (erule uncached_cases)

lemma uncached_memo: "sv_cache (fst (plan_with_recovery_uncached e sv now)) \<in> {sv_cache sv, None}"
  by (auto simp: plan_with_recovery_uncached_def build_plan_now_def Let_def split_beta
        split: prod.splits sum.splits option.splits)

lemma memo_after:
  assumes "plan_with_recovery e sv now = (sv', a)" and "sv_cache sv' = Some (k, r)"
  shows "sv_cache sv = Some (k, r) \<or> k = plan_key e now \<and> built_by r e now"
  using assms uncached_memo [of e sv now]
  by (auto simp: plan_with_recovery_def build_and_keep_def intro: built_byI
        split: prod.splits sum.splits option.splits if_splits)

lemma memo_invariant:
  assumes "sv_cache sv0 = None" and "sv_cache (after_calls sv0 cs) = Some (k, r)"
  shows "\<exists>e now. Ask e now \<in> set (since_forget cs) \<and> k = plan_key e now \<and> built_by r e now"
  using assms(2)
proof (induction cs rule: rev_induct)
  case Nil
  then show ?case using assms(1) by (simp add: after_calls_def)
next
  case (snoc c cs)
  show ?case
  proof (cases c)
    case (Ask e now)
    obtain sv' a where "plan_with_recovery e (after_calls sv0 cs) now = (sv', a)" by fastforce
    moreover from this snoc.prems Ask have "sv_cache sv' = Some (k, r)" by (simp add: after_calls_def)
    ultimately have "sv_cache (after_calls sv0 cs) = Some (k, r) \<or> k = plan_key e now \<and> built_by r e now"
      by (rule memo_after)
    with snoc.IH Ask show ?thesis by (auto simp: since_forget_def)
  next
    case Forget
    with snoc.prems show ?thesis by (simp add: after_calls_def invalidate_plan_cache_def)
  qed
qed

lemma served_cases:
  assumes "plan_with_recovery e sv now = (sv', Inr (Some r))"
  shows "sv_cache sv = Some (plan_key e now, r) \<or> built_by r e now"
  using assms
  by (auto simp: plan_with_recovery_def build_and_keep_def intro: built_byI
        split: prod.splits sum.splits option.splits if_splits)

text \<open>Two instants of one window are less than the window apart.\<close>

lemma same_window:
  assumes same: "quantize_now w s = quantize_now w t" and "1 \<le> w"
  shows "\<bar>real_of_int (s - t)\<bar> < w * 1000000"
proof -
  define f where "f x = \<lfloor>total_seconds x / w\<rfloor>" for x
  have near: "\<bar>real_of_int (quantize_now w x) - of_int (f x) * w * 1000000\<bar> \<le> 1/2" for x
    using assms(2) py_round0_error [of "of_int (f x) * w * 1000000"] by (simp add: quantize_now_def f_def)
  have "\<bar>real_of_int (f s) * w * 1000000 - of_int (f t) * w * 1000000\<bar> \<le> 1"
    using near [of s] near [of t] same by linarith
  moreover have "real_of_int (f s) * w * 1000000 - of_int (f t) * w * 1000000 = of_int (f s - f t) * (w * 1000000)"
    by (simp add: algebra_simps)
  ultimately have "\<bar>real_of_int (f s - f t)\<bar> * (w * 1000000) \<le> 1"
    using assms(2) by (simp only: abs_mult)
  then have "f s = f t"
  proof (rule contrapos_pp)
    assume "f s \<noteq> f t"
    then have "1 * (w * 1000000) \<le> \<bar>real_of_int (f s - f t)\<bar> * (w * 1000000)"
      using assms(2) by (intro mult_right_mono) auto
    with assms(2) show "\<not> \<bar>real_of_int (f s - f t)\<bar> * (w * 1000000) \<le> 1" by linarith
  qed
  then have "\<bar>total_seconds s / w - total_seconds t / w\<bar> < 1"
    unfolding f_def by linarith
  then have "\<bar>total_seconds s - total_seconds t\<bar> < w"
    using assms(2) by (simp add: abs_divide flip: diff_divide_distrib)
  then show ?thesis by (simp add: total_seconds_def abs_divide flip: diff_divide_distrib)
qed

text \<open>
  C18. The memo never hands out a plan of another situation. Starting with an empty memo, after any sequence of
  calls and invalidations, a plan that is served was built by a full computation of this service since the
  last invalidation, for the same window, the same accepted appliance windows (so with the same extra load on
  every slot) and the same state of the resident's override; and while the window is at least a second, it is
  younger than the window.
\<close>

theorem served_plan_is_of_its_window:
  assumes empty: "sv_cache sv0 = None"
    and served: "plan_with_recovery e (after_calls sv0 cs) now = (sv', Inr (Some r))"
  shows "\<exists>e' now'. Ask e' now' \<in> set (since_forget (cs @ [Ask e now])) \<and> built_by r e' now' \<and>
           plan_key e' now' = plan_key e now \<and> resident_token e' now' = resident_token e now \<and>
           accepted_load_bump_w (pe_windows e') starts (Some (pe_clock e')) =
             accepted_load_bump_w (pe_windows e) starts (Some (pe_clock e)) \<and>
           (let w = coalesce_s (ps_live_read_seconds (pe_settings e))
            in 1 \<le> w \<and> ps_live_read_seconds (pe_settings e') = ps_live_read_seconds (pe_settings e) \<longrightarrow>
                 \<bar>real_of_int (now - ap_now r)\<bar> < w * 1000000)"
proof -
  obtain e' now' where a: "Ask e' now' \<in> set (since_forget (cs @ [Ask e now]))" "built_by r e' now'"
    and k: "plan_key e' now' = plan_key e now"
  proof (cases "built_by r e now")
    case True
    show ?thesis by (rule that [OF _ True refl]) (simp add: since_forget_def)
  next
    case False
    with served_cases [OF served] have "sv_cache (after_calls sv0 cs) = Some (plan_key e now, r)" by blast
    from memo_invariant [OF empty this] obtain e' now' where "Ask e' now' \<in> set (since_forget cs)"
      "plan_key e now = plan_key e' now'" "built_by r e' now'" by blast
    then show ?thesis by (intro that [of e' now']) (simp_all add: since_forget_def)
  qed
  from k have "resident_token e' now' = resident_token e now"
    and "accepted_windows_revision (pe_windows e') (Some (pe_clock e')) = accepted_windows_revision (pe_windows e) (Some (pe_clock e))"
    by (simp_all add: plan_key_def)
  note revision_determines_load [OF this(2), of starts] this(1)
  moreover have "\<bar>real_of_int (now - ap_now r)\<bar> < w * 1000000"
    if "w = coalesce_s (ps_live_read_seconds (pe_settings e))" "1 \<le> w"
      "ps_live_read_seconds (pe_settings e') = ps_live_read_seconds (pe_settings e)" for w
    using same_window [OF _ that(2), of now now'] k that built_by_now [OF a(2)] by (simp add: plan_key_def)
  ultimately show ?thesis using a k by (auto simp: Let_def)
qed

subsection \<open>A winter-free day through the whole path\<close>

definition demo_plan_settings :: plan_settings where
  "demo_plan_settings =
     \<lparr>ps_usable_kwh = 10, ps_max_charge_w = 4000, ps_max_discharge_w = 4000, ps_min_reserve = Some 10,
      ps_night_reserve = 20, ps_overnight_load = 6, ps_rte = 9/10, ps_degradation = 5/100, ps_risk = 2/100,
      ps_charge_slots = 12, ps_discharge_slots = 24, ps_negative_soak = False, ps_import_fee = 0,
      ps_includes_all_fees = True, ps_daily_cap = 12, ps_max_cycles = 3/2, ps_min_savings = 0, ps_max_buy = 0,
      ps_solar_confidence = 80, ps_solar_basis = ''p50'', ps_summer_topup = True, ps_summer_max_topup = 15/100,
      ps_must_enabled = False, ps_must_target = 80, ps_must_max_price = 1/4, ps_must_buffer = 5,
      ps_recovery_enabled = False, ps_strategy_mode = ''summer'', ps_hysteresis_days = 3, ps_stale_buffer_pp = 5,
      ps_quarter_profile = False, ps_planner_mode = None, ps_live_read_seconds = JNum 5,
      ps_trading_enabled = False, ps_trading_min_extra = 1/2, ps_max_export_kwh = 5, ps_min_export_kwh = 1,
      ps_export_mode = ''peak_slice'', ps_export_model = ''net_metering'', ps_energy_tax = 1/10,
      ps_fixed_feed_in = 5/100\<rparr>"

definition demo_env :: plan_env where
  "demo_env =
     \<lparr>pe_settings = demo_plan_settings, pe_tz = utc, pe_of_wall = (\<lambda>x. x), pe_price_zone = Some (utc, \<lambda>x. x),
      pe_prices = Some (demo_day 96), pe_serving_backup = False, pe_price_provenance = ''TibberPriceSource'',
      pe_forecast = None, pe_forecast_provider = [], pe_forecast_issued_at = None, pe_soc = Some 40,
      pe_soc_after = Some 40, pe_capability = None, pe_profile = None, pe_windows = None, pe_clock = us_hour,
      pe_ev = \<lparr>ei_expected_day_kwh = None, ei_day_hint = False, ei_typical_kwh = 0,
               ei_schedule = StoredText None, ei_rows = [], ei_skip_today = False\<rparr>,
      pe_bought = Some 0, pe_throughput = Some (0, 0), pe_stale = None, pe_resident = None,
      pe_sha = (\<lambda>_. ''0''), pe_cfg_hash = (\<lambda>_ _. ''1'')\<rparr>"

definition demo_service :: plan_service where
  "demo_service = \<lparr>sv_hysteresis = hy_fresh, sv_prev_backup = False, sv_horizon = None, sv_cache = None,
                   sv_builds = 0\<rparr>"

text \<open>Summer is forced and trading is off, so the planner returns a plan.\<close>

lemma demo_built_now:
  obtains sv' p where "build_plan_now demo_env demo_service us_hour = (sv', Inr (Some (accepted_prices (demo_day 96), p)))"
proof -
  let ?rq = "\<lambda>soc strategy. request_of demo_env us_hour (accepted_prices (demo_day 96)) soc strategy"
  obtain h where st: "active_strategy demo_env (accepted_prices (demo_day 96)) hy_fresh us_hour = (''summer'', h)"
  proof -
    have "mode_text (Some (ps_strategy_mode (pe_settings demo_env))) = ''summer''"
      by (simp add: mode_text_def demo_env_def demo_plan_settings_def lower_char_def)
    then show ?thesis
      using that by (simp add: active_strategy_def resolve_strategy_hysteretic_def select_strategy_with_reason_def
          strategy_text_def Let_def)
  qed
  have rq: "rq_strategy (po_plan (?rq 40 ''summer'')) = ''summer''" "\<not> po_ev_stale (?rq 40 ''summer'')"
    "\<not> po_grid_stale (?rq 40 ''summer'')"
    "\<exists>cfg. rq_trading (po_plan (?rq 40 ''summer'')) = Some cfg \<and> \<not> tr_enabled cfg"
    by (simp_all add: request_of_def stale_flags_def demo_env_def demo_plan_settings_def stamp_trading_def
          trading_config_from_settings_def Let_def)
  obtain q where q: "build_plan (po_plan (?rq 40 ''summer'')) = Inr q"
    using rq(1,4) by (auto simp: build_plan_def seasonal_plan_def maybe_apply_trading_def)
  have "rule_based_plan (pe_sha demo_env) (pe_cfg_hash demo_env) (?rq 40 ''summer'') =
      Inr (stamped (pe_sha demo_env) (pe_cfg_hash demo_env) (?rq 40 ''summer'') q)"
    using rq(2,3) by (simp add: rule_based_plan_def q stale_cautioned_def split_beta Let_def)
  moreover have "pe_prices demo_env = Some (demo_day 96)" "pe_soc demo_env = Some 40"
    "pe_tz demo_env = utc" "pe_of_wall demo_env = (\<lambda>x. x)" "sv_hysteresis demo_service = hy_fresh"
    by (simp_all add: demo_env_def demo_service_def)
  ultimately show ?thesis
    using that by (simp add: build_plan_now_def demo_feed_ok st Let_def)
qed

lemma demo_acted:
  obtains sv' r where "plan_with_recovery_uncached demo_env demo_service us_hour = (sv', Inr (Some r))"
proof (rule demo_built_now)
  fix sv' p
  assume "build_plan_now demo_env demo_service us_hour = (sv', Inr (Some (accepted_prices (demo_day 96), p)))"
  moreover have "pe_soc_after demo_env = Some 40" "\<not> ps_recovery_enabled (pe_settings demo_env)"
    by (simp_all add: demo_env_def demo_plan_settings_def)
  ultimately show ?thesis
    using that by (cases "pl_deadline p") (auto simp: plan_with_recovery_uncached_def recover_if_needed_def Let_def)
qed

theorem acted_plan_within_budgets_witness:
  "\<exists>r. snd (plan_with_recovery_uncached demo_env demo_service us_hour) = Inr (Some r) \<and>
       check_daily_cap (demo_validate\<lparr>vi_daily_cap_kwh := Some 12, vi_already_bought := Some 0\<rparr>) (ap_plan r)
         (take 96 (pl_slots (ap_plan r))) = []"
proof (rule demo_acted)
  fix sv' r
  assume r: "plan_with_recovery_uncached demo_env demo_service us_hour = (sv', Inr (Some r))"
  have "check_daily_cap (demo_validate\<lparr>vi_daily_cap_kwh := Some 12, vi_already_bought := Some 0\<rparr>) (ap_plan r)
         (take 96 (pl_slots (ap_plan r))) = []"
    by (rule acted_plan_within_budgets [OF r refl _ _ _ _ _ refl, THEN conjunct1])
      (simp_all add: demo_env_def demo_plan_settings_def demo_validate_def ac_grid_kwh_per_slot_def SLOT_HOURS_def
        resolved_cycle_history_def charged_of_def discharged_of_def)
  with r show ?thesis by auto
qed

lemma demo_key: "t = us_hour + 1000000 \<Longrightarrow> plan_key demo_env t = plan_key demo_env us_hour"
  by (simp add: plan_key_def demo_env_def demo_plan_settings_def coalesce_s_def py_or_def quantize_now_def
        resident_token_def total_seconds_def)

theorem served_plan_is_of_its_window_witness:
  "\<exists>r. snd (plan_with_recovery demo_env (after_calls demo_service [Ask demo_env us_hour]) (us_hour + 1000000)) = Inr (Some r) \<and>
       \<bar>real_of_int (us_hour + 1000000 - ap_now r)\<bar> < 5 * 1000000"
proof (rule demo_acted)
  fix sv' r
  assume r: "plan_with_recovery_uncached demo_env demo_service us_hour = (sv', Inr (Some r))"
  then have "sv_cache (after_calls demo_service [Ask demo_env us_hour]) = Some (plan_key demo_env us_hour, r)"
    by (simp add: after_calls_def plan_with_recovery_def build_and_keep_def demo_service_def)
  then have served: "plan_with_recovery demo_env (after_calls demo_service [Ask demo_env us_hour]) t =
      (after_calls demo_service [Ask demo_env us_hour], Inr (Some r))" if "t = us_hour + 1000000" for t
    using demo_key [OF that] by (simp add: plan_with_recovery_def)
  have "sv_cache demo_service = None" by (simp add: demo_service_def)
  from served_plan_is_of_its_window [OF this served [OF refl], of "[]"] obtain e'
    where "e' = demo_env" and young: "let w = coalesce_s (ps_live_read_seconds (pe_settings demo_env))
      in 1 \<le> w \<and> ps_live_read_seconds (pe_settings e') = ps_live_read_seconds (pe_settings demo_env) \<longrightarrow>
           \<bar>real_of_int (us_hour + 1000000 - ap_now r)\<bar> < w * 1000000"
    by (auto simp only: since_forget_def rev.simps append.simps takeWhile.simps plan_call.disc if_True set_simps
        plan_call.inject insert_iff)
  moreover have "coalesce_s (ps_live_read_seconds (pe_settings demo_env)) = 5"
    by (simp add: demo_env_def demo_plan_settings_def coalesce_s_def py_or_def)
  ultimately have "\<bar>real_of_int (us_hour + 1000000 - ap_now r)\<bar> < 5 * 1000000" by simp
  with served [OF refl] show ?thesis by auto
qed

end
