(* ===== verification/CommandFence.thy ===== *)
theory CommandFence
  imports EnergyPrelude "HOL-Library.AList"
begin

section \<open>The battery command fence (\<open>ems/control/command_fence.py\<close>)\<close>

text \<open>
  The synchronous ordering of battery-affecting work. Every method body runs under one condition
  variable, so each is one atomic step on the record; \<open>enter\<close> is the exception: it loops, and each
  turn of its loop between two waits is one step (\<open>enter_poll\<close>), which answers \<open>None\<close> when it goes
  to wait. Threads are interleaved by an arbitrary sequence of such steps.
  A ticket's token is a fresh object: it is represented by the generation allotted with it.
\<close>

datatype command_class = ROUTINE | OVERRIDE | RECOVERY | SHUTDOWN

record command_ticket =
  tk_token :: int
  tk_generation :: int
  tk_class :: command_class

record command_fence =
  fe_generation :: int
  fe_tickets :: "(int \<times> command_ticket) list"
  fe_superseded :: "int set"
  fe_active :: "command_ticket option"
  fe_recoveries :: "(int \<times> command_ticket) list"
  fe_recovery_for :: "(int \<times> int) list"
  fe_draining :: bool

definition fence_init :: command_fence where
  "fence_init = \<lparr>fe_generation = 0, fe_tickets = [], fe_superseded = {}, fe_active = None,
                 fe_recoveries = [], fe_recovery_for = [], fe_draining = False\<rparr>"

subsection \<open>Operations\<close>

definition tickets_of :: "command_fence \<Rightarrow> command_ticket list" where
  "tickets_of f = List.map snd (fe_tickets f)"

definition outstanding :: "command_fence \<Rightarrow> command_ticket \<Rightarrow> bool" where
  "outstanding f t = (map_of (fe_tickets f) (tk_token t) \<noteq> None)"

definition new_ticket :: "command_fence \<Rightarrow> command_class \<Rightarrow> command_fence \<times> command_ticket" where
  "new_ticket f c =
     (let g = fe_generation f + 1; t = \<lparr>tk_token = g, tk_generation = g, tk_class = c\<rparr>
      in (f\<lparr>fe_generation := g, fe_tickets := AList.update g t (fe_tickets f)\<rparr>, t))"

definition routine_generations :: "command_ticket list \<Rightarrow> int set" where
  "routine_generations ts = set (List.map tk_generation (filter (\<lambda>t. tk_class t = ROUTINE) ts))"

lemma routine_generations_eval [simp]:
  "routine_generations [] = {}"
  "routine_generations (t # ts) =
     (if tk_class t = ROUTINE then insert (tk_generation t) (routine_generations ts)
      else routine_generations ts)"
  by (simp_all add: routine_generations_def)

definition reserve :: "command_fence \<Rightarrow> command_class \<Rightarrow> bool \<Rightarrow> command_fence \<times> command_ticket option" where
  "reserve f c draining =
     (if (fe_draining f \<or> draining) \<and> c \<noteq> SHUTDOWN then (f, None)
      else (let (f', t) = new_ticket f c
            in (if c \<noteq> ROUTINE
                then f'\<lparr>fe_superseded := fe_superseded f'
                          \<union> routine_generations (filter (\<lambda>u. u \<noteq> t) (tickets_of f'))\<rparr>
                else f', Some t)))"

definition admit_routine :: "command_fence \<Rightarrow> bool \<Rightarrow> command_fence \<times> command_ticket option" where
  "admit_routine f draining =
     (if fe_draining f \<or> draining \<or> fe_tickets f \<noteq> [] then (f, None)
      else (let (f', t) = new_ticket f ROUTINE in (f', Some t)))"

definition begin_recovery ::
  "command_fence \<Rightarrow> command_ticket \<Rightarrow> bool \<Rightarrow> command_fence \<times> command_ticket option" where
  "begin_recovery f stale draining =
     (let existing = map_of (fe_recoveries f) (tk_generation stale);
          f' = f\<lparr>fe_superseded := insert (tk_generation stale) (fe_superseded f)\<rparr>
      in if (case existing of Some r \<Rightarrow> outstanding f r | None \<Rightarrow> False) then (f, existing)
         else if fe_draining f \<or> draining then (f, None)
         else if list_ex (\<lambda>t. tk_generation stale < tk_generation t \<and> tk_class t \<noteq> ROUTINE) (tickets_of f)
         then (f', None)
         else (let (f'', r) = new_ticket f' RECOVERY
               in (f''\<lparr>fe_recoveries := AList.update (tk_generation stale) r (fe_recoveries f''),
                       fe_recovery_for := AList.update (tk_token r) (tk_generation stale) (fe_recovery_for f'')\<rparr>,
                   Some r)))"

definition eligible :: "command_fence \<Rightarrow> command_ticket list" where
  "eligible f = filter (\<lambda>t. tk_generation t \<notin> fe_superseded f) (tickets_of f)"

definition is_next :: "command_fence \<Rightarrow> command_ticket \<Rightarrow> bool" where
  "is_next f t = (eligible f \<noteq> [] \<and> tk_generation t = Min (set (List.map tk_generation (eligible f))))"

text \<open>
  One turn of the loop of \<open>enter\<close>: \<open>Some True\<close> the fence is taken, \<open>Some False\<close> it gave up,
  \<open>None\<close> it waits. \<open>timed_out\<close> is whether the deadline (if any) has passed.
\<close>

definition enter_poll :: "command_fence \<Rightarrow> command_ticket \<Rightarrow> bool \<Rightarrow> command_fence \<times> bool option" where
  "enter_poll f t timed_out =
     (if \<not> outstanding f t then (f, Some False)
      else if tk_generation t \<in> fe_superseded f \<and> fe_active f \<noteq> Some t then (f, Some False)
      else if fe_active f = None \<and> is_next f t then (f\<lparr>fe_active := Some t\<rparr>, Some True)
      else if timed_out then (f, Some False)
      else (f, None))"

definition leave :: "command_fence \<Rightarrow> command_ticket \<Rightarrow> command_fence" where
  "leave f t = (if fe_active f = Some t then f\<lparr>fe_active := None\<rparr> else f)"

definition release :: "command_fence \<Rightarrow> command_ticket \<Rightarrow> command_fence" where
  "release f t =
     (let f = (if fe_active f = Some t then f\<lparr>fe_active := None\<rparr> else f);
          f = f\<lparr>fe_tickets := AList.delete (tk_token t) (fe_tickets f),
                fe_superseded := fe_superseded f - {tk_generation t}\<rparr>
      in case map_of (fe_recovery_for f) (tk_token t) of
           None \<Rightarrow> f
         | Some g \<Rightarrow> f\<lparr>fe_recovery_for := AList.delete (tk_token t) (fe_recovery_for f),
                        fe_recoveries := AList.delete g (fe_recoveries f)\<rparr>)"

definition fence_empty :: "command_fence \<Rightarrow> bool" where
  "fence_empty f = (fe_tickets f = [])"

definition mark_draining :: "command_fence \<Rightarrow> command_fence" where
  "mark_draining f =
     f\<lparr>fe_draining := True,
       fe_superseded := fe_superseded f \<union> routine_generations (tickets_of f)\<rparr>"

definition clear_draining :: "command_fence \<Rightarrow> command_fence" where
  "clear_draining f = f\<lparr>fe_draining := False\<rparr>"

record fence_snapshot =
  fs_outstanding :: nat
  fs_active_generation :: "int option"
  fs_recovery_pending :: bool

definition fence_snapshot_of :: "command_fence \<Rightarrow> fence_snapshot" where
  "fence_snapshot_of f =
     \<lparr>fs_outstanding = length (fe_tickets f),
      fs_active_generation = map_option tk_generation (fe_active f),
      fs_recovery_pending = (fe_recoveries f \<noteq> [])\<rparr>"

text \<open>Whether a ticket would be granted the fence now.\<close>

definition grants :: "command_fence \<Rightarrow> command_ticket \<Rightarrow> bool" where
  "grants f t = (snd (enter_poll f t False) = Some True)"

subsection \<open>Interleavings\<close>

datatype fence_event =
    EvReserve command_class bool | EvAdmit bool | EvRecover command_ticket bool
  | EvEnter command_ticket bool | EvLeave command_ticket | EvRelease command_ticket
  | EvDrain | EvUndrain

datatype fence_reply = RTicket "command_ticket option" | REntered "bool option" | RDone

fun fence_step :: "command_fence \<Rightarrow> fence_event \<Rightarrow> command_fence \<times> fence_reply" where
  "fence_step f (EvReserve c d) = (let (f', t) = reserve f c d in (f', RTicket t))"
| "fence_step f (EvAdmit d) = (let (f', t) = admit_routine f d in (f', RTicket t))"
| "fence_step f (EvRecover s d) = (let (f', t) = begin_recovery f s d in (f', RTicket t))"
| "fence_step f (EvEnter t x) = (let (f', r) = enter_poll f t x in (f', REntered r))"
| "fence_step f (EvLeave t) = (leave f t, RDone)"
| "fence_step f (EvRelease t) = (release f t, RDone)"
| "fence_step f EvDrain = (mark_draining f, RDone)"
| "fence_step f EvUndrain = (clear_draining f, RDone)"

fun event_ticket :: "fence_event \<Rightarrow> command_ticket option" where
  "event_ticket (EvRecover t _) = Some t"
| "event_ticket (EvEnter t _) = Some t"
| "event_ticket (EvLeave t) = Some t"
| "event_ticket (EvRelease t) = Some t"
| "event_ticket _ = None"

text \<open>
  The fence together with what its callers hold: the tickets handed out, and the tickets whose
  \<open>enter\<close> answered True and that have not been left or released since (the workers that are inside
  the command boundary).
\<close>

record fence_sys =
  fy_fence :: command_fence
  fy_issued :: "command_ticket list"
  fy_inside :: "command_ticket list"

definition sys_init :: fence_sys where
  "sys_init = \<lparr>fy_fence = fence_init, fy_issued = [], fy_inside = []\<rparr>"

fun inside_after :: "fence_event \<Rightarrow> fence_reply \<Rightarrow> command_ticket list \<Rightarrow> command_ticket list" where
  "inside_after (EvEnter t _) (REntered (Some True)) ts = t # ts"
| "inside_after (EvLeave t) _ ts = filter (\<lambda>u. u \<noteq> t) ts"
| "inside_after (EvRelease t) _ ts = filter (\<lambda>u. u \<noteq> t) ts"
| "inside_after _ _ ts = ts"

fun issued_after :: "fence_reply \<Rightarrow> command_ticket list \<Rightarrow> command_ticket list" where
  "issued_after (RTicket (Some t)) ts = List.insert t ts"
| "issued_after _ ts = ts"

definition sys_step :: "fence_sys \<Rightarrow> fence_event \<Rightarrow> fence_sys" where
  "sys_step s e =
     (let (f', r) = fence_step (fy_fence s) e
      in \<lparr>fy_fence = f', fy_issued = issued_after r (fy_issued s),
          fy_inside = inside_after e r (fy_inside s)\<rparr>)"

text \<open>Callers use only tickets they were given.\<close>

inductive fence_steps :: "fence_sys \<Rightarrow> fence_sys \<Rightarrow> bool" where
  stay: "fence_steps s s"
| more: "fence_steps s s' \<Longrightarrow> (\<forall>t. event_ticket e = Some t \<longrightarrow> t \<in> set (fy_issued s'))
           \<Longrightarrow> fence_steps s (sys_step s' e)"

lemma fence_steps_trans: "fence_steps b c \<Longrightarrow> fence_steps a b \<Longrightarrow> fence_steps a c"
  by (induction rule: fence_steps.induct) (auto intro: fence_steps.intros)

subsection \<open>Invariant\<close>

definition ticket_ok :: "command_fence \<Rightarrow> command_ticket \<Rightarrow> bool" where
  "ticket_ok f t = (tk_token t = tk_generation t \<and> tk_generation t \<le> fe_generation f)"

definition fence_inv :: "fence_sys \<Rightarrow> bool" where
  "fence_inv s =
     (let f = fy_fence s; iss = set (fy_issued s) in
      (\<forall>t\<in>iss. ticket_ok f t) \<and> inj_on tk_generation iss \<and>
      (\<forall>(k, t)\<in>set (fe_tickets f). k = tk_token t \<and> t \<in> iss) \<and>
      (\<forall>(g, t)\<in>set (fe_recoveries f). t \<in> iss) \<and>
      fy_inside s = (case fe_active f of None \<Rightarrow> [] | Some t \<Rightarrow> [t]) \<and>
      (\<forall>t. fe_active f = Some t \<longrightarrow> t \<in> iss \<and> outstanding f t))"

lemma set_update_subset: "set (AList.update k v xs) \<subseteq> insert (k, v) (set xs)"
  by (induction xs) auto

lemma set_delete_subset: "set (AList.delete k xs) \<subseteq> set xs"
  by (auto simp: AList.delete_eq)

lemma fence_inv_init: "fence_inv sys_init"
  by (simp add: fence_inv_def sys_init_def fence_init_def)

lemma outstanding_cong [simp]:
  "outstanding (f\<lparr>fe_superseded := x\<rparr>) t = outstanding f t"
  "outstanding (f\<lparr>fe_active := y\<rparr>) t = outstanding f t"
  "outstanding (f\<lparr>fe_recoveries := z\<rparr>) t = outstanding f t"
  "outstanding (f\<lparr>fe_recovery_for := w\<rparr>) t = outstanding f t"
  "outstanding (f\<lparr>fe_draining := v\<rparr>) t = outstanding f t"
  "outstanding (f\<lparr>fe_generation := u\<rparr>) t = outstanding f t"
  by (simp_all add: outstanding_def)

text \<open>The way a new ticket enters the system, whatever else the operation records.\<close>

lemma fence_inv_new:
  assumes inv: "fence_inv s" and nt: "new_ticket (fy_fence s) c = (f', t)"
    and same: "fe_generation f'' = fe_generation f'" "fe_tickets f'' = fe_tickets f'"
      "fe_active f'' = fe_active f'"
      "set (fe_recoveries f'') \<subseteq> insert (g, t) (set (fe_recoveries f'))"
  shows "fence_inv \<lparr>fy_fence = f'', fy_issued = List.insert t (fy_issued s), fy_inside = fy_inside s\<rparr>"
proof -
  let ?f = "fy_fence s" and ?iss = "set (fy_issued s)"
  have t: "t = \<lparr>tk_token = fe_generation ?f + 1, tk_generation = fe_generation ?f + 1, tk_class = c\<rparr>"
    and f': "f' = ?f\<lparr>fe_generation := fe_generation ?f + 1,
                  fe_tickets := AList.update (fe_generation ?f + 1) t (fe_tickets ?f)\<rparr>"
    using nt by (auto simp: new_ticket_def Let_def)
  have ok: "\<forall>u\<in>?iss. ticket_ok ?f u" and inj: "inj_on tk_generation ?iss"
    and tks: "\<forall>(k, u)\<in>set (fe_tickets ?f). k = tk_token u \<and> u \<in> ?iss"
    and recs: "\<forall>(k, u)\<in>set (fe_recoveries ?f). u \<in> ?iss"
    and ins: "fy_inside s = (case fe_active ?f of None \<Rightarrow> [] | Some u \<Rightarrow> [u])"
    and act: "\<forall>u. fe_active ?f = Some u \<longrightarrow> u \<in> ?iss \<and> outstanding ?f u"
    using inv by (simp_all add: fence_inv_def Let_def)
  have ok': "\<forall>u\<in>insert t ?iss. ticket_ok f'' u"
    using ok by (auto simp: ticket_ok_def same f' t)
  have inj': "inj_on tk_generation (insert t ?iss)"
    using inj ok by (force simp: ticket_ok_def t)
  have tks': "\<forall>(k, u)\<in>set (fe_tickets f''). k = tk_token u \<and> u \<in> insert t ?iss"
    using tks set_update_subset [of "fe_generation ?f + 1" t "fe_tickets ?f"]
    by (fastforce simp: same f' t)
  have recs': "\<forall>(k, u)\<in>set (fe_recoveries f''). u \<in> insert t ?iss"
    using recs same(4) by (fastforce simp: f')
  have act': "\<forall>u. fe_active f'' = Some u \<longrightarrow> u \<in> insert t ?iss \<and> outstanding f'' u"
    using act by (auto simp: same f' outstanding_def AList.update_conv)
  show ?thesis
    using ok' inj' tks' recs' ins act' by (simp add: fence_inv_def Let_def same f')
qed

text \<open>A step that hands out no new ticket and keeps the tickets, the active one and the recoveries.\<close>

lemma fence_inv_same:
  assumes "fence_inv s" and "fe_generation f'' = fe_generation (fy_fence s)"
    "fe_tickets f'' = fe_tickets (fy_fence s)" "fe_active f'' = fe_active (fy_fence s)"
    "fe_recoveries f'' = fe_recoveries (fy_fence s)"
    and "t = None \<or> the t \<in> set (fy_issued s)"
  shows "fence_inv \<lparr>fy_fence = f'', fy_issued = issued_after (RTicket t) (fy_issued s), fy_inside = fy_inside s\<rparr>"
proof -
  have i: "issued_after (RTicket t) (fy_issued s) = fy_issued s"
    using assms(6) by (cases t) auto
  have o: "outstanding f'' = outstanding (fy_fence s)"
    by (rule ext) (simp add: outstanding_def assms(3))
  have k: "ticket_ok f'' = ticket_ok (fy_fence s)"
    by (rule ext) (simp add: ticket_ok_def assms(2))
  show ?thesis using assms(1) unfolding fence_inv_def Let_def
    by (simp add: o k assms(3-5) i)
qed

lemma inv_reserve:
  assumes "fence_inv s" shows "fence_inv (sys_step s (EvReserve c d))"
proof (cases "(fe_draining (fy_fence s) \<or> d) \<and> c \<noteq> SHUTDOWN")
  case True
  with fence_inv_same [OF assms, of "fy_fence s" None] show ?thesis
    by (simp add: sys_step_def reserve_def)
next
  case False
  obtain f' t where nt: "new_ticket (fy_fence s) c = (f', t)" by (cases "new_ticket (fy_fence s) c")
  have "fe_recoveries f' = fe_recoveries (fy_fence s)" using nt by (auto simp: new_ticket_def Let_def)
  with False nt show ?thesis
    by (auto simp: sys_step_def reserve_def intro!: fence_inv_new [OF assms nt])
qed

lemma inv_admit:
  assumes "fence_inv s" shows "fence_inv (sys_step s (EvAdmit d))"
proof (cases "fe_draining (fy_fence s) \<or> d \<or> fe_tickets (fy_fence s) \<noteq> []")
  case True
  with fence_inv_same [OF assms, of "fy_fence s" None] show ?thesis
    by (simp add: sys_step_def admit_routine_def)
next
  case False
  obtain f' t where nt: "new_ticket (fy_fence s) ROUTINE = (f', t)"
    by (cases "new_ticket (fy_fence s) ROUTINE")
  with False show ?thesis
    by (auto simp: sys_step_def admit_routine_def intro!: fence_inv_new [OF assms nt])
qed

lemma inv_recover:
  assumes "fence_inv s" shows "fence_inv (sys_step s (EvRecover u d))"
proof -
  let ?f = "fy_fence s"
  let ?f' = "?f\<lparr>fe_superseded := insert (tk_generation u) (fe_superseded ?f)\<rparr>"
  obtain f'' r where nt: "new_ticket ?f' RECOVERY = (f'', r)" by (cases "new_ticket ?f' RECOVERY")
  then have nt0: "new_ticket ?f RECOVERY = (f''\<lparr>fe_superseded := fe_superseded ?f\<rparr>, r)"
    by (auto simp: new_ticket_def Let_def)
  have ex: "r' \<in> set (fy_issued s)" if "map_of (fe_recoveries ?f) g = Some r'" for g r'
    using assms map_of_SomeD [OF that] by (auto simp: fence_inv_def Let_def)
  have new: "fence_inv \<lparr>fy_fence = f''\<lparr>fe_recoveries := AList.update (tk_generation u) r (fe_recoveries f''),
                         fe_recovery_for := w\<rparr>,
               fy_issued = List.insert r (fy_issued s), fy_inside = fy_inside s\<rparr>" for w
    by (rule fence_inv_new [OF assms nt0, of _ "tk_generation u"]) (simp_all add: set_update_subset)
  show ?thesis
    using new fence_inv_same [OF assms, of ?f None] fence_inv_same [OF assms, of ?f' None]
      fence_inv_same [OF assms, of ?f "map_of (fe_recoveries ?f) (tk_generation u)"] ex
    by (auto simp: sys_step_def begin_recovery_def Let_def nt split: option.splits if_splits)
qed

lemma inv_enter:
  assumes "fence_inv s" and "t \<in> set (fy_issued s)" shows "fence_inv (sys_step s (EvEnter t x))"
  using assms
  by (auto simp: sys_step_def enter_poll_def fence_inv_def Let_def ticket_ok_def)

lemma inv_leave:
  assumes "fence_inv s" shows "fence_inv (sys_step s (EvLeave t))"
  using assms
  by (auto simp: sys_step_def leave_def fence_inv_def Let_def ticket_ok_def split: option.splits)

lemma outstanding_delete:
  "outstanding (f\<lparr>fe_tickets := AList.delete k (fe_tickets f)\<rparr>) u \<longleftrightarrow> outstanding f u \<and> tk_token u \<noteq> k"
  by (simp add: outstanding_def AList.delete_conv)

lemma release_simps [simp]:
  "fe_tickets (release f t) = AList.delete (tk_token t) (fe_tickets f)"
  "fe_generation (release f t) = fe_generation f"
  "fe_active (release f t) = (if fe_active f = Some t then None else fe_active f)"
  "fe_superseded (release f t) = fe_superseded f - {tk_generation t}"
  "outstanding (release f t) u \<longleftrightarrow> outstanding f u \<and> tk_token u \<noteq> tk_token t"
  by (simp_all add: release_def Let_def outstanding_delete outstanding_def AList.delete_conv
        split: option.split)

lemma release_recoveries: "set (fe_recoveries (release f t)) \<subseteq> set (fe_recoveries f)"
  by (auto simp: release_def Let_def AList.delete_eq split: option.split)

lemma inv_release:
  assumes inv: "fence_inv s" and t: "t \<in> set (fy_issued s)"
  shows "fence_inv (sys_step s (EvRelease t))"
proof -
  let ?f = "fy_fence s"
  have tok: "tk_token u = tk_token t \<longleftrightarrow> u = t" if "u \<in> set (fy_issued s)" for u
    using inv t that by (auto simp: fence_inv_def Let_def ticket_ok_def inj_on_def)
  let ?g = "release ?f t" and ?iss = "set (fy_issued s)"
  have ok: "\<forall>u\<in>?iss. ticket_ok ?g u" and inj: "inj_on tk_generation ?iss"
    and tks: "\<forall>(k, u)\<in>set (fe_tickets ?g). k = tk_token u \<and> u \<in> ?iss"
    using inv set_delete_subset [of "tk_token t" "fe_tickets ?f"]
    by (auto simp: fence_inv_def Let_def ticket_ok_def)
  have recs: "\<forall>(g, u)\<in>set (fe_recoveries ?g). u \<in> ?iss"
    using inv release_recoveries [of ?f t] by (auto simp: fence_inv_def Let_def)
  have act: "\<forall>u. fe_active ?g = Some u \<longrightarrow> u \<in> ?iss \<and> outstanding ?g u"
    using inv tok by (auto simp: fence_inv_def Let_def)
  have ins: "filter (\<lambda>u. u \<noteq> t) (fy_inside s) = (case fe_active ?g of None \<Rightarrow> [] | Some u \<Rightarrow> [u])"
    using inv by (auto simp: fence_inv_def Let_def split: option.splits)
  show ?thesis
    using ok inj tks recs act ins by (simp add: sys_step_def fence_inv_def Let_def)
qed

lemma inv_drain:
  assumes "fence_inv s" shows "fence_inv (sys_step s EvDrain)" "fence_inv (sys_step s EvUndrain)"
  using assms
  by (auto simp: sys_step_def mark_draining_def clear_draining_def fence_inv_def Let_def ticket_ok_def)

lemma fence_inv_step:
  assumes "fence_inv s" and "\<forall>t. event_ticket e = Some t \<longrightarrow> t \<in> set (fy_issued s)"
  shows "fence_inv (sys_step s e)"
  using assms
  by (cases e) (auto intro: inv_reserve inv_admit inv_recover inv_enter inv_leave inv_release inv_drain)

lemma fence_inv_steps: "fence_steps s s' \<Longrightarrow> fence_inv s \<Longrightarrow> fence_inv s'"
  by (induction rule: fence_steps.induct) (auto intro: fence_inv_step)

subsection \<open>Mutual exclusion, no stale command, progress\<close>

text \<open>
  C15. One battery command at a time: in every state that any interleaving of reservations,
  admissions, recoveries, entries, leaves, releases and drain changes can reach, at most one ticket
  is inside the physical command boundary; it is the one the fence records as active, and it is an
  outstanding ticket.
\<close>

theorem fence_exclusive:
  assumes "fence_steps sys_init s"
  shows "length (fy_inside s) \<le> 1 \<and>
         (\<forall>t\<in>set (fy_inside s). fe_active (fy_fence s) = Some t \<and> outstanding (fy_fence s) t)"
  using fence_inv_steps [OF assms fence_inv_init]
  by (auto simp: fence_inv_def Let_def split: option.splits)

text \<open>Two cycles: a routine worker is inside while an operator's ticket is refused entry.\<close>

definition demo_fence_run :: "fence_event list" where
  "demo_fence_run = [EvReserve ROUTINE False,
     EvEnter \<lparr>tk_token = 1, tk_generation = 1, tk_class = ROUTINE\<rparr> False,
     EvReserve OVERRIDE False,
     EvEnter \<lparr>tk_token = 2, tk_generation = 2, tk_class = OVERRIDE\<rparr> False]"

definition run_events :: "fence_sys \<Rightarrow> fence_event list \<Rightarrow> fence_sys" where
  "run_events s es = foldl sys_step s es"

fun events_ok :: "fence_sys \<Rightarrow> fence_event list \<Rightarrow> bool" where
  "events_ok s [] = True"
| "events_ok s (e # es) =
     ((case event_ticket e of None \<Rightarrow> True | Some t \<Rightarrow> t \<in> set (fy_issued s)) \<and>
      events_ok (sys_step s e) es)"

lemma run_events_steps: "events_ok s es \<Longrightarrow> fence_steps s (run_events s es)"
proof (induction es arbitrary: s)
  case Nil
  then show ?case by (simp add: run_events_def stay)
next
  case (Cons e es)
  have "fence_steps s (sys_step s e)"
    by (rule more [OF stay]) (use Cons.prems in \<open>auto split: option.splits\<close>)
  moreover have "fence_steps (sys_step s e) (run_events (sys_step s e) es)"
    using Cons by simp
  ultimately show ?case by (auto simp: run_events_def intro: fence_steps_trans)
qed

lemmas fence_eval =
  demo_fence_run_def run_events_def sys_init_def fence_init_def sys_step_def reserve_def
  new_ticket_def enter_poll_def outstanding_def is_next_def eligible_def tickets_of_def
  Let_def

theorem fence_exclusive_witness:
  "List.map tk_class (fy_inside (run_events sys_init demo_fence_run)) = [ROUTINE] \<and>
   length (fy_inside (run_events sys_init demo_fence_run)) \<le> 1"
proof -
  have "events_ok sys_init demo_fence_run" by (simp add: fence_eval)
  from fence_exclusive [OF run_events_steps [OF this]]
  have "length (fy_inside (run_events sys_init demo_fence_run)) \<le> 1" by simp
  moreover have "List.map tk_class (fy_inside (run_events sys_init demo_fence_run)) = [ROUTINE]"
    by (simp add: fence_eval)
  ultimately show ?thesis by simp
qed

text \<open>A ticket that can never enter again: superseded, or no longer outstanding.\<close>

definition dead :: "command_fence \<Rightarrow> command_ticket \<Rightarrow> bool" where
  "dead f t = (tk_generation t \<in> fe_superseded f \<or> \<not> outstanding f t)"

lemma new_ticket_frame:
  assumes "new_ticket f c = (f', u)"
  shows "fe_superseded f' = fe_superseded f" "fe_active f' = fe_active f"
    "tk_token t \<le> fe_generation f \<Longrightarrow> outstanding f' t = outstanding f t"
    "tk_generation u = fe_generation f + 1" "outstanding f' u"
    "fe_tickets f' = AList.update (fe_generation f + 1) u (fe_tickets f)"
    "fe_draining f' = fe_draining f" "tk_class u = c"
  using assms by (auto simp: new_ticket_def Let_def outstanding_def AList.update_conv)

lemma issued_after_mono: "t \<in> set ts \<Longrightarrow> t \<in> set (issued_after r ts)"
  by (induction r ts rule: issued_after.induct) auto

lemma dead_step:
  assumes inv: "fence_inv s" and t: "t \<in> set (fy_issued s)" and d: "dead (fy_fence s) t"
    and out: "t \<notin> set (fy_inside s)"
    and ev: "\<forall>u. event_ticket e = Some u \<longrightarrow> u \<in> set (fy_issued s)"
  shows "t \<in> set (fy_issued (sys_step s e)) \<and> dead (fy_fence (sys_step s e)) t
         \<and> t \<notin> set (fy_inside (sys_step s e))"
proof -
  let ?f = "fy_fence s"
  have k: "tk_token t \<le> fe_generation ?f" "tk_token t = tk_generation t"
    using inv t by (auto simp: fence_inv_def Let_def ticket_ok_def)
  have a: "fe_active ?f \<noteq> Some t" using inv out by (auto simp: fence_inv_def Let_def)
  have iss: "t \<in> set (fy_issued (sys_step s e))"
    using issued_after_mono [OF t] by (simp add: sys_step_def split_beta)
  show ?thesis
  proof (cases e)
    case (EvReserve c b)
    obtain f' u where nt: "new_ticket ?f c = (f', u)" by (cases "new_ticket ?f c")
    note fr = new_ticket_frame [OF nt]
    show ?thesis using iss d out fr(1) fr(3) [OF k(1)]
      by (auto simp: EvReserve sys_step_def reserve_def nt dead_def)
  next
    case (EvAdmit b)
    obtain f' u where nt: "new_ticket ?f ROUTINE = (f', u)" by (cases "new_ticket ?f ROUTINE")
    note fr = new_ticket_frame [OF nt]
    show ?thesis using iss d out fr(1) fr(3) [OF k(1)]
      by (auto simp: EvAdmit sys_step_def admit_routine_def nt dead_def)
  next
    case (EvRecover v b)
    let ?g = "?f\<lparr>fe_superseded := insert (tk_generation v) (fe_superseded ?f)\<rparr>"
    obtain f' u where nt: "new_ticket ?g RECOVERY = (f', u)" by (cases "new_ticket ?g RECOVERY")
    note fr = new_ticket_frame [OF nt]
    show ?thesis using iss d out k(1) fr(1) fr(3) [of t]
      by (auto simp: EvRecover sys_step_def begin_recovery_def nt dead_def Let_def split: option.splits)
  next
    case (EvEnter u x)
    have "t \<noteq> u \<or> snd (enter_poll ?f u x) \<noteq> Some True"
      using d a by (auto simp: dead_def enter_poll_def)
    then show ?thesis using iss d out
      by (auto simp: EvEnter sys_step_def enter_poll_def dead_def)
  next
    case (EvLeave u)
    then show ?thesis using iss d out by (auto simp: sys_step_def leave_def dead_def)
  next
    case (EvRelease u)
    have "u \<in> set (fy_issued s)" using ev EvRelease by simp
    then have "tk_token u = tk_generation u" using inv by (auto simp: fence_inv_def Let_def ticket_ok_def)
    then show ?thesis using iss d out k by (auto simp: EvRelease sys_step_def dead_def)
  next
    case EvDrain
    then show ?thesis using iss d out by (auto simp: sys_step_def mark_draining_def dead_def)
  next
    case EvUndrain
    then show ?thesis using iss d out by (auto simp: sys_step_def clear_draining_def dead_def)
  qed
qed

lemma dead_forever:
  assumes "fence_steps s s'"
  shows "fence_inv s \<Longrightarrow> t \<in> set (fy_issued s) \<Longrightarrow> dead (fy_fence s) t \<Longrightarrow> t \<notin> set (fy_inside s) \<Longrightarrow>
         t \<in> set (fy_issued s') \<and> dead (fy_fence s') t \<and> t \<notin> set (fy_inside s')"
  using assms
proof (induction rule: fence_steps.induct)
  case (stay s)
  then show ?case by simp
next
  case (more s s' e)
  from more.IH [OF more.prems] dead_step [OF fence_inv_steps [OF more.hyps(1) more.prems(1)]] more.hyps(2)
  show ?case by blast
qed

lemma reserve_kills_routine:
  assumes "reserve f c d = (f', Some o')" and "c \<noteq> ROUTINE" and "tk_class t = ROUTINE"
    and "tk_token t \<le> fe_generation f" and "\<forall>(k, u)\<in>set (fe_tickets f). k = tk_token u"
    and "\<forall>u. map_of (fe_tickets f) (tk_token t) = Some u \<longrightarrow> u = t"
  shows "dead f' t"
proof -
  obtain f1 u where nt: "new_ticket f c = (f1, u)" by (cases "new_ticket f c")
  note fr = new_ticket_frame [OF nt]
  have f': "f' = f1\<lparr>fe_superseded := fe_superseded f1
                     \<union> routine_generations (filter (\<lambda>x. x \<noteq> u) (tickets_of f1))\<rparr>"
    using assms(1,2) nt by (auto simp: reserve_def split: if_splits)
  show ?thesis
  proof (cases "outstanding f t")
    case False
    then show ?thesis using fr(3) [OF assms(4)] by (simp add: dead_def f')
  next
    case True
    then have "map_of (fe_tickets f) (tk_token t) = Some t" using assms(6) by (auto simp: outstanding_def)
    then have "map_of (fe_tickets f1) (tk_token t) = Some t"
      using assms(4) by (simp add: fr(6) AList.update_conv)
    then have "t \<in> set (tickets_of f1)" by (force simp: tickets_of_def dest: map_of_SomeD)
    moreover have "t \<noteq> u" using fr(8) assms(2,3) by auto
    ultimately show ?thesis using assms(3) by (auto simp: dead_def f' routine_generations_def)
  qed
qed

text \<open>
  An operator's command is never overtaken by a stale plan: once a non-routine command (an
  override, a recovery, a shutdown) has been reserved, no routine ticket issued before it that was
  not already inside the boundary enters it, in any continuation of the run.
\<close>

theorem reserved_command_not_overtaken:
  assumes "fence_steps sys_init s" and "c \<noteq> ROUTINE"
    and "reserve (fy_fence s) c d = (f', Some o')"
    and "t \<in> set (fy_issued s)" and "tk_class t = ROUTINE" and "t \<notin> set (fy_inside s)"
    and "fence_steps (sys_step s (EvReserve c d)) s'"
  shows "t \<notin> set (fy_inside s')"
proof -
  have inv: "fence_inv s" by (rule fence_inv_steps [OF assms(1) fence_inv_init])
  then have tok: "\<forall>u\<in>set (fy_issued s). tk_token u = tk_generation u \<and> tk_generation u \<le> fe_generation (fy_fence s)"
    and tks: "\<forall>(k, u)\<in>set (fe_tickets (fy_fence s)). k = tk_token u \<and> u \<in> set (fy_issued s)"
    and inj: "inj_on tk_generation (set (fy_issued s))"
    by (auto simp: fence_inv_def Let_def ticket_ok_def)
  have same: "u = t" if "map_of (fe_tickets (fy_fence s)) (tk_token t) = Some u" for u
  proof -
    from map_of_SomeD [OF that] tks have "tk_token t = tk_token u" "u \<in> set (fy_issued s)" by auto
    with tok assms(4) have "tk_generation u = tk_generation t" by metis
    with inj assms(4) \<open>u \<in> _\<close> show ?thesis by (auto dest: inj_onD)
  qed
  have "dead f' t"
    by (rule reserve_kills_routine [OF assms(3,2,5)]) (use tok tks same assms(4) in auto)
  moreover have "fy_fence (sys_step s (EvReserve c d)) = f'"
    and "fy_inside (sys_step s (EvReserve c d)) = fy_inside s"
    and "t \<in> set (fy_issued (sys_step s (EvReserve c d)))"
    using assms(3,4) by (simp_all add: sys_step_def)
  ultimately show ?thesis
    using dead_forever [OF assms(7) inv_reserve [OF inv], of t] assms(6) by simp
qed

theorem reserved_command_not_overtaken_witness:
  "let r = \<lparr>tk_token = 1, tk_generation = 1, tk_class = ROUTINE\<rparr>;
       s = run_events sys_init [EvReserve ROUTINE False];
       s' = run_events (sys_step s (EvReserve OVERRIDE False)) [EvEnter r False]
   in r \<in> set (fy_issued s) \<and> r \<notin> set (fy_inside s')"
proof -
  let ?r = "\<lparr>tk_token = 1, tk_generation = 1, tk_class = ROUTINE\<rparr>"
  let ?s = "run_events sys_init [EvReserve ROUTINE False]"
  let ?s' = "run_events (sys_step ?s (EvReserve OVERRIDE False)) [EvEnter ?r False]"
  have iss: "?r \<in> set (fy_issued ?s)" by (simp add: fence_eval)
  have "?r \<notin> set (fy_inside ?s')"
  proof (rule reserved_command_not_overtaken)
    show "fence_steps sys_init ?s" by (rule run_events_steps) simp
    show "OVERRIDE \<noteq> ROUTINE" by simp
    show "reserve (fy_fence ?s) OVERRIDE False =
            (fst (reserve (fy_fence ?s) OVERRIDE False),
             Some \<lparr>tk_token = 2, tk_generation = 2, tk_class = OVERRIDE\<rparr>)"
      by (simp add: fence_eval)
    show "?r \<in> set (fy_issued ?s)" by (rule iss)
    show "tk_class ?r = ROUTINE" by simp
    show "?r \<notin> set (fy_inside ?s)" by (simp add: fence_eval)
    show "fence_steps (sys_step ?s (EvReserve OVERRIDE False)) ?s'"
      by (rule run_events_steps) (simp add: fence_eval)
  qed
  with iss show ?thesis by (simp add: Let_def)
qed

text \<open>
  The fence cannot deadlock: whenever nobody is inside and some outstanding ticket is not
  superseded, the oldest such ticket is granted the fence at its next poll, and no other ticket is.
\<close>

theorem fence_progress:
  assumes "fe_active f = None" and "eligible f \<noteq> []"
    and "\<forall>(k, u)\<in>set (fe_tickets f). k = tk_token u"
  shows "\<exists>t\<in>set (eligible f). grants f t \<and>
           (\<forall>u\<in>set (eligible f). tk_generation t \<le> tk_generation u) \<and>
           (\<forall>u. grants f u \<longrightarrow> tk_generation u = tk_generation t)"
proof -
  let ?G = "tk_generation ` set (eligible f)"
  have "Min ?G \<in> ?G" using assms(2) by (intro Min_in) auto
  then obtain t where t: "t \<in> set (eligible f)" "tk_generation t = Min ?G" by auto
  then have "t \<in> snd ` set (fe_tickets f)" and ns: "tk_generation t \<notin> fe_superseded f"
    by (auto simp: eligible_def tickets_of_def)
  with assms(3) have "(tk_token t, t) \<in> set (fe_tickets f)" by force
  then have "outstanding f t" by (force simp: outstanding_def map_of_eq_None_iff)
  with t ns assms(1,2) have "grants f t" by (simp add: grants_def enter_poll_def is_next_def)
  moreover have "\<forall>u\<in>set (eligible f). tk_generation t \<le> tk_generation u" using t by simp
  moreover have "\<forall>u. grants f u \<longrightarrow> tk_generation u = tk_generation t"
    using t by (auto simp: grants_def enter_poll_def is_next_def split: if_splits)
  ultimately show ?thesis using t(1) by blast
qed

theorem fence_progress_witness:
  "let f = fy_fence (run_events sys_init [EvReserve ROUTINE False, EvReserve OVERRIDE False])
   in (\<exists>t\<in>set (eligible f). grants f t) \<and>
      grants f \<lparr>tk_token = 2, tk_generation = 2, tk_class = OVERRIDE\<rparr>"
proof -
  let ?f = "fy_fence (run_events sys_init [EvReserve ROUTINE False, EvReserve OVERRIDE False])"
  have "\<exists>t\<in>set (eligible ?f). grants ?f t \<and>
           (\<forall>u\<in>set (eligible ?f). tk_generation t \<le> tk_generation u) \<and>
           (\<forall>u. grants ?f u \<longrightarrow> tk_generation u = tk_generation t)"
    by (rule fence_progress) (auto simp: fence_eval)
  moreover have "grants ?f \<lparr>tk_token = 2, tk_generation = 2, tk_class = OVERRIDE\<rparr>"
    by (simp add: fence_eval grants_def)
  ultimately show ?thesis by (auto simp: Let_def)
qed

end
