(* ===== verification/WriterTasks.thy ===== *)
theory WriterTasks
  imports CommandFence ModeControllerSafety
begin

section \<open>The writers around the control loop (\<open>ems/control/service.py\<close>)\<close>

text \<open>
  Who holds a slot of the command fence, from its reservation to its release: a control cycle with its
  worker thread, an operator's override, the recovery after a cycle that overran its budget, and the
  restoration at shutdown. The restart gate reads this registry. Every coroutine turn and every operation of
  a thread on the fence is one step; threads and coroutines interleave as the steps come. What a tick decides
  is the controller state a step brings; that a tick enters the fence before it commands is in
  \<open>ControlTick\<close>.
\<close>

subsection \<open>State\<close>

datatype work = TickWork | OverrunWork | RestoreWork

text \<open>
  Where the holder of a slot is: in a coroutine that has not started a worker, in the audit of an overrun, or
  in a worker thread, outside or inside the fence.
\<close>

datatype holder = Queued | Audited | Working work bool

record writer_sys =
  wr_sys :: fence_sys
  wr_jobs :: "command_ticket \<Rightarrow> holder option"
  wr_awaited :: "command_ticket list"       \<comment> \<open>the workers a cycle waits for\<close>
  wr_slow :: nat                            \<comment> \<open>cycles over budget, being audited without a slot\<close>
  wr_draining :: bool
  wr_dry_run :: bool
  wr_mc :: "mode_controller option"
  wr_writes :: "command_ticket list"        \<comment> \<open>physical commands, latest first\<close>

definition writer_init :: "bool \<Rightarrow> mode_controller option \<Rightarrow> writer_sys" where
  "writer_init dry_run mc =
     \<lparr>wr_sys = sys_init, wr_jobs = (\<lambda>_. None), wr_awaited = [], wr_slow = 0, wr_draining = False,
      wr_dry_run = dry_run, wr_mc = mc, wr_writes = []\<rparr>"

abbreviation wr_fence :: "writer_sys \<Rightarrow> command_fence" where "wr_fence w \<equiv> fy_fence (wr_sys w)"

definition fence_do :: "writer_sys \<Rightarrow> fence_event \<Rightarrow> writer_sys \<times> fence_reply" where
  "fence_do w e = (w\<lparr>wr_sys := sys_step (wr_sys w) e\<rparr>, snd (fence_step (wr_fence w) e))"

subsection \<open>Taking and returning a slot\<close>

definition take_slot :: "writer_sys \<Rightarrow> fence_event \<Rightarrow> holder \<Rightarrow> writer_sys" where
  "take_slot w e h =
     (case fence_do w e of
        (w', RTicket (Some t)) \<Rightarrow> w'\<lparr>wr_jobs := (wr_jobs w)(t := Some h)\<rparr>
      | (w', _) \<Rightarrow> w')"

definition reserve_override_cycle :: "writer_sys \<Rightarrow> writer_sys" where
  "reserve_override_cycle w = (if wr_mc w = None then w else take_slot w (EvReserve OVERRIDE False) Queued)"

definition admit_cycle :: "writer_sys \<Rightarrow> writer_sys" where
  "admit_cycle w = (if wr_mc w = None then w else take_slot w (EvAdmit False) Queued)"

definition release_writer :: "writer_sys \<Rightarrow> command_ticket \<Rightarrow> writer_sys" where
  "release_writer w t = (fst (fence_do w (EvRelease t)))\<lparr>wr_jobs := (wr_jobs w)(t := None)\<rparr>"

text \<open>The \<open>finally\<close> of a worker thread.\<close>

definition worker_done :: "writer_sys \<Rightarrow> command_ticket \<Rightarrow> bool \<Rightarrow> writer_sys" where
  "worker_done w t entered =
     (if entered then release_writer (fst (fence_do w (EvLeave t))) t else release_writer w t)"

subsection \<open>Steps\<close>

text \<open>A cycle starts its worker; from here the worker owns the slot and the cycle waits for it.\<close>

definition spawn_tick :: "writer_sys \<Rightarrow> command_ticket \<Rightarrow> writer_sys" where
  "spawn_tick w t = w\<lparr>wr_jobs := (wr_jobs w)(t := Some (Working TickWork False)), wr_awaited := t # wr_awaited w\<rparr>"

text \<open>
  A worker asks for the fence: it enters, or it is superseded (or out of time, which only the restoration can
  be) and ends, or it goes on waiting.
\<close>

definition worker_enters :: "writer_sys \<Rightarrow> command_ticket \<Rightarrow> work \<Rightarrow> bool \<Rightarrow> writer_sys" where
  "worker_enters w t k timed_out =
     (case fence_do w (EvEnter t (timed_out \<and> k = RestoreWork)) of
        (w', REntered (Some True)) \<Rightarrow> w'\<lparr>wr_jobs := (wr_jobs w)(t := Some (Working k True))\<rparr>
      | (w', REntered (Some False)) \<Rightarrow> worker_done w' t False
      | (w', _) \<Rightarrow> w')"

text \<open>
  The one command of a recovery or of the restoration, and what is noted of it. (After a restoration to AUTO
  the note is made by the caller, once the worker has ended.)
\<close>

definition command_done :: "writer_sys \<Rightarrow> command_ticket \<Rightarrow> work \<Rightarrow> bool \<Rightarrow> bool \<Rightarrow> writer_sys" where
  "command_done w t k confirmed to_auto =
     worker_done
       (w\<lparr>wr_writes := t # wr_writes w,
          wr_mc := (if k = OverrunWork
                    then map_option (if confirmed then note_confirmed_auto else note_overrun_recovery) (wr_mc w)
                    else if confirmed \<and> to_auto then map_option note_confirmed_auto (wr_mc w) else wr_mc w)\<rparr>)
       t True"

text \<open>
  The wait for a worker ends: in time, within the budget or not, or with the timeout, which reserves the
  recovery at once.
\<close>

definition cycle_returned :: "writer_sys \<Rightarrow> command_ticket \<Rightarrow> bool \<Rightarrow> writer_sys" where
  "cycle_returned w t over_budget =
     w\<lparr>wr_awaited := removeAll t (wr_awaited w), wr_slow := wr_slow w + (if over_budget then 1 else 0)\<rparr>"

definition cycle_timed_out :: "writer_sys \<Rightarrow> command_ticket \<Rightarrow> writer_sys" where
  "cycle_timed_out w t = take_slot (w\<lparr>wr_awaited := removeAll t (wr_awaited w)\<rparr>) (EvRecover t False) Audited"

text \<open>
  After the audit of an overrun. \<open>may\<close>: the lifecycle allows a command and the audit was not cancelled. A
  dry run never writes. The cycle that timed out holds its slot already; the one that was only slow takes one.
\<close>

definition handle_overrun :: "writer_sys \<Rightarrow> command_ticket \<Rightarrow> bool \<Rightarrow> writer_sys" where
  "handle_overrun w t may =
     (if wr_dry_run w \<or> wr_mc w = None \<or> \<not> may then release_writer w t
      else w\<lparr>wr_jobs := (wr_jobs w)(t := Some (Working OverrunWork False))\<rparr>)"

definition handle_slow_cycle :: "writer_sys \<Rightarrow> bool \<Rightarrow> writer_sys" where
  "handle_slow_cycle w may =
     (let w' = w\<lparr>wr_slow := wr_slow w - 1\<rparr>
      in if wr_dry_run w \<or> wr_mc w = None \<or> \<not> may then w'
         else take_slot w' (EvReserve RECOVERY False) (Working OverrunWork False))"

definition restore_for_shutdown :: "writer_sys \<Rightarrow> writer_sys" where
  "restore_for_shutdown w =
     (if wr_dry_run w \<or> wr_mc w = None then w
      else take_slot w (EvReserve SHUTDOWN False) (Working RestoreWork False))"

definition drain_writers :: "writer_sys \<Rightarrow> writer_sys" where
  "drain_writers w = (fst (fence_do w EvDrain))\<lparr>wr_draining := True\<rparr>"

definition undrain_writers :: "writer_sys \<Rightarrow> writer_sys" where
  "undrain_writers w = (fst (fence_do w EvUndrain))\<lparr>wr_draining := False\<rparr>"

text \<open>The restart gate.\<close>

definition idle_for_restart :: "writer_sys \<Rightarrow> bool \<times> string" where
  "idle_for_restart w =
     (if wr_draining w then (False, ''draining'')
      else if \<not> fence_empty (wr_fence w) then (False, ''outstanding_write'')
      else case wr_mc w of
             None \<Rightarrow> (True, ''idle'')
           | Some c \<Rightarrow>
               if wr_dry_run w then (True, ''idle'')
               else if mc_unconfirmed c then (False, ''last_command_unconfirmed'')
               else if mc_last_confirmed c \<notin> {None, Some AUTO} then (False, ''last_action_not_auto'')
               else (True, ''idle''))"

definition request_restart :: "writer_sys \<Rightarrow> writer_sys" where
  "request_restart w = (if fst (idle_for_restart w) then drain_writers w else w)"

subsection \<open>Runs\<close>

datatype writer_event =
    Submit | AdmitCycle
  | Spawn command_ticket | Abandon command_ticket
  | Ask_fence command_ticket bool
  | Decided command_ticket bool mode_controller     \<comment> \<open>a decision of a tick: did it command, what it left\<close>
  | TickEnds command_ticket
  | Commanded command_ticket bool bool
  | Returned command_ticket bool | TimedOut command_ticket
  | OverrunAudited command_ticket bool | SlowAudited bool
  | Restore | Drain | Undrain | RequestRestart

fun writer_step :: "writer_sys \<Rightarrow> writer_event \<Rightarrow> writer_sys option" where
  "writer_step w Submit = Some (reserve_override_cycle w)"
| "writer_step w AdmitCycle = Some (admit_cycle w)"
| "writer_step w (Spawn t) = (if wr_jobs w t = Some Queued then Some (spawn_tick w t) else None)"
| "writer_step w (Abandon t) = (if wr_jobs w t = Some Queued then Some (release_writer w t) else None)"
| "writer_step w (Ask_fence t x) =
     (case wr_jobs w t of Some (Working k False) \<Rightarrow> Some (worker_enters w t k x) | _ \<Rightarrow> None)"
| "writer_step w (Decided t wrote c) =
     (if wr_jobs w t = Some (Working TickWork True)
      then Some (w\<lparr>wr_writes := (if wrote then [t] else []) @ wr_writes w, wr_mc := Some c\<rparr>) else None)"
| "writer_step w (TickEnds t) =
     (case wr_jobs w t of Some (Working TickWork b) \<Rightarrow> Some (worker_done w t b) | _ \<Rightarrow> None)"
| "writer_step w (Commanded t ok to_auto) =
     (case wr_jobs w t of
        Some (Working k True) \<Rightarrow> if k = TickWork then None else Some (command_done w t k ok to_auto)
      | _ \<Rightarrow> None)"
| "writer_step w (Returned t slow) =
     (if t \<in> set (wr_awaited w) \<and> wr_jobs w t = None then Some (cycle_returned w t slow) else None)"
| "writer_step w (TimedOut t) = (if t \<in> set (wr_awaited w) then Some (cycle_timed_out w t) else None)"
| "writer_step w (OverrunAudited t may) =
     (if wr_jobs w t = Some Audited then Some (handle_overrun w t may) else None)"
| "writer_step w (SlowAudited may) = (if 0 < wr_slow w then Some (handle_slow_cycle w may) else None)"
| "writer_step w Restore = Some (restore_for_shutdown w)"
| "writer_step w Drain = Some (drain_writers w)"
| "writer_step w Undrain = Some (undrain_writers w)"
| "writer_step w RequestRestart = Some (request_restart w)"

fun writer_run :: "writer_sys \<Rightarrow> writer_event list \<Rightarrow> writer_sys option" where
  "writer_run w [] = Some w"
| "writer_run w (e # es) = (case writer_step w e of None \<Rightarrow> None | Some w' \<Rightarrow> writer_run w' es)"

subsection \<open>The registry knows every writer\<close>

text \<open>A new ticket is unlike every issued one, and the old ones are as they were.\<close>

definition fresh_in :: "fence_sys \<Rightarrow> fence_sys \<Rightarrow> command_class \<Rightarrow> command_ticket \<Rightarrow> bool" where
  "fresh_in s s' c u \<longleftrightarrow>
     u \<notin> set (fy_issued s) \<and> tk_generation u = fe_generation (fy_fence s) + 1 \<and> tk_class u = c \<and>
     outstanding (fy_fence s') u \<and> (\<forall>t\<in>set (fy_issued s). outstanding (fy_fence s') t = outstanding (fy_fence s) t) \<and>
     fe_active (fy_fence s') = fe_active (fy_fence s) \<and> fe_generation (fy_fence s') = fe_generation (fy_fence s) + 1 \<and>
     set (fy_issued s') = insert u (set (fy_issued s)) \<and> fe_draining (fy_fence s') = fe_draining (fy_fence s)"

lemma fresh_ticket:
  assumes inv: "fence_inv s" and nt: "new_ticket f c = (f', u)"
    and f: "fe_generation f = fe_generation (fy_fence s)" "fe_tickets f = fe_tickets (fy_fence s)"
      "fe_active f = fe_active (fy_fence s)" "fe_draining f = fe_draining (fy_fence s)"
    and s': "fe_tickets (fy_fence s') = fe_tickets f'" "fe_active (fy_fence s') = fe_active f'"
      "fe_generation (fy_fence s') = fe_generation f'" "fe_draining (fy_fence s') = fe_draining f'"
      "fy_issued s' = List.insert u (fy_issued s)"
  shows "fresh_in s s' c u"
proof -
  have u: "u = \<lparr>tk_token = fe_generation f + 1, tk_generation = fe_generation f + 1, tk_class = c\<rparr>"
    and g: "fe_generation f' = fe_generation f + 1"
    using nt by (auto simp: new_ticket_def Let_def)
  have old: "tk_token t \<le> fe_generation f \<and> tk_generation t \<le> fe_generation f" if "t \<in> set (fy_issued s)" for t
    using inv that f(1) by (auto simp: fence_inv_def Let_def ticket_ok_def)
  have "u \<notin> set (fy_issued s)" using old [of u] by (auto simp: u)
  moreover have "outstanding (fy_fence s') t = outstanding f' t" "outstanding (fy_fence s) t = outstanding f t" for t
    by (simp_all add: outstanding_def s' f)
  ultimately show ?thesis
    using new_ticket_frame [OF nt] old by (simp add: fresh_in_def s' f g u)
qed

lemma reserve_reply:
  assumes "fence_inv s" and "snd (fence_step (fy_fence s) e) = RTicket (Some u)" and "e = EvReserve c False \<or> e = EvAdmit False \<and> c = ROUTINE"
  shows "fresh_in s (sys_step s e) c u \<and> fe_recoveries (fy_fence (sys_step s e)) = fe_recoveries (fy_fence s) \<and>
         (fe_draining (fy_fence s) \<longrightarrow> c = SHUTDOWN)"
proof -
  obtain f' v where nt: "new_ticket (fy_fence s) c = (f', v)" by (cases "new_ticket (fy_fence s) c")
  then have r: "fe_recoveries f' = fe_recoveries (fy_fence s)" by (auto simp: new_ticket_def Let_def)
  have f: "fe_tickets (fy_fence (sys_step s e)) = fe_tickets f' \<and> fe_active (fy_fence (sys_step s e)) = fe_active f' \<and>
      fe_generation (fy_fence (sys_step s e)) = fe_generation f' \<and> fe_draining (fy_fence (sys_step s e)) = fe_draining f' \<and>
      fy_issued (sys_step s e) = List.insert v (fy_issued s) \<and>
      fe_recoveries (fy_fence (sys_step s e)) = fe_recoveries (fy_fence s) \<and> u = v \<and>
      (fe_draining (fy_fence s) \<longrightarrow> c = SHUTDOWN)"
    using assms(2,3) nt r by (auto simp: reserve_def admit_routine_def sys_step_def Let_def split: if_splits)
  then have "fresh_in s (sys_step s e) c v" by (intro fresh_ticket [OF assms(1) nt]) simp_all
  with f show ?thesis by simp
qed

lemma recover_reply:
  assumes inv: "fence_inv s" and reply: "snd (fence_step (fy_fence s) (EvRecover t False)) = RTicket (Some u)"
  obtains (old) "map_of (fe_recoveries (fy_fence s)) (tk_generation t) = Some u"
      "sys_step s (EvRecover t False) = s\<lparr>fy_issued := List.insert u (fy_issued s)\<rparr>" "outstanding (fy_fence s) u"
  | (new) "fresh_in s (sys_step s (EvRecover t False)) RECOVERY u" "\<not> fe_draining (fy_fence s)"
      "fe_recoveries (fy_fence (sys_step s (EvRecover t False))) =
         AList.update (tk_generation t) u (fe_recoveries (fy_fence s))"
proof -
  let ?g = "(fy_fence s)\<lparr>fe_superseded := insert (tk_generation t) (fe_superseded (fy_fence s))\<rparr>"
  obtain f' v where nt: "new_ticket ?g RECOVERY = (f', v)" by (cases "new_ticket ?g RECOVERY")
  then have r: "fe_recoveries f' = fe_recoveries (fy_fence s)" by (auto simp: new_ticket_def Let_def)
  have fresh: "fresh_in s s' RECOVERY v" if "fe_tickets (fy_fence s') = fe_tickets f'" "fe_active (fy_fence s') = fe_active f'"
      "fe_generation (fy_fence s') = fe_generation f'" "fe_draining (fy_fence s') = fe_draining f'"
      "fy_issued s' = List.insert v (fy_issued s)" for s'
    by (rule fresh_ticket [OF inv nt]) (simp_all add: that)
  show ?thesis
  proof (cases "\<exists>x. map_of (fe_recoveries (fy_fence s)) (tk_generation t) = Some x \<and> outstanding (fy_fence s) x")
    case True
    then obtain x where x: "map_of (fe_recoveries (fy_fence s)) (tk_generation t) = Some x" "outstanding (fy_fence s) x" by blast
    show ?thesis by (rule old) (use x reply in \<open>simp_all add: begin_recovery_def Let_def sys_step_def\<close>)
  next
    case False
    then have no: "\<not> (case map_of (fe_recoveries (fy_fence s)) (tk_generation t) of Some r \<Rightarrow> outstanding (fy_fence s) r | None \<Rightarrow> False)"
      by (auto split: option.splits)
    with reply have u: "\<not> fe_draining (fy_fence s)"
        "begin_recovery (fy_fence s) t False = (f'\<lparr>fe_recoveries := AList.update (tk_generation t) v (fe_recoveries f'),
           fe_recovery_for := AList.update (tk_token v) (tk_generation t) (fe_recovery_for f')\<rparr>, Some v)" "u = v"
      by (auto simp: begin_recovery_def Let_def nt split: if_splits)
    show ?thesis
      by (rule new) (use u r in \<open>auto simp: sys_step_def intro!: fresh\<close>)
  qed
qed

fun inside_fence :: "holder option \<Rightarrow> bool" where
  "inside_fence (Some (Working k b)) = b"
| "inside_fence _ = False"

definition restores :: "holder \<Rightarrow> bool" where
  "restores h = (case h of Working k _ \<Rightarrow> k = RestoreWork | _ \<Rightarrow> False)"

definition recoveries_ok :: "writer_sys \<Rightarrow> bool" where
  "recoveries_ok w \<longleftrightarrow>
     (\<forall>(g, r)\<in>set (fe_recoveries (wr_fence w)). g \<le> fe_generation (wr_fence w) \<and>
        (\<forall>t\<in>set (fy_issued (wr_sys w)). tk_generation t = g \<longrightarrow> t \<notin> set (wr_awaited w) \<and> wr_jobs w t \<noteq> Some Queued))"

definition writer_inv :: "writer_sys \<Rightarrow> bool" where
  "writer_inv w \<longleftrightarrow>
     fence_inv (wr_sys w) \<and> recoveries_ok w \<and>
     (\<forall>t. wr_jobs w t \<noteq> None \<longleftrightarrow> t \<in> set (fy_issued (wr_sys w)) \<and> outstanding (wr_fence w) t) \<and>
     (\<forall>t. fe_active (wr_fence w) = Some t \<longleftrightarrow> inside_fence (wr_jobs w t)) \<and>
     (\<forall>t\<in>set (wr_awaited w). t \<in> set (fy_issued (wr_sys w)) \<and> wr_jobs w t \<noteq> Some Queued) \<and>
     (\<forall>t h. wr_jobs w t = Some h \<longrightarrow> (tk_class t = SHUTDOWN \<longleftrightarrow> restores h))"

lemma writer_inv_init: "writer_inv (writer_init dry mc)"
  by (simp add: writer_inv_def recoveries_ok_def writer_init_def fence_inv_init)
     (simp add: sys_init_def fence_init_def)

lemma writer_invD:
  assumes "writer_inv w"
  shows "fence_inv (wr_sys w)" "recoveries_ok w"
    and "wr_jobs w t \<noteq> None \<longleftrightarrow> t \<in> set (fy_issued (wr_sys w)) \<and> outstanding (wr_fence w) t"
    and "fe_active (wr_fence w) = Some t \<longleftrightarrow> inside_fence (wr_jobs w t)"
    and "t \<in> set (wr_awaited w) \<Longrightarrow> t \<in> set (fy_issued (wr_sys w)) \<and> wr_jobs w t \<noteq> Some Queued"
    and "wr_jobs w t = Some h \<Longrightarrow> tk_class t = SHUTDOWN \<longleftrightarrow> restores h"
  using assms by (auto simp: writer_inv_def)

text \<open>A fresh ticket with its holder.\<close>

lemma take_fresh:
  assumes inv: "writer_inv w" and fresh: "fresh_in (wr_sys w) s' c u" and fi: "fence_inv s'"
    and rec: "\<forall>(g, r)\<in>set (fe_recoveries (fy_fence s')). (g, r) \<in> set (fe_recoveries (wr_fence w)) \<or>
                (\<exists>t\<in>set (fy_issued (wr_sys w)). tk_generation t = g \<and> t \<notin> set aw \<and> wr_jobs w t \<noteq> Some Queued)"
    and aw: "set aw \<subseteq> set (wr_awaited w)"
    and h: "\<not> inside_fence (Some h)" "c = SHUTDOWN \<longleftrightarrow> restores h"
  shows "writer_inv (w\<lparr>wr_awaited := aw, wr_sys := s', wr_jobs := (wr_jobs w)(u := Some h)\<rparr>)"
proof -
  note i = writer_invD [OF inv] and fr = fresh [unfolded fresh_in_def]
  have old: "tk_generation t \<le> fe_generation (wr_fence w)" if "t \<in> set (fy_issued (wr_sys w))" for t
    using i(1) that by (auto simp: fence_inv_def Let_def ticket_ok_def)
  have same: "t = t'" if "t \<in> set (fy_issued (wr_sys w))" "t' \<in> set (fy_issued (wr_sys w))" "tk_generation t = tk_generation t'" for t t'
    using i(1) that by (auto simp: fence_inv_def Let_def dest: inj_onD)
  have "g \<le> fe_generation (wr_fence w) \<and>
      (\<forall>t\<in>set (fy_issued (wr_sys w)). tk_generation t = g \<longrightarrow> t \<notin> set aw \<and> wr_jobs w t \<noteq> Some Queued)"
    if "(g, r) \<in> set (fe_recoveries (fy_fence s'))" for g r
    using rec [rule_format, OF that] i(2) aw old same by (fastforce simp: recoveries_ok_def)
  then have "recoveries_ok (w\<lparr>wr_awaited := aw, wr_sys := s', wr_jobs := (wr_jobs w)(u := Some h)\<rparr>)"
    using fr aw i(5) by (fastforce simp: recoveries_ok_def)
  moreover have "\<not> inside_fence (wr_jobs w u)" "fe_active (wr_fence w) \<noteq> Some u" "wr_jobs w u = None"
    using i(3) [of u] i(4) [of u] fr by auto
  moreover have "t \<in> set (fy_issued s') \<and> (if t = u then Some h else wr_jobs w t) \<noteq> Some Queued" if "t \<in> set aw" for t
    using that aw i(5) [of t] fr by auto
  ultimately show ?thesis
    using fi fr i(3,4,6) h by (auto simp: writer_inv_def)
qed

lemma take_slot_inv:
  assumes inv: "writer_inv w" and e: "e = EvReserve c False \<or> e = EvAdmit False \<and> c = ROUTINE"
    and h: "\<not> inside_fence (Some h)" "c = SHUTDOWN \<longleftrightarrow> restores h"
  shows "writer_inv (take_slot w e h)"
proof (cases "snd (fence_step (wr_fence w) e)")
  case (RTicket r)
  have fi: "fence_inv (sys_step (wr_sys w) e)"
    using e by (intro fence_inv_step [OF writer_invD(1) [OF inv]]) auto
  show ?thesis
  proof (cases r)
    case None
    with RTicket e have "sys_step (wr_sys w) e = wr_sys w"
      by (auto simp: sys_step_def reserve_def admit_routine_def Let_def split_beta split: if_splits)
    with None RTicket inv show ?thesis by (simp add: take_slot_def fence_do_def)
  next
    case (Some u)
    note new = reserve_reply [OF writer_invD(1) [OF inv] RTicket [unfolded Some] e]
    have "writer_inv (w\<lparr>wr_awaited := wr_awaited w, wr_sys := sys_step (wr_sys w) e, wr_jobs := (wr_jobs w)(u := Some h)\<rparr>)"
      by (rule take_fresh [OF inv _ fi _ _ h]) (use new in auto)
    with Some RTicket show ?thesis by (simp add: take_slot_def fence_do_def)
  qed
qed (use e in \<open>auto simp: split_beta\<close>)

lemma timed_out_new:
  assumes inv: "writer_inv w" and t: "t \<in> set (wr_awaited w)"
    and reply: "snd (fence_step (wr_fence w) (EvRecover t False)) = RTicket (Some u)"
  shows "fresh_in (wr_sys w) (sys_step (wr_sys w) (EvRecover t False)) RECOVERY u \<and> \<not> fe_draining (wr_fence w) \<and>
         fe_recoveries (fy_fence (sys_step (wr_sys w) (EvRecover t False))) =
           AList.update (tk_generation t) u (fe_recoveries (wr_fence w))"
proof (cases rule: recover_reply [OF writer_invD(1) [OF inv] reply])
  case 1
  from map_of_SomeD [OF 1(1)] writer_invD(2,5) [OF inv] t show ?thesis
    by (fastforce simp: recoveries_ok_def)
qed simp

lemma timed_out_inv:
  assumes inv: "writer_inv w" and t: "t \<in> set (wr_awaited w)"
  shows "writer_inv (cycle_timed_out w t)"
proof (cases "snd (fence_step (wr_fence w) (EvRecover t False))")
  case (RTicket r)
  let ?s = "sys_step (wr_sys w) (EvRecover t False)"
  note iss = writer_invD(5) [OF inv t]
  have fi: "fence_inv ?s"
    using iss by (intro fence_inv_step [OF writer_invD(1) [OF inv]]) auto
  show ?thesis
  proof (cases r)
    case None
    with RTicket have "fy_issued ?s = fy_issued (wr_sys w) \<and> outstanding (fy_fence ?s) = outstanding (wr_fence w) \<and>
        fe_active (fy_fence ?s) = fe_active (wr_fence w) \<and> fe_recoveries (fy_fence ?s) = fe_recoveries (wr_fence w) \<and>
        fe_generation (fy_fence ?s) = fe_generation (wr_fence w)"
      by (auto simp: sys_step_def begin_recovery_def Let_def split_beta fun_eq_iff split: if_splits option.splits)
    with None RTicket inv fi show ?thesis
      by (auto simp: cycle_timed_out_def take_slot_def fence_do_def writer_inv_def recoveries_ok_def)
  next
    case (Some u)
    note new = timed_out_new [OF inv t RTicket [unfolded Some]]
    have "writer_inv (w\<lparr>wr_awaited := removeAll t (wr_awaited w), wr_sys := ?s, wr_jobs := (wr_jobs w)(u := Some Audited)\<rparr>)"
      by (rule take_fresh [OF inv _ fi])
         (use new iss set_update_subset in \<open>fastforce simp: restores_def\<close>)+
    with Some RTicket show ?thesis by (simp add: cycle_timed_out_def take_slot_def fence_do_def)
  qed
qed (simp_all add: split_beta)

lemma release_inv:
  assumes inv: "writer_inv w" and t: "wr_jobs w t \<noteq> None"
  shows "writer_inv (release_writer w t)"
proof -
  let ?s = "sys_step (wr_sys w) (EvRelease t)"
  note i = writer_invD [OF inv]
  have iss: "t \<in> set (fy_issued (wr_sys w))" using i(3) [of t] t by blast
  have tok: "tk_token u = tk_token t \<longleftrightarrow> u = t" if "u \<in> set (fy_issued (wr_sys w))" for u
    using i(1) iss that by (auto simp: fence_inv_def Let_def ticket_ok_def inj_on_def)
  have f: "fy_fence ?s = release (wr_fence w) t" "fy_issued ?s = fy_issued (wr_sys w)" by (simp_all add: sys_step_def)
  have "fence_inv ?s" by (rule inv_release [OF i(1) iss])
  moreover have "recoveries_ok (release_writer w t)"
    using i(2) release_recoveries [of "wr_fence w" t]
    by (auto simp: recoveries_ok_def release_writer_def fence_do_def f)
  moreover have "fe_active (release (wr_fence w) t) = Some u \<longleftrightarrow> inside_fence (((wr_jobs w)(t := None)) u)" for u
    using i(4) [of u] by auto
  moreover have "((wr_jobs w)(t := None)) u \<noteq> None \<longleftrightarrow> u \<in> set (fy_issued (wr_sys w)) \<and> outstanding (release (wr_fence w) t) u" for u
    using i(3) [of u] tok [of u] by auto
  moreover have "u \<in> set (fy_issued (wr_sys w)) \<and> ((wr_jobs w)(t := None)) u \<noteq> Some Queued" if "u \<in> set (wr_awaited w)" for u
    using i(5) [OF that] by auto
  ultimately show ?thesis
    using i(6) unfolding writer_inv_def by (simp add: release_writer_def fence_do_def f)
qed

text \<open>Leaving keeps everything but the one inside; the release that follows does not see the difference.\<close>

lemma worker_done_eq:
  assumes "writer_inv w" and "wr_jobs w t \<noteq> None"
  shows "worker_done w t b = release_writer w t"
proof -
  have "sys_step (sys_step s (EvLeave t)) (EvRelease t) = sys_step s (EvRelease t)" for s
    by (auto simp: sys_step_def leave_def release_def Let_def split: option.split)
  then show ?thesis by (simp add: worker_done_def release_writer_def fence_do_def)
qed

lemma worker_enters_cases:
  assumes inv: "writer_inv w" and t: "wr_jobs w t = Some (Working k False)"
  obtains (granted) "worker_enters w t k x = w\<lparr>wr_sys := sys_step (wr_sys w) (EvEnter t (x \<and> k = RestoreWork)),
      wr_jobs := (wr_jobs w)(t := Some (Working k True))\<rparr>"
      "enter_poll (wr_fence w) t (x \<and> k = RestoreWork) = ((wr_fence w)\<lparr>fe_active := Some t\<rparr>, Some True)"
      "fe_active (wr_fence w) = None" "is_next (wr_fence w) t"
  | (refused) "worker_enters w t k x = release_writer w t"
  | (waits) "worker_enters w t k x = w" "fe_active (wr_fence w) \<noteq> None \<or> \<not> is_next (wr_fence w) t"
      "tk_generation t \<notin> fe_superseded (wr_fence w)"
proof -
  let ?x = "x \<and> k = RestoreWork"
  let ?p = "enter_poll (wr_fence w) t ?x"
  have s: "sys_step (wr_sys w) (EvEnter t ?x) = wr_sys w" if "?p = (wr_fence w, r)" "r \<noteq> Some True" for r
    using that by (cases r) (auto simp: sys_step_def)
  have act: "fe_active (wr_fence w) \<noteq> Some t" using writer_invD(4) [OF inv, of t] t by simp
  consider "snd ?p = Some True" | "snd ?p = Some False" | "snd ?p = None" by (cases "snd ?p") auto
  then show ?thesis
  proof cases
    case 1
    then have "?p = ((wr_fence w)\<lparr>fe_active := Some t\<rparr>, Some True)" "fe_active (wr_fence w) = None" "is_next (wr_fence w) t"
      by (auto simp: enter_poll_def split: if_splits)
    then show ?thesis by (intro granted) (simp_all add: worker_enters_def fence_do_def)
  next
    case 2
    then have p: "?p = (wr_fence w, Some False)" by (auto simp: enter_poll_def split: if_splits)
    with s [OF p] have "worker_enters w t k x = worker_done w t False"
      by (simp add: worker_enters_def fence_do_def)
    then show ?thesis using refused worker_done_eq [OF inv] t by simp
  next
    case 3
    with act have p: "?p = (wr_fence w, None)" "tk_generation t \<notin> fe_superseded (wr_fence w)"
      "fe_active (wr_fence w) \<noteq> None \<or> \<not> is_next (wr_fence w) t"
      by (auto simp: enter_poll_def split: if_splits)
    with s [OF p(1)] have "worker_enters w t k x = w" by (simp add: worker_enters_def fence_do_def)
    then show ?thesis using waits p by simp
  qed
qed

lemma enters_inv:
  assumes inv: "writer_inv w" and t: "wr_jobs w t = Some (Working k False)"
  shows "writer_inv (worker_enters w t k x)"
proof (cases rule: worker_enters_cases [OF inv t, of x])
  case 1
  note i = writer_invD [OF inv]
  have "t \<in> set (fy_issued (wr_sys w))" using i(3) [of t] t by simp
  note fi = inv_enter [OF i(1) this, of "x \<and> k = RestoreWork"]
  have a: "\<not> inside_fence (wr_jobs w u)" for u using i(4) [of u] 1(3) by auto
  have r: "restores (Working k True) = restores (Working k False)" by (simp add: restores_def)
  show ?thesis
    unfolding 1(1)
    using fi i(2,3,5,6) a t r unfolding writer_inv_def recoveries_ok_def
    by (auto simp: sys_step_def 1(2))
qed (use inv t release_inv [OF inv] in simp_all)

lemma drain_inv: "writer_inv w \<Longrightarrow> writer_inv (drain_writers w)" "writer_inv w \<Longrightarrow> writer_inv (undrain_writers w)"
  using inv_drain [of "wr_sys w"] unfolding writer_inv_def recoveries_ok_def
  by (simp_all add: drain_writers_def undrain_writers_def fence_do_def sys_step_def mark_draining_def clear_draining_def)

lemma spawn_inv:
  assumes inv: "writer_inv w" and t: "wr_jobs w t = Some Queued"
  shows "writer_inv (spawn_tick w t)"
proof -
  note i = writer_invD [OF inv]
  have "t \<in> set (fy_issued (wr_sys w)) \<and> outstanding (wr_fence w) t" using i(3) [of t] t by simp
  moreover have "\<forall>(g, r)\<in>set (fe_recoveries (wr_fence w)). tk_generation t \<noteq> g"
    using i(2) t calculation by (fastforce simp: recoveries_ok_def)
  ultimately show ?thesis
    using i i(6) [of t Queued] t unfolding writer_inv_def recoveries_ok_def
    by (auto simp: spawn_tick_def restores_def split: if_splits)
qed

lemma audited_inv:
  assumes inv: "writer_inv w" and t: "wr_jobs w t = Some Audited"
  shows "writer_inv (w\<lparr>wr_jobs := (wr_jobs w)(t := Some (Working OverrunWork False))\<rparr>)" (is "writer_inv ?v")
proof -
  note i = writer_invD [OF inv]
  have "recoveries_ok ?v" using i(2) by (auto simp: recoveries_ok_def)
  moreover have "wr_jobs ?v u \<noteq> None \<longleftrightarrow> wr_jobs w u \<noteq> None" "inside_fence (wr_jobs ?v u) = inside_fence (wr_jobs w u)" for u
    using t by auto
  moreover have "\<not> restores Audited" "\<not> restores (Working OverrunWork False)" by (simp_all add: restores_def)
  ultimately show ?thesis
    using i t unfolding writer_inv_def by auto
qed

text \<open>What the fence and the holders do not see.\<close>

lemma writer_inv_cong:
  assumes "writer_inv w" and "wr_sys w' = wr_sys w" "wr_jobs w' = wr_jobs w" "set (wr_awaited w') \<subseteq> set (wr_awaited w)"
  shows "writer_inv w'"
  using assms unfolding writer_inv_def recoveries_ok_def by (simp add: subset_iff) blast

lemma writer_inv_step:
  assumes inv: "writer_inv w" and step: "writer_step w e = Some w'"
  shows "writer_inv w'"
proof (cases e)
  case Submit
  with step inv take_slot_inv [OF inv, of _ OVERRIDE Queued] show ?thesis
    by (auto simp: reserve_override_cycle_def restores_def)
next
  case AdmitCycle
  with step inv take_slot_inv [OF inv, of _ ROUTINE Queued] show ?thesis
    by (auto simp: admit_cycle_def restores_def)
next
  case (Spawn t)
  with step spawn_inv [OF inv] show ?thesis by (auto split: if_splits)
next
  case (Abandon t)
  with step release_inv [OF inv] show ?thesis by (auto split: if_splits)
next
  case (Ask_fence t x)
  with step enters_inv [OF inv] show ?thesis by (auto split: option.splits holder.splits bool.splits)
next
  case (Decided t b c)
  with step writer_inv_cong [OF inv, of w'] show ?thesis by (auto split: if_splits)
next
  case (TickEnds t)
  with step worker_done_eq [OF inv] release_inv [OF inv] show ?thesis
    by (auto split: option.splits holder.splits work.splits)
next
  case (Commanded t ok a)
  define v where "v = w\<lparr>wr_writes := wr_writes w', wr_mc := wr_mc w'\<rparr>"
  have v: "writer_inv v" by (rule writer_inv_cong [OF inv]) (simp_all add: v_def)
  from Commanded step obtain k where k: "wr_jobs w t = Some (Working k True)" "w' = command_done w t k ok a"
    by (auto split: option.splits holder.splits bool.splits if_splits)
  then have "wr_jobs v t \<noteq> None" by (simp add: v_def)
  moreover have "w' = worker_done v t True"
    by (simp add: k(2) v_def command_done_def worker_done_def release_writer_def fence_do_def)
  ultimately show ?thesis using worker_done_eq [OF v] release_inv [OF v] by simp
next
  case (Returned t b)
  with step writer_inv_cong [OF inv, of w'] show ?thesis by (auto simp: cycle_returned_def split: if_splits)
next
  case (TimedOut t)
  with step timed_out_inv [OF inv] show ?thesis by (auto split: if_splits)
next
  case (OverrunAudited t may)
  with step have t: "wr_jobs w t = Some Audited" and w': "w' = handle_overrun w t may" by (auto split: if_splits)
  have "writer_inv (w\<lparr>wr_jobs := (wr_jobs w)(t := Some (Working OverrunWork False))\<rparr>)"
    by (rule audited_inv [OF inv t])
  with release_inv [OF inv] t show ?thesis by (simp add: w' handle_overrun_def)
next
  case (SlowAudited may)
  have "writer_inv (w\<lparr>wr_slow := wr_slow w - 1\<rparr>)" by (rule writer_inv_cong [OF inv]) simp_all
  with SlowAudited step take_slot_inv [OF this, of _ RECOVERY "Working OverrunWork False"] show ?thesis
    by (auto simp: handle_slow_cycle_def restores_def Let_def split: if_splits)
next
  case Restore
  with step inv take_slot_inv [OF inv, of _ SHUTDOWN "Working RestoreWork False"] show ?thesis
    by (auto simp: restore_for_shutdown_def restores_def)
next
  case RequestRestart
  with step inv drain_inv [OF inv] show ?thesis by (auto simp: request_restart_def)
qed (use step drain_inv [OF inv] in auto)

lemma writer_inv_run: "writer_run w es = Some w' \<Longrightarrow> writer_inv w \<Longrightarrow> writer_inv w'"
  by (induction w es rule: writer_run.induct) (auto split: option.splits dest: writer_inv_step)

subsection \<open>Writers use the fence as it is meant to be used\<close>

lemma one_fence_step: "(\<forall>t. event_ticket e = Some t \<longrightarrow> t \<in> set (fy_issued s)) \<Longrightarrow> fence_steps s (sys_step s e)"
  by (rule more [OF stay]) simp

lemma take_slot_sys: "wr_sys (take_slot w e h) = sys_step (wr_sys w) e"
  by (auto simp: take_slot_def fence_do_def split: fence_reply.split option.split)

lemma release_writer_sys: "wr_sys (release_writer w t) = sys_step (wr_sys w) (EvRelease t)"
  by (simp add: release_writer_def fence_do_def)

lemma command_done_eq:
  assumes "writer_inv w" and "wr_jobs w t \<noteq> None"
  shows "\<exists>c. command_done w t k ok a = release_writer (w\<lparr>wr_writes := t # wr_writes w, wr_mc := c\<rparr>) t"
proof -
  let ?v = "\<lambda>c. w\<lparr>wr_writes := t # wr_writes w, wr_mc := c\<rparr>"
  have "writer_inv (?v c)" for c by (rule writer_inv_cong [OF assms(1)]) simp_all
  then have "worker_done (?v c) t True = release_writer (?v c) t" for c
    using worker_done_eq assms(2) by simp
  then show ?thesis unfolding command_done_def by blast
qed

lemma writer_step_fence:
  assumes inv: "writer_inv w" and step: "writer_step w e = Some w'"
  shows "fence_steps (wr_sys w) (wr_sys w')"
proof -
  have iss: "t \<in> set (fy_issued (wr_sys w))" if "wr_jobs w t = Some h" for t h
    using writer_invD(3) [OF inv, of t] that by simp
  have rel: "fence_steps (wr_sys w) (sys_step (wr_sys w) (EvRelease t))" if "wr_jobs w t = Some h" for t h
    using iss [OF that] by (intro one_fence_step) simp
  have plain: "fence_steps (wr_sys w) (sys_step (wr_sys w) x)" if "event_ticket x = None" for x
    using that by (intro one_fence_step) simp
  show ?thesis
  proof (cases e)
    case (Ask_fence t x)
    with step obtain k where k: "wr_jobs w t = Some (Working k False)" "w' = worker_enters w t k x"
      by (auto split: option.splits holder.splits bool.splits)
    from k(1) iss have "fence_steps (wr_sys w) (sys_step (wr_sys w) (EvEnter t y))" for y
      by (intro one_fence_step) simp
    with k rel show ?thesis
      by (cases rule: worker_enters_cases [OF inv k(1), of x]) (simp_all add: release_writer_sys stay)
  next
    case (TickEnds t)
    with step rel show ?thesis
      by (auto simp: worker_done_eq [OF inv] release_writer_sys split: option.splits holder.splits work.splits)
  next
    case (Commanded t ok a)
    with step obtain k where k: "wr_jobs w t = Some (Working k True)" "w' = command_done w t k ok a"
      by (auto split: option.splits holder.splits bool.splits if_splits)
    with command_done_eq [OF inv, of t k ok a] rel show ?thesis by (auto simp: release_writer_sys)
  next
    case (TimedOut t)
    with step writer_invD(5) [OF inv, of t] have "fence_steps (wr_sys w) (sys_step (wr_sys w) (EvRecover t False))"
      by (intro one_fence_step) (auto split: if_splits)
    with TimedOut step show ?thesis by (auto simp: cycle_timed_out_def take_slot_sys split: if_splits)
  qed (use step rel in \<open>auto simp: reserve_override_cycle_def admit_cycle_def take_slot_sys release_writer_sys
      handle_overrun_def handle_slow_cycle_def restore_for_shutdown_def drain_writers_def undrain_writers_def
      request_restart_def fence_do_def spawn_tick_def cycle_returned_def Let_def split: if_splits intro!: plain stay\<close>)
qed

subsection \<open>While the system drains\<close>

text \<open>No new slot is given, except for the restoration.\<close>

lemma draining_fence_step:
  "fe_draining (fy_fence s) \<Longrightarrow> e \<noteq> EvUndrain \<Longrightarrow> fe_draining (fy_fence (sys_step s e))"
  by (cases e)
     (auto simp: sys_step_def reserve_def admit_routine_def begin_recovery_def new_ticket_def enter_poll_def leave_def
        release_def mark_draining_def Let_def split_beta split: option.split)

lemma take_slot_draining:
  assumes inv: "writer_inv w" and e: "e = EvReserve c False \<or> e = EvAdmit False \<and> c = ROUTINE"
    and "fe_draining (wr_fence w)" and t: "wr_jobs (take_slot w e h) t \<noteq> None" "tk_class t \<noteq> SHUTDOWN"
  shows "wr_jobs w t \<noteq> None"
proof (cases "\<exists>u. snd (fence_step (wr_fence w) e) = RTicket (Some u)")
  case True
  then obtain u where u: "snd (fence_step (wr_fence w) e) = RTicket (Some u)" by blast
  from reserve_reply [OF writer_invD(1) [OF inv] u e] assms(3) have "tk_class u = SHUTDOWN"
    by (auto simp: fresh_in_def)
  with u t show ?thesis by (auto simp: take_slot_def fence_do_def split: if_splits)
next
  case False
  with t(1) show ?thesis by (auto simp: take_slot_def fence_do_def split: fence_reply.splits option.splits)
qed

lemma timed_out_draining:
  assumes inv: "writer_inv w" and a: "t \<in> set (wr_awaited w)" and "fe_draining (wr_fence w)"
    and u: "wr_jobs (cycle_timed_out w t) u \<noteq> None"
  shows "wr_jobs w u \<noteq> None"
proof -
  have "snd (fence_step (wr_fence w) (EvRecover t False)) \<noteq> RTicket (Some v)" for v
    using timed_out_new [OF inv a] assms(3) by blast
  with u show ?thesis
    by (auto simp: cycle_timed_out_def take_slot_def fence_do_def split: fence_reply.splits option.splits)
qed

lemma draining_step:
  assumes inv: "writer_inv w" and step: "writer_step w e = Some w'" and e: "e \<noteq> Undrain"
    and dr: "fe_draining (wr_fence w)"
  shows "fe_draining (wr_fence w')"
    and "wr_jobs w' t \<noteq> None \<Longrightarrow> tk_class t \<noteq> SHUTDOWN \<Longrightarrow> wr_jobs w t \<noteq> None"
proof -
  have slot: "wr_jobs w t \<noteq> None"
    if "wr_jobs (take_slot w x h) t \<noteq> None" "tk_class t \<noteq> SHUTDOWN" "x = EvReserve c False \<or> x = EvAdmit False \<and> c = ROUTINE"
    for x c h t
    using take_slot_draining [OF inv that(3) dr that(1,2)] .
  have slow: "writer_inv (w\<lparr>wr_slow := n\<rparr>)" for n by (rule writer_inv_cong [OF inv]) simp_all
  show "fe_draining (wr_fence w')"
  proof (cases e)
    case (Ask_fence u x)
    with step obtain k where k: "wr_jobs w u = Some (Working k False)" "w' = worker_enters w u k x"
      by (auto split: option.splits holder.splits bool.splits)
    show ?thesis
      using dr by (cases rule: worker_enters_cases [OF inv k(1), of x])
        (simp_all add: k(2) release_writer_sys draining_fence_step)
  next
    case (Commanded u ok a)
    with step obtain k where k: "wr_jobs w u = Some (Working k True)" "w' = command_done w u k ok a"
      by (auto split: option.splits holder.splits bool.splits if_splits)
    with command_done_eq [OF inv, of u k ok a] dr show ?thesis by (auto simp: release_writer_sys draining_fence_step)
  qed (use step e dr in \<open>auto simp: reserve_override_cycle_def admit_cycle_def take_slot_sys release_writer_sys
      handle_overrun_def handle_slow_cycle_def restore_for_shutdown_def drain_writers_def
      request_restart_def fence_do_def spawn_tick_def cycle_returned_def cycle_timed_out_def Let_def
      worker_done_eq [OF inv] draining_fence_step split: if_splits option.splits holder.splits work.splits\<close>)
  show "wr_jobs w t \<noteq> None" if t: "wr_jobs w' t \<noteq> None" "tk_class t \<noteq> SHUTDOWN"
  proof (cases e)
    case Submit
    with step t slot [of _ _ t OVERRIDE] show ?thesis by (auto simp: reserve_override_cycle_def split: if_splits)
  next
    case AdmitCycle
    with step t slot [of _ _ t ROUTINE] show ?thesis by (auto simp: admit_cycle_def split: if_splits)
  next
    case Restore
    with step t slot [of _ _ t SHUTDOWN] show ?thesis by (auto simp: restore_for_shutdown_def split: if_splits)
  next
    case (SlowAudited may)
    have "wr_jobs w t \<noteq> None"
      if "wr_jobs (take_slot (w\<lparr>wr_slow := n\<rparr>) (EvReserve RECOVERY False) h) t \<noteq> None" for n h
      using take_slot_draining [OF slow, of "EvReserve RECOVERY False" RECOVERY n h t] that t(2) dr by simp
    with SlowAudited step t show ?thesis
      by (auto simp: handle_slow_cycle_def Let_def split: if_splits)
  next
    case (TimedOut u)
    with step t timed_out_draining [OF inv _ dr, of u t] show ?thesis by (auto split: if_splits)
  next
    case (Ask_fence u x)
    with step obtain k where k: "wr_jobs w u = Some (Working k False)" "w' = worker_enters w u k x"
      by (auto split: option.splits holder.splits bool.splits)
    show ?thesis
      using t by (cases rule: worker_enters_cases [OF inv k(1), of x])
        (auto simp: k release_writer_def fence_do_def split: if_splits)
  next
    case (Commanded u ok a)
    with step obtain k where k: "wr_jobs w u = Some (Working k True)" "w' = command_done w u k ok a"
      by (auto split: option.splits holder.splits bool.splits if_splits)
    with command_done_eq [OF inv, of u k ok a] t show ?thesis
      by (auto simp: release_writer_def fence_do_def split: if_splits)
  qed (use step t in \<open>auto simp: release_writer_def handle_overrun_def drain_writers_def undrain_writers_def
      request_restart_def fence_do_def spawn_tick_def cycle_returned_def worker_done_eq [OF inv]
      split: if_splits option.splits holder.splits work.splits\<close>)
qed

text \<open>A command comes from a worker inside the fence, and nothing else changes what the gate reads.\<close>

lemma writes_step:
  assumes inv: "writer_inv w" and step: "writer_step w e = Some w'"
  obtains new where "wr_writes w' = new @ wr_writes w" "\<forall>t\<in>set new. inside_fence (wr_jobs w t)"
    "wr_mc w' \<noteq> wr_mc w \<Longrightarrow> new = [] \<Longrightarrow> \<exists>t. wr_jobs w t = Some (Working TickWork True)"
proof (cases "\<exists>t ok a. e = Commanded t ok a")
  case True
  then obtain t ok a where c: "e = Commanded t ok a" by blast
  with step obtain k where k: "wr_jobs w t = Some (Working k True)" "w' = command_done w t k ok a"
    by (auto split: option.splits holder.splits bool.splits if_splits)
  with command_done_eq [OF inv, of t k ok a] show ?thesis
    by (intro that [of "[t]"]) (auto simp: release_writer_def fence_do_def)
next
  case False
  show ?thesis
  proof (cases "\<exists>t b c. e = Decided t b c")
    case True
    then obtain t b c where "e = Decided t b c" by blast
    with step show ?thesis by (intro that [of "if b then [t] else []"]) (auto split: if_splits)
  next
    case no: False
    have w: "wr_writes (take_slot v x h) = wr_writes v \<and> wr_mc (take_slot v x h) = wr_mc v" for v x h
      by (auto simp: take_slot_def fence_do_def split: fence_reply.split option.split)
    have r: "wr_writes (release_writer v t) = wr_writes v \<and> wr_mc (release_writer v t) = wr_mc v" for v t
      by (simp add: release_writer_def fence_do_def)
    have en: "wr_writes (worker_enters w t k x) = wr_writes w \<and> wr_mc (worker_enters w t k x) = wr_mc w"
      if "wr_jobs w t = Some (Working k False)" for t k x
      by (cases rule: worker_enters_cases [OF inv that, of x]) (simp_all add: r)
    have "wr_writes w' = wr_writes w \<and> wr_mc w' = wr_mc w"
      using step False no
      by (cases e) (auto simp: reserve_override_cycle_def admit_cycle_def handle_overrun_def handle_slow_cycle_def
          restore_for_shutdown_def drain_writers_def undrain_writers_def request_restart_def fence_do_def
          spawn_tick_def cycle_returned_def cycle_timed_out_def Let_def worker_done_eq [OF inv] w r en
          split: if_splits option.splits holder.splits work.splits bool.splits)
    then show ?thesis by (intro that [of "[]"]) auto
  qed
qed

subsection \<open>Restart and shutdown\<close>

text \<open>Quiet: whoever still holds a slot is the restoration, or can never enter the fence.\<close>

definition quiet :: "writer_sys \<Rightarrow> bool" where
  "quiet w \<longleftrightarrow> fe_draining (wr_fence w) \<and>
     (\<forall>t. wr_jobs w t \<noteq> None \<and> tk_class t \<noteq> SHUTDOWN \<longrightarrow>
        dead (wr_fence w) t \<and> \<not> inside_fence (wr_jobs w t))"

lemma not_inside: "writer_inv w \<Longrightarrow> \<not> inside_fence (wr_jobs w t) \<longleftrightarrow> t \<notin> set (fy_inside (wr_sys w))"
  using writer_invD(1) [of w] writer_invD(4) [of w t]
  by (auto simp: fence_inv_def Let_def split: option.splits)

lemma quiet_step:
  assumes inv: "writer_inv w" and q: "quiet w" and step: "writer_step w e = Some w'" and e: "e \<noteq> Undrain"
  shows "quiet w'"
    and "\<exists>new. wr_writes w' = new @ wr_writes w \<and> (\<forall>t\<in>set new. tk_class t = SHUTDOWN) \<and>
               (new = [] \<longrightarrow> wr_mc w' = wr_mc w)"
proof -
  have dr: "fe_draining (wr_fence w)" using q by (simp add: quiet_def)
  note inv' = writer_inv_step [OF inv step]
  have "dead (wr_fence w') t \<and> \<not> inside_fence (wr_jobs w' t)" if t: "wr_jobs w' t \<noteq> None" "tk_class t \<noteq> SHUTDOWN" for t
  proof -
    have old: "wr_jobs w t \<noteq> None" using draining_step(2) [OF inv step e dr t] .
    with q t(2) have "dead (wr_fence w) t" "\<not> inside_fence (wr_jobs w t)" by (auto simp: quiet_def)
    with dead_forever [OF writer_step_fence [OF inv step] writer_invD(1) [OF inv], of t] old
      writer_invD(3) [OF inv, of t] not_inside [OF inv, of t] not_inside [OF inv', of t]
    show ?thesis by blast
  qed
  then show "quiet w'" using draining_step(1) [OF inv step e dr] by (simp add: quiet_def)
  have shut: "tk_class t = SHUTDOWN" if "inside_fence (wr_jobs w t)" for t
    using q that by (cases "wr_jobs w t") (auto simp: quiet_def)
  have tick: "wr_jobs w t \<noteq> Some (Working TickWork True)" for t
    using shut [of t] writer_invD(6) [OF inv, of t "Working TickWork True"] by (auto simp: restores_def)
  obtain new where new: "wr_writes w' = new @ wr_writes w" "\<forall>t\<in>set new. inside_fence (wr_jobs w t)"
    "wr_mc w' \<noteq> wr_mc w \<Longrightarrow> new = [] \<Longrightarrow> \<exists>t. wr_jobs w t = Some (Working TickWork True)"
    by (rule writes_step [OF inv step]) blast
  then show "\<exists>new. wr_writes w' = new @ wr_writes w \<and> (\<forall>t\<in>set new. tk_class t = SHUTDOWN) \<and>
               (new = [] \<longrightarrow> wr_mc w' = wr_mc w)"
    using shut tick by (intro exI [of _ new]) blast
qed

lemma quiet_run:
  assumes "writer_run w es = Some w'" and "writer_inv w" "quiet w" "Undrain \<notin> set es"
  shows "\<exists>new. wr_writes w' = new @ wr_writes w \<and> (\<forall>t\<in>set new. tk_class t = SHUTDOWN) \<and>
               (new = [] \<longrightarrow> wr_mc w' = wr_mc w)"
  using assms
proof (induction w es rule: writer_run.induct)
  case (2 w e es)
  then obtain v where v: "writer_step w e = Some v" "writer_run v es = Some w'" by (auto split: option.splits)
  have e: "e \<noteq> Undrain" using 2(5) by auto
  obtain n1 where n1: "wr_writes v = n1 @ wr_writes w" "\<forall>t\<in>set n1. tk_class t = SHUTDOWN" "n1 = [] \<longrightarrow> wr_mc v = wr_mc w"
    using quiet_step(2) [OF 2(3,4) v(1) e] by blast
  obtain n2 where n2: "wr_writes w' = n2 @ wr_writes v" "\<forall>t\<in>set n2. tk_class t = SHUTDOWN" "n2 = [] \<longrightarrow> wr_mc w' = wr_mc v"
    using 2(1) [OF v(1,2) writer_inv_step [OF 2(3) v(1)] quiet_step(1) [OF 2(3,4) v(1) e]] 2(5) by auto
  show ?case by (rule exI [of _ "n2 @ n1"]) (use n1 n2 in auto)
qed simp

lemma registry_empty: "writer_inv w \<Longrightarrow> fence_empty (wr_fence w) \<longleftrightarrow> (\<forall>t. wr_jobs w t = None)"
proof -
  assume inv: "writer_inv w"
  note i = writer_invD(1) [OF inv] writer_invD(3) [OF inv]
  have "wr_jobs w t \<noteq> None" if "fe_tickets (wr_fence w) = (k, t) # xs" for k t xs
    using i that by (force simp: fence_inv_def Let_def outstanding_def)
  then show ?thesis
    using i(2) by (cases "fe_tickets (wr_fence w)") (auto simp: fence_empty_def outstanding_def)
qed

text \<open>
  C6. A restart that passed the gate is never overtaken by a battery command. In any interleaving of cycles,
  overrides, overruns, recoveries, restorations and restart requests: when \<open>idle_for_restart\<close> says idle, no
  coroutine and no thread holds a slot, and the last command of an armed controller is confirmed and AUTO (or
  there was none); and after the drain that the request sets, until somebody calls it off, every physical
  command is one of the restoration at shutdown, and without one the state the gate has judged stays as
  it was.
\<close>

theorem restart_gate_is_final:
  assumes run: "writer_run (writer_init dry mc) es = Some w" and idle: "fst (idle_for_restart w)"
    and on: "writer_run (request_restart w) es' = Some w'" and still: "Undrain \<notin> set es'"
  shows "(\<forall>t. wr_jobs w t = None) \<and>
         (\<forall>c. wr_mc w = Some c \<and> \<not> wr_dry_run w \<longrightarrow> \<not> mc_unconfirmed c \<and> mc_last_confirmed c \<in> {None, Some AUTO}) \<and>
         (\<exists>new. wr_writes w' = new @ wr_writes w \<and> (\<forall>t\<in>set new. tk_class t = SHUTDOWN) \<and>
                (new = [] \<longrightarrow> wr_mc w' = wr_mc w))"
proof (intro conjI)
  have inv: "writer_inv w" by (rule writer_inv_run [OF run writer_inv_init])
  have "fence_empty (wr_fence w)" using idle by (auto simp: idle_for_restart_def split: if_splits)
  with registry_empty [OF inv] show none: "\<forall>t. wr_jobs w t = None" by simp
  show "\<forall>c. wr_mc w = Some c \<and> \<not> wr_dry_run w \<longrightarrow> \<not> mc_unconfirmed c \<and> mc_last_confirmed c \<in> {None, Some AUTO}"
    using idle by (auto simp: idle_for_restart_def split: if_splits)
  have r: "request_restart w = drain_writers w" using idle by (simp add: request_restart_def)
  have "quiet (request_restart w)"
    using none by (simp add: r quiet_def drain_writers_def fence_do_def sys_step_def mark_draining_def)
  moreover have "writer_inv (request_restart w)" unfolding r by (rule drain_inv(1) [OF inv])
  moreover have "wr_writes (request_restart w) = wr_writes w" "wr_mc (request_restart w) = wr_mc w"
    by (simp_all add: r drain_writers_def fence_do_def)
  ultimately show "\<exists>new. wr_writes w' = new @ wr_writes w \<and> (\<forall>t\<in>set new. tk_class t = SHUTDOWN) \<and>
      (new = [] \<longrightarrow> wr_mc w' = wr_mc w)"
    using quiet_run [OF on _ _ still] by simp
qed

text \<open>Every other slot is older than this generation, unless it is a restoration.\<close>

definition older_than :: "int \<Rightarrow> writer_sys \<Rightarrow> bool" where
  "older_than g w \<longleftrightarrow> fe_draining (wr_fence w) \<and>
     (\<forall>u. wr_jobs w u \<noteq> None \<and> tk_class u \<noteq> SHUTDOWN \<longrightarrow> tk_generation u < g)"

lemma older_than_run:
  "writer_run w es = Some w' \<Longrightarrow> writer_inv w \<Longrightarrow> older_than g w \<Longrightarrow> Undrain \<notin> set es \<Longrightarrow> older_than g w'"
proof (induction w es rule: writer_run.induct)
  case (2 w e es)
  then obtain v where v: "writer_step w e = Some v" "writer_run v es = Some w'" by (auto split: option.splits)
  have e: "e \<noteq> Undrain" using 2(5) by auto
  have "fe_draining (wr_fence w)" using 2(4) by (simp add: older_than_def)
  from draining_step [OF 2(3) v(1) e this] 2(4) have "older_than g v" by (auto simp: older_than_def)
  with 2 v writer_inv_step [OF 2(3) v(1)] show ?case by simp
qed simp

lemma job_ticket:
  assumes inv: "writer_inv w" and u: "wr_jobs w u \<noteq> None"
  shows "u \<in> set (tickets_of (wr_fence w))"
proof -
  note f = writer_invD(1) [OF inv, unfolded fence_inv_def Let_def]
  from u writer_invD(3) [OF inv, of u] obtain v where v: "map_of (fe_tickets (wr_fence w)) (tk_token u) = Some v"
    and iss: "u \<in> set (fy_issued (wr_sys w))" by (auto simp: outstanding_def)
  from map_of_SomeD [OF v] f have "tk_token u = tk_token v" "v \<in> set (fy_issued (wr_sys w))" by auto
  then have "v = u" using f iss by (auto simp: ticket_ok_def dest: inj_onD)
  with map_of_SomeD [OF v] show ?thesis by (force simp: tickets_of_def)
qed

lemma ticket_job:
  assumes inv: "writer_inv w" and u: "u \<in> set (tickets_of (wr_fence w))"
  shows "wr_jobs w u \<noteq> None"
proof -
  from u obtain k where k: "(k, u) \<in> set (fe_tickets (wr_fence w))" by (auto simp: tickets_of_def)
  with writer_invD(1) [OF inv] have "k = tk_token u" "u \<in> set (fy_issued (wr_sys w))"
    by (auto simp: fence_inv_def Let_def)
  with k have "outstanding (wr_fence w) u" by (force simp: outstanding_def map_of_eq_None_iff)
  with writer_invD(3) [OF inv, of u] \<open>u \<in> set (fy_issued (wr_sys w))\<close> show ?thesis by blast
qed

text \<open>
  C16. The restoration at shutdown has the last word. Once the system drains and the restoration has its slot,
  it waits for a command already under way and for older commands that are still allowed; when it enters the
  fence, no physical command is ever given again but that of a restoration, until somebody calls the drain off:
  no routine, override or recovery that was on its way can land after it.
\<close>

theorem shutdown_restoration_is_last:
  assumes run: "writer_run (writer_init dry mc) es = Some w" and dr: "fe_draining (wr_fence w)"
    and begun: "writer_step w Restore = Some w1" "wr_jobs w t = None" "wr_jobs w1 t \<noteq> None"
    and mid: "writer_run w1 es1 = Some w2" "Undrain \<notin> set es1"
    and entered: "writer_step w2 (Ask_fence t x) = Some w3" "wr_jobs w3 t = Some (Working k True)"
    and on: "writer_run w3 es2 = Some w4" "Undrain \<notin> set es2"
  shows "\<exists>new. wr_writes w4 = new @ wr_writes w3 \<and> (\<forall>u\<in>set new. tk_class u = SHUTDOWN)"
proof -
  let ?e = "EvReserve SHUTDOWN False" and ?g = "tk_generation t"
  have inv: "writer_inv w" by (rule writer_inv_run [OF run writer_inv_init])
  have inv1: "writer_inv w1" by (rule writer_inv_step [OF inv begun(1)])
  have inv2: "writer_inv w2" by (rule writer_inv_run [OF mid(1) inv1])
  have inv3: "writer_inv w3" by (rule writer_inv_step [OF inv2 entered(1)])
  from begun have w1: "w1 = take_slot w ?e (Working RestoreWork False)"
    by (auto simp: restore_for_shutdown_def split: if_splits)
  with begun(2,3) have reply: "snd (fence_step (wr_fence w) ?e) = RTicket (Some t)"
    by (auto simp: take_slot_def fence_do_def split: fence_reply.splits option.splits if_splits)
  from reserve_reply [OF writer_invD(1) [OF inv] reply] have fresh: "tk_generation t = fe_generation (wr_fence w) + 1" "tk_class t = SHUTDOWN"
    by (auto simp: fresh_in_def)
  have "tk_generation u < ?g" if "wr_jobs w u \<noteq> None" for u
    using writer_invD(1) [OF inv] writer_invD(3) [OF inv, of u] that fresh
    by (auto simp: fence_inv_def Let_def ticket_ok_def)
  with draining_step [OF inv begun(1) _ dr] have "older_than ?g w1" by (auto simp: older_than_def)
  with older_than_run [OF mid(1) inv1 _ mid(2)] have old: "older_than ?g w2" by blast
  from entered obtain k' where k: "wr_jobs w2 t = Some (Working k' False)" "w3 = worker_enters w2 t k' x"
    by (auto split: option.splits holder.splits bool.splits)
  have "quiet w3"
  proof (cases rule: worker_enters_cases [OF inv2 k(1), of x])
    case 1
    have f3: "wr_fence w3 = (wr_fence w2)\<lparr>fe_active := Some t\<rparr>" by (simp add: k(2) 1 sys_step_def)
    have "tk_generation u \<in> fe_superseded (wr_fence w2)" if u: "wr_jobs w2 u \<noteq> None" "tk_class u \<noteq> SHUTDOWN" for u
    proof (rule ccontr)
      assume "tk_generation u \<notin> fe_superseded (wr_fence w2)"
      with job_ticket [OF inv2 u(1)] have "u \<in> set (eligible (wr_fence w2))" by (simp add: eligible_def)
      then have "Min (set (List.map tk_generation (eligible (wr_fence w2)))) \<le> tk_generation u" by simp
      moreover have "?g = Min (set (List.map tk_generation (eligible (wr_fence w2))))" using 1(4) by (simp add: is_next_def)
      moreover have "tk_generation u < ?g" using old u unfolding older_than_def by blast
      ultimately show False by linarith
    qed
    moreover have "\<not> inside_fence (wr_jobs w3 u)" if "u \<noteq> t" for u
      using writer_invD(4) [OF inv3, of u] that by (simp add: f3)
    moreover have "wr_jobs w3 u = wr_jobs w2 u" if "u \<noteq> t" for u using that by (simp add: k(2) 1(1))
    ultimately have "dead (wr_fence w3) u \<and> \<not> inside_fence (wr_jobs w3 u)"
      if "wr_jobs w3 u \<noteq> None" "tk_class u \<noteq> SHUTDOWN" for u
      using that fresh(2) by (metis (no_types, lifting) dead_def f3 command_fence.select_convs(3) command_fence.surjective
          command_fence.update_convs(4))
    moreover have "fe_draining (wr_fence w3)" using old by (simp add: f3 older_than_def)
    ultimately show ?thesis by (simp add: quiet_def)
  qed (use entered(2) k in \<open>simp_all add: release_writer_def fence_do_def\<close>)
  from quiet_run [OF on(1) inv3 this on(2)] show ?thesis by blast
qed

subsection \<open>No slot is leaked\<close>

text \<open>What a holder does to end: it asks for the fence, commands, or gives up. It takes no new slot.\<close>

fun finishing :: "writer_event \<Rightarrow> bool" where
  "finishing (Abandon _) = True"
| "finishing (OverrunAudited _ may) = (\<not> may)"
| "finishing (TickEnds _) = True"
| "finishing (Ask_fence _ _) = True"
| "finishing (Commanded _ _ _) = True"
| "finishing _ = False"

lemma command_ends:
  assumes "writer_inv w" and "wr_jobs w u = Some (Working k True)" "k \<noteq> TickWork"
  obtains w' where "writer_step w (Commanded u True True) = Some w'" "wr_jobs w' = (wr_jobs w)(u := None)"
proof -
  obtain c where "command_done w u k True True = release_writer (w\<lparr>wr_writes := u # wr_writes w, wr_mc := c\<rparr>) u"
    using command_done_eq [OF assms(1)] assms(2) by blast
  then show ?thesis using that assms by (simp add: release_writer_def fence_do_def)
qed

lemma least_job:
  assumes inv: "writer_inv w" and t: "wr_jobs w t \<noteq> None"
  obtains u where "wr_jobs w u \<noteq> None" "\<And>v. wr_jobs w v \<noteq> None \<Longrightarrow> tk_generation u \<le> tk_generation v"
proof -
  let ?J = "{v. wr_jobs w v \<noteq> None}"
  have "finite ?J" by (rule finite_subset [of _ "set (tickets_of (wr_fence w))"]) (use job_ticket [OF inv] in auto)
  then obtain u where u: "u \<in> ?J" "tk_generation u = Min (tk_generation ` ?J)"
    using t Min_in [of "tk_generation ` ?J"] by fastforce
  show ?thesis by (rule that [of u]) (use u \<open>finite ?J\<close> in auto)
qed

lemma some_job_ends:
  assumes inv: "writer_inv w" and t: "wr_jobs w t \<noteq> None"
  shows "\<exists>es w' u. writer_run w es = Some w' \<and> list_all finishing es \<and> wr_jobs w u \<noteq> None \<and> wr_jobs w' = (wr_jobs w)(u := None)"
    (is "\<exists>es w' u. ?ends es w' u")
proof -
  have one: ?thesis if "writer_step w e = Some w'" "finishing e" "wr_jobs w u \<noteq> None" "wr_jobs w' = (wr_jobs w)(u := None)" for e u w'
    by (rule exI [of _ "[e]"]) (use that in auto)
  have rel: "wr_jobs (release_writer w u) = (wr_jobs w)(u := None)" for u by (simp add: release_writer_def fence_do_def)
  have rest: "\<exists>k. wr_jobs w u = Some (Working k False) \<and> k \<noteq> TickWork"
    if "wr_jobs w u = Some h" "\<forall>b. h \<noteq> Working TickWork b" "\<forall>k. h = Working k True \<longrightarrow> k = TickWork"
      "h \<noteq> Queued" "h \<noteq> Audited" for u h
  proof (cases h)
    case (Working k b)
    with that show ?thesis by (cases b) auto
  qed (use that in auto)
  consider (tick) u b where "wr_jobs w u = Some (Working TickWork b)"
    | (inside) u k where "wr_jobs w u = Some (Working k True)" "k \<noteq> TickWork"
    | (queued) u where "wr_jobs w u = Some Queued" | (audited) u where "wr_jobs w u = Some Audited"
    | (waiting) "\<And>u. wr_jobs w u \<noteq> None \<Longrightarrow> \<exists>k. wr_jobs w u = Some (Working k False) \<and> k \<noteq> TickWork"
    using rest by (metis not_None_eq)
  then show ?thesis
  proof cases
    case tick
    then show ?thesis by (intro one [of "TickEnds u" _ u]) (auto simp: worker_done_eq [OF inv] rel)
  next
    case inside
    obtain w' where "writer_step w (Commanded u True True) = Some w'" "wr_jobs w' = (wr_jobs w)(u := None)"
      by (rule command_ends [OF inv inside])
    then show ?thesis using inside by (intro one [of "Commanded u True True" w' u]) auto
  next
    case queued
    then show ?thesis by (intro one [of "Abandon u" _ u]) (auto simp: rel)
  next
    case audited
    then show ?thesis by (intro one [of "OverrunAudited u False" _ u]) (auto simp: handle_overrun_def rel)
  next
    case waiting
    obtain u where u: "wr_jobs w u \<noteq> None" "\<And>v. wr_jobs w v \<noteq> None \<Longrightarrow> tk_generation u \<le> tk_generation v"
      by (rule least_job [OF inv t]) blast
    from waiting [OF u(1)] obtain k where k: "wr_jobs w u = Some (Working k False)" "k \<noteq> TickWork" by blast
    have out: "fe_active (wr_fence w) = None"
    proof (rule ccontr)
      assume "fe_active (wr_fence w) \<noteq> None"
      then obtain v where "inside_fence (wr_jobs w v)" using writer_invD(4) [OF inv] by blast
      with waiting [of v] show False by (cases "wr_jobs w v") auto
    qed
    show ?thesis
    proof (cases rule: worker_enters_cases [OF inv k(1), of False])
      case 1
      let ?v = "worker_enters w u k False"
      have vi: "writer_inv ?v" by (rule enters_inv [OF inv k(1)])
      have v: "wr_jobs ?v u = Some (Working k True)" "wr_jobs ?v = (wr_jobs w)(u := Some (Working k True))"
        by (simp_all add: 1(1))
      obtain w' where "writer_step ?v (Commanded u True True) = Some w'" "wr_jobs w' = (wr_jobs ?v)(u := None)"
        by (rule command_ends [OF vi v(1) k(2)])
      then have "?ends [Ask_fence u False, Commanded u True True] w' u" using k v(2) by simp
      then show ?thesis by blast
    next
      case 2
      then show ?thesis using k by (intro one [of "Ask_fence u False" _ u]) (auto simp: rel)
    next
      case 3
      have el: "u \<in> set (eligible (wr_fence w))"
        using job_ticket [OF inv u(1)] 3(3) by (simp add: eligible_def)
      have "tk_generation u \<le> tk_generation v" if "v \<in> set (eligible (wr_fence w))" for v
        using ticket_job [OF inv, of v] u(2) that by (simp add: eligible_def)
      with el have "is_next (wr_fence w) u"
        by (auto simp: is_next_def intro!: Min_eqI [symmetric])
      with 3(2) out show ?thesis by simp
    qed
  qed
qed

lemma writer_run_append: "writer_run w (es @ es') = (case writer_run w es of None \<Rightarrow> None | Some v \<Rightarrow> writer_run v es')"
  by (induction w es rule: writer_run.induct) (auto split: option.split)

lemma all_jobs_end:
  "writer_inv w \<Longrightarrow> \<exists>es w'. writer_run w es = Some w' \<and> list_all finishing es \<and> (\<forall>t. wr_jobs w' t = None)"
proof (induction "card {t. wr_jobs w t \<noteq> None}" arbitrary: w rule: less_induct)
  case less
  have fin: "finite {t. wr_jobs w t \<noteq> None}"
    by (rule finite_subset [of _ "set (tickets_of (wr_fence w))"]) (use job_ticket [OF less(2)] in auto)
  show ?case
  proof (cases "\<forall>t. wr_jobs w t = None")
    case True
    then show ?thesis by (intro exI [of _ "[]"]) simp
  next
    case False
    then obtain es v u where v: "writer_run w es = Some v" "list_all finishing es" "wr_jobs w u \<noteq> None"
      "wr_jobs v = (wr_jobs w)(u := None)" using some_job_ends [OF less(2)] by blast
    have "{t. wr_jobs v t \<noteq> None} \<subset> {t. wr_jobs w t \<noteq> None}" using v(3,4) by auto
    from less(1) [OF psubset_card_mono [OF fin this] writer_inv_run [OF v(1) less(2)]]
    obtain es' w' where "writer_run v es' = Some w'" "list_all finishing es'" "\<forall>t. wr_jobs w' t = None" by blast
    with v(1,2) show ?thesis by (intro exI [of _ "es @ es'"]) (auto simp: writer_run_append)
  qed
qed

text \<open>
  C17. No slot is leaked. In any interleaving, timeouts, cancellations, failed starts and refused entries
  included, the registry of the fence is empty exactly when no coroutine and no thread holds a slot; and from
  every state the holders can all end, by themselves and without a new slot, whatever order the fence makes
  them wait in. So the restart gate is never stuck at \<open>outstanding_write\<close> once the writers are done, and the
  next cycle is admitted.
\<close>

theorem no_slot_is_leaked:
  assumes run: "writer_run (writer_init dry mc) es = Some w"
  shows "(fence_empty (wr_fence w) \<longleftrightarrow> (\<forall>t. wr_jobs w t = None)) \<and>
         (\<exists>es' w'. list_all finishing es' \<and> writer_run w es' = Some w' \<and> fence_empty (wr_fence w') \<and>
            snd (idle_for_restart w') \<noteq> ''outstanding_write'' \<and>
            (fe_draining (wr_fence w') \<or> snd (admit_routine (wr_fence w') False) \<noteq> None))"
proof -
  have inv: "writer_inv w" by (rule writer_inv_run [OF run writer_inv_init])
  from all_jobs_end [OF inv] obtain es' w' where w': "writer_run w es' = Some w'" "list_all finishing es'" "\<forall>t. wr_jobs w' t = None"
    by blast
  have "fence_empty (wr_fence w')" using registry_empty [OF writer_inv_run [OF w'(1) inv]] w'(3) by simp
  moreover from this have "snd (idle_for_restart w') \<noteq> ''outstanding_write''"
    and "fe_draining (wr_fence w') \<or> snd (admit_routine (wr_fence w') False) \<noteq> None"
    by (auto simp: idle_for_restart_def admit_routine_def fence_empty_def Let_def split_beta split: option.split)
  ultimately show ?thesis using registry_empty [OF inv] w'(1,2) by blast
qed

subsection \<open>A cycle, a restart, a shutdown\<close>

definition demo_slot :: "int \<Rightarrow> command_class \<Rightarrow> command_ticket" where
  "demo_slot g c = \<lparr>tk_token = g, tk_generation = g, tk_class = c\<rparr>"

text \<open>A cycle times out inside the fence; the recovery waits behind it and then returns to AUTO.\<close>

definition demo_overrun :: "writer_event list" where
  "demo_overrun =
     [AdmitCycle, Spawn (demo_slot 1 ROUTINE), Ask_fence (demo_slot 1 ROUTINE) False, TimedOut (demo_slot 1 ROUTINE),
      OverrunAudited (demo_slot 2 RECOVERY) True, Ask_fence (demo_slot 2 RECOVERY) False,
      TickEnds (demo_slot 1 ROUTINE), Ask_fence (demo_slot 2 RECOVERY) False, Commanded (demo_slot 2 RECOVERY) True True]"

lemmas writer_eval =
  demo_overrun_def demo_slot_def writer_init_def fence_do_def admit_cycle_def take_slot_def spawn_tick_def worker_enters_def
  cycle_timed_out_def handle_overrun_def worker_done_def release_writer_def command_done_def admit_routine_def
  begin_recovery_def release_def leave_def request_restart_def idle_for_restart_def drain_writers_def
  mark_draining_def fence_empty_def restore_for_shutdown_def AList.delete_eq

definition demo_shutdown :: "writer_event list" where
  "demo_shutdown = [Submit, AdmitCycle, Restore, Ask_fence (demo_slot 3 SHUTDOWN) False, Commanded (demo_slot 3 SHUTDOWN) True True]"

lemma demo_overrun_run:
  obtains w where "writer_run (writer_init False (Some demo_controller)) demo_overrun = Some w"
    "fst (idle_for_restart w)" "wr_writes w = [demo_slot 2 RECOVERY]"
    "map_option wr_writes (writer_run (request_restart w) demo_shutdown) = Some [demo_slot 3 SHUTDOWN, demo_slot 2 RECOVERY]"
proof -
  have "\<exists>w. writer_run (writer_init False (Some demo_controller)) demo_overrun = Some w \<and>
    fst (idle_for_restart w) \<and> wr_writes w = [demo_slot 2 RECOVERY] \<and>
    map_option wr_writes (writer_run (request_restart w) demo_shutdown) = Some [demo_slot 3 SHUTDOWN, demo_slot 2 RECOVERY]"
    by (simp add: writer_eval fence_eval demo_controller_def note_confirmed_auto_def persist_def demo_shutdown_def
        reserve_override_cycle_def)
  then show ?thesis using that by blast
qed

theorem restart_gate_is_final_witness:
  "\<exists>w w'. writer_run (writer_init False (Some demo_controller)) demo_overrun = Some w \<and> fst (idle_for_restart w) \<and>
     writer_run (request_restart w) demo_shutdown = Some w' \<and> length (wr_writes w') = 2 \<and>
     (\<exists>new. wr_writes w' = new @ wr_writes w \<and> list_all (\<lambda>t. tk_class t = SHUTDOWN) new)"
proof (rule demo_overrun_run)
  fix w
  assume w: "writer_run (writer_init False (Some demo_controller)) demo_overrun = Some w" "fst (idle_for_restart w)"
    and on: "map_option wr_writes (writer_run (request_restart w) demo_shutdown) = Some [demo_slot 3 SHUTDOWN, demo_slot 2 RECOVERY]"
  then obtain w' where w': "writer_run (request_restart w) demo_shutdown = Some w'" "length (wr_writes w') = 2" by auto
  have "Undrain \<notin> set demo_shutdown" by (simp add: demo_shutdown_def)
  from restart_gate_is_final [OF w w'(1) this] w w' show ?thesis by (auto simp: list_all_iff)
qed

text \<open>A cycle is inside the fence when the system goes down; the restoration waits for it.\<close>

definition demo_going_down :: "writer_event list" where
  "demo_going_down = [AdmitCycle, Spawn (demo_slot 1 ROUTINE), Ask_fence (demo_slot 1 ROUTINE) False, Drain]"

lemma demo_going_down_run:
  obtains w w1 w2 w3 w4 where "writer_run (writer_init False (Some demo_controller)) demo_going_down = Some w"
    "fe_draining (wr_fence w)" "writer_step w Restore = Some w1" "wr_jobs w (demo_slot 2 SHUTDOWN) = None"
    "wr_jobs w1 (demo_slot 2 SHUTDOWN) \<noteq> None"
    "writer_run w1 [Ask_fence (demo_slot 2 SHUTDOWN) False, TickEnds (demo_slot 1 ROUTINE)] = Some w2"
    "writer_step w2 (Ask_fence (demo_slot 2 SHUTDOWN) False) = Some w3"
    "wr_jobs w3 (demo_slot 2 SHUTDOWN) = Some (Working RestoreWork True)"
    "writer_run w3 [Submit, Commanded (demo_slot 2 SHUTDOWN) True True, AdmitCycle] = Some w4"
    "wr_writes w4 = [demo_slot 2 SHUTDOWN]"
proof -
  have "\<exists>w. writer_run (writer_init False (Some demo_controller)) demo_going_down = Some w \<and> fe_draining (wr_fence w) \<and>
    wr_jobs w (demo_slot 2 SHUTDOWN) = None \<and>
    (\<exists>w1. writer_step w Restore = Some w1 \<and> wr_jobs w1 (demo_slot 2 SHUTDOWN) \<noteq> None \<and>
    (\<exists>w2. writer_run w1 [Ask_fence (demo_slot 2 SHUTDOWN) False, TickEnds (demo_slot 1 ROUTINE)] = Some w2 \<and>
    (\<exists>w3. writer_step w2 (Ask_fence (demo_slot 2 SHUTDOWN) False) = Some w3 \<and>
      wr_jobs w3 (demo_slot 2 SHUTDOWN) = Some (Working RestoreWork True) \<and>
      map_option wr_writes (writer_run w3 [Submit, Commanded (demo_slot 2 SHUTDOWN) True True, AdmitCycle]) =
        Some [demo_slot 2 SHUTDOWN])))"
    by (simp add: writer_eval fence_eval demo_going_down_def reserve_override_cycle_def demo_controller_def
        note_confirmed_auto_def persist_def)
  then show ?thesis using that by auto
qed

theorem shutdown_restoration_is_last_witness:
  "\<exists>w3 w4. wr_jobs w3 (demo_slot 2 SHUTDOWN) = Some (Working RestoreWork True) \<and> wr_writes w4 = [demo_slot 2 SHUTDOWN] \<and>
     writer_run w3 [Submit, Commanded (demo_slot 2 SHUTDOWN) True True, AdmitCycle] = Some w4 \<and>
     (\<exists>new. wr_writes w4 = new @ wr_writes w3 \<and> list_all (\<lambda>u. tk_class u = SHUTDOWN) new)"
proof (rule demo_going_down_run)
  fix w w1 w2 w3 w4
  assume run: "writer_run (writer_init False (Some demo_controller)) demo_going_down = Some w" "fe_draining (wr_fence w)"
      "writer_step w Restore = Some w1" "wr_jobs w (demo_slot 2 SHUTDOWN) = None" "wr_jobs w1 (demo_slot 2 SHUTDOWN) \<noteq> None"
    and mid: "writer_run w1 [Ask_fence (demo_slot 2 SHUTDOWN) False, TickEnds (demo_slot 1 ROUTINE)] = Some w2"
    and enter: "writer_step w2 (Ask_fence (demo_slot 2 SHUTDOWN) False) = Some w3"
      "wr_jobs w3 (demo_slot 2 SHUTDOWN) = Some (Working RestoreWork True)"
    and on: "writer_run w3 [Submit, Commanded (demo_slot 2 SHUTDOWN) True True, AdmitCycle] = Some w4"
      "wr_writes w4 = [demo_slot 2 SHUTDOWN]"
  have "\<exists>new. wr_writes w4 = new @ wr_writes w3 \<and> (\<forall>u\<in>set new. tk_class u = SHUTDOWN)"
    by (rule shutdown_restoration_is_last [OF run mid _ enter on(1)]) simp_all
  with enter(2) on show ?thesis by (auto simp: list_all_iff)
qed

theorem no_slot_is_leaked_witness:
  "\<exists>w es' w'. writer_run (writer_init False (Some demo_controller)) demo_going_down = Some w \<and> \<not> fence_empty (wr_fence w) \<and>
     writer_run w es' = Some w' \<and> fence_empty (wr_fence w')"
proof -
  obtain w where w: "writer_run (writer_init False (Some demo_controller)) demo_going_down = Some w" "\<not> fence_empty (wr_fence w)"
    by (simp add: writer_eval fence_eval demo_going_down_def demo_controller_def)
  from no_slot_is_leaked [OF w(1)] w show ?thesis by blast
qed

end
