(* ===== verification/Spec2Isabelle.thy ===== *)
theory Spec2Isabelle
  imports CarSessionRuns ModeControllerState PipelineSafety WriterTasks
begin

text \<open>
  \<^bold>\<open>A verification library for the energy management system (\<open>src/ems\<close>).\<close>

  The program is a home battery controller. It reads meters and the battery, prices and a solar forecast,
  builds a plan of quarter-hour slots, validates it, chooses one intent for this instant, and gives at most
  one command per cycle to a cluster of battery towers. What can go wrong is physical: a battery that is
  switched too often, bought full at a loss, emptied below its reserve, sold from storage that is not there,
  commanded while another writer is at work or by a controller that has no right to. The library models the
  path from the readings to the registers of the battery and proves what protects it.

  \<^bold>\<open>How the parts work together.\<close> \<open>ControlService.run_cycle\<close> calls \<open>control_tick\<close>: data quality
  (\<open>Freshness\<close>, \<open>LiveReads\<close>, \<open>ClusterReader\<close>) and the ownership lifecycle (\<open>Ownership\<close>) are evaluated, the
  plan of this window is taken from the memo or built (\<open>PlanPipeline\<close>, which calls \<open>PriceQuality\<close>,
  \<open>SeasonHysteresis\<close>, \<open>PlannerPort\<close>, \<open>BuildPlan\<close> and \<open>Recovery\<close>), the decision engine validates what is
  risky and applies the car guard (\<open>DecisionEngine\<close>, \<open>PlanValidator\<close>), a stored charge commitment may take
  over (\<open>ChargeCommitment\<close>), and the mode controller gates the one command (\<open>ModeController\<close>) that reaches
  the driver (\<open>BatteryDriver\<close>, \<open>IndevoltDriver\<close>) inside the command fence (\<open>CommandFence\<close>).

  \<^bold>\<open>Shared ground.\<close>
  \<^item> \<open>EnergyPrelude\<close>: instants, zones, Python rounding, exceptions as \<open>py_error + 'a\<close>, helper lemmas.
  \<^item> \<open>EnergyDomain\<close>: \<open>domain.py\<close>, \<open>planner/schedule.py\<close>: intents, modes, capability report, plan and slots,
    and the texts as lists of pieces. \<open>JsonValue\<close>: what the stored rows hold.

  \<^bold>\<open>Planning.\<close>
  \<^item> \<open>Horizon\<close> (\<open>planner/horizon.py\<close>), \<open>PriceQuality\<close> (\<open>price_quality.py\<close>), \<open>Economics\<close> (\<open>tariffs.py\<close>,
    \<open>economics.py\<close>, \<open>savings.py\<close>, \<open>planner/economics.py\<close>), \<open>Projection\<close> and \<open>ReservePasses\<close>
    (\<open>planner/projection.py\<close>), \<open>ChargeNeed\<close> (\<open>planner/charge_need.py\<close>).
  \<^item> \<open>GridBudget\<close> and \<open>CycleBudget\<close> (\<open>planner/budgets.py\<close>): the two daily
    budgets, with the history counters that feed them.
  \<^item> The planners: \<open>LatePack\<close>, \<open>WinterPlanner\<close>, \<open>WinterSafety\<close> (\<open>planner/rule_based.py\<close>), \<open>SummerPlanner\<close>,
    \<open>AdaptivePlanner\<close>, \<open>TradingPlanner\<close>, and the overlays \<open>PlanOverlay\<close>, \<open>MustCharge\<close>
    (\<open>planner/must_charge.py\<close>). \<open>SeasonHysteresis\<close> (\<open>planner/strategy.py\<close>) picks one of them.
  \<^item> \<open>BuildPlan\<close>, \<open>PlanShape\<close>: the composition of planner, trading, clamps and overlays in \<open>build_plan\<close>.
    \<open>StaleMeter\<close>, \<open>PlannerPort\<close>: the adapter behind the planner port and its caution with stale meters.
    \<open>Recovery\<close> (\<open>planner/recovery.py\<close>): missed windows and honest partial targets.
  \<^item> \<open>EvLoad\<close> (\<open>ev_schedule.py\<close>, \<open>planner/ev_load.py\<close>), \<open>AcceptedWindows\<close> (\<open>consumers/start_advice.py\<close>):
    the loads the planner adds. \<open>PlanPipeline\<close>, \<open>PipelineSafety\<close>: the plan path of \<open>control/service.py\<close>,
    from the settings to the plan the loop acts on, and its memo.
  \<^item> \<open>PlanValidator\<close>, \<open>PlanSafety\<close> (\<open>planner/validator.py\<close>): every check on a plan.

  \<^bold>\<open>Control.\<close>
  \<^item> \<open>Ownership\<close> (\<open>lifecycle.py\<close>), \<open>Overrides\<close>, \<open>ControlGuards\<close> (SoC floors, fail-safe, anti-flap latch,
    battery while the car charges), \<open>DecisionEngine\<close> (\<open>control/decision.py\<close>), \<open>ChargeCommitment\<close>.
  \<^item> \<open>ModeController\<close>, \<open>ModeControllerSafety\<close>, \<open>ModeControllerRuns\<close>, \<open>ModeControllerState\<close>
    (\<open>control/mode_controller.py\<close>): the gates of one write, runs of writes, the persisted state.
  \<^item> \<open>CommandFence\<close>: one battery operation at a time, in the order of the tickets.
  \<^item> \<open>CarSession\<close>, \<open>CycleCounters\<close>, \<open>ControlState\<close>, \<open>ControlTick\<close>, \<open>ControlTickSafety\<close>, \<open>CarSessionRuns\<close>
    (\<open>control/service.py\<close>, \<open>control/loop_counters.py\<close>): one whole tick, and the
    commands of a charging session over many. \<open>WriterTasks\<close> (the same file): the
    cycles, overrides, recoveries and the restoration around it, who holds a slot of the fence and until when,
    the drain and the restart gate.
  \<^item> \<open>Freshness\<close>, \<open>LiveReads\<close> (\<open>sources/live.py\<close>), \<open>ClusterReader\<close> (\<open>sources/indevolt.py\<close>),
    \<open>BatteryDriver\<close> (\<open>sources/battery.py\<close>), \<open>IndevoltDriver\<close> (\<open>sources/indevolt_driver.py\<close>): the edge.
\<close>

text \<open>
  \<^bold>\<open>What the lemmas show.\<close>
  \<^item> Right to write: every command of a tick has a reason the operator can be told, is within the charge a plan
    or a commitment promised, and was given while the system owned the battery, ready and inside its daily
    budget and dwell times; a return to AUTO waits for no budget and no dwell time, only for a reading
    that says the battery is elsewhere; the preview of the user interface says what the controller will do. The
    emergency return of the lifecycle keeps the hands off until a tick completes the readiness sequence anew.
  \<^item> Plans: each planner buys only what pays and only what is needed; the composition keeps the daily purchase
    cap and the cycle budget whatever an overlay adds; this is carried through the port, the recovery, the marks
    and the memo to the plan the loop acts on. Overlays are interpretations of the locales \<open>plan_overlay\<close>,
    \<open>restrict_only\<close> and \<open>hold_only\<close>: a pass proves its slot-wise law once and inherits the frame facts.
  \<^item> Physics: the projected state of charge stays between empty and full and changes by what the model of the
    battery allows; the reserve passes keep the evening's energy; a stale meter keeps its buffer.
  \<^item> State machines: ownership, hysteresis, latches, sessions, fence, writers and quiesce are step functions; their
    invariants hold over every run of steps from the initial state. The fence makes progress, no slot of it is
    leaked, and neither a restart nor the restoration at shutdown is overtaken by another command.
  \<^item> Round trips and errors: stored state reads back as it was written and a reader never raises on what it calls
    corrupt; \<open>build_plan\<close> raises in two situations only.

  \<^bold>\<open>Abstractions.\<close>
  \<^item> A float is an exact real: rounding errors, infinities and NaN are outside the model (where a feed may hold a
    price that is not finite, that value is \<open>None\<close>). The tolerances of the code are kept.
  \<^item> An aware time is a count of microseconds; adding a duration to it is addition of instants, which is what
    Python does for UTC times. Zones and wall-clock maps are parameters (tzdata is not in the repository).
  \<^item> A text is a list of pieces with the numbers in it, in ASCII. Stored JSON is its parsed value.
  \<^item> SHA-256, the configuration hash, the HTTP transport and every device answer are parameters: any function,
    so the theorems hold for all of them. The order of a Python set is a parameter or irrelevant by proof.
  \<^item> Locks are left out where each operation is one atomic step; the fence is the exception, where the waiting
    itself is modelled. A tick reads its surroundings once, as the coalesced caches make it do.
  \<^item> Every loop is structural recursion or has a termination proof with its measure. Fuel only counts: \<open>expected_turns\<close> is the
    horizon loop with its turns counted, and 401 of them are enough for any input.

  \<^bold>\<open>Not modelled, and why.\<close> The web interface, storage, settings tables, adapters of remote services, reports,
  explanations and the learning of the load profile: they produce inputs of the modelled core (which takes them
  as arguments) or show its results. Of \<open>control/service.py\<close> the audit rows and alerts of an
  overrun and the forward projection of the user interface are left out.
\<close>

end
